(* ===== verification/Gateway_Prelude.thy ===== *)
theory Gateway_Prelude
  imports Main "HOL-Library.Word" "HOL-Library.AList" "HOL-Library.List_Lexorder"
begin

text \<open>
  Shared vocabulary of the development: the machine types of the Go sources, the error
  monad of functions that return a value or an error, Go maps as association lists, the
  big-endian byte strings of the database keys, and the small part of Go's package
  \<^verbatim>\<open>time\<close> the gateway computes with.  Every component theory imports this one.
\<close>

section \<open>Types\<close>

text \<open>
  \<^verbatim>\<open>uint64\<close> is a 64-bit word, so that additions and subtractions of the model wrap
  exactly as the compiled code does.  Hashes and Flow identifiers are the 32-byte
  arrays, EVM addresses the 20-byte arrays of the sources.
\<close>

type_synonym u64 = "64 word"
type_synonym byte = "8 word"
type_synonym bytes = "8 word list"
type_synonym hash = "256 word"
type_synonym flow_id = "256 word"
type_synonym address = "160 word"
type_synonym flow_address = "64 word"

text \<open>The fields of a Flow block header the gateway reads (\<^verbatim>\<open>flow.BlockHeader\<close>).\<close>

record BlockHeader =
  bhID :: flow_id
  bhParentID :: flow_id
  bhHeight :: u64
  bhTimestamp :: int

text \<open>Collections of rewrite rules the component proofs share.\<close>

named_theorems gw_result \<open>case analysis of fallible computations\<close>
named_theorems gw_map \<open>lookups after updates of Go maps\<close>
named_theorems gw_bytes \<open>encodings of integers as byte strings\<close>

text \<open>The successor of a height below the largest one.\<close>

lemma u64_succ_le: "(a :: u64) \<noteq> - 1 \<Longrightarrow> a + 1 \<le> b \<longleftrightarrow> a < b"
proof -
  assume "a \<noteq> - 1"
  then have "a + 1 \<noteq> 0" by (simp add: add_eq_0_iff2)
  then have "unat (a + 1) = unat a + 1" using unatSuc [of a] by (simp add: add.commute)
  then show ?thesis by (auto simp: word_le_nat_alt word_less_nat_alt)
qed

section \<open>Fallible computations\<close>

text \<open>
  A Go function returning \<^verbatim>\<open>(T, error)\<close> is a sum: \<open>Inl\<close> is a non-nil error.
  \<open>rbind\<close> is the idiom \<^verbatim>\<open>if err != nil { return ..., err }\<close>.
\<close>

fun rbind :: "'e + 'a \<Rightarrow> ('a \<Rightarrow> 'e + 'b) \<Rightarrow> 'e + 'b" where
  "rbind (Inl e) f = Inl e"
| "rbind (Inr x) f = f x"

text \<open>\<open>rwrap\<close> is the idiom \<^verbatim>\<open>return fmt.Errorf("...: %w", err)\<close> on the error branch.\<close>

fun rwrap :: "('e \<Rightarrow> 'f) \<Rightarrow> 'e + 'a \<Rightarrow> 'f + 'a" where
  "rwrap w (Inl e) = Inl (w e)"
| "rwrap w (Inr x) = Inr x"

lemma rbind_Inr_iff [gw_result]:
  "rbind m f = Inr y \<longleftrightarrow> (\<exists>x. m = Inr x \<and> f x = Inr y)"
  by (cases m) auto

lemma rbind_Inl_iff [gw_result]:
  "rbind m f = Inl e \<longleftrightarrow> m = Inl e \<or> (\<exists>x. m = Inr x \<and> f x = Inl e)"
  by (cases m) auto

lemma rwrap_Inr_iff [gw_result]: "rwrap w m = Inr y \<longleftrightarrow> m = Inr y"
  by (cases m) auto

lemma rwrap_Inl_iff [gw_result]: "rwrap w m = Inl f \<longleftrightarrow> (\<exists>e. m = Inl e \<and> f = w e)"
  by (cases m) auto

lemma rbind_assoc: "rbind (rbind m f) g = rbind m (\<lambda>x. rbind (f x) g)"
  by (cases m) auto

text \<open>A loop \<^verbatim>\<open>for _, x := range xs\<close> whose body may return early with an error.\<close>

fun rfold :: "('a \<Rightarrow> 's \<Rightarrow> 'e + 's) \<Rightarrow> 'a list \<Rightarrow> 's \<Rightarrow> 'e + 's" where
  "rfold f [] s = Inr s"
| "rfold f (x # xs) s = rbind (f x s) (rfold f xs)"

lemma rfold_append: "rfold f (xs @ ys) s = rbind (rfold f xs s) (rfold f ys)"
proof (induction xs arbitrary: s)
  case Nil
  then show ?case by simp
next
  case (Cons x xs)
  then show ?case by (cases "f x s") auto
qed

lemma rfold_invariant:
  assumes "rfold f xs s = Inr t" and "I s"
    and "\<And>x u v. x \<in> set xs \<Longrightarrow> I u \<Longrightarrow> f x u = Inr v \<Longrightarrow> I v"
  shows "I t"
  using assms
proof (induction xs arbitrary: s)
  case Nil
  then show ?case by simp
next
  case (Cons x xs)
  then obtain u where u: "f x s = Inr u" "rfold f xs u = Inr t"
    by (auto simp: gw_result)
  then show ?case
    using Cons.IH [OF u(2)] Cons.prems(2) Cons.prems(3) [of x s u] Cons.prems(3) by auto
qed

text \<open>A fallible map over a slice: \<^verbatim>\<open>for i, x := range xs { ys[i], err = f(x) ... }\<close>.\<close>

fun rmap :: "('a \<Rightarrow> 'e + 'b) \<Rightarrow> 'a list \<Rightarrow> 'e + 'b list" where
  "rmap f [] = Inr []"
| "rmap f (x # xs) = rbind (f x) (\<lambda>y. rbind (rmap f xs) (\<lambda>ys. Inr (y # ys)))"

lemma rmap_total: "(\<And>x. x \<in> set xs \<Longrightarrow> f x = Inr (g x)) \<Longrightarrow> rmap f xs = Inr (map g xs)"
  by (induction xs) auto

lemma rmap_Inr_length: "rmap f xs = Inr ys \<Longrightarrow> length ys = length xs"
  by (induction xs arbitrary: ys) (auto simp: gw_result)

section \<open>Panics and blocking\<close>

text \<open>
  An operation that may panic, or wait on a channel forever: \<open>Blocks\<close> is a send on a full
  channel with no receiver, the outcome the callers must never see.
\<close>

datatype 'a exec = Ret 'a | Panics string | Blocks

fun ebind :: "'a exec \<Rightarrow> ('a \<Rightarrow> 'b exec) \<Rightarrow> 'b exec" where
  "ebind (Ret x) f = f x"
| "ebind (Panics m) f = Panics m"
| "ebind Blocks f = Blocks"

fun efold :: "('a \<Rightarrow> 's \<Rightarrow> 's exec) \<Rightarrow> 'a list \<Rightarrow> 's \<Rightarrow> 's exec" where
  "efold f [] s = Ret s"
| "efold f (x # xs) s = ebind (f x s) (efold f xs)"

lemma ebind_Ret_iff [gw_result]: "ebind m f = Ret y \<longleftrightarrow> (\<exists>x. m = Ret x \<and> f x = Ret y)"
  by (cases m) auto

section \<open>Go maps\<close>

text \<open>
  A Go map is an association list with pairwise distinct keys; \<^verbatim>\<open>len(m)\<close> is its
  length, \<^verbatim>\<open>m[k] = v\<close> is \<open>AList.update\<close>, \<^verbatim>\<open>delete(m, k)\<close> is \<open>AList.delete\<close> and
  \<^verbatim>\<open>v, ok := m[k]\<close> is \<open>map_of\<close>.  The order of the list is an order in which a
  \<^verbatim>\<open>range\<close> loop may visit the entries: the language leaves that order open, and a
  theorem about every such list is a theorem about every order.
\<close>

type_synonym ('k, 'v) gomap = "('k \<times> 'v) list"

definition wf_map :: "('k, 'v) gomap \<Rightarrow> bool" where
  "wf_map m \<longleftrightarrow> distinct (map fst m)"

lemma wf_map_Nil [simp]: "wf_map []"
  by (simp add: wf_map_def)

lemma wf_map_update [simp]: "wf_map m \<Longrightarrow> wf_map (AList.update k v m)"
  by (simp add: wf_map_def distinct_update)

lemma wf_map_delete [simp]: "wf_map m \<Longrightarrow> wf_map (AList.delete k m)"
  by (simp add: wf_map_def distinct_delete)

lemma wf_map_filter [simp]: "wf_map m \<Longrightarrow> wf_map (filter P m)"
  by (induction m) (auto simp: wf_map_def)

lemma lookup_update [gw_map, simp]:
  "map_of (AList.update k v m) k' = (if k' = k then Some v else map_of m k')"
  by (simp add: update_conv')

lemma lookup_delete [gw_map, simp]:
  "map_of (AList.delete k m) k' = (if k' = k then None else map_of m k')"
  by (simp add: delete_conv')

lemma set_update_sub: "set (AList.update k v m) \<subseteq> insert (k, v) (set m)"
  by (induction m) auto

lemma set_delete_sub: "set (AList.delete k m) \<subseteq> set m"
  by (induction m) auto

lemma lookup_in_set: "map_of m k = Some v \<Longrightarrow> (k, v) \<in> set m"
  by (rule map_of_SomeD)

lemma in_set_lookup: "wf_map m \<Longrightarrow> (k, v) \<in> set m \<Longrightarrow> map_of m k = Some v"
  by (simp add: wf_map_def)

lemma in_set_iff_lookup: "wf_map m \<Longrightarrow> (k, v) \<in> set m \<longleftrightarrow> map_of m k = Some v"
  by (auto dest: lookup_in_set in_set_lookup)

lemma lookup_filter [gw_map]:
  "wf_map m \<Longrightarrow> map_of (filter P m) k =
     (case map_of m k of None \<Rightarrow> None | Some v \<Rightarrow> if P (k, v) then Some v else None)"
proof (induction m)
  case Nil
  then show ?case by simp
next
  case (Cons a m)
  then have "wf_map m" and "fst a \<notin> fst ` set m"
    by (auto simp: wf_map_def)
  moreover have "map_of m (fst a) = None"
    using \<open>fst a \<notin> fst ` set m\<close> by (simp add: map_of_eq_None_iff)
  ultimately show ?case
    using Cons.IH by (cases a) (auto split: option.splits)
qed

lemma length_update:
  "length (AList.update k v m) = (case map_of m k of None \<Rightarrow> Suc (length m) | Some _ \<Rightarrow> length m)"
  by (induction m) (auto split: option.splits)

lemma length_delete_le [simp]: "length (AList.delete k m) \<le> length m"
  by (induction m) auto

lemma length_delete:
  "wf_map m \<Longrightarrow> map_of m k = Some v \<Longrightarrow> Suc (length (AList.delete k m)) = length m"
proof (induction m)
  case Nil
  then show ?case by simp
next
  case (Cons a m)
  show ?case
  proof (cases "fst a = k")
    case True
    with Cons.prems have "map_of m k = None"
      by (auto simp: wf_map_def map_of_eq_None_iff)
    then have "AList.delete k m = m"
      by (simp add: map_of_eq_None_iff)
    with True show ?thesis by (cases a) simp
  next
    case False
    with Cons show ?thesis by (cases a) (auto simp: wf_map_def)
  qed
qed

section \<open>Big-endian byte strings\<close>

text \<open>
  \<open>be n x\<close> is the \<open>n\<close>-byte big-endian encoding of \<open>x\<close> (\<^verbatim>\<open>binary.BigEndian\<close> of the
  standard library, and the memory layout of the array types); \<open>unbe\<close> reads it back.
\<close>

fun be :: "nat \<Rightarrow> nat \<Rightarrow> bytes" where
  "be 0 x = []"
| "be (Suc n) x = of_nat (x div 256 ^ n) # be n x"

fun unbe :: "bytes \<Rightarrow> nat" where
  "unbe [] = 0"
| "unbe (b # bs) = unat b * 256 ^ length bs + unbe bs"

lemma length_be [simp, gw_bytes]: "length (be n x) = n"
  by (induction n) auto

lemma unat_byte_lt: "unat (b :: byte) < 256"
  using unsigned_less [of b] by simp

lemma unbe_lt: "unbe bs < 256 ^ length bs"
proof (induction bs)
  case Nil
  then show ?case by simp
next
  case (Cons b bs)
  have "unat b * 256 ^ length bs + unbe bs < (unat b + 1) * 256 ^ length bs"
    using Cons by simp
  also have "\<dots> \<le> 256 * 256 ^ length bs"
    using unat_byte_lt [of b] by (intro mult_right_mono) auto
  finally show ?case by simp
qed

lemma unbe_be_mod: "unbe (be n x) = x mod 256 ^ n"
proof (induction n)
  case 0
  then show ?case by simp
next
  case (Suc n)
  have "x mod 256 ^ Suc n = 256 ^ n * (x div 256 ^ n mod 256) + x mod 256 ^ n"
    using mod_mult2_eq [of x "256 ^ n" 256] by (simp add: mult.commute)
  with Suc show ?case by (simp add: unat_of_nat)
qed

lemma unbe_be [simp, gw_bytes]: "x < 256 ^ n \<Longrightarrow> unbe (be n x) = x"
  by (simp add: unbe_be_mod)

lemma unbe_inject: "length as = length bs \<Longrightarrow> unbe as = unbe bs \<Longrightarrow> as = bs"
proof (induction as bs rule: list_induct2)
  case Nil
  then show ?case by simp
next
  case (Cons a as b bs)
  let ?n = "256 ^ length as :: nat"
  have lt: "unbe as < ?n" "unbe bs < ?n"
    using unbe_lt [of as] unbe_lt [of bs] Cons.hyps by auto
  have eq: "unat a * ?n + unbe as = unat b * ?n + unbe bs"
    using Cons.prems Cons.hyps by simp
  then have "(unat a * ?n + unbe as) div ?n = (unat b * ?n + unbe bs) div ?n"
    by simp
  then have "unat a = unat b"
    using lt by simp
  with eq Cons.IH show ?case by (simp add: word_unat_eq_iff)
qed

lemma be_unbe [simp, gw_bytes]: "length bs = n \<Longrightarrow> be n (unbe bs) = bs"
  by (rule unbe_inject) (use unbe_lt [of bs] in auto)

lemma be_inject [gw_bytes]: "x < 256 ^ n \<Longrightarrow> y < 256 ^ n \<Longrightarrow> be n x = be n y \<longleftrightarrow> x = y"
  by (metis unbe_be)

text \<open>Byte strings of one length are ordered lexicographically as the numbers they encode.\<close>

lemma less_bytes_iff: "length as = length bs \<Longrightarrow> as < bs \<longleftrightarrow> unbe as < unbe bs"
proof (induction as bs rule: list_induct2)
  case Nil
  then show ?case by simp
next
  case (Cons a as b bs)
  let ?n = "256 ^ length as :: nat"
  have lt: "unbe as < ?n" "unbe bs < ?n"
    using unbe_lt [of as] unbe_lt [of bs] Cons.hyps by auto
  have step: "unat x * ?n + u < unat y * ?n + v" if "x < y" "u < ?n" for x y :: byte and u v
  proof -
    from that(1) have "unat x + 1 \<le> unat y"
      by (simp add: word_less_nat_alt)
    then have "(unat x + 1) * ?n \<le> unat y * ?n"
      by (rule mult_le_mono1)
    with that(2) show ?thesis by simp
  qed
  show ?case
  proof (cases a b rule: linorder_cases)
    case less
    with step [of a b "unbe as" "unbe bs"] lt Cons.hyps show ?thesis by simp
  next
    case equal
    with Cons show ?thesis by simp
  next
    case greater
    with step [of b a "unbe bs" "unbe as"] lt Cons.hyps show ?thesis by auto
  qed
qed

lemma le_bytes_iff: "length as = length bs \<Longrightarrow> as \<le> bs \<longleftrightarrow> unbe as \<le> unbe bs"
  using less_bytes_iff [of bs as] by (auto simp: not_less [symmetric])

lemma append_less_append_iff: "(ps @ as < ps @ bs) \<longleftrightarrow> as < (bs :: bytes)"
  by (induction ps) auto

lemma append_le_append_iff: "(ps @ as \<le> ps @ bs) \<longleftrightarrow> as \<le> (bs :: bytes)"
  by (simp add: not_less [symmetric] append_less_append_iff)

section \<open>Times and durations\<close>

text \<open>
  A \<^verbatim>\<open>time.Time\<close> is its distance in nanoseconds from the zero time, so that
  \<^verbatim>\<open>IsZero\<close> is equality with \<open>0\<close>.  A \<^verbatim>\<open>time.Duration\<close> is a signed 64-bit count of
  nanoseconds: \<^verbatim>\<open>Sub\<close> saturates at its bounds, multiplication wraps.
\<close>

type_synonym time = int
type_synonym duration = int

definition minDuration :: duration where "minDuration = - (2 ^ 63)"
definition maxDuration :: duration where "maxDuration = 2 ^ 63 - 1"

definition IsZero :: "time \<Rightarrow> bool" where
  "IsZero t \<longleftrightarrow> t = 0"

definition Sub :: "time \<Rightarrow> time \<Rightarrow> duration" where
  "Sub t u = max minDuration (min maxDuration (t - u))"

definition dur_mult :: "duration \<Rightarrow> int \<Rightarrow> duration" where
  "dur_mult d k = signed_take_bit 63 (d * k)"

definition Millisecond :: duration where "Millisecond = 1000000"
definition Second :: duration where "Second = 1000 * Millisecond"
definition Minute :: duration where "Minute = 60 * Second"

lemma dur_mult_exact:
  "- (2 ^ 63) \<le> d * k \<Longrightarrow> d * k < 2 ^ 63 \<Longrightarrow> dur_mult d k = d * k"
  by (simp add: dur_mult_def signed_take_bit_int_eq_self)

section \<open>Ranges of heights\<close>

definition heights :: "u64 \<Rightarrow> u64 \<Rightarrow> u64 list" where
  "heights a b = map of_nat [unat a..<unat b]"

lemma u64_unat_succ: "(a :: u64) \<noteq> - 1 \<Longrightarrow> unat (a + 1) = unat a + 1"
proof -
  assume "a \<noteq> - 1"
  then have "a + 1 \<noteq> 0" by (simp add: add_eq_0_iff2)
  then show ?thesis using unatSuc [of a] by (simp add: add.commute)
qed

lemma heights_append: "a \<le> b \<Longrightarrow> b \<le> c \<Longrightarrow> heights a b @ heights b c = heights a c"
  using upt_add_eq_append [of "unat a" "unat b" "unat c - unat b"] by (simp add: heights_def word_le_nat_alt flip: map_append)

lemma heights_empty [simp]: "b \<le> a \<Longrightarrow> heights a b = []"
  by (simp add: heights_def word_le_nat_alt)

lemma heights_Cons: "a < b \<Longrightarrow> heights a b = a # heights (a + 1) b"
proof -
  assume "a < b"
  moreover have "unat (a + 1) = Suc (unat a)"
    using \<open>a < b\<close> u64_succ_le [of a b] unatSuc [of a] word_order.extremum [of b]
    by (metis add.commute add_0_iff add_eq_0_iff2 leD order_less_le)
  ultimately show ?thesis by (simp add: heights_def word_less_nat_alt upt_conv_Cons)
qed

lemma unat_u64_lt: "unat (h :: u64) < 256 ^ 8"
  using unsigned_less [of h] by simp

lemma unat_of_nat_below: "n < unat (b :: u64) \<Longrightarrow> unat (of_nat n :: u64) = n"
  using unat_u64_lt [of b] by (simp add: unat_of_nat)

lemma in_heights: "h \<in> set (heights a b) \<longleftrightarrow> a \<le> h \<and> h < b"
  by (auto simp: heights_def word_le_nat_alt word_less_nat_alt image_iff unat_of_nat_below intro!: bexI [of _ "unat h"])

lemma sorted_heights: "sorted (heights a b)"
proof -
  have "sorted_wrt (\<lambda>x y. (of_nat x :: u64) \<le> of_nat y) [unat a..<unat b]"
    by (rule sorted_wrt_mono_rel [OF _ sorted_wrt_upt]) (auto simp: word_le_nat_alt unat_of_nat_below [where b = b])
  then show ?thesis by (simp add: heights_def sorted_map)
qed

lemma strict_heights: "sorted_wrt (<) (heights a b)"
proof -
  have "distinct (heights a b)"
    by (auto simp: heights_def distinct_map inj_on_def unat_of_nat_below [where b = b] dest: arg_cong [where f = unat])
  with sorted_heights show ?thesis by (simp add: strict_sorted_iff)
qed

lemma concat_map_subset:
  assumes "sorted_wrt (<) xs" "sorted_wrt (<) ys" "set xs \<subseteq> set ys"
    and "\<And>y. y \<in> set ys \<Longrightarrow> y \<notin> set xs \<Longrightarrow> f y = []"
  shows "concat (map f xs) = concat (map f (ys :: 'a :: linorder list))"
proof -
  have "sorted_wrt (<) (filter (\<lambda>y. y \<in> set xs) ys)" using assms(2) by (simp add: sorted_wrt_filter)
  moreover have "set (filter (\<lambda>y. y \<in> set xs) ys) = set xs" using assms(3) by auto
  ultimately have xs: "xs = filter (\<lambda>y. y \<in> set xs) ys"
    using assms(1) by (metis sorted_distinct_set_unique strict_sorted_iff)
  have "concat (map f (filter (\<lambda>y. y \<in> S) ys)) = concat (map f ys)"
    if "\<And>y. y \<in> set ys \<Longrightarrow> y \<notin> S \<Longrightarrow> f y = []" for S
    using that by (induction ys) auto
  from this [of "set xs"] assms(4) xs show ?thesis by simp
qed

end
