(* ===== verification/Gateway_Errors.thy ===== *)
theory Gateway_Errors
  imports Gateway_Prelude
begin

text \<open>
  The error values of \<^verbatim>\<open>models/errors/errors.go\<close> and the two observations the gateway
  makes of an error: \<^verbatim>\<open>errors.Is\<close> of the standard library, and the gRPC status code.
  A sentinel is a constructor of its own, so that equality of the model is the pointer
  identity the standard library compares; \<open>unwrap\<close> lists the errors a value wraps.
  \<open>RuntimePanic\<close> is not an error value of the code: where a read of a malformed database
  entry would panic, the model's function yields it in place of a result.
\<close>

section \<open>Error values\<close>

text \<open>The gRPC status codes the sources distinguish; \<open>Unknown\<close> is every other error.\<close>

datatype grpc_code = OK | Canceled | NotFound | DeadlineExceeded | ResourceExhausted | Unavailable | Internal | Unknown

text \<open>Arguments of a format string that are not themselves errors.\<close>

datatype fmt_arg = FNum nat | FStr string

datatype err =
  \<comment> \<open>API specific errors\<close>
    ErrEndpointNotSupported | ErrRateLimit | ErrIndexOnlyMode | ErrExceedLogQueryLimit
  \<comment> \<open>General errors\<close>
  | ErrInvalid | ErrRecoverable | ErrDisconnected | ErrMissingBlock | ErrMissingTransactions
  | ErrInvalidParentHash
  \<comment> \<open>Transaction errors\<close>
  | ErrFailedTransaction | ErrInvalidTransaction | ErrDuplicateTransaction | ErrInFlightNonce
  | ErrTxPoolFull
  \<comment> \<open>Storage errors\<close>
  | ErrStorageNotInitialized | ErrEntityNotFound | ErrInvalidBlockRange | ErrHeightOutOfRange
  \<comment> \<open>sentinels of other packages\<close>
  | ErrInvalidHeight | ErrNoKeysAvailable | ErrExecutionReverted | PebbleErrNotFound | ContextCanceled
  \<comment> \<open>a run-time panic, \<open>errors.New\<close>, a gRPC status, \<open>fmt.Errorf\<close>, and the API error of a reverted call\<close>
  | RuntimePanic string
  | New_err string
  | Status grpc_code string
  | Errorf string "fmt_arg list" "err list"
  | RevertError err string

text \<open>
  \<^verbatim>\<open>Unwrap() error\<close> and \<^verbatim>\<open>Unwrap() []error\<close> of the values \<^verbatim>\<open>fmt.Errorf\<close> builds.
  \<open>RevertError\<close> embeds an \<^verbatim>\<open>error\<close>, which promotes only \<^verbatim>\<open>Error()\<close>: it does not unwrap.
\<close>

fun unwrap :: "err \<Rightarrow> err list" where
  "unwrap ErrDisconnected = [ErrRecoverable, New_err ''disconnected'']"
| "unwrap ErrInvalidTransaction = [ErrInvalid, ErrFailedTransaction]"
| "unwrap ErrDuplicateTransaction = [ErrInvalid]"
| "unwrap ErrInFlightNonce = [ErrInvalid]"
| "unwrap ErrTxPoolFull = [ErrInvalid]"
| "unwrap ErrInvalidBlockRange = [ErrInvalid, New_err ''block height range'']"
| "unwrap ErrHeightOutOfRange = [ErrInvalid, New_err ''height not in available range'']"
| "unwrap (Errorf _ _ es) = es"
| "unwrap _ = []"

text \<open>The nesting depth of an error, which bounds the walk of \<^verbatim>\<open>errors.Is\<close>.\<close>

fun wrap_depth :: "err \<Rightarrow> nat" where
  "wrap_depth (Errorf _ _ es) = 2 + sum_list (map wrap_depth es)"
| "wrap_depth e = (if unwrap e = [] then 0 else 1)"

lemma unwrap_depth: "w \<in> set (unwrap e) \<Longrightarrow> wrap_depth w < wrap_depth e"
proof (cases e)
  case (Errorf f as es)
  assume "w \<in> set (unwrap e)"
  with Errorf have "wrap_depth w \<le> sum_list (map wrap_depth es)"
    by (auto intro: member_le_sum_list)
  with Errorf show ?thesis by simp
qed auto

section \<open>Observations\<close>

text \<open>\<^verbatim>\<open>errors.Is(e, target)\<close>: the error or one it wraps, at any depth, is the target.\<close>

function errors_Is :: "err \<Rightarrow> err \<Rightarrow> bool" where
  "errors_Is e t \<longleftrightarrow> e = t \<or> (\<exists>w \<in> set (unwrap e). errors_Is w t)"
  by auto
termination
  by (relation "measure (\<lambda>(e, t). wrap_depth e)") (auto dest: unwrap_depth)

declare errors_Is.simps [simp del]

lemma errors_Is_refl [simp]: "errors_Is e e"
  by (subst errors_Is.simps) simp

lemma errors_Is_Errorf [simp]:
  "errors_Is (Errorf f as es) t \<longleftrightarrow> Errorf f as es = t \<or> (\<exists>w \<in> set es. errors_Is w t)"
  by (subst errors_Is.simps) simp

lemma errors_Is_leaf [simp]: "unwrap e = [] \<Longrightarrow> errors_Is e t \<longleftrightarrow> e = t"
  by (subst errors_Is.simps) simp

lemmas errors_Is_sentinel [simp] =
  errors_Is.simps [of ErrDisconnected] errors_Is.simps [of ErrInvalidTransaction]
  errors_Is.simps [of ErrDuplicateTransaction] errors_Is.simps [of ErrInFlightNonce]
  errors_Is.simps [of ErrTxPoolFull] errors_Is.simps [of ErrInvalidBlockRange]
  errors_Is.simps [of ErrHeightOutOfRange]

lemma errors_Is_trans: "errors_Is e t \<Longrightarrow> errors_Is t u \<Longrightarrow> errors_Is e u"
proof (induction e t rule: errors_Is.induct)
  case (1 e t)
  show ?case
  proof (cases "e = t")
    case True
    with 1 show ?thesis by simp
  next
    case False
    with "1.prems"(1) obtain w where w: "w \<in> set (unwrap e)" "errors_Is w t"
      by (subst (asm) errors_Is.simps) auto
    with 1 have "errors_Is w u" by blast
    with w(1) show ?thesis by (subst errors_Is.simps) auto
  qed
qed

text \<open>
  \<^verbatim>\<open>status.Code(err)\<close>: the code of the error itself or of the first one it wraps,
  in depth-first order, that carries a status.
\<close>

fun status_Code :: "err \<Rightarrow> grpc_code" and status_first :: "err list \<Rightarrow> grpc_code" where
  "status_Code (Status c _) = c"
| "status_Code (Errorf _ _ es) = status_first es"
| "status_Code _ = Unknown"
| "status_first [] = Unknown"
| "status_first (e # es) = (if status_Code e = Unknown then status_first es else status_Code e)"

text \<open>A panic passes through \<^verbatim>\<open>fmt.Errorf\<close> unwrapped: the wrapping code is never reached.\<close>

fun is_panic :: "err \<Rightarrow> bool" where
  "is_panic (RuntimePanic _) = True"
| "is_panic _ = False"

definition rwrapf :: "string \<Rightarrow> fmt_arg list \<Rightarrow> err + 'a \<Rightarrow> err + 'a" where
  "rwrapf fmt args = rwrap (\<lambda>e. if is_panic e then e else Errorf fmt args [e])"

lemma rwrapf_Inr [simp]: "rwrapf fmt args (Inr x) = Inr x"
  by (simp add: rwrapf_def)

lemma rwrapf_Inr_iff [gw_result]: "rwrapf fmt args m = Inr y \<longleftrightarrow> m = Inr y"
  by (simp add: rwrapf_def gw_result)

section \<open>Constructors\<close>

definition NewEndpointNotSupportedError :: "string \<Rightarrow> err" where
  "NewEndpointNotSupportedError endpoint = Errorf ''%w: %s'' [FStr endpoint] [ErrEndpointNotSupported]"

definition NewHeightOutOfRangeError :: "u64 \<Rightarrow> err" where
  "NewHeightOutOfRangeError height = Errorf ''%w: %d'' [FNum (unat height)] [ErrHeightOutOfRange]"

definition NewFailedTransactionError :: "string \<Rightarrow> err" where
  "NewFailedTransactionError reason = Errorf ''%w: %w'' [] [ErrFailedTransaction, New_err reason]"

definition NewInvalidTransactionError :: "err \<Rightarrow> err" where
  "NewInvalidTransactionError e = Errorf ''%w: %w'' [] [ErrInvalidTransaction, e]"

definition NewTxGasPriceTooLowError :: "nat \<Rightarrow> err" where
  "NewTxGasPriceTooLowError gasPrice = NewInvalidTransactionError
     (Errorf ''the minimum accepted gas price for transactions is: %d'' [FNum gasPrice] [])"

definition NewRecoverableError :: "err \<Rightarrow> err" where
  "NewRecoverableError e = Errorf ''%w: %w'' [] [ErrRecoverable, e]"

text \<open>
  \<open>unpackRevert\<close> (\<^verbatim>\<open>abi.UnpackRevert\<close>) and \<open>hexEncode\<close> (\<^verbatim>\<open>hexutil.Encode\<close>) are
  go-ethereum's; \<open>None\<close> is an unpacking error.
\<close>

definition NewRevertError :: "(bytes \<Rightarrow> string option) \<Rightarrow> (bytes \<Rightarrow> string) \<Rightarrow> bytes \<Rightarrow> err" where
  "NewRevertError unpackRevert hexEncode revert =
     RevertError
       (case unpackRevert revert of
          None \<Rightarrow> ErrExecutionReverted
        | Some reason \<Rightarrow> Errorf ''%w: %v'' [FStr reason] [ErrExecutionReverted])
       (hexEncode revert)"

fun ErrorCode :: "err \<Rightarrow> int option" where
  "ErrorCode (RevertError _ _) = Some 3"
| "ErrorCode _ = None"

fun ErrorData :: "err \<Rightarrow> string option" where
  "ErrorData (RevertError _ reason) = Some reason"
| "ErrorData _ = None"

section \<open>Classification\<close>

lemma NewInvalidTransactionError_Is:
  "errors_Is (NewInvalidTransactionError e) t \<longleftrightarrow>
     t = NewInvalidTransactionError e \<or> t \<in> {ErrInvalidTransaction, ErrInvalid, ErrFailedTransaction}
     \<or> errors_Is e t"
  by (auto simp: NewInvalidTransactionError_def)

text \<open>
  What the API's error handler relies on: exactly the transaction, range and pool errors are
  reported as invalid input, and none of the storage lookups are.
\<close>

lemma sentinel_invalid:
  "errors_Is ErrInvalidTransaction ErrInvalid" "errors_Is ErrDuplicateTransaction ErrInvalid"
  "errors_Is ErrInFlightNonce ErrInvalid" "errors_Is ErrTxPoolFull ErrInvalid"
  "errors_Is ErrInvalidBlockRange ErrInvalid" "errors_Is ErrHeightOutOfRange ErrInvalid"
  "\<not> errors_Is ErrEntityNotFound ErrInvalid" "\<not> errors_Is ErrRateLimit ErrInvalid"
  "\<not> errors_Is ErrFailedTransaction ErrInvalid" "\<not> errors_Is ErrDisconnected ErrInvalid"
  by simp_all

lemma recoverable_Is [simp]: "errors_Is (NewRecoverableError e) ErrRecoverable"
  by (simp add: NewRecoverableError_def)

end
