(* ===== verification/Key_Store.thy ===== *)
theory Key_Store
  imports Gateway_Errors
begin

text \<open>
  The pool of signing keys, \<^verbatim>\<open>services/requester/keystore\<close>.  An \<^verbatim>\<open>*AccountKey\<close> is its
  position in \<open>heap\<close>, the array of key objects, so that the channel \<open>availableKeys\<close> and the
  map \<open>usedKeys\<close> share the objects as the pointers of the source do.  Atomic
  compare-and-swap and channel operations are the atomic steps; \<open>Blocks\<close> is a send on a
  full channel.
\<close>

section \<open>State\<close>

record AccountKey =
  Address :: flow_address
  Index :: nat
  lastLockedBlock :: u64
  inUse :: bool

record KeyStore =
  heap :: "AccountKey list"
  availableKeys :: "nat list"
  availableCap :: nat
  usedKeys :: "(flow_id, nat) gomap"
  ks_size :: nat
  blockChan :: "BlockHeader list"
  ks_done :: bool
  IndexOnly :: bool
  COATxLookupEnabled :: bool

definition blockChanCap :: nat where "blockChanCap = 200"

section \<open>Account keys\<close>

definition NewAccountKey :: "flow_address \<Rightarrow> nat \<Rightarrow> AccountKey" where
  "NewAccountKey address index =
     \<lparr>Address = address, Index = index, lastLockedBlock = 0, inUse = False\<rparr>"

text \<open>\<^verbatim>\<open>inUse.CompareAndSwap(old, new)\<close> on key \<open>i\<close>.\<close>

definition inUse_CompareAndSwap :: "nat \<Rightarrow> bool \<Rightarrow> bool \<Rightarrow> KeyStore \<Rightarrow> bool \<times> KeyStore" where
  "inUse_CompareAndSwap i old new ks =
     (if inUse (heap ks ! i) = old
      then (True, ks\<lparr>heap := (heap ks)[i := (heap ks ! i)\<lparr>inUse := new\<rparr>]\<rparr>)
      else (False, ks))"

definition lock :: "nat \<Rightarrow> KeyStore \<Rightarrow> bool \<times> KeyStore" where
  "lock i ks = inUse_CompareAndSwap i False True ks"

text \<open>\<^verbatim>\<open>KeyStore.release\<close>, a send on the buffered channel.\<close>

definition release :: "nat \<Rightarrow> KeyStore \<Rightarrow> KeyStore exec" where
  "release i ks =
     (if length (availableKeys ks) < availableCap ks
      then Ret (ks\<lparr>availableKeys := availableKeys ks @ [i]\<rparr>) else Blocks)"

definition Done :: "nat \<Rightarrow> KeyStore \<Rightarrow> KeyStore exec" where
  "Done i ks = (case inUse_CompareAndSwap i True False ks of
      (True, ks') \<Rightarrow> release i ks'
    | (False, ks') \<Rightarrow> Ret ks')"

definition setLockMetadata :: "nat \<Rightarrow> flow_id \<Rightarrow> KeyStore \<Rightarrow> KeyStore" where
  "setLockMetadata i txID ks = ks\<lparr>usedKeys := AList.update txID i (usedKeys ks)\<rparr>"

definition SetLockMetadata :: "nat \<Rightarrow> flow_id \<Rightarrow> u64 \<Rightarrow> KeyStore \<Rightarrow> KeyStore" where
  "SetLockMetadata i txID referenceBlockHeight ks =
     setLockMetadata i txID
       (ks\<lparr>heap := (heap ks)[i := (heap ks ! i)\<lparr>lastLockedBlock := referenceBlockHeight\<rparr>]\<rparr>)"

text \<open>
  The account key the access node reports, and the setters and the signer of the Flow SDK
  on a transaction of type \<open>'tx\<close>.
\<close>

record SdkAccountKey =
  sdkIndex :: nat
  SequenceNumber :: u64

record 'tx flow_tx_api =
  SetProposalKey :: "flow_address \<Rightarrow> nat \<Rightarrow> u64 \<Rightarrow> 'tx \<Rightarrow> 'tx"
  SetPayer :: "flow_address \<Rightarrow> 'tx \<Rightarrow> 'tx"
  SignEnvelope :: "flow_address \<Rightarrow> nat \<Rightarrow> 'tx \<Rightarrow> err + 'tx"
  tx_ID :: "'tx \<Rightarrow> flow_id"

definition SetProposerPayerAndSign ::
    "'tx flow_tx_api \<Rightarrow> AccountKey \<Rightarrow> 'tx \<Rightarrow> flow_address \<Rightarrow> SdkAccountKey option \<Rightarrow> err + 'tx" where
  "SetProposerPayerAndSign api k tx address acckey =
     (case acckey of
        None \<Rightarrow> Inl (Errorf ''nil account key provided for address %s (index %d)''
                  [FNum (unat address), FNum (Index k)] [])
      | Some ak \<Rightarrow>
          if Address k \<noteq> address then
            Inl (Errorf ''expected address: %s, got address: %s''
              [FNum (unat (Address k)), FNum (unat address)] [])
          else if Index k \<noteq> sdkIndex ak then
            Inl (Errorf ''expected account key with index: %d, got key with index: %d''
              [FNum (Index k), FNum (sdkIndex ak)] [])
          else SignEnvelope api (Address k) (Index k)
                 (SetPayer api (Address k)
                   (SetProposalKey api (Address k) (Index k) (SequenceNumber ak) tx)))"

section \<open>The key store\<close>

text \<open>
  \<open>New\<close> sends every key on a channel made with room for all of them.  The goroutine
  \<^verbatim>\<open>processLockedKeys\<close> it starts is \<open>processLockedKeys_step\<close> below, one received block.
\<close>

definition New :: "AccountKey list \<Rightarrow> bool \<Rightarrow> bool \<Rightarrow> KeyStore exec" where
  "New keys indexOnly coaLookup =
     efold release [0..<length keys]
       \<lparr>heap = keys, availableKeys = [], availableCap = length keys, usedKeys = [],
        ks_size = length keys, blockChan = [], ks_done = False,
        IndexOnly = indexOnly, COATxLookupEnabled = coaLookup\<rparr>"

definition AvailableKeys :: "KeyStore \<Rightarrow> nat" where
  "AvailableKeys ks = length (availableKeys ks)"

definition HasKeysInUse :: "KeyStore \<Rightarrow> bool" where
  "HasKeysInUse ks \<longleftrightarrow> AvailableKeys ks \<noteq> ks_size ks"

definition Take :: "KeyStore \<Rightarrow> ((err + nat) \<times> KeyStore) exec" where
  "Take ks = (case availableKeys ks of
      [] \<Rightarrow> Ret (Inl ErrNoKeysAvailable, ks)
    | i # rest \<Rightarrow>
       (case lock i (ks\<lparr>availableKeys := rest\<rparr>) of
          (True, ks') \<Rightarrow> Ret (Inr i, ks')
        | (False, _) \<Rightarrow> Panics ''key %d available, but locked''))"

definition unsafeUnlockKey :: "flow_id \<Rightarrow> KeyStore \<Rightarrow> KeyStore exec" where
  "unsafeUnlockKey txID ks = (case map_of (usedKeys ks) txID of
      None \<Rightarrow> Ret ks
    | Some i \<Rightarrow> ebind (Done i ks) (\<lambda>ks'. Ret (ks'\<lparr>usedKeys := AList.delete txID (usedKeys ks')\<rparr>)))"

definition NotifyTransaction :: "flow_id \<Rightarrow> KeyStore \<Rightarrow> KeyStore exec" where
  "NotifyTransaction txID ks = (if IndexOnly ks then Ret ks else unsafeUnlockKey txID ks)"

text \<open>
  \<open>expiration\<close> is \<^verbatim>\<open>accountKeyBlockExpiration\<close>, flow-go's
  \<^verbatim>\<open>DefaultTransactionExpiry\<close>; the subtraction is the source's unsigned one.
\<close>

definition expired :: "u64 \<Rightarrow> u64 \<Rightarrow> AccountKey \<Rightarrow> bool" where
  "expired expiration blockHeight k \<longleftrightarrow> blockHeight - lastLockedBlock k \<ge> expiration"

definition releasekeys :: "u64 \<Rightarrow> u64 \<Rightarrow> flow_id list \<Rightarrow> KeyStore \<Rightarrow> KeyStore exec" where
  "releasekeys expiration blockHeight txResults ks =
     ebind (efold unsafeUnlockKey txResults ks) (\<lambda>ks1.
       efold (\<lambda>(txID, i) ks. if expired expiration blockHeight (heap ks ! i)
                             then unsafeUnlockKey txID ks else Ret ks)
         (usedKeys ks1) ks1)"

text \<open>
  The \<^verbatim>\<open>select\<close> of \<open>NotifyBlock\<close> may take either ready case when the store is shutting
  down and the channel has room: \<open>pick_done\<close> is that choice.
\<close>

definition NotifyBlock :: "u64 \<Rightarrow> bool \<Rightarrow> BlockHeader \<Rightarrow> KeyStore \<Rightarrow> KeyStore exec" where
  "NotifyBlock expiration pick_done blockHeader ks =
     (if IndexOnly ks then Ret ks
      else if ks_done ks \<and> (pick_done \<or> length (blockChan ks) \<ge> blockChanCap) then Ret ks
      else if length (blockChan ks) < blockChanCap
      then Ret (ks\<lparr>blockChan := blockChan ks @ [blockHeader]\<rparr>)
      else releasekeys expiration (bhHeight blockHeader) [] ks)"

text \<open>
  One received block of \<^verbatim>\<open>processLockedKeys\<close>; \<open>getResults\<close> is the access client's
  \<^verbatim>\<open>GetTransactionResultsByBlockID\<close>, its result and its error.
\<close>

definition processLockedKeys_step ::
    "u64 \<Rightarrow> (flow_id \<Rightarrow> flow_id list \<times> err option) \<Rightarrow> KeyStore \<Rightarrow> KeyStore exec" where
  "processLockedKeys_step expiration getResults ks = (case blockChan ks of
      [] \<Rightarrow> Ret ks
    | blockHeader # rest \<Rightarrow>
       (let ks' = ks\<lparr>blockChan := rest\<rparr> in
        if \<not> HasKeysInUse ks' then Ret ks'
        else if COATxLookupEnabled ks' then
          (case getResults (bhID blockHeader) of
             (txResults, Some e) \<Rightarrow>
               if status_Code e \<noteq> Canceled then Ret ks'
               else releasekeys expiration (bhHeight blockHeader) txResults ks'
           | (txResults, None) \<Rightarrow> releasekeys expiration (bhHeight blockHeader) txResults ks')
        else releasekeys expiration (bhHeight blockHeader) [] ks'))"

text \<open>The cancelled context ends the goroutine and closes the \<^verbatim>\<open>done\<close> channel.\<close>

definition processLockedKeys_shutdown :: "KeyStore \<Rightarrow> KeyStore" where
  "processLockedKeys_shutdown ks = ks\<lparr>ks_done := True\<rparr>"

section \<open>Invariant\<close>

text \<open>
  A key is on the channel exactly while it is not in use, once.  \<open>T\<close> are the keys some
  goroutine has received in \<open>Take\<close> but not yet locked, \<open>R\<close> those some goroutine has
  unlocked in \<open>Done\<close> but not yet sent back.
\<close>

definition free_keys :: "KeyStore \<Rightarrow> nat set" where
  "free_keys ks = {i. i < ks_size ks \<and> \<not> inUse (heap ks ! i)}"

definition busy_keys :: "KeyStore \<Rightarrow> nat set" where
  "busy_keys ks = {i. i < ks_size ks \<and> inUse (heap ks ! i)}"

definition ks_inv :: "nat list \<Rightarrow> nat list \<Rightarrow> KeyStore \<Rightarrow> bool" where
  "ks_inv T R ks \<longleftrightarrow> length (heap ks) = ks_size ks \<and> availableCap ks = ks_size ks
     \<and> distinct (availableKeys ks @ T @ R) \<and> set (availableKeys ks @ T @ R) = free_keys ks
     \<and> wf_map (usedKeys ks) \<and> (\<forall>(txID, i) \<in> set (usedKeys ks). i < ks_size ks)
     \<and> length (blockChan ks) \<le> blockChanCap"

abbreviation ks_ok :: "KeyStore \<Rightarrow> bool" where
  "ks_ok \<equiv> ks_inv [] []"

lemma ks_inv_used: "ks_inv T R ks \<Longrightarrow> (txID, i) \<in> set (usedKeys ks) \<Longrightarrow> i < ks_size ks"
  by (auto simp: ks_inv_def)

lemma free_keys_finite [simp]: "finite (free_keys ks)"
  by (simp add: free_keys_def)

lemma card_free_busy: "card (free_keys ks) + card (busy_keys ks) = ks_size ks"
proof -
  have "free_keys ks \<union> busy_keys ks = {..<ks_size ks}" "free_keys ks \<inter> busy_keys ks = {}"
    by (auto simp: free_keys_def busy_keys_def)
  then show ?thesis
    using card_Un_disjoint [of "free_keys ks" "busy_keys ks"]
    by (simp add: free_keys_def busy_keys_def)
qed

lemma ks_inv_counts:
  "ks_inv T R ks \<Longrightarrow> length (availableKeys ks) + length T + length R = card (free_keys ks)"
  unfolding ks_inv_def by (metis add.assoc distinct_card length_append)

lemma ks_ok_counts: "ks_ok ks \<Longrightarrow> AvailableKeys ks + card (busy_keys ks) = ks_size ks"
  using ks_inv_counts [of "[]" "[]" ks] card_free_busy [of ks] by (simp add: AvailableKeys_def)

lemma free_keys_set_inUse:
  "i < length (heap ks) \<Longrightarrow> length (heap ks) = ks_size ks \<Longrightarrow>
   free_keys (ks\<lparr>heap := (heap ks)[i := (heap ks ! i)\<lparr>inUse := b\<rparr>]\<rparr>) =
     (if b then free_keys ks - {i} else insert i (free_keys ks))"
  by (auto simp: free_keys_def nth_list_update)

lemma busy_keys_set_inUse:
  "i < length (heap ks) \<Longrightarrow> length (heap ks) = ks_size ks \<Longrightarrow>
   busy_keys (ks\<lparr>heap := (heap ks)[i := (heap ks ! i)\<lparr>inUse := b\<rparr>]\<rparr>) =
     (if b then insert i (busy_keys ks) else busy_keys ks - {i})"
  by (auto simp: busy_keys_def nth_list_update)

lemma inUse_set_lastLocked [simp]:
  "inUse ((xs[i := (xs ! i)\<lparr>lastLockedBlock := h\<rparr>]) ! j) = inUse (xs ! j)"
  by (cases "j = i"; cases "i < length xs") (auto simp: list_update_beyond)

lemma keys_set_lastLocked [simp]:
  "length (heap ks) = ks_size ks \<Longrightarrow>
   free_keys (ks\<lparr>heap := (heap ks)[i := (heap ks ! i)\<lparr>lastLockedBlock := h\<rparr>]\<rparr>) = free_keys ks"
  "length (heap ks) = ks_size ks \<Longrightarrow>
   busy_keys (ks\<lparr>heap := (heap ks)[i := (heap ks ! i)\<lparr>lastLockedBlock := h\<rparr>]\<rparr>) = busy_keys ks"
  by (auto simp: free_keys_def busy_keys_def)

lemma keys_other_fields [simp]:
  "free_keys (ks\<lparr>availableKeys := a\<rparr>) = free_keys ks"
  "free_keys (ks\<lparr>usedKeys := u\<rparr>) = free_keys ks"
  "free_keys (ks\<lparr>blockChan := c\<rparr>) = free_keys ks"
  "free_keys (ks\<lparr>ks_done := d\<rparr>) = free_keys ks"
  "busy_keys (ks\<lparr>availableKeys := a\<rparr>) = busy_keys ks"
  "busy_keys (ks\<lparr>usedKeys := u\<rparr>) = busy_keys ks"
  "busy_keys (ks\<lparr>blockChan := c\<rparr>) = busy_keys ks"
  "busy_keys (ks\<lparr>ks_done := d\<rparr>) = busy_keys ks"
  by (simp_all add: free_keys_def busy_keys_def)

section \<open>Atomic steps\<close>

lemma recv_inv:
  "ks_inv T R ks \<Longrightarrow> availableKeys ks = i # rest \<Longrightarrow>
   ks_inv (i # T) R (ks\<lparr>availableKeys := rest\<rparr>)"
  by (auto simp: ks_inv_def)

lemma lock_inv:
  assumes "ks_inv T R ks" "i \<in> set T"
  shows "\<exists>ks'. lock i ks = (True, ks') \<and> ks_inv (remove1 i T) R ks'
           \<and> busy_keys ks' = insert i (busy_keys ks) \<and> availableKeys ks' = availableKeys ks"
proof -
  let ?ks = "ks\<lparr>heap := (heap ks)[i := (heap ks ! i)\<lparr>inUse := True\<rparr>]\<rparr>"
  from assms have i: "i < length (heap ks)" "\<not> inUse (heap ks ! i)"
    by (auto simp: ks_inv_def free_keys_def)
  then have "lock i ks = (True, ?ks)"
    by (simp add: lock_def inUse_CompareAndSwap_def)
  moreover have "ks_inv (remove1 i T) R ?ks"
    using assms i by (auto simp: ks_inv_def free_keys_set_inUse)
  ultimately show ?thesis
    using assms i by (simp add: busy_keys_set_inUse ks_inv_def)
qed

lemma cas_done_inv:
  assumes "ks_inv T R ks" "i \<in> busy_keys ks"
  shows "\<exists>ks'. inUse_CompareAndSwap i True False ks = (True, ks') \<and> ks_inv T (i # R) ks'
           \<and> busy_keys ks' = busy_keys ks - {i} \<and> availableKeys ks' = availableKeys ks
           \<and> usedKeys ks' = usedKeys ks
           \<and> map lastLockedBlock (heap ks') = map lastLockedBlock (heap ks)"
proof -
  let ?ks = "ks\<lparr>heap := (heap ks)[i := (heap ks ! i)\<lparr>inUse := False\<rparr>]\<rparr>"
  from assms have i: "i < length (heap ks)" "inUse (heap ks ! i)" "i \<notin> free_keys ks"
    by (auto simp: ks_inv_def busy_keys_def free_keys_def)
  then have "inUse_CompareAndSwap i True False ks = (True, ?ks)"
    by (simp add: inUse_CompareAndSwap_def)
  moreover have "ks_inv T (i # R) ?ks"
    using assms i by (auto simp: ks_inv_def free_keys_set_inUse)
  moreover have "map lastLockedBlock (heap ?ks) = map lastLockedBlock (heap ks)"
    by (simp add: map_update) (metis i(1) length_map list_update_id nth_map)
  ultimately show ?thesis
    using assms i by (auto simp: busy_keys_set_inUse ks_inv_def)
qed

lemma release_inv:
  assumes "ks_inv T R ks" "i \<in> set R"
  shows "\<exists>ks'. release i ks = Ret ks' \<and> ks_inv T (remove1 i R) ks'
           \<and> ks' = ks\<lparr>availableKeys := availableKeys ks @ [i]\<rparr>"
proof -
  have "card (free_keys ks) \<le> ks_size ks"
    using card_free_busy [of ks] by simp
  moreover have "length R > 0" using assms(2) by (cases R) auto
  moreover have "availableCap ks = ks_size ks" using assms(1) by (simp add: ks_inv_def)
  ultimately have "length (availableKeys ks) < availableCap ks"
    using ks_inv_counts [OF assms(1)] by linarith
  then show ?thesis
    using assms by (auto simp: release_def ks_inv_def)
qed

text \<open>\<open>Done\<close>: a key in use goes back to the channel, any other call changes nothing.\<close>

lemma Done_spec:
  assumes "ks_ok ks" "i < ks_size ks"
  shows "\<exists>ks'. Done i ks = Ret ks' \<and> ks_ok ks' \<and> busy_keys ks' = busy_keys ks - {i}
     \<and> usedKeys ks' = usedKeys ks \<and> ks_size ks' = ks_size ks
     \<and> map lastLockedBlock (heap ks') = map lastLockedBlock (heap ks)
     \<and> (i \<in> busy_keys ks \<longrightarrow> AvailableKeys ks' = Suc (AvailableKeys ks))"
proof (cases "i \<in> busy_keys ks")
  case True
  then obtain k1 where k1: "inUse_CompareAndSwap i True False ks = (True, k1)" "ks_inv [] [i] k1"
    "busy_keys k1 = busy_keys ks - {i}" "availableKeys k1 = availableKeys ks"
    "usedKeys k1 = usedKeys ks" "map lastLockedBlock (heap k1) = map lastLockedBlock (heap ks)"
    using cas_done_inv [OF assms(1)] by auto
  moreover have "ks_size k1 = ks_size ks"
    using k1(2) k1(6) assms(1) by (metis ks_inv_def length_map)
  ultimately show ?thesis
    using release_inv [OF k1(2), of i] True by (auto simp: Done_def AvailableKeys_def)
next
  case False
  then have "Done i ks = Ret ks"
    using assms by (simp add: Done_def inUse_CompareAndSwap_def busy_keys_def)
  with False assms show ?thesis by auto
qed

lemma Take_spec:
  assumes "ks_ok ks"
  shows "(AvailableKeys ks = 0 \<longrightarrow> Take ks = Ret (Inl ErrNoKeysAvailable, ks))
    \<and> (AvailableKeys ks > 0 \<longrightarrow>
        (\<exists>i ks'. Take ks = Ret (Inr i, ks') \<and> ks_ok ks' \<and> i \<in> free_keys ks
           \<and> busy_keys ks' = insert i (busy_keys ks) \<and> Suc (AvailableKeys ks') = AvailableKeys ks))"
proof (cases "availableKeys ks")
  case Nil
  then show ?thesis by (simp add: Take_def AvailableKeys_def)
next
  case (Cons i rest)
  have "i \<in> free_keys ks"
    using assms Cons by (auto simp: ks_inv_def)
  with lock_inv [OF recv_inv [OF assms Cons], of i] Cons show ?thesis
    by (auto simp: Take_def AvailableKeys_def)
qed

lemma SetLockMetadata_spec:
  assumes "ks_inv T R ks" "i < ks_size ks"
  shows "ks_inv T R (SetLockMetadata i txID h ks)"
    "busy_keys (SetLockMetadata i txID h ks) = busy_keys ks"
    "AvailableKeys (SetLockMetadata i txID h ks) = AvailableKeys ks"
proof -
  have "length (heap ks) = ks_size ks" using assms by (simp add: ks_inv_def)
  with assms show "ks_inv T R (SetLockMetadata i txID h ks)"
    "busy_keys (SetLockMetadata i txID h ks) = busy_keys ks"
    "AvailableKeys (SetLockMetadata i txID h ks) = AvailableKeys ks"
    using set_update_sub [of txID i "usedKeys ks"]
    by (auto simp: SetLockMetadata_def setLockMetadata_def ks_inv_def AvailableKeys_def)
qed

section \<open>Releasing keys\<close>

text \<open>
  \<open>unlocked S ks ks'\<close>: \<open>ks'\<close> is \<open>ks\<close> with the reservations of the transactions in \<open>S\<close>
  removed and their keys back in the pool, and nothing else changed.
\<close>

definition unlocked :: "flow_id set \<Rightarrow> KeyStore \<Rightarrow> KeyStore \<Rightarrow> bool" where
  "unlocked S ks ks' \<longleftrightarrow> ks_ok ks'
     \<and> usedKeys ks' = filter (\<lambda>(txID, i). txID \<notin> S) (usedKeys ks)
     \<and> busy_keys ks' = busy_keys ks - {i. \<exists>txID \<in> S. (txID, i) \<in> set (usedKeys ks)}
     \<and> map lastLockedBlock (heap ks') = map lastLockedBlock (heap ks)
     \<and> ks_size ks' = ks_size ks"

lemma unlockedD:
  assumes "unlocked S ks ks'"
  shows "ks_ok ks'" "usedKeys ks' = filter (\<lambda>(txID, i). txID \<notin> S) (usedKeys ks)"
    "busy_keys ks' = busy_keys ks - {i. \<exists>txID \<in> S. (txID, i) \<in> set (usedKeys ks)}"
    "ks_size ks' = ks_size ks"
  using assms by (simp_all add: unlocked_def)

lemma unlocked_empty: "ks_ok ks \<Longrightarrow> unlocked {} ks ks"
  by (auto simp: unlocked_def intro!: filter_True [symmetric])

lemma unlocked_trans: "unlocked S ks k1 \<Longrightarrow> unlocked S' k1 k2 \<Longrightarrow> unlocked (S \<union> S') ks k2"
  by (auto simp: unlocked_def intro!: filter_cong)

lemma unlocked_notin:
  "unlocked S ks ks' \<Longrightarrow> txID \<notin> fst ` set (usedKeys ks) \<Longrightarrow> unlocked (insert txID S) ks ks'"
  by (auto simp: unlocked_def image_iff intro!: filter_cong)

lemma unsafeUnlockKey_spec:
  assumes "ks_ok ks"
  shows "\<exists>ks'. unsafeUnlockKey txID ks = Ret ks' \<and> unlocked {txID} ks ks'"
proof (cases "map_of (usedKeys ks) txID")
  case None
  moreover from None have "unlocked {txID} ks ks"
    using unlocked_notin [OF unlocked_empty [OF assms]] by (simp add: map_of_eq_None_iff)
  ultimately show ?thesis by (simp add: unsafeUnlockKey_def)
next
  case (Some i)
  then have i: "(txID, i) \<in> set (usedKeys ks)" by (rule lookup_in_set)
  with assms have "i < ks_size ks" by (auto simp: ks_inv_def)
  then obtain k where k: "Done i ks = Ret k" "ks_ok k" "busy_keys k = busy_keys ks - {i}"
    "usedKeys k = usedKeys ks" "ks_size k = ks_size ks"
    "map lastLockedBlock (heap k) = map lastLockedBlock (heap ks)"
    using Done_spec [OF assms] by blast
  have "{j. \<exists>t\<in>{txID}. (t, j) \<in> set (usedKeys ks)} = {i}"
    using i assms Some by (auto simp: ks_inv_def in_set_iff_lookup)
  moreover have "AList.delete txID (usedKeys ks) = filter (\<lambda>(t, i). t \<notin> {txID}) (usedKeys ks)"
    by (induction "usedKeys ks") (auto simp: AList.delete_eq split_def eq_commute)
  moreover have "ks_ok (k\<lparr>usedKeys := AList.delete txID (usedKeys ks)\<rparr>)"
    using k set_delete_sub [of txID "usedKeys ks"] by (auto simp: ks_inv_def)
  ultimately show ?thesis
    using k Some by (auto simp: unsafeUnlockKey_def unlocked_def)
qed

lemma unlock_loop:
  assumes "ks_ok ks"
  shows "\<exists>ks'. efold unsafeUnlockKey txIDs ks = Ret ks' \<and> unlocked (set txIDs) ks ks'"
  using assms
proof (induction txIDs arbitrary: ks)
  case Nil
  then show ?case by (simp add: unlocked_empty)
next
  case (Cons t ts)
  obtain k1 where k1: "unsafeUnlockKey t ks = Ret k1" "unlocked {t} ks k1"
    using unsafeUnlockKey_spec [OF Cons.prems] by blast
  then have "ks_ok k1" by (simp add: unlocked_def)
  with Cons.IH obtain k2 where "efold unsafeUnlockKey ts k1 = Ret k2" "unlocked (set ts) k1 k2"
    by blast
  with k1 unlocked_trans [OF k1(2)] show ?case by auto
qed

definition expired_txs :: "u64 \<Rightarrow> u64 \<Rightarrow> KeyStore \<Rightarrow> (flow_id \<times> nat) list \<Rightarrow> flow_id set" where
  "expired_txs ex h ks es = {t. \<exists>i. (t, i) \<in> set es \<and> expired ex h (heap ks ! i)}"

lemma expired_txs_cong:
  assumes "map lastLockedBlock (heap k1) = map lastLockedBlock (heap ks)"
    and "\<And>t i. (t, i) \<in> set es \<Longrightarrow> i < length (heap ks)"
  shows "expired_txs ex h k1 es = expired_txs ex h ks es"
proof -
  have "expired ex h (heap k1 ! i) = expired ex h (heap ks ! i)" if "(t, i) \<in> set es" for t i
    using assms(1) assms(2) [OF that] by (metis expired_def length_map nth_map)
  then show ?thesis by (auto simp: expired_txs_def)
qed

lemma expire_loop:
  assumes "ks_ok ks" "\<And>t i. (t, i) \<in> set es \<Longrightarrow> i < ks_size ks"
  shows "\<exists>ks'. efold (\<lambda>(txID, i) ks. if expired ex h (heap ks ! i)
             then unsafeUnlockKey txID ks else Ret ks) es ks = Ret ks'
           \<and> unlocked (expired_txs ex h ks es) ks ks'"
  using assms
proof (induction es arbitrary: ks)
  case Nil
  then show ?case by (simp add: unlocked_empty expired_txs_def)
next
  case (Cons e es)
  obtain t i where e: "e = (t, i)" by (cases e)
  let ?S = "if expired ex h (heap ks ! i) then {t} else {}"
  obtain k1 where k1: "(if expired ex h (heap ks ! i) then unsafeUnlockKey t ks else Ret ks) = Ret k1"
    "unlocked ?S ks k1"
    using unsafeUnlockKey_spec [OF Cons.prems(1), of t] unlocked_empty [OF Cons.prems(1)]
    by (cases "expired ex h (heap ks ! i)") auto
  then have ok: "ks_ok k1" "map lastLockedBlock (heap k1) = map lastLockedBlock (heap ks)"
    "ks_size k1 = ks_size ks"
    by (auto simp: unlocked_def)
  have len: "length (heap ks) = ks_size ks" using Cons.prems by (simp add: ks_inv_def)
  have es: "j < ks_size ks" if "(t', j) \<in> set es" for t' j
    using Cons.prems(2) [of t' j] that by simp
  have "expired_txs ex h ks (e # es) = ?S \<union> expired_txs ex h ks es"
    by (auto simp: e expired_txs_def)
  also have "expired_txs ex h ks es = expired_txs ex h k1 es"
    by (rule expired_txs_cong [OF ok(2), symmetric]) (simp add: len es)
  finally have E: "expired_txs ex h ks (e # es) = ?S \<union> expired_txs ex h k1 es" .
  from Cons.IH [OF ok(1)] es ok(3) obtain k2 where
    "efold (\<lambda>(txID, i) ks. if expired ex h (heap ks ! i) then unsafeUnlockKey txID ks else Ret ks)
       es k1 = Ret k2" "unlocked (expired_txs ex h k1 es) k1 k2"
    by auto
  with k1(1) unlocked_trans [OF k1(2)] show ?case
    unfolding E by (simp add: e)
qed

text \<open>
  \<open>releasekeys\<close> never blocks; it removes exactly the reservations whose transaction is among
  the results or whose key has expired at the given height.
\<close>

lemma releasekeys_unlocked:
  assumes "ks_ok ks"
  shows "\<exists>ks'. releasekeys ex h txResults ks = Ret ks' \<and>
     unlocked (set txResults \<union> expired_txs ex h ks (usedKeys ks)) ks ks'"
proof -
  obtain k1 where k1: "efold unsafeUnlockKey txResults ks = Ret k1" "unlocked (set txResults) ks k1"
    using unlock_loop [OF assms] by blast
  then have ok: "ks_ok k1" "map lastLockedBlock (heap k1) = map lastLockedBlock (heap ks)"
    "ks_size k1 = ks_size ks" "set (usedKeys k1) = {(t, i) \<in> set (usedKeys ks). t \<notin> set txResults}"
    by (auto simp: unlocked_def)
  have "\<exists>k2. releasekeys ex h txResults ks = Ret k2
      \<and> unlocked (expired_txs ex h k1 (usedKeys k1)) k1 k2"
    unfolding releasekeys_def k1(1) ebind.simps
    by (rule expire_loop [OF ok(1)]) (rule ks_inv_used [OF ok(1)])
  then obtain k2 where "releasekeys ex h txResults ks = Ret k2"
      "unlocked (expired_txs ex h k1 (usedKeys k1)) k1 k2" by blast
  moreover have "set txResults \<union> expired_txs ex h k1 (usedKeys k1) =
      set txResults \<union> expired_txs ex h ks (usedKeys ks)"
  proof -
    have "expired_txs ex h k1 (usedKeys k1) = expired_txs ex h ks (usedKeys k1)"
      using assms ok(4) by (intro expired_txs_cong [OF ok(2)]) (auto simp: ks_inv_def)
    with ok(4) show ?thesis by (auto simp: expired_txs_def)
  qed
  ultimately show ?thesis
    using unlocked_trans [OF k1(2)] by metis
qed

section \<open>Construction\<close>

lemma New_loop:
  assumes "availableCap ks = n" "length (availableKeys ks) + length is = n"
  shows "efold release is ks = Ret (ks\<lparr>availableKeys := availableKeys ks @ is\<rparr>)"
  using assms
proof (induction "is" arbitrary: ks)
  case Nil
  then show ?case by simp
next
  case (Cons i "is")
  from Cons.prems Cons.IH [of "ks\<lparr>availableKeys := availableKeys ks @ [i]\<rparr>"] show ?case
    by (simp add: release_def)
qed

lemma New_ok:
  assumes "\<And>k. k \<in> set keys \<Longrightarrow> \<not> inUse k"
  shows "\<exists>ks. New keys indexOnly coaLookup = Ret ks \<and> ks_ok ks \<and> AvailableKeys ks = length keys
           \<and> heap ks = keys"
proof -
  have "free_keys ks = set [0..<length keys]" if "heap ks = keys" "ks_size ks = length keys" for ks
    using that assms by (auto simp: free_keys_def)
  then show ?thesis
    unfolding New_def by (subst New_loop) (auto simp: ks_inv_def AvailableKeys_def blockChanCap_def)
qed

section \<open>Interleavings\<close>

text \<open>
  The atomic steps any number of goroutines may interleave: the receive and the
  compare-and-swap of \<open>Take\<close>, the compare-and-swap and the send of \<open>Done\<close> on whatever key,
  the updates of \<open>usedKeys\<close> under the mutex, and the traffic on \<open>blockChan\<close>.
\<close>

inductive ks_step ::
    "KeyStore \<times> nat list \<times> nat list \<Rightarrow> KeyStore \<times> nat list \<times> nat list \<Rightarrow> bool" where
  take_recv: "availableKeys ks = i # rest \<Longrightarrow> ks_step (ks, T, R) (ks\<lparr>availableKeys := rest\<rparr>, i # T, R)"
| take_lock: "i \<in> set T \<Longrightarrow> lock i ks = (True, ks') \<Longrightarrow> ks_step (ks, T, R) (ks', remove1 i T, R)"
| done_cas: "i < ks_size ks \<Longrightarrow> inUse_CompareAndSwap i True False ks = (True, ks') \<Longrightarrow>
    ks_step (ks, T, R) (ks', T, i # R)"
| done_send: "i \<in> set R \<Longrightarrow> release i ks = Ret ks' \<Longrightarrow> ks_step (ks, T, R) (ks', T, remove1 i R)"
| set_metadata: "i < ks_size ks \<Longrightarrow> ks_step (ks, T, R) (SetLockMetadata i txID h ks, T, R)"
| forget_tx: "ks_step (ks, T, R) (ks\<lparr>usedKeys := AList.delete txID (usedKeys ks)\<rparr>, T, R)"
| block_send: "length (blockChan ks) < blockChanCap \<Longrightarrow>
    ks_step (ks, T, R) (ks\<lparr>blockChan := blockChan ks @ [b]\<rparr>, T, R)"
| block_recv: "blockChan ks = b # rest \<Longrightarrow> ks_step (ks, T, R) (ks\<lparr>blockChan := rest\<rparr>, T, R)"
| shutdown: "ks_step (ks, T, R) (processLockedKeys_shutdown ks, T, R)"

definition ks_conf_ok :: "KeyStore \<times> nat list \<times> nat list \<Rightarrow> bool" where
  "ks_conf_ok c \<longleftrightarrow> (case c of (ks, T, R) \<Rightarrow> ks_inv T R ks)"

lemma ks_conf_ok_iff [simp]: "ks_conf_ok (ks, T, R) \<longleftrightarrow> ks_inv T R ks"
  by (simp add: ks_conf_ok_def)

lemma ks_step_inv: "ks_step c c' \<Longrightarrow> ks_conf_ok c \<Longrightarrow> ks_conf_ok c'"
proof (induction rule: ks_step.induct)
  case (take_recv ks i rest T R)
  then show ?case by (simp add: recv_inv)
next
  case (take_lock i T ks ks' R)
  then show ?case using lock_inv by fastforce
next
  case (done_cas i ks ks' T R)
  then have "i \<in> busy_keys ks" by (auto simp: inUse_CompareAndSwap_def busy_keys_def split: if_splits)
  with done_cas show ?case using cas_done_inv by fastforce
next
  case (done_send i R ks ks' T)
  then show ?case using release_inv by fastforce
next
  case (set_metadata i ks T R txID h)
  then show ?case by (simp add: SetLockMetadata_spec(1))
next
  case (forget_tx ks T R txID)
  have "\<forall>(t, i) \<in> set (AList.delete txID (usedKeys ks)). i < ks_size ks"
    using forget_tx ks_inv_used set_delete_sub [of txID "usedKeys ks"] by fastforce
  with forget_tx show ?case by (simp add: ks_inv_def)
qed (auto simp: ks_inv_def processLockedKeys_shutdown_def)

lemma ks_reachable_inv:
  "ks_step\<^sup>*\<^sup>* c c' \<Longrightarrow> ks_conf_ok c \<Longrightarrow> ks_conf_ok c'"
  by (induction rule: rtranclp_induct) (auto intro: ks_step_inv)

lemma ks_step_size: "ks_step c c' \<Longrightarrow> ks_size (fst c') = ks_size (fst c)"
  by (induction rule: ks_step.induct)
    (auto simp: lock_def inUse_CompareAndSwap_def release_def SetLockMetadata_def setLockMetadata_def
      processLockedKeys_shutdown_def split: if_splits)

lemma ks_reachable_size: "ks_step\<^sup>*\<^sup>* c c' \<Longrightarrow> ks_size (fst c') = ks_size (fst c)"
  by (induction rule: rtranclp_induct) (auto dest: ks_step_size)

section \<open>Interfaces\<close>

text \<open>
  The contract of a pool of keys with the transaction pools that sign with it: \<open>take\<close>
  hands out a key nobody holds or reports that there is none, \<open>finish\<close> returns one,
  and a recorded transaction does not change who holds what.
\<close>

locale key_pool =
  fixes invar :: "'ks \<Rightarrow> bool"
    and free :: "'ks \<Rightarrow> nat"
    and held :: "'ks \<Rightarrow> 'key set"
    and take :: "'ks \<Rightarrow> ((err + 'key) \<times> 'ks) exec"
    and finish :: "'key \<Rightarrow> 'ks \<Rightarrow> 'ks exec"
    and mark :: "'key \<Rightarrow> flow_id \<Rightarrow> u64 \<Rightarrow> 'ks \<Rightarrow> 'ks"
  assumes take_empty: "invar s \<Longrightarrow> free s = 0 \<Longrightarrow> take s = Ret (Inl ErrNoKeysAvailable, s)"
    and take_key: "invar s \<Longrightarrow> 0 < free s \<Longrightarrow> \<exists>k s'. take s = Ret (Inr k, s') \<and> invar s'
      \<and> k \<notin> held s \<and> held s' = insert k (held s) \<and> Suc (free s') = free s"
    and finish_key: "invar s \<Longrightarrow> k \<in> held s \<Longrightarrow> \<exists>s'. finish k s = Ret s' \<and> invar s'
      \<and> held s' = held s - {k} \<and> free s' = Suc (free s)"
    and mark_key: "invar s \<Longrightarrow> k \<in> held s \<Longrightarrow>
      invar (mark k t h s) \<and> held (mark k t h s) = held s \<and> free (mark k t h s) = free s"
begin

lemma take_never_panics: "invar s \<Longrightarrow> \<exists>r s'. take s = Ret (r, s') \<and> invar s'"
  using take_empty [of s] take_key [of s] by (cases "free s = 0") auto

lemma take_finish:
  assumes "invar s" "take s = Ret (Inr k, s')"
  shows "\<exists>s''. finish k s' = Ret s'' \<and> invar s'' \<and> held s'' = held s \<and> free s'' = free s"
proof -
  have "0 < free s" using assms take_empty [of s] by (cases "free s") auto
  with assms take_key [of s] have "invar s'" "k \<notin> held s" "held s' = insert k (held s)"
    "Suc (free s') = free s" by auto
  with finish_key [of s' k] show ?thesis by auto
qed

end

interpretation keystore: key_pool ks_ok AvailableKeys busy_keys Take Done SetLockMetadata
proof unfold_locales
  fix s assume "ks_ok s" "AvailableKeys s = 0"
  then show "Take s = Ret (Inl ErrNoKeysAvailable, s)" using Take_spec by blast
next
  fix s assume "ks_ok s" "0 < AvailableKeys s"
  moreover have "i \<in> free_keys s \<Longrightarrow> i \<notin> busy_keys s" for i
    by (simp add: free_keys_def busy_keys_def)
  ultimately show "\<exists>k s'. Take s = Ret (Inr k, s') \<and> ks_ok s' \<and> k \<notin> busy_keys s
      \<and> busy_keys s' = insert k (busy_keys s) \<and> Suc (AvailableKeys s') = AvailableKeys s"
    using Take_spec [of s] by blast
next
  fix s k assume "ks_ok s" "k \<in> busy_keys s"
  moreover from this have "k < ks_size s" by (simp add: busy_keys_def)
  ultimately show "\<exists>s'. Done k s = Ret s' \<and> ks_ok s' \<and> busy_keys s' = busy_keys s - {k}
      \<and> AvailableKeys s' = Suc (AvailableKeys s)"
    using Done_spec by blast
next
  fix s k t h assume "ks_ok s" "k \<in> busy_keys s"
  then show "ks_ok (SetLockMetadata k t h s) \<and> busy_keys (SetLockMetadata k t h s) = busy_keys s
      \<and> AvailableKeys (SetLockMetadata k t h s) = AvailableKeys s"
    using SetLockMetadata_spec [of "[]" "[]" s k] by (auto simp: busy_keys_def)
qed

text \<open>
  The contract \<^verbatim>\<open>KeyLock\<close> the event ingestion relies on: both notifications return, so
  that ingesting an event never waits for a key, and they keep the pool's invariant.
\<close>

locale key_lock =
  fixes invar :: "'ks \<Rightarrow> bool"
    and notify_tx :: "flow_id \<Rightarrow> 'ks \<Rightarrow> 'ks exec"
    and notify_block :: "BlockHeader \<Rightarrow> 'ks \<Rightarrow> 'ks exec"
  assumes notify_tx_ok: "invar s \<Longrightarrow> \<exists>s'. notify_tx t s = Ret s' \<and> invar s'"
    and notify_block_ok: "invar s \<Longrightarrow> \<exists>s'. notify_block b s = Ret s' \<and> invar s'"
begin

lemma notify_all_ok: "invar s \<Longrightarrow> \<exists>s'. efold notify_tx ts s = Ret s' \<and> invar s'"
proof (induction ts arbitrary: s)
  case (Cons t ts)
  then show ?case using notify_tx_ok [of s t] by auto
qed simp

end

lemma releasekeys_ok: "ks_ok ks \<Longrightarrow> \<exists>ks'. releasekeys ex h ts ks = Ret ks' \<and> ks_ok ks'"
  using releasekeys_unlocked [of ks ex h ts] by (auto simp: unlocked_def)

lemma NotifyTransaction_ok: "ks_ok ks \<Longrightarrow> \<exists>ks'. NotifyTransaction t ks = Ret ks' \<and> ks_ok ks'"
  using unsafeUnlockKey_spec [of ks t] by (auto simp: NotifyTransaction_def unlocked_def)

lemma NotifyBlock_ok: "ks_ok ks \<Longrightarrow> \<exists>ks'. NotifyBlock ex pick b ks = Ret ks' \<and> ks_ok ks'"
  using releasekeys_ok [of ks ex "bhHeight b" "[]"]
  by (auto simp: NotifyBlock_def) (auto simp: ks_inv_def)

interpretation keystore_lock: key_lock ks_ok NotifyTransaction "NotifyBlock ex pick"
  for ex :: u64 and pick :: bool
  by unfold_locales (rule NotifyTransaction_ok NotifyBlock_ok, assumption)+

lemma processLockedKeys_step_ok:
  assumes "ks_ok ks"
  shows "\<exists>ks'. processLockedKeys_step ex getResults ks = Ret ks' \<and> ks_ok ks'"
proof (cases "blockChan ks")
  case Nil
  with assms show ?thesis by (simp add: processLockedKeys_step_def)
next
  case (Cons b rest)
  with assms have "ks_ok (ks\<lparr>blockChan := rest\<rparr>)"
    by (simp add: ks_inv_def)
  then show ?thesis
    using Cons releasekeys_ok
    by (auto simp: processLockedKeys_step_def Let_def split: prod.splits option.splits)
qed

section \<open>Properties\<close>

text \<open>C4: In every interleaving of the atomic steps of \<open>Take\<close>, \<open>Done\<close> and the notifications
  that starts from a fresh key store, no \<open>Take\<close> can panic on a locked key, no \<open>Done\<close> can
  block on a full channel, no key is in two places, and no key is ever lost: the keys in
  use, on the channel and in transit are all of them.\<close>

theorem keystore_interleavings_safe:
  assumes "\<forall>k \<in> set keys. \<not> inUse k"
    and "New keys indexOnly coaLookup = Ret ks0"
    and "ks_step\<^sup>*\<^sup>* (ks0, [], []) (ks, T, R)"
  shows "(\<forall>i \<in> set T. fst (lock i ks)) \<and> (\<forall>i \<in> set R. release i ks \<noteq> Blocks)
    \<and> distinct (availableKeys ks @ T @ R)
    \<and> card (busy_keys ks) + length (availableKeys ks @ T @ R) = length keys"
proof -
  have "ks_ok ks0" "ks_size ks0 = length keys"
    using New_ok [of keys indexOnly coaLookup] assms(1,2) by (auto simp: ks_inv_def)
  then have inv: "ks_inv T R ks" and size: "ks_size ks = length keys"
    using ks_reachable_inv [OF assms(3)] ks_reachable_size [OF assms(3)] by auto
  have "\<forall>i \<in> set T. fst (lock i ks)" using lock_inv [OF inv] by fastforce
  moreover have "\<forall>i \<in> set R. release i ks \<noteq> Blocks" using release_inv [OF inv] by fastforce
  moreover have "distinct (availableKeys ks @ T @ R)" using inv unfolding ks_inv_def by blast
  moreover have "card (busy_keys ks) + length (availableKeys ks @ T @ R) = length keys"
    using ks_inv_counts [OF inv] card_free_busy [of ks] size by simp
  ultimately show ?thesis by blast
qed

lemma keystore_interleavings_safe_witness:
  "\<exists>ks0 ks. New [NewAccountKey 1 0, NewAccountKey 1 7] False True = Ret ks0
     \<and> ks_step\<^sup>*\<^sup>* (ks0, [], []) (ks, [0], []) \<and> fst (lock 0 ks)
     \<and> card (busy_keys ks) + length (availableKeys ks @ [0]) = 2"
proof -
  let ?keys = "[NewAccountKey 1 0, NewAccountKey 1 7]"
  obtain ks0 where ks0: "New ?keys False True = Ret ks0" "availableKeys ks0 = [0, 1]"
    by (simp add: New_def release_def)
  then have "ks_step\<^sup>*\<^sup>* (ks0, [], []) (ks0\<lparr>availableKeys := [1]\<rparr>, [0], [])"
    by (intro r_into_rtranclp take_recv)
  with keystore_interleavings_safe [OF _ ks0(1), of _ "[0]" "[]"] ks0(1) show ?thesis
    by (fastforce simp: NewAccountKey_def)
qed

text \<open>\<open>releasekeys\<close> returns for every block height and list of results, forgets exactly the
  reservations whose transaction is among the results or whose key has reached the
  expiration, puts exactly their keys back into the pool and keeps every other one in use.\<close>

theorem releasekeys_exact:
  assumes "ks_ok ks"
  shows "\<exists>ks'. releasekeys expiration h txResults ks = Ret ks' \<and> ks_ok ks'
    \<and> usedKeys ks' = filter (\<lambda>(t, i). t \<notin> set txResults \<and> \<not> expired expiration h (heap ks ! i)) (usedKeys ks)
    \<and> (\<forall>i < ks_size ks. inUse (heap ks' ! i) \<longleftrightarrow> inUse (heap ks ! i) \<and>
         \<not> (\<exists>t. (t, i) \<in> set (usedKeys ks) \<and> (t \<in> set txResults \<or> expired expiration h (heap ks ! i))))"
proof -
  let ?S = "set txResults \<union> expired_txs expiration h ks (usedKeys ks)"
  obtain ks' where ks': "releasekeys expiration h txResults ks = Ret ks'" "unlocked ?S ks ks'"
    using releasekeys_unlocked [OF assms] by blast
  have S: "t \<in> ?S \<longleftrightarrow> t \<in> set txResults \<or> expired expiration h (heap ks ! i)"
    if "(t, i) \<in> set (usedKeys ks)" for t i
    using that assms by (auto simp: expired_txs_def ks_inv_def in_set_iff_lookup)
  have "filter (\<lambda>(t, i). t \<notin> ?S) (usedKeys ks) =
      filter (\<lambda>(t, i). t \<notin> set txResults \<and> \<not> expired expiration h (heap ks ! i)) (usedKeys ks)"
    using S by (intro filter_cong) auto
  moreover have "inUse (heap ks' ! i) \<longleftrightarrow> inUse (heap ks ! i) \<and>
         \<not> (\<exists>t. (t, i) \<in> set (usedKeys ks) \<and> (t \<in> set txResults \<or> expired expiration h (heap ks ! i)))"
    if "i < ks_size ks" for i
  proof -
    have "i \<in> busy_keys ks' \<longleftrightarrow> i \<in> busy_keys ks \<and> \<not> (\<exists>t \<in> ?S. (t, i) \<in> set (usedKeys ks))"
      using ks'(2) by (auto simp: unlocked_def)
    also have "(\<exists>t \<in> ?S. (t, i) \<in> set (usedKeys ks)) \<longleftrightarrow> (\<exists>t. (t, i) \<in> set (usedKeys ks)
        \<and> (t \<in> set txResults \<or> expired expiration h (heap ks ! i)))"
      using S by blast
    finally show ?thesis
      using that ks'(2) by (simp add: busy_keys_def unlocked_def)
  qed
  ultimately show ?thesis
    using ks'(1) unlockedD [OF ks'(2)] by (intro exI [of _ ks']) simp
qed

lemma expired_iff:
  "lastLockedBlock k \<le> h \<Longrightarrow>
   expired ex h k \<longleftrightarrow> unat (lastLockedBlock k) + unat ex \<le> unat h"
  by (auto simp: expired_def word_le_nat_alt unat_sub_if')

definition one_key_in_use :: KeyStore where
  "one_key_in_use = \<lparr>heap = [\<lparr>Address = 1, Index = 0, lastLockedBlock = 1000, inUse = True\<rparr>],
     availableKeys = [], availableCap = 1, usedKeys = [(7, 0)], ks_size = 1, blockChan = [],
     ks_done = False, IndexOnly = False, COATxLookupEnabled = True\<rparr>"

lemma one_key_in_use_ok: "ks_ok one_key_in_use"
  by (auto simp: one_key_in_use_def ks_inv_def free_keys_def wf_map_def intro!: gr0I)

lemma releasekeys_exact_witness:
  "\<exists>ks'. releasekeys 600 1599 [] one_key_in_use = Ret ks' \<and> inUse (heap ks' ! 0)"
  using releasekeys_exact [OF one_key_in_use_ok, of 600 1599 "[]"]
  by (auto simp: one_key_in_use_def expired_def word_le_nat_alt)

text \<open>C38: The age of a reservation is an unsigned subtraction: a block whose height is below the
  reference height a key was locked at, by any distance a chain can show, releases the key at
  once although its transaction has not expired.\<close>

theorem releasekeys_underflow_releases:
  assumes "ks_ok ks" and "map_of (usedKeys ks) txID = Some i"
    and "h < lastLockedBlock (heap ks ! i)"
    and "unat (lastLockedBlock (heap ks ! i)) - unat h \<le> 2 ^ 64 - unat expiration"
  shows "\<exists>ks'. releasekeys expiration h [] ks = Ret ks' \<and> \<not> inUse (heap ks' ! i)
    \<and> map_of (usedKeys ks') txID = None"
proof -
  have in_used: "(txID, i) \<in> set (usedKeys ks)" using assms(2) by (rule lookup_in_set)
  have "unat h < unat (lastLockedBlock (heap ks ! i))" using assms(3) by (simp add: word_less_nat_alt)
  then have "expired expiration h (heap ks ! i)"
    using assms(4) unsigned_less [of expiration] by (simp add: expired_def word_le_nat_alt unat_sub_if')
  then have S: "txID \<in> expired_txs expiration h ks (usedKeys ks)"
    using in_used by (auto simp: expired_txs_def)
  obtain ks' where ks': "releasekeys expiration h [] ks = Ret ks'"
    "unlocked (expired_txs expiration h ks (usedKeys ks)) ks ks'"
    using releasekeys_unlocked [OF assms(1), of expiration h "[]"] by auto
  have "i \<notin> busy_keys ks'" "txID \<notin> fst ` set (usedKeys ks')"
    using S in_used unlockedD(2,3) [OF ks'(2)] by auto
  then show ?thesis
    using ks'(1) ks_inv_used [OF assms(1) in_used] unlockedD(4) [OF ks'(2)]
    by (simp add: busy_keys_def map_of_eq_None_iff)
qed

lemma releasekeys_underflow_releases_witness:
  "\<exists>ks'. releasekeys 600 985 [] one_key_in_use = Ret ks' \<and> \<not> inUse (heap ks' ! 0)"
  using releasekeys_underflow_releases [OF one_key_in_use_ok, of 7 0 985 600]
  by (auto simp: one_key_in_use_def)

end
