(* ===== verification/Evm_Models.thy ===== *)
theory Evm_Models
  imports Gateway_Errors
begin

text \<open>
  The data model of the gateway, package \<^verbatim>\<open>models\<close>: blocks, receipts, logs and
  transactions with their encodings, the sequential height counter, the publisher of
  streamed data and the status of an engine.  The encoders, hashes and signers of
  go-ethereum and flow-go are the fields of \<open>codec\<close>, an argument of every definition that
  calls them; \<open>codec_ok\<close> states the documented round trips the gateway relies on.
\<close>

section \<open>Data\<close>

text \<open>\<^verbatim>\<open>types.Block\<close> of flow-go, with the fields the gateway reads and writes.\<close>

record EvmBlock =
  ParentBlockHash :: hash
  Height :: u64
  Timestamp :: u64
  TotalSupply :: int
  ReceiptRoot :: hash
  TransactionHashRoot :: hash
  TotalGasUsed :: u64
  PrevRandao :: hash

record Block =
  evmBlock :: EvmBlock
  FixedHash :: hash
  TransactionHashes :: "hash list"
  AccessListHash :: "hash option"

record blockV0Fields =
  v0ParentBlockHash :: hash
  v0Height :: u64
  v0Timestamp :: u64
  v0TotalSupply :: int
  v0ReceiptRoot :: hash
  v0TransactionHashRoot :: hash
  v0TotalGasUsed :: u64

record blockV0 =
  v0Block :: blockV0Fields
  v0TransactionHashes :: "hash list"

record BlockEventPayload =
  bpHeight :: u64
  bpHash :: hash
  bpTimestamp :: u64
  bpTotalSupply :: int
  bpTotalGasUsed :: u64
  bpParentBlockHash :: hash
  bpReceiptRoot :: hash
  bpTransactionHashRoot :: hash
  bpPrevRandao :: hash

text \<open>\<^verbatim>\<open>gethTypes.Log\<close> and \<^verbatim>\<open>gethTypes.Receipt\<close>; a bloom filter is 2048 bits.\<close>

type_synonym bloom = "2048 word"

record Log =
  lAddress :: address
  lTopics :: "hash list"
  lData :: bytes
  lBlockNumber :: u64
  lBlockHash :: hash
  lBlockTimestamp :: u64
  lTxHash :: hash
  lTxIndex :: u64
  lIndex :: u64
  lRemoved :: bool

record GethReceipt =
  rType :: byte
  rPostState :: bytes
  rStatus :: u64
  rCumulativeGasUsed :: u64
  rBloom :: bloom
  rLogs :: "Log list"
  rTxHash :: hash
  rContractAddress :: address
  rGasUsed :: u64
  rEffectiveGasPrice :: int
  rBlobGasUsed :: u64
  rBlobGasPrice :: "int option"
  rBlockHash :: hash
  rBlockNumber :: int
  rTransactionIndex :: u64

record Receipt = GethReceipt +
  rRevertReason :: bytes
  rPrecompiledCalls :: bytes

record BloomsHeight =
  bhBlooms :: "bloom list"
  bhBloomHeight :: u64

text \<open>
  A go-ethereum transaction by the values of its accessors, and a flow-go direct call by
  its fields and the values of its own \<^verbatim>\<open>Hash\<close> and \<^verbatim>\<open>Transaction\<close> methods.
\<close>

record gethTx =
  gtHash :: hash
  gtTo :: "address option"
  gtData :: bytes
  gtNonce :: u64
  gtValue :: int
  gtType :: byte
  gtGas :: u64
  gtGasFeeCap :: int
  gtGasTipCap :: int
  gtGasPrice :: int
  gtChainId :: int
  gtSignature :: "int \<times> int \<times> int"

record directCall =
  dcHash :: hash
  dcSubType :: byte
  dcFrom :: address
  dcTo :: address
  dcData :: bytes
  dcNonce :: u64
  dcValue :: int
  dcGasLimit :: u64
  dcTxType :: byte
  dcEmptyToField :: bool
  dcSignature :: "int \<times> int \<times> int"

datatype Transaction = DirectCall directCall | TransactionCall gethTx

record TransactionEventPayload =
  tpHash :: hash
  tpIndex :: nat
  tpTransactionType :: byte
  tpPayload :: bytes
  tpErrorCode :: nat
  tpGasConsumed :: u64
  tpContractAddress :: string
  tpLogs :: bytes
  tpBlockHeight :: u64
  tpReturnedData :: bytes
  tpPrecompiledCalls :: bytes

datatype signer = HomesteadSigner | LatestSignerForChainID int

section \<open>Library functions\<close>

text \<open>
  What the package calls of go-ethereum and flow-go, on Cadence events of type \<open>'ev\<close>.
  The constants are flow-go's and go-ethereum's.
\<close>

record 'ev codec =
  rlp_block_enc :: "Block \<Rightarrow> err + bytes"
  rlp_block_dec :: "bytes \<Rightarrow> err + Block"
  rlp_v0_dec :: "bytes \<Rightarrow> err + blockV0"
  rlp_v0_fields_enc :: "blockV0Fields \<Rightarrow> err + bytes"
  Keccak256Hash :: "bytes \<Rightarrow> hash"
  evmBlock_Hash :: "EvmBlock \<Rightarrow> err + hash"
  rlp_receipts_enc :: "Receipt list \<Rightarrow> err + bytes"
  rlp_receipts_dec :: "bytes \<Rightarrow> err + Receipt list"
  rlp_blooms_enc :: "bloom list \<Rightarrow> err + bytes"
  rlp_blooms_dec :: "bytes \<Rightarrow> err + bloom list"
  BytesToID :: "bytes \<Rightarrow> flow_id"
  rlp_logs_dec :: "bytes \<Rightarrow> err + Log list"
  rlp_ListSize :: "nat \<Rightarrow> u64"
  CreateBloom :: "Log list \<Rightarrow> bloom"
  geth_MarshalBinary :: "gethTx \<Rightarrow> err + bytes"
  geth_UnmarshalBinary :: "bytes \<Rightarrow> err + gethTx"
  dc_Encode :: "directCall \<Rightarrow> err + bytes"
  DirectCallFromEncoded :: "bytes \<Rightarrow> err + directCall"
  geth_Sender :: "signer \<Rightarrow> gethTx \<Rightarrow> err + address"
  EffectiveGasTip_nil :: "gethTx \<Rightarrow> err + int"
  HexToAddress :: "string \<Rightarrow> address"
  DecodeBlockEventPayload :: "'ev \<Rightarrow> err + BlockEventPayload"
  DecodeTransactionEventPayload :: "'ev \<Rightarrow> err + TransactionEventPayload"
  tx_RootHash :: "hash list \<Rightarrow> hash"
  ev_String :: "'ev \<Rightarrow> string"
  DirectCallTxType :: byte
  DeployCallSubType :: byte
  ErrCodeNoError :: nat
  ExecutionErrCodeExecutionReverted :: nat
  ReceiptStatusFailed :: u64
  ReceiptStatusSuccessful :: u64
  EmptyBlockAccessListHash :: hash
  txpool_ValidateTransaction :: "gethTx \<Rightarrow> err option"

text \<open>
  What the RLP encoding keeps of a receipt: of a log only the address, the topics and the data, the other
  fields have the tag \<^verbatim>\<open>rlp:"-"\<close> and are zero after decoding; a big integer that is \<^verbatim>\<open>nil\<close> is encoded as zero.
\<close>

definition rlp_log :: "Log \<Rightarrow> Log" where
  "rlp_log l = \<lparr>lAddress = lAddress l, lTopics = lTopics l, lData = lData l, lBlockNumber = 0, lBlockHash = 0, lBlockTimestamp = 0,
     lTxHash = 0, lTxIndex = 0, lIndex = 0, lRemoved = False\<rparr>"

definition rlp_receipt :: "Receipt \<Rightarrow> Receipt" where
  "rlp_receipt r = r\<lparr>rLogs := map rlp_log (rLogs r), rBlobGasPrice := Some (case rBlobGasPrice r of None \<Rightarrow> 0 | Some p \<Rightarrow> p)\<rparr>"

lemma rlp_receipt_simps [simp]:
  "rTxHash (rlp_receipt r) = rTxHash r" "rBloom (rlp_receipt r) = rBloom r" "rBlockNumber (rlp_receipt r) = rBlockNumber r"
  "rLogs (rlp_receipt r) = map rlp_log (rLogs r)" "rBlockHash (rlp_receipt r) = rBlockHash r"
  "rTransactionIndex (rlp_receipt r) = rTransactionIndex r"
  by (simp_all add: rlp_receipt_def)

text \<open>
  Documented behaviour of the codecs: decoding gives back what was encoded, of receipts what their encoding
  keeps, a direct call is encoded with its type byte first, and no go-ethereum transaction has that type.
\<close>

definition codec_ok :: "'ev codec \<Rightarrow> bool" where
  "codec_ok c \<longleftrightarrow>
     (\<forall>b d. rlp_block_enc c b = Inr d \<longrightarrow> rlp_block_dec c d = Inr b)
   \<and> (\<forall>rs d. rlp_receipts_enc c rs = Inr d \<longrightarrow> rlp_receipts_dec c d = Inr (map rlp_receipt rs))
   \<and> (\<forall>bs d. rlp_blooms_enc c bs = Inr d \<longrightarrow> rlp_blooms_dec c d = Inr bs)
   \<and> (\<forall>i. BytesToID c (be 32 (unat i)) = i)
   \<and> (\<forall>tx d. geth_MarshalBinary c tx = Inr d \<longrightarrow> geth_UnmarshalBinary c d = Inr tx)
   \<and> (\<forall>dc d. dc_Encode c dc = Inr d \<longrightarrow>
        DirectCallFromEncoded c d = Inr dc \<and> (\<exists>ds. d = DirectCallTxType c # ds))"

section \<open>Blocks\<close>

definition EarliestBlockNumber :: int where "EarliestBlockNumber = -5"
definition SafeBlockNumber :: int where "SafeBlockNumber = -4"
definition FinalizedBlockNumber :: int where "FinalizedBlockNumber = -3"
definition LatestBlockNumber :: int where "LatestBlockNumber = -2"
definition PendingBlockNumber :: int where "PendingBlockNumber = -1"

text \<open>\<open>genesis\<close> is \<^verbatim>\<open>types.GenesisBlock(chainID)\<close> of flow-go.\<close>

definition GenesisBlock :: "EvmBlock \<Rightarrow> Block" where
  "GenesisBlock genesis =
     \<lparr>evmBlock = genesis, FixedHash = 0, TransactionHashes = [], AccessListHash = None\<rparr>"

definition ToBytes :: "'ev codec \<Rightarrow> Block \<Rightarrow> err + bytes" where
  "ToBytes c b = rlp_block_enc c b"

definition Hash :: "'ev codec \<Rightarrow> Block \<Rightarrow> err + hash" where
  "Hash c b = (if FixedHash b \<noteq> 0 then Inr (FixedHash b) else evmBlock_Hash c (evmBlock b))"

definition blockV0Fields_ToBytes :: "'ev codec \<Rightarrow> blockV0Fields \<Rightarrow> err + bytes" where
  "blockV0Fields_ToBytes c f = rlp_v0_fields_enc c f"

definition blockV0_Hash :: "'ev codec \<Rightarrow> blockV0 \<Rightarrow> err + hash" where
  "blockV0_Hash c b = rbind (blockV0Fields_ToBytes c (v0Block b)) (\<lambda>d. Inr (Keccak256Hash c d))"

definition decodeBlockBreakingChanges :: "'ev codec \<Rightarrow> bytes \<Rightarrow> err + Block" where
  "decodeBlockBreakingChanges c encoded =
     rbind (rlp_v0_dec c encoded) (\<lambda>b0.
     rbind (blockV0_Hash c b0) (\<lambda>blockHash.
     Inr \<lparr>evmBlock =
            \<lparr>ParentBlockHash = v0ParentBlockHash (v0Block b0), Height = v0Height (v0Block b0),
             Timestamp = v0Timestamp (v0Block b0), TotalSupply = v0TotalSupply (v0Block b0),
             ReceiptRoot = v0ReceiptRoot (v0Block b0),
             TransactionHashRoot = v0TransactionHashRoot (v0Block b0),
             TotalGasUsed = v0TotalGasUsed (v0Block b0), PrevRandao = 0\<rparr>,
          FixedHash = blockHash, TransactionHashes = v0TransactionHashes b0,
          AccessListHash = None\<rparr>))"

definition NewBlockFromBytes :: "'ev codec \<Rightarrow> bytes \<Rightarrow> err + Block" where
  "NewBlockFromBytes c data = (case rlp_block_dec c data of
      Inr b \<Rightarrow> Inr b
    | Inl _ \<Rightarrow> decodeBlockBreakingChanges c data)"

definition DecodeBlockEvent :: "'ev codec \<Rightarrow> 'ev \<Rightarrow> err + (Block \<times> BlockEventPayload)" where
  "DecodeBlockEvent c event =
     rbind (rwrap (\<lambda>e. Errorf ''failed to Cadence-decode EVM block event [%s]: %w''
               [FStr (ev_String c event)] [e])
             (DecodeBlockEventPayload c event)) (\<lambda>payload.
     Inr (\<lparr>evmBlock =
             \<lparr>ParentBlockHash = bpParentBlockHash payload, Height = bpHeight payload,
              Timestamp = bpTimestamp payload, TotalSupply = bpTotalSupply payload,
              ReceiptRoot = bpReceiptRoot payload,
              TransactionHashRoot = bpTransactionHashRoot payload,
              TotalGasUsed = bpTotalGasUsed payload, PrevRandao = bpPrevRandao payload\<rparr>,
           FixedHash = (if bpPrevRandao payload = 0 then bpHash payload else 0),
           TransactionHashes = [], AccessListHash = None\<rparr>, payload))"

lemma NewBlockFromBytes_ToBytes:
  "codec_ok c \<Longrightarrow> ToBytes c b = Inr d \<Longrightarrow> NewBlockFromBytes c d = Inr b"
  by (simp add: codec_ok_def ToBytes_def NewBlockFromBytes_def)

text \<open>A legacy block, and one decoded from the old storage format, keeps the hash it had.\<close>

lemma decodeBlockBreakingChanges_Hash:
  assumes "decodeBlockBreakingChanges c d = Inr b" "rlp_v0_dec c d = Inr b0"
    and "blockV0_Hash c b0 = Inr h" "h \<noteq> 0"
  shows "Hash c b = Inr h \<and> Height (evmBlock b) = v0Height (v0Block b0)"
  using assms by (auto simp: decodeBlockBreakingChanges_def Hash_def)

section \<open>Receipts\<close>

definition ToGethReceipt :: "Receipt \<Rightarrow> GethReceipt" where
  "ToGethReceipt r = GethReceipt.truncate r"

definition NewReceipt :: "GethReceipt \<Rightarrow> bytes \<Rightarrow> bytes \<Rightarrow> Receipt" where
  "NewReceipt receipt revertReason precompiledCalls =
     GethReceipt.extend receipt
       (Receipt.fields revertReason precompiledCalls)"

definition ReceiptsFromBytes :: "'ev codec \<Rightarrow> bytes \<Rightarrow> err + Receipt list" where
  "ReceiptsFromBytes c data =
     rwrap (\<lambda>e. Errorf ''failed to RLP-decode block receipts [%x] %w'' [] [e]) (rlp_receipts_dec c data)"

lemma ToGethReceipt_NewReceipt: "ToGethReceipt (NewReceipt r rr pc) = r"
  by (simp add: ToGethReceipt_def NewReceipt_def GethReceipt.defs Receipt.defs)

lemma ReceiptsFromBytes_enc:
  "codec_ok c \<Longrightarrow> rlp_receipts_enc c rs = Inr d \<Longrightarrow> ReceiptsFromBytes c d = Inr (map rlp_receipt rs)"
  by (simp add: codec_ok_def ReceiptsFromBytes_def)

section \<open>Transactions\<close>

definition TxSlotSize :: nat where "TxSlotSize = 32 * 1024"
definition TxMaxSize :: nat where "TxMaxSize = 4 * TxSlotSize"
definition BaseFeePerGas :: int where "BaseFeePerGas = 1"

definition DeriveTxSender :: "'ev codec \<Rightarrow> gethTx \<Rightarrow> err + address" where
  "DeriveTxSender c tx =
     rwrap (\<lambda>e. Errorf ''failed to derive the sender: %w'' [] [e])
       (geth_Sender c (if gtChainId tx \<noteq> 0 then LatestSignerForChainID (gtChainId tx)
                       else HomesteadSigner) tx)"

fun tx_Hash :: "Transaction \<Rightarrow> hash" where
  "tx_Hash (DirectCall dc) = dcHash dc"
| "tx_Hash (TransactionCall tc) = gtHash tc"

fun RawSignatureValues :: "Transaction \<Rightarrow> int \<times> int \<times> int" where
  "RawSignatureValues (DirectCall dc) = dcSignature dc"
| "RawSignatureValues (TransactionCall tc) = gtSignature tc"

fun From :: "'ev codec \<Rightarrow> Transaction \<Rightarrow> err + address" where
  "From c (DirectCall dc) = Inr (dcFrom dc)"
| "From c (TransactionCall tc) = DeriveTxSender c tc"

fun To :: "'ev codec \<Rightarrow> Transaction \<Rightarrow> address option" where
  "To c (DirectCall dc) =
     (if dcSubType dc = DeployCallSubType c then None
      else if \<not> dcEmptyToField dc then Some (dcTo dc) else None)"
| "To c (TransactionCall tc) = gtTo tc"

fun Data :: "Transaction \<Rightarrow> bytes" where
  "Data (DirectCall dc) = dcData dc"
| "Data (TransactionCall tc) = gtData tc"

fun Nonce :: "Transaction \<Rightarrow> u64" where
  "Nonce (DirectCall dc) = dcNonce dc"
| "Nonce (TransactionCall tc) = gtNonce tc"

fun Value :: "Transaction \<Rightarrow> int" where
  "Value (DirectCall dc) = dcValue dc"
| "Value (TransactionCall tc) = gtValue tc"

fun Type :: "Transaction \<Rightarrow> byte" where
  "Type (DirectCall dc) = dcTxType dc"
| "Type (TransactionCall tc) = gtType tc"

fun Gas :: "Transaction \<Rightarrow> u64" where
  "Gas (DirectCall dc) = dcGasLimit dc"
| "Gas (TransactionCall tc) = gtGas tc"

fun GasFeeCap :: "Transaction \<Rightarrow> int" where
  "GasFeeCap (DirectCall dc) = 0"
| "GasFeeCap (TransactionCall tc) = (if gtGasFeeCap tc = 0 then BaseFeePerGas else gtGasFeeCap tc)"

fun GasTipCap :: "Transaction \<Rightarrow> int" where
  "GasTipCap (DirectCall dc) = 0"
| "GasTipCap (TransactionCall tc) = (if gtGasTipCap tc = 0 then BaseFeePerGas else gtGasTipCap tc)"

fun GasPrice :: "Transaction \<Rightarrow> int" where
  "GasPrice (DirectCall dc) = BaseFeePerGas"
| "GasPrice (TransactionCall tc) = (if gtGasPrice tc = 0 then BaseFeePerGas else gtGasPrice tc)"

fun MarshalBinary :: "'ev codec \<Rightarrow> Transaction \<Rightarrow> err + bytes" where
  "MarshalBinary c (DirectCall dc) = dc_Encode c dc"
| "MarshalBinary c (TransactionCall tc) =
     rbind (geth_MarshalBinary c tc) (\<lambda>encoded. Inr (gtType tc # encoded))"

definition DirectCall_Size :: "'ev codec \<Rightarrow> directCall \<Rightarrow> u64" where
  "DirectCall_Size c dc = (case MarshalBinary c (DirectCall dc) of
      Inl _ \<Rightarrow> 0
    | Inr encoded \<Rightarrow> rlp_ListSize c (length encoded))"

text \<open>\<^verbatim>\<open>value[0]\<close> panics on an empty slice.\<close>

definition UnmarshalTransaction :: "'ev codec \<Rightarrow> bytes \<Rightarrow> (err + Transaction) exec" where
  "UnmarshalTransaction c value = (case value of
      [] \<Rightarrow> Panics ''index out of range [0] with length 0''
    | t # rest \<Rightarrow> Ret (
        if t = DirectCallTxType c then
          rbind (rwrap (\<lambda>e. Errorf ''failed to RLP-decode direct call [%x]: %w'' [] [e])
                  (DirectCallFromEncoded c value)) (\<lambda>dc. Inr (DirectCall dc))
        else
          rbind (rwrap (\<lambda>e. Errorf ''failed to RLP-decode transaction [%x]: %w'' [] [e])
                  (geth_UnmarshalBinary c rest)) (\<lambda>tx. Inr (TransactionCall tx))))"

lemma UnmarshalTransaction_MarshalBinary:
  assumes "codec_ok c" "MarshalBinary c tx = Inr d"
    and "\<And>tc. tx = TransactionCall tc \<Longrightarrow> gtType tc \<noteq> DirectCallTxType c"
  shows "UnmarshalTransaction c d = Ret (Inr tx)"
proof (cases tx)
  case (DirectCall dc)
  with assms show ?thesis by (fastforce simp: codec_ok_def UnmarshalTransaction_def)
next
  case (TransactionCall tc)
  with assms show ?thesis by (auto simp: codec_ok_def UnmarshalTransaction_def gw_result)
qed

text \<open>
  \<^verbatim>\<open>models.ValidateTransaction\<close>; \<open>txpool_ValidateTransaction\<close> is go-ethereum's check with the
  header, signer and options fixed by the caller.
\<close>

definition ValidateTransaction :: "'ev codec \<Rightarrow> gethTx \<Rightarrow> err option" where
  "ValidateTransaction c tx =
     (if gtTo tx = None \<and> length (gtData tx) = 0 then
        (if gtValue tx > 0
         then Some (New_err ''transaction will create a contract with value but empty code'')
         else Some (New_err ''transaction will create a contract with empty code''))
      else if gtTo tx \<noteq> None \<and> gtTo tx = Some 0
      then Some (New_err ''transaction recipient is the zero address'')
      else txpool_ValidateTransaction c tx)"

definition DecodeTransactionEvent ::
    "'ev codec \<Rightarrow> 'ev \<Rightarrow> err + (Transaction \<times> Receipt \<times> TransactionEventPayload)" where
  "DecodeTransactionEvent c event =
     rbind (rwrap (\<lambda>e. Errorf ''failed to Cadence decode transaction event [%s]: %w''
               [FStr (ev_String c event)] [e])
             (DecodeTransactionEventPayload c event)) (\<lambda>txEvent.
     rbind (if tpLogs txEvent \<noteq> []
            then rwrap (\<lambda>e. Errorf ''failed to RLP-decode logs: %w'' [] [e]) (rlp_logs_dec c (tpLogs txEvent))
            else Inr []) (\<lambda>logs.
     let gethReceipt =
          \<lparr>rType = tpTransactionType txEvent, rPostState = [],
           rStatus = (if tpErrorCode txEvent = ErrCodeNoError c then ReceiptStatusSuccessful c
                      else ReceiptStatusFailed c),
           rCumulativeGasUsed = 0, rBloom = CreateBloom c logs, rLogs = logs,
           rTxHash = tpHash txEvent, rContractAddress = HexToAddress c (tpContractAddress txEvent),
           rGasUsed = tpGasConsumed txEvent, rEffectiveGasPrice = 0, rBlobGasUsed = 0,
           rBlobGasPrice = None, rBlockHash = 0, rBlockNumber = sint (tpBlockHeight txEvent),
           rTransactionIndex = of_nat (tpIndex txEvent)\<rparr>;
         revertReason =
           (if tpErrorCode txEvent = ExecutionErrCodeExecutionReverted c
            then tpReturnedData txEvent else []);
         receipt = NewReceipt gethReceipt revertReason (tpPrecompiledCalls txEvent)
     in if tpTransactionType txEvent = DirectCallTxType c then
          rbind (rwrap (\<lambda>e. Errorf ''failed to RLP-decode direct call [%x]: %w'' [] [e])
                  (DirectCallFromEncoded c (tpPayload txEvent))) (\<lambda>directCall.
          Inr (DirectCall directCall, receipt\<lparr>rEffectiveGasPrice := BaseFeePerGas\<rparr>, txEvent))
        else
          rbind (rwrap (\<lambda>e. Errorf ''failed to RLP-decode transaction [%x]: %w'' [] [e])
                  (geth_UnmarshalBinary c (tpPayload txEvent))) (\<lambda>gethTx.
          rbind (if gtGasPrice gethTx = 0 then Inr BaseFeePerGas else EffectiveGasTip_nil c gethTx)
            (\<lambda>price. Inr (TransactionCall gethTx, receipt\<lparr>rEffectiveGasPrice := price\<rparr>, txEvent)))))"

section \<open>A concrete codec\<close>

text \<open>
  A codec over tables of known values, which shows that the documented behaviour of
  \<open>codec_ok\<close> can hold: an entry is encoded as its position.
\<close>

definition encode_in :: "'a list \<Rightarrow> 'a \<Rightarrow> err + bytes" where
  "encode_in xs x =
     (let i = length (takeWhile (\<lambda>y. y \<noteq> x) xs) in
      if i < length xs \<and> i < 256 then Inr [of_nat i] else Inl (New_err ''rlp: type not supported''))"

definition decode_in :: "'a list \<Rightarrow> bytes \<Rightarrow> err + 'a" where
  "decode_in xs d = (case d of
      [i] \<Rightarrow> if unat i < length xs then Inr (xs ! unat i) else Inl (New_err ''rlp: invalid input'')
    | _ \<Rightarrow> Inl (New_err ''rlp: expected input''))"

lemma decode_encode_in: "encode_in xs x = Inr d \<Longrightarrow> decode_in xs d = Inr x"
proof -
  let ?i = "length (takeWhile (\<lambda>y. y \<noteq> x) xs)"
  assume "encode_in xs x = Inr d"
  then have i: "?i < length xs" "?i < 256" "d = [of_nat ?i]"
    by (auto simp: encode_in_def Let_def split: if_splits)
  moreover have "unat (of_nat ?i :: byte) = ?i" using i(2) by (simp add: unat_of_nat)
  moreover have "xs ! ?i = x" using nth_length_takeWhile [OF i(1)] by simp
  ultimately show ?thesis by (simp add: decode_in_def)
qed

definition ref_codec :: "Block list \<Rightarrow> Receipt list list \<Rightarrow> gethTx list \<Rightarrow> directCall list \<Rightarrow> 'ev codec" where
  "ref_codec bs rs ts ds =
     \<lparr>rlp_block_enc = encode_in bs, rlp_block_dec = decode_in bs,
      rlp_v0_dec = (\<lambda>_. Inl (New_err ''rlp: expected input'')), rlp_v0_fields_enc = (\<lambda>_. Inr []),
      Keccak256Hash = (\<lambda>d. of_nat (unbe d + 1)), evmBlock_Hash = (\<lambda>b. Inr (of_nat (unat (Height b) + 1))),
      rlp_receipts_enc = encode_in rs, rlp_receipts_dec = (\<lambda>d. rbind (decode_in rs d) (\<lambda>rs. Inr (map rlp_receipt rs))),
      rlp_blooms_enc = encode_in (map (map rBloom) rs), rlp_blooms_dec = decode_in (map (map rBloom) rs),
      BytesToID = (\<lambda>d. of_nat (unbe d)), rlp_logs_dec = (\<lambda>_. Inr []), rlp_ListSize = of_nat, CreateBloom = (\<lambda>_. 0),
      geth_MarshalBinary = encode_in ts, geth_UnmarshalBinary = decode_in ts,
      dc_Encode = (\<lambda>dc. rbind (encode_in ds dc) (\<lambda>d. Inr (255 # d))),
      DirectCallFromEncoded = (\<lambda>d. decode_in ds (tl d)),
      geth_Sender = (\<lambda>_ tx. Inr (of_nat (unat (gtHash tx)))), EffectiveGasTip_nil = (\<lambda>tx. Inr (gtGasPrice tx)),
      HexToAddress = (\<lambda>_. 0), DecodeBlockEventPayload = (\<lambda>_. Inl (New_err ''not a block event'')),
      DecodeTransactionEventPayload = (\<lambda>_. Inl (New_err ''not a transaction event'')),
      tx_RootHash = (\<lambda>hs. of_nat (length hs)), ev_String = (\<lambda>_. []), DirectCallTxType = 255,
      DeployCallSubType = 4, ErrCodeNoError = 0, ExecutionErrCodeExecutionReverted = 306,
      ReceiptStatusFailed = 0, ReceiptStatusSuccessful = 1, EmptyBlockAccessListHash = 9,
      txpool_ValidateTransaction = (\<lambda>_. None)\<rparr>"

lemma ref_codec_ok: "codec_ok (ref_codec bs rs ts ds)"
proof -
  have "unat (i :: flow_id) < 256 ^ 32" for i
    using unsigned_less [of i] by simp
  then have "unbe (be 32 (unat i)) = unat i" for i :: flow_id
    by (rule unbe_be)
  then show ?thesis
    by (auto simp: codec_ok_def ref_codec_def gw_result decode_encode_in)
qed

end
