(* ===== verification/Sync_Models.thy ===== *)
theory Sync_Models
  imports Gateway_Errors
begin

text \<open>
  The small concurrent objects of package \<^verbatim>\<open>models\<close>: the sequential height counter
  (\<^verbatim>\<open>sequential_height.go\<close>), the publisher of streamed data with its subscriptions
  (\<^verbatim>\<open>stream.go\<close>), and the status of an engine (\<^verbatim>\<open>engine.go\<close>).
\<close>

section \<open>Sequential height\<close>

text \<open>
  One round of the compare-and-swap loop of \<open>Increment\<close> that read \<open>current\<close>: the error, or
  the value it tries to store.
\<close>

definition Increment_guard :: "u64 \<Rightarrow> u64 \<Rightarrow> bool" where
  "Increment_guard nextHeight current \<longleftrightarrow> nextHeight < current \<or> nextHeight - current > 1"

text \<open>
  \<open>seen\<close> are the heights other goroutines store between a load and the swap that follows
  it, one per round; the swap succeeds as soon as the stored height is the one loaded.
  The result is the height replaced and the height stored.
\<close>

fun Increment_loop :: "u64 \<Rightarrow> u64 \<Rightarrow> u64 list \<Rightarrow> err + (u64 \<times> u64)" where
  "Increment_loop nextHeight current [] =
     (if Increment_guard nextHeight current then Inl ErrInvalidHeight else Inr (current, nextHeight))"
| "Increment_loop nextHeight current (h # seen) =
     (if Increment_guard nextHeight current then Inl ErrInvalidHeight
      else if h = current then Inr (current, nextHeight)
      else Increment_loop nextHeight h seen)"

text \<open>Without interference the loop runs once.\<close>

definition Increment :: "u64 \<Rightarrow> u64 \<Rightarrow> err + u64" where
  "Increment nextHeight s =
     (if Increment_guard nextHeight s then Inl ErrInvalidHeight else Inr nextHeight)"

lemma Increment_guard_iff:
  "\<not> Increment_guard n c \<longleftrightarrow> unat n = unat c \<or> unat n = Suc (unat c)"
proof -
  have "n - c > 1 \<longleftrightarrow> unat n - unat c > 1" if "c \<le> n"
    using that by (simp add: word_less_nat_alt word_le_nat_alt unat_sub_if')
  then show ?thesis
    by (auto simp: Increment_guard_def word_less_nat_alt word_le_nat_alt not_less)
qed

lemma Increment_loop_step:
  "Increment_loop n c seen = Inr (old, new) \<Longrightarrow> new = n \<and> (unat new = unat old \<or> unat new = Suc (unat old))"
  by (induction n c seen rule: Increment_loop.induct)
    (auto simp: Increment_guard_iff [symmetric] split: if_splits)

section \<open>Publisher and subscriptions\<close>

text \<open>
  A subscription is its callback and its error channel, which holds one error; the
  subscribers are keyed by their identity.  What a callback sends is not part of its result, so a subscription
  also keeps the data its callback was called with, in order.
\<close>

record 'a Subscription =
  callback :: "'a \<Rightarrow> err option"
  sub_err :: "err list"
  sub_calls :: "'a list"

type_synonym 'a Publisher = "(nat, 'a Subscription) gomap"

definition NewSubscription :: "('a \<Rightarrow> err option) \<Rightarrow> 'a Subscription" where
  "NewSubscription cb = \<lparr>callback = cb, sub_err = [], sub_calls = []\<rparr>"

definition NewPublisher :: "'a Publisher" where
  "NewPublisher = []"

definition Notify :: "'a \<Rightarrow> 'a Subscription \<Rightarrow> 'a Subscription" where
  "Notify data b0 = (let b = b0\<lparr>sub_calls := sub_calls b0 @ [data]\<rparr> in case callback b0 data of
      None \<Rightarrow> b
    | Some e \<Rightarrow> if length (sub_err b) < 1 then b\<lparr>sub_err := sub_err b @ [e]\<rparr> else b)"

definition Publish :: "'a \<Rightarrow> 'a Publisher \<Rightarrow> 'a Publisher" where
  "Publish data p = map (\<lambda>(i, s). (i, Notify data s)) p"

definition Subscribe :: "nat \<Rightarrow> 'a Subscription \<Rightarrow> 'a Publisher \<Rightarrow> 'a Publisher" where
  "Subscribe i s p = AList.update i s p"

definition Unsubscribe :: "nat \<Rightarrow> 'a Publisher \<Rightarrow> 'a Publisher" where
  "Unsubscribe i p = AList.delete i p"

lemma lookup_Publish: "map_of (Publish data p) i = map_option (Notify data) (map_of p i)"
  by (induction p) (auto simp: Publish_def)

text \<open>A subscriber keeps the first error of its callback, whatever is published later.\<close>

definition first_error :: "('a \<Rightarrow> err option) \<Rightarrow> 'a list \<Rightarrow> err list" where
  "first_error cb ds = (case List.map_filter cb ds of [] \<Rightarrow> [] | e # _ \<Rightarrow> [e])"

lemma Notify_fold:
  "sub_err s = first_error (callback s) ds0 \<Longrightarrow>
   sub_err (fold Notify ds s) = first_error (callback s) (ds0 @ ds)
   \<and> callback (fold Notify ds s) = callback s \<and> sub_calls (fold Notify ds s) = sub_calls s @ ds"
proof (induction ds arbitrary: s ds0)
  case Nil
  then show ?case by simp
next
  case (Cons d ds)
  have "callback (Notify d s) = callback s" "sub_calls (Notify d s) = sub_calls s @ [d]"
    by (simp_all add: Notify_def Let_def split: option.split)
  moreover have "sub_err (Notify d s) = first_error (callback s) (ds0 @ [d])"
    using Cons.prems
    by (auto simp: Notify_def Let_def first_error_def map_filter_def
        split: option.splits list.splits)
  ultimately show ?case
    using Cons.IH [of "Notify d s" "ds0 @ [d]"] by simp
qed

lemma lookup_Publish_fold:
  "map_of (fold Publish ds p) i = map_option (fold Notify ds) (map_of p i)"
  by (induction ds arbitrary: p) (auto simp: lookup_Publish option.map_comp comp_def option.map_id)

section \<open>Engine status\<close>

text \<open>The three signal channels, by whether they are closed; closing one twice panics.\<close>

record EngineStatus =
  es_done :: bool
  es_ready :: bool
  es_stop :: bool

definition NewEngineStatus :: EngineStatus where
  "NewEngineStatus = \<lparr>es_done = False, es_ready = False, es_stop = False\<rparr>"

definition MarkReady :: "EngineStatus \<Rightarrow> EngineStatus exec" where
  "MarkReady e = (if es_ready e then Panics ''close of closed channel'' else Ret (e\<lparr>es_ready := True\<rparr>))"

definition MarkDone :: "EngineStatus \<Rightarrow> EngineStatus exec" where
  "MarkDone e = (if es_done e then Panics ''close of closed channel'' else Ret (e\<lparr>es_done := True\<rparr>))"

definition MarkStopped :: "EngineStatus \<Rightarrow> EngineStatus exec" where
  "MarkStopped e = (if es_stop e then Panics ''close of closed channel'' else Ret (e\<lparr>es_stop := True\<rparr>))"

section \<open>Properties\<close>

text \<open>Whatever other goroutines store between its load and its swap, a call of \<open>Increment\<close>
  that returns without error moved the height by zero or one, to the requested value; it
  returns an error only if some height it read is not the requested one or its predecessor.\<close>

theorem Increment_sequential:
  "case Increment_loop nextHeight current seen of
     Inr (old, new) \<Rightarrow> new = nextHeight \<and> (unat new = unat old \<or> unat new = Suc (unat old))
   | Inl e \<Rightarrow> e = ErrInvalidHeight \<and>
       (\<exists>h \<in> set (current # seen). unat nextHeight \<noteq> unat h \<and> unat nextHeight \<noteq> Suc (unat h))"
proof (induction nextHeight current seen rule: Increment_loop.induct)
  case (1 nextHeight current)
  then show ?case using Increment_guard_iff [of nextHeight current] by auto
next
  case (2 nextHeight current h seen)
  show ?case
  proof (cases "Increment_guard nextHeight current")
    case True
    then show ?thesis using Increment_guard_iff [of nextHeight current] by auto
  next
    case False
    then show ?thesis
      using Increment_guard_iff [of nextHeight current] 2
      by (auto split: sum.splits)
  qed
qed

text \<open>After any sequence of published values, the callback of a subscriber was called with exactly these
  values in order, and the error channel of a subscriber holds exactly
  the first error its callback returned: later errors neither block the publisher nor
  replace it, and subscribers do not see each other's errors.\<close>

theorem Publish_first_error:
  "map_of (fold Publish ds (Subscribe i (NewSubscription cb) p)) i =
     Some \<lparr>callback = cb, sub_err = first_error cb ds, sub_calls = ds\<rparr>"
proof -
  let ?s = "NewSubscription cb"
  have "sub_err (fold Notify ds ?s) = first_error cb ds \<and> callback (fold Notify ds ?s) = cb \<and> sub_calls (fold Notify ds ?s) = ds"
    using Notify_fold [of ?s "[]" ds] by (simp add: NewSubscription_def first_error_def map_filter_def)
  moreover have "map_of (fold Publish ds (Subscribe i ?s p)) i = Some (fold Notify ds ?s)"
    by (simp add: lookup_Publish_fold Subscribe_def)
  ultimately show ?thesis by (simp add: Subscription.equality)
qed

end
