(* ===== verification/Single_Tx_Pool.thy ===== *)
theory Single_Tx_Pool
  imports Key_Store Evm_Models
begin

text \<open>
  The transaction pool that submits at once, \<^verbatim>\<open>services/requester/single_tx_pool.go\<close>, with the
  helpers of \<^verbatim>\<open>tx_pool.go\<close> and \<^verbatim>\<open>utils.go\<close>.  A Flow transaction is built from the script and
  its Cadence arguments, signed with a key of the key store, and sent.  The Flow SDK and the
  access node are the fields of \<open>pool_env\<close>; the key operations are arguments of
  \<open>buildTransaction\<close>, which the pools instantiate with the key store.
\<close>

section \<open>Environment and state\<close>

datatype cadence_value = CString string | CArray "cadence_value list"

text \<open>
  \<open>GetTransactionResult n\<close> is the answer to the \<open>n\<close>-th poll of a transaction's status: whether
  it is sealed and the error of its execution.  \<open>max_polls\<close> is how often the retry library
  calls its function within one minute at one second each.
\<close>

record ('tx, 'ev) pool_env =
  codec_of :: "'ev codec"
  api_of :: "'tx flow_tx_api"
  newTransaction :: "string \<Rightarrow> flow_id \<Rightarrow> 'tx"
  AddArgument :: "cadence_value \<Rightarrow> 'tx \<Rightarrow> err + 'tx"
  NewString :: "string \<Rightarrow> err + cadence_value"
  EncodeToString :: "bytes \<Rightarrow> string"
  GetAccountKeyAtLatestBlock :: "flow_address \<Rightarrow> nat \<Rightarrow> err + SdkAccountKey option"
  SendTransaction :: "'tx \<Rightarrow> err option"
  GetTransactionResult :: "nat \<Rightarrow> flow_id \<Rightarrow> err + (bool \<times> err option)"
  Error :: "err \<Rightarrow> string"
  max_polls :: nat
  runTxScript :: string
  systemContracts :: "(string \<times> string) list"
  CoinbaseHex :: string
  COAAddress :: flow_address
  TxSealValidation :: bool

record 'ks SingleTxPool =
  st_pool :: "(hash, gethTx) gomap"
  st_keystore :: 'ks
  st_referenceBlock :: BlockHeader
  st_published :: "gethTx list"
  st_dropped :: nat

section \<open>Helpers\<close>

text \<open>\<^verbatim>\<open>strings.ReplaceAll\<close> for a non-empty old string: non-overlapping matches from the left.\<close>

function ReplaceAll :: "string \<Rightarrow> string \<Rightarrow> string \<Rightarrow> string" where
  "ReplaceAll old new s =
     (if old = [] \<or> s = [] then s
      else if take (length old) s = old then new @ ReplaceAll old new (drop (length old) s)
      else hd s # ReplaceAll old new (tl s))"
  by auto
termination
  by (relation "measure (\<lambda>(old, new, s). length s)") auto

declare ReplaceAll.simps [simp del]

definition replaceAddresses :: "(string \<times> string) list \<Rightarrow> string \<Rightarrow> string" where
  "replaceAddresses contracts script =
     fold (\<lambda>(name, addr) s. ReplaceAll (''import '' @ name) (''import '' @ name @ '' from '' @ addr) s)
       contracts script"

text \<open>
  The regular expression \<^verbatim>\<open>evm_error=(.*);\<close>: the leftmost position where the literal is
  followed, on its line, by a semicolon; the group extends to the last such semicolon.
\<close>

definition upto_last_semicolon :: "string \<Rightarrow> string option" where
  "upto_last_semicolon s =
     (if CHR '';'' \<in> set s then Some (rev (tl (dropWhile (\<lambda>ch. ch \<noteq> CHR '';'') (rev s)))) else None)"

fun find_evm_error :: "string \<Rightarrow> string option" where
  "find_evm_error [] = None"
| "find_evm_error (ch # s) =
     (let here = (if take 10 (ch # s) = ''evm_error=''
                  then upto_last_semicolon (takeWhile (\<lambda>ch. ch \<noteq> CHR 0x0A) (drop 10 (ch # s)))
                  else None)
      in case here of Some m \<Rightarrow> Some m | None \<Rightarrow> find_evm_error s)"

definition parseInvalidError :: "(err \<Rightarrow> string) \<Rightarrow> err \<Rightarrow> err option" where
  "parseInvalidError error e = map_option NewFailedTransactionError (find_evm_error (error e))"

lemma upto_last_semicolon_append:
  "CHR '';'' \<notin> set post \<Longrightarrow> upto_last_semicolon (m @ CHR '';'' # post) = Some m"
proof -
  assume "CHR '';'' \<notin> set post"
  then have "dropWhile (\<lambda>ch. ch \<noteq> CHR '';'') (rev post @ CHR '';'' # rev m) = CHR '';'' # rev m"
    by (subst dropWhile_append2) auto
  then show ?thesis by (simp add: upto_last_semicolon_def)
qed

text \<open>
  The reason of the Cadence script is recovered from the message it is embedded in,
  whenever no match starts before it.
\<close>

lemma find_evm_error_embedded:
  assumes "CHR 0x0A \<notin> set m" "CHR '';'' \<notin> set (takeWhile (\<lambda>ch. ch \<noteq> CHR 0x0A) post)"
    and "CHR ''e'' \<notin> set pre"
  shows "find_evm_error (pre @ ''evm_error='' @ m @ CHR '';'' # post) = Some m"
  using assms(3)
proof (induction pre)
  case Nil
  have "takeWhile (\<lambda>ch. ch \<noteq> CHR 0x0A) (m @ CHR '';'' # post) =
      m @ CHR '';'' # takeWhile (\<lambda>ch. ch \<noteq> CHR 0x0A) post"
    using assms(1) by (subst takeWhile_append2) auto
  then show ?case
    using upto_last_semicolon_append [OF assms(2), of m] by (simp add: Let_def)
next
  case (Cons ch pre)
  then have "ch \<noteq> CHR ''e''" by auto
  with Cons show ?case by (simp add: Let_def numeral_eq_Suc)
qed

section \<open>Building and sending\<close>

text \<open>
  \<open>key_of\<close> reads a key object, \<open>takeK\<close>, \<open>finishK\<close> and \<open>markK\<close> are \<^verbatim>\<open>Take\<close>, \<^verbatim>\<open>Done\<close> and
  \<^verbatim>\<open>SetLockMetadata\<close> of the key store.
\<close>

definition buildTransaction ::
    "('tx, 'ev) pool_env \<Rightarrow> ('key \<Rightarrow> 'ks \<Rightarrow> AccountKey) \<Rightarrow> ('ks \<Rightarrow> ((err + 'key) \<times> 'ks) exec)
     \<Rightarrow> ('key \<Rightarrow> 'ks \<Rightarrow> 'ks exec) \<Rightarrow> ('key \<Rightarrow> flow_id \<Rightarrow> u64 \<Rightarrow> 'ks \<Rightarrow> 'ks)
     \<Rightarrow> BlockHeader \<Rightarrow> string \<Rightarrow> cadence_value list \<Rightarrow> 'ks \<Rightarrow> ((err + 'tx) \<times> 'ks) exec" where
  "buildTransaction env key_of takeK finishK markK referenceBlockHeader script args ks =
     (case rfold (\<lambda>arg tx. rwrap (\<lambda>e. Errorf ''failed to add argument: %s, with %w'' [] [e])
                             (AddArgument env arg tx))
             args (newTransaction env script (bhID referenceBlockHeader)) of
        Inl e \<Rightarrow> Ret (Inl e, ks)
      | Inr flowTx \<Rightarrow>
         ebind (takeK ks) (\<lambda>(r, ks1).
           case r of
             Inl e \<Rightarrow> Ret (Inl e, ks1)
           | Inr accKey \<Rightarrow>
              (case rbind (GetAccountKeyAtLatestBlock env (COAAddress env) (Index (key_of accKey ks1)))
                      (\<lambda>accountKey. SetProposerPayerAndSign (api_of env) (key_of accKey ks1) flowTx
                                      (COAAddress env) accountKey) of
                 Inl e \<Rightarrow> ebind (finishK accKey ks1) (\<lambda>ks2. Ret (Inl e, ks2))
               | Inr signedTx \<Rightarrow>
                  Ret (Inr signedTx,
                       markK accKey (tx_ID (api_of env) signedTx) (bhHeight referenceBlockHeader) ks1))))"

context key_pool
begin

text \<open>
  Building a transaction never panics or blocks.  A failed build holds no key; a
  successful one holds exactly one more key than before.
\<close>

lemma buildTransaction_keys:
  assumes "invar ks"
  shows "\<exists>r ks'. buildTransaction env key_of take finish mark hdr script args ks = Ret (r, ks') \<and> invar ks'
    \<and> (case r of Inl _ \<Rightarrow> held ks' = held ks \<and> free ks' = free ks
       | Inr _ \<Rightarrow> (\<exists>k. k \<notin> held ks \<and> held ks' = insert k (held ks) \<and> Suc (free ks') = free ks))"
proof (cases "rfold (\<lambda>arg tx. rwrap (\<lambda>e. Errorf ''failed to add argument: %s, with %w'' [] [e])
                 (AddArgument env arg tx)) args (newTransaction env script (bhID hdr))")
  case (Inl e)
  with assms show ?thesis by (simp add: buildTransaction_def)
next
  case tx: (Inr tx)
  show ?thesis
  proof (cases "free ks = 0")
    case True
    with tx take_empty [OF assms] assms show ?thesis by (simp add: buildTransaction_def)
  next
    case False
    then obtain k ks1 where k: "take ks = Ret (Inr k, ks1)" "invar ks1" "k \<notin> held ks"
      "held ks1 = insert k (held ks)" "Suc (free ks1) = free ks"
      using take_key [OF assms] by auto
    show ?thesis
    proof (cases "rbind (GetAccountKeyAtLatestBlock env (COAAddress env) (Index (key_of k ks1)))
        (\<lambda>accountKey. SetProposerPayerAndSign (api_of env) (key_of k ks1) tx (COAAddress env) accountKey)")
      case (Inl e)
      with tx k take_finish [OF assms k(1)] show ?thesis
        by (auto simp: buildTransaction_def)
    next
      case (Inr stx)
      with tx k mark_key [OF k(2), of k "tx_ID (api_of env) stx" "bhHeight hdr"] show ?thesis
        by (auto simp: buildTransaction_def)
    qed
  qed
qed

end

text \<open>The pool's own instance: the keys are those of the key store.\<close>

definition key_object :: "nat \<Rightarrow> KeyStore \<Rightarrow> AccountKey" where
  "key_object i ks = heap ks ! i"

definition build_with_keystore ::
    "('tx, 'ev) pool_env \<Rightarrow> BlockHeader \<Rightarrow> string \<Rightarrow> cadence_value list \<Rightarrow> KeyStore
     \<Rightarrow> ((err + 'tx) \<times> KeyStore) exec" where
  "build_with_keystore env = buildTransaction env key_object Take Done SetLockMetadata"

lemma build_with_keystore_keys:
  "ks_ok ks \<Longrightarrow>
   \<exists>r ks'. build_with_keystore env hdr script args ks = Ret (r, ks') \<and> ks_ok ks'
    \<and> (case r of Inl _ \<Rightarrow> busy_keys ks' = busy_keys ks \<and> AvailableKeys ks' = AvailableKeys ks
       | Inr _ \<Rightarrow> (\<exists>k. k \<notin> busy_keys ks \<and> busy_keys ks' = insert k (busy_keys ks)
                    \<and> Suc (AvailableKeys ks') = AvailableKeys ks))"
  unfolding build_with_keystore_def by (rule keystore.buildTransaction_keys)

text \<open>
  The polling loop of the \<^verbatim>\<open>tx-seal\<close> strategy.  The retry library stops at the first
  success or non-retryable error, and returns the last error when its time is up.
\<close>

fun await_seal :: "('tx, 'ev) pool_env \<Rightarrow> hash \<Rightarrow> flow_id \<Rightarrow> nat \<Rightarrow> nat \<Rightarrow> err option" where
  "await_seal env txHash flowID n polls =
     (case GetTransactionResult env n flowID of
        Inl e \<Rightarrow> Some (Errorf ''failed to retrieve flow transaction result %s: %w'' [FNum (unat flowID)] [e])
      | Inr (sealed, res_err) \<Rightarrow>
          if \<not> sealed then
            (case polls of
               0 \<Rightarrow> Some (Errorf ''transaction %s not sealed'' [FNum (unat flowID)] [])
             | Suc polls' \<Rightarrow> await_seal env txHash flowID (Suc n) polls')
          else (case res_err of
              None \<Rightarrow> None
            | Some e \<Rightarrow>
               (case parseInvalidError (Error env) e of
                  Some e' \<Rightarrow> Some e'
                | None \<Rightarrow> Some (Errorf ''failed to submit flow evm transaction %s'' [FNum (unat txHash)] []))))"

declare await_seal.simps [simp del]

definition NewSingleTxPool :: "err + BlockHeader \<Rightarrow> 'ks \<Rightarrow> err + 'ks SingleTxPool" where
  "NewSingleTxPool latestHeader keystore = rbind latestHeader (\<lambda>hdr.
     Inr \<lparr>st_pool = [], st_keystore = keystore, st_referenceBlock = hdr, st_published = [],
          st_dropped = 0\<rparr>)"

text \<open>One tick of \<^verbatim>\<open>updateReferenceBlock\<close>: an error keeps the old reference block.\<close>

definition updateReferenceBlock ::
    "err + BlockHeader \<Rightarrow> ('ks, 'a) SingleTxPool_scheme \<Rightarrow> ('ks, 'a) SingleTxPool_scheme" where
  "updateReferenceBlock latestHeader st = (case latestHeader of
      Inl _ \<Rightarrow> st
    | Inr hdr \<Rightarrow> st\<lparr>st_referenceBlock := hdr\<rparr>)"

text \<open>\<open>encodeTx\<close> is the sender, the hex payload and the errors both pools check first.\<close>

definition encodeTx :: "('tx, 'ev) pool_env \<Rightarrow> gethTx \<Rightarrow> err + (address \<times> cadence_value)" where
  "encodeTx env tx =
     rbind (DeriveTxSender (codec_of env) tx) (\<lambda>from.
     rbind (geth_MarshalBinary (codec_of env) tx) (\<lambda>txData.
     rbind (NewString env (EncodeToString env txData)) (\<lambda>hexEncodedTx.
     Inr (from, hexEncodedTx))))"

definition SingleTxPool_Add ::
    "('tx, 'ev) pool_env \<Rightarrow> gethTx \<Rightarrow> KeyStore SingleTxPool
     \<Rightarrow> (err option \<times> KeyStore SingleTxPool) exec" where
  "SingleTxPool_Add env tx st0 =
     (let st = st0\<lparr>st_published := st_published st0 @ [tx]\<rparr> in
      case rbind (encodeTx env tx) (\<lambda>(from, hexEncodedTx).
           rbind (NewString env (CoinbaseHex env)) (\<lambda>coinbaseAddress.
           Inr (hexEncodedTx, coinbaseAddress))) of
        Inl e \<Rightarrow> Ret (Some e, st)
      | Inr (hexEncodedTx, coinbaseAddress) \<Rightarrow>
         ebind (build_with_keystore env (st_referenceBlock st)
                  (replaceAddresses (systemContracts env) (runTxScript env))
                  [CArray [hexEncodedTx], coinbaseAddress] (st_keystore st)) (\<lambda>(r, ks).
         let st1 = st\<lparr>st_keystore := ks\<rparr> in
         case r of
           Inl e \<Rightarrow> Ret (Some e, st1\<lparr>st_dropped := st_dropped st1 + 1\<rparr>)
         | Inr flowTx \<Rightarrow>
            (case SendTransaction env flowTx of
               Some e \<Rightarrow> Ret (Some e, st1\<lparr>st_dropped := st_dropped st1 + 1\<rparr>)
             | None \<Rightarrow>
                if TxSealValidation env then
                  (let stored = st1\<lparr>st_pool := AList.update (gtHash tx) tx (st_pool st1)\<rparr>;
                       res = await_seal env (gtHash tx) (tx_ID (api_of env) flowTx) 0 (max_polls env)
                   in Ret (res, stored\<lparr>st_pool := AList.delete (gtHash tx) (st_pool stored)\<rparr>))
                else Ret (None, st1))))"

lemma SingleTxPool_Add_ok:
  assumes "ks_ok (st_keystore st)"
  shows "\<exists>r st'. SingleTxPool_Add env tx st = Ret (r, st') \<and> ks_ok (st_keystore st')
    \<and> (r = None \<longrightarrow> (\<exists>k. k \<notin> busy_keys (st_keystore st)
          \<and> busy_keys (st_keystore st') = insert k (busy_keys (st_keystore st))))"
proof -
  let ?enc = "rbind (encodeTx env tx) (\<lambda>(from, hexEncodedTx).
           rbind (NewString env (CoinbaseHex env)) (\<lambda>coinbaseAddress.
           Inr (hexEncodedTx, coinbaseAddress)))"
  show ?thesis
  proof (cases ?enc)
    case (Inl e)
    with assms show ?thesis by (simp add: SingleTxPool_Add_def Let_def)
  next
    case (Inr p)
    obtain h cb where p: "p = (h, cb)" by (cases p)
    let ?args = "[CArray [h], cb]"
    let ?script = "replaceAddresses (systemContracts env) (runTxScript env)"
    obtain r ks' where "build_with_keystore env (st_referenceBlock st) ?script ?args (st_keystore st) = Ret (r, ks')"
      "ks_ok ks'" "case r of Inl _ \<Rightarrow> busy_keys ks' = busy_keys (st_keystore st) \<and> AvailableKeys ks' = AvailableKeys (st_keystore st)
       | Inr _ \<Rightarrow> (\<exists>k. k \<notin> busy_keys (st_keystore st) \<and> busy_keys ks' = insert k (busy_keys (st_keystore st))
                    \<and> Suc (AvailableKeys ks') = AvailableKeys (st_keystore st))"
      using build_with_keystore_keys [OF assms] by blast
    then show ?thesis
      using Inr p by (auto simp: SingleTxPool_Add_def Let_def split: sum.splits option.splits)
  qed
qed

section \<open>Properties\<close>

text \<open>Building a Flow transaction never panics and never blocks on the key store.  If it
  fails, at whatever step, every key is where it was; if it succeeds, exactly one key that
  nobody held is now held for it.\<close>

theorem buildTransaction_key_accounting:
  assumes "ks_ok ks"
  shows "\<exists>r ks'. buildTransaction env key_object Take Done SetLockMetadata hdr script args ks = Ret (r, ks') \<and> ks_ok ks'
    \<and> (case r of Inl _ \<Rightarrow> busy_keys ks' = busy_keys ks \<and> AvailableKeys ks' = AvailableKeys ks
       | Inr _ \<Rightarrow> (\<exists>k. k \<notin> busy_keys ks \<and> busy_keys ks' = insert k (busy_keys ks)
                    \<and> Suc (AvailableKeys ks') = AvailableKeys ks))"
  using assms by (rule keystore.buildTransaction_keys)

section \<open>A concrete environment\<close>

text \<open>An access node and SDK that accept everything; a Flow transaction is its number of arguments.\<close>

definition ref_env :: "gethTx list \<Rightarrow> (nat, unit) pool_env" where
  "ref_env ts =
     \<lparr>codec_of = ref_codec [] [] ts [],
      api_of = \<lparr>SetProposalKey = (\<lambda>_ _ _ tx. tx), SetPayer = (\<lambda>_ tx. tx),
                SignEnvelope = (\<lambda>_ _ tx. Inr tx), tx_ID = of_nat\<rparr>,
      newTransaction = (\<lambda>_ _. 0), AddArgument = (\<lambda>_ tx. Inr (tx + 1)),
      NewString = (\<lambda>s. Inr (CString s)), EncodeToString = (\<lambda>_. ''00''),
      GetAccountKeyAtLatestBlock = (\<lambda>_ i. Inr (Some \<lparr>sdkIndex = i, SequenceNumber = 0\<rparr>)),
      SendTransaction = (\<lambda>_. None), GetTransactionResult = (\<lambda>_ _. Inr (True, None)),
      Error = (\<lambda>_. []), max_polls = 60, runTxScript = ''import EVM'',
      systemContracts = [(''EVM'', ''0x1'')], CoinbaseHex = ''0x0'', COAAddress = 1,
      TxSealValidation = False\<rparr>"

definition demo_tx :: "u64 \<Rightarrow> gethTx" where
  "demo_tx n = \<lparr>gtHash = 17, gtTo = Some 3, gtData = [], gtNonce = n, gtValue = 0, gtType = 2, gtGas = 21000,
     gtGasFeeCap = 1, gtGasTipCap = 1, gtGasPrice = 1, gtChainId = 747, gtSignature = (1, 1, 1)\<rparr>"

lemma encode_demo_tx:
  "encodeTx (ref_env [demo_tx n]) (demo_tx n) = Inr (17, CString ''00'')"
  by (simp add: encodeTx_def ref_env_def ref_codec_def DeriveTxSender_def demo_tx_def encode_in_def)

lemma buildTransaction_key_accounting_witness:
  "\<exists>r ks'. buildTransaction (ref_env []) key_object Take Done SetLockMetadata
       \<lparr>bhID = 1, bhParentID = 0, bhHeight = 1000, bhTimestamp = 0\<rparr> ''script'' [] one_key_in_use = Ret (r, ks') \<and> ks_ok ks'"
  using buildTransaction_key_accounting [OF one_key_in_use_ok] by blast

end
