(* ===== verification/Batch_Pool.thy ===== *)
theory Batch_Pool
  imports Single_Tx_Pool
begin

text \<open>
  The batching transaction pool, \<^verbatim>\<open>services/requester/batch_tx_pool.go\<close>.  \<open>Add\<close> runs under
  the pool's mutex; one tick of the flush goroutine collects batches under the mutex, submits
  them without it, and takes it again to acknowledge each.  These critical sections are the
  operations of the model, and \<open>pool_step\<close> interleaves them.  A queue is reached through
  its address: only the flush goroutine deletes queues, and it does so while it has no
  batch outstanding, so the pointer a batch keeps is the queue of its address throughout.
\<close>

section \<open>Constants and state\<close>

definition maxTxBatch :: nat where "maxTxBatch = 5"
definition maxNonceLookahead :: u64 where "maxNonceLookahead = 50"
definition maxEOAQueueSize :: nat where "maxEOAQueueSize = 50"
definition stalenessFactor :: int where "stalenessFactor = 4"
definition maxQueueTTL :: duration where "maxQueueTTL = 30 * Second"
definition maxSubmissionRetries :: nat where "maxSubmissionRetries = 5"

record pooledEvmTx =
  txPayload :: cadence_value
  txHash :: hash
  nonce :: u64
  enqueuedAt :: time

record txQueue =
  txs :: "(u64, pooledEvmTx) gomap"
  lastSubmittedAt :: time
  lastSubmittedNonce :: u64
  retries :: nat

record batchSubmission =
  bTxs :: "pooledEvmTx list"
  bLastSubmittedAt :: time
  bLastSubmittedNonce :: u64

record BatchTxPool = "KeyStore SingleTxPool" +
  txQueues :: "(address, txQueue) gomap"

section \<open>Operations on one queue\<close>

definition queue_size :: "txQueue \<Rightarrow> nat" where
  "queue_size q = length (txs q)"

definition spacingElapsed :: "time \<Rightarrow> duration \<Rightarrow> txQueue \<Rightarrow> bool" where
  "spacingElapsed now spacing q \<longleftrightarrow> IsZero (lastSubmittedAt q) \<or> Sub now (lastSubmittedAt q) \<ge> spacing"

definition staleEntry :: "time \<Rightarrow> duration \<Rightarrow> txQueue \<Rightarrow> bool" where
  "staleEntry now spacing q \<longleftrightarrow>
     length (txs q) = 0 \<and> Sub now (lastSubmittedAt q) \<ge> dur_mult spacing stalenessFactor"

datatype fastPath = fastPathNoAvailability | fastPathNoSpacing | fastPathStateNonce | fastPathInFlightNonce

definition fastPathAvailable :: "time \<Rightarrow> duration \<Rightarrow> u64 \<Rightarrow> u64 \<Rightarrow> txQueue \<Rightarrow> fastPath \<times> bool" where
  "fastPathAvailable now spacing txNonce stateNonce q =
     (if \<not> spacingElapsed now spacing q then (fastPathNoSpacing, False)
      else if txNonce = stateNonce then (fastPathStateNonce, True)
      else if txNonce = lastSubmittedNonce q + 1 \<and> \<not> IsZero (lastSubmittedAt q)
      then (fastPathInFlightNonce, True)
      else (fastPathNoAvailability, False))"

text \<open>The first loop of \<open>pruneTxs\<close> collects the stale nonces, the second deletes them.\<close>

definition staleTx :: "time \<Rightarrow> u64 \<Rightarrow> pooledEvmTx \<Rightarrow> bool" where
  "staleTx now stateNonce tx \<longleftrightarrow>
     nonce tx < stateNonce \<or> Sub now (enqueuedAt tx) \<ge> maxQueueTTL
     \<or> nonce tx > maxNonceLookahead + stateNonce"

definition pruneTxs :: "time \<Rightarrow> u64 \<Rightarrow> txQueue \<Rightarrow> txQueue" where
  "pruneTxs now stateNonce q =
     (let staleNonces = map fst (filter (\<lambda>(n, tx). staleTx now stateNonce tx) (txs q))
      in q\<lparr>txs := fold AList.delete staleNonces (txs q)\<rparr>)"

text \<open>The counted loop of \<open>selectSequentialNonces\<close>, which deletes what it selects.\<close>

fun select_loop :: "nat \<Rightarrow> u64 \<Rightarrow> (u64, pooledEvmTx) gomap
    \<Rightarrow> pooledEvmTx list \<times> (u64, pooledEvmTx) gomap" where
  "select_loop 0 stateNonce m = ([], m)"
| "select_loop (Suc i) stateNonce m = (case map_of m stateNonce of
      None \<Rightarrow> ([], m)
    | Some tx \<Rightarrow>
       (let (rest, m') = select_loop i (stateNonce + 1) (AList.delete stateNonce m) in (tx # rest, m')))"

definition selectSequentialNonces :: "u64 \<Rightarrow> txQueue \<Rightarrow> pooledEvmTx list \<times> txQueue" where
  "selectSequentialNonces stateNonce q =
     (let (txSequence, m) = select_loop maxTxBatch stateNonce (txs q) in (txSequence, q\<lparr>txs := m\<rparr>))"

section \<open>Operations of the pool\<close>

definition new_queue :: txQueue where
  "new_queue = \<lparr>txs = [], lastSubmittedAt = 0, lastSubmittedNonce = 0, retries = 0\<rparr>"

text \<open>\<open>eoaQueueEntry\<close>: the queue of an address, created when absent.\<close>

definition eoaQueueEntry ::
    "address \<Rightarrow> (address, txQueue) gomap \<Rightarrow> txQueue \<times> (address, txQueue) gomap" where
  "eoaQueueEntry addr qs = (case map_of qs addr of
      Some queue \<Rightarrow> (queue, qs)
    | None \<Rightarrow> (new_queue, AList.update addr new_queue qs))"

definition NewBatchTxPool :: "err + BlockHeader \<Rightarrow> KeyStore \<Rightarrow> err + BatchTxPool" where
  "NewBatchTxPool latestHeader keystore =
     rbind (NewSingleTxPool latestHeader keystore) (\<lambda>single.
     Inr (SingleTxPool.extend single (BatchTxPool.fields [])))"

text \<open>
  \<open>submitSingleTransaction\<close> and \<open>batchSubmitTransactionsForSameAddress\<close> build one Flow
  transaction around the payloads and send it.
\<close>

definition submitPayloads ::
    "('tx, 'ev) pool_env \<Rightarrow> BlockHeader \<Rightarrow> cadence_value list \<Rightarrow> KeyStore
     \<Rightarrow> ((err + flow_id) \<times> KeyStore) exec" where
  "submitPayloads env referenceBlockHeader payloads ks =
     (case NewString env (CoinbaseHex env) of
        Inl e \<Rightarrow> Ret (Inl e, ks)
      | Inr coinbaseAddress \<Rightarrow>
         ebind (build_with_keystore env referenceBlockHeader
                  (replaceAddresses (systemContracts env) (runTxScript env))
                  [CArray payloads, coinbaseAddress] ks) (\<lambda>(r, ks1).
         case r of
           Inl e \<Rightarrow> Ret (Inl e, ks1)
         | Inr flowTx \<Rightarrow>
            (case SendTransaction env flowTx of
               Some e \<Rightarrow> Ret (Inl e, ks1)
             | None \<Rightarrow> Ret (Inr (tx_ID (api_of env) flowTx), ks1))))"

definition submitSingleTransaction ::
    "('tx, 'ev) pool_env \<Rightarrow> BlockHeader \<Rightarrow> cadence_value \<Rightarrow> KeyStore
     \<Rightarrow> ((err + flow_id) \<times> KeyStore) exec" where
  "submitSingleTransaction env ref hexEncodedTx = submitPayloads env ref [hexEncodedTx]"

definition batchSubmitTransactionsForSameAddress ::
    "('tx, 'ev) pool_env \<Rightarrow> BlockHeader \<Rightarrow> pooledEvmTx list \<Rightarrow> KeyStore
     \<Rightarrow> ((err + flow_id) \<times> KeyStore) exec" where
  "batchSubmitTransactionsForSameAddress env ref pooledTxs = submitPayloads env ref (map txPayload pooledTxs)"

text \<open>
  \<open>Add\<close>.  \<open>getNextNonce\<close> is the \<^verbatim>\<open>NonceProvider\<close>'s, \<open>spacing\<close> the configured
  \<^verbatim>\<open>TxBatchInterval\<close>, and \<open>t1\<close>, \<open>t2\<close>, \<open>t3\<close> the three readings of the clock.
\<close>

definition BatchTxPool_Add ::
    "('tx, 'ev) pool_env \<Rightarrow> (address \<Rightarrow> err + u64) \<Rightarrow> duration \<Rightarrow> time \<times> time \<times> time \<Rightarrow> gethTx
     \<Rightarrow> BatchTxPool \<Rightarrow> (err option \<times> BatchTxPool) exec" where
  "BatchTxPool_Add env getNextNonce spacing clock tx st0 =
     (let (t1, t2, t3) = clock; st = st0\<lparr>st_published := st_published st0 @ [tx]\<rparr> in
      case encodeTx env tx of
        Inl e \<Rightarrow> Ret (Some e, st)
      | Inr (from, hexEncodedTx) \<Rightarrow>
         (let (eoaQueue, qs) = eoaQueueEntry from (txQueues st);
              st1 = st\<lparr>txQueues := qs\<rparr>;
              existing = map_of (txs eoaQueue) (gtNonce tx);
              userTx = \<lparr>txPayload = hexEncodedTx, txHash = gtHash tx, nonce = gtNonce tx,
                        enqueuedAt = t1\<rparr> in
          if map_option txHash existing = Some (gtHash tx) then Ret (Some ErrDuplicateTransaction, st1)
          else if \<not> IsZero (lastSubmittedAt eoaQueue) \<and> gtNonce tx \<le> lastSubmittedNonce eoaQueue
          then Ret (Some ErrInFlightNonce, st1)
          else case getNextNonce from of
            Inl e \<Rightarrow> Ret (Some e, st1)
          | Inr stateNonce \<Rightarrow>
             if snd (fastPathAvailable t2 spacing (gtNonce tx) stateNonce eoaQueue) then
               ebind (submitSingleTransaction env (st_referenceBlock st1) hexEncodedTx (st_keystore st1))
                 (\<lambda>(r, ks).
                  let st2 = st1\<lparr>st_keystore := ks\<rparr> in
                  case r of
                    Inl e \<Rightarrow> Ret (Some e, st2\<lparr>st_dropped := st_dropped st2 + 1\<rparr>)
                  | Inr flowTxID \<Rightarrow>
                     Ret (None, st2\<lparr>txQueues := AList.update from
                       (eoaQueue\<lparr>lastSubmittedAt := t3, lastSubmittedNonce := gtNonce tx,
                                 txs := AList.delete (gtNonce tx) (txs eoaQueue)\<rparr>) qs\<rparr>))
             else if existing = None \<and> queue_size eoaQueue \<ge> maxEOAQueueSize
             then Ret (Some ErrTxPoolFull, st1)
             else Ret (None, st1\<lparr>txQueues := AList.update from
                    (eoaQueue\<lparr>txs := AList.update (gtNonce tx) userTx (txs eoaQueue)\<rparr>) qs\<rparr>)))"

text \<open>
  One queue of a flush tick: \<open>Skip\<close> for the \<^verbatim>\<open>continue\<close> branches (with the pruned queue),
  \<open>Drop\<close> for a stale entry, \<open>Submit\<close> for a batch.  \<open>now\<close> is the clock while the EOA is
  processed, where one value stands for the several readings the code makes of it, and \<open>getNonce\<close> the block view's nonce.
\<close>

datatype flush_result = Skip txQueue | Drop | Submit batchSubmission txQueue

definition flush_queue :: "duration \<Rightarrow> time \<Rightarrow> err + u64 \<Rightarrow> txQueue \<Rightarrow> flush_result" where
  "flush_queue spacing now getNonce q =
     (if \<not> spacingElapsed now spacing q then Skip q
      else if staleEntry now spacing q then Drop
      else case getNonce of
        Inl e \<Rightarrow> Skip q
      | Inr stateNonce \<Rightarrow>
         (let (txSequence, q') = selectSequentialNonces stateNonce (pruneTxs now stateNonce q) in
          if length txSequence = 0 then Skip q'
          else Submit \<lparr>bTxs = txSequence, bLastSubmittedAt = lastSubmittedAt q',
                       bLastSubmittedNonce = lastSubmittedNonce q'\<rparr>
                 (q'\<lparr>lastSubmittedAt := now, lastSubmittedNonce := nonce (last txSequence)\<rparr>)))"

text \<open>
  The critical section of a tick: every queue is visited once, in the order of the map;
  the stale entries are deleted at the end.
\<close>

fun collect_batches :: "duration \<Rightarrow> (address \<Rightarrow> time) \<Rightarrow> (address \<Rightarrow> err + u64)
    \<Rightarrow> (address, txQueue) gomap \<Rightarrow> (address, txQueue) gomap \<times> (address, batchSubmission) gomap" where
  "collect_batches spacing now getNonce [] = ([], [])"
| "collect_batches spacing now getNonce ((addr, q) # rest) =
     (let (qs, bs) = collect_batches spacing now getNonce rest in
      case flush_queue spacing (now addr) (getNonce addr) q of
        Skip q' \<Rightarrow> ((addr, q') # qs, bs)
      | Drop \<Rightarrow> (qs, bs)
      | Submit b q' \<Rightarrow> ((addr, q') # qs, (addr, b) # bs))"

text \<open>The loop that puts a failed batch back, keeping an entry that is already there.\<close>

definition readd :: "pooledEvmTx \<Rightarrow> (u64, pooledEvmTx) gomap \<Rightarrow> (u64, pooledEvmTx) gomap" where
  "readd tx m = (if map_of m (nonce tx) \<noteq> None then m else AList.update (nonce tx) tx m)"

definition eoaEnqueueTxs ::
    "address \<Rightarrow> batchSubmission \<Rightarrow> (address, txQueue) gomap \<Rightarrow> bool \<times> (address, txQueue) gomap" where
  "eoaEnqueueTxs addr batch qs0 =
     (let (queue, qs) = eoaQueueEntry addr qs0;
          queue1 = (if lastSubmittedNonce queue = nonce (last (bTxs batch))
                    then queue\<lparr>lastSubmittedNonce := bLastSubmittedNonce batch,
                               lastSubmittedAt := bLastSubmittedAt batch\<rparr>
                    else queue) in
      if retries queue1 \<ge> maxSubmissionRetries then (False, AList.update addr queue1 qs)
      else (True, AList.update addr
              (queue1\<lparr>txs := fold readd (bTxs batch) (txs queue1), retries := retries queue1 + 1\<rparr>) qs))"

text \<open>The critical section that follows a submission: rollback on error, or the merged ack.\<close>

definition merge_ack :: "time \<Rightarrow> batchSubmission \<Rightarrow> txQueue \<Rightarrow> txQueue" where
  "merge_ack now batch q =
     (let batchTail = nonce (last (bTxs batch));
          q1 = (if batchTail > lastSubmittedNonce q then q\<lparr>lastSubmittedNonce := batchTail\<rparr> else q);
          q2 = (if now > lastSubmittedAt q1 then q1\<lparr>lastSubmittedAt := now\<rparr> else q1)
      in q2\<lparr>retries := 0\<rparr>)"

definition ackBatch :: "time \<Rightarrow> address \<Rightarrow> batchSubmission \<Rightarrow> err + flow_id \<Rightarrow> BatchTxPool \<Rightarrow> BatchTxPool" where
  "ackBatch now addr batch res st = (case res of
      Inl e \<Rightarrow>
        (let (ok, qs) = eoaEnqueueTxs addr batch (txQueues st) in
         st\<lparr>txQueues := qs, st_dropped := st_dropped st + (if ok then 0 else length (bTxs batch))\<rparr>)
    | Inr flowTxID \<Rightarrow>
        (case map_of (txQueues st) addr of
           None \<Rightarrow> st
         | Some q \<Rightarrow> st\<lparr>txQueues := AList.update addr (merge_ack now batch q) (txQueues st)\<rparr>))"

text \<open>
  One tick of the flush goroutine with nothing in between: collect, then submit and
  acknowledge each batch.
\<close>

fun submit_batches ::
    "('tx, 'ev) pool_env \<Rightarrow> time \<Rightarrow> (address, batchSubmission) gomap \<Rightarrow> BatchTxPool \<Rightarrow> BatchTxPool exec" where
  "submit_batches env now [] st = Ret st"
| "submit_batches env now ((addr, batch) # rest) st =
     ebind (batchSubmitTransactionsForSameAddress env (st_referenceBlock st) (bTxs batch) (st_keystore st))
       (\<lambda>(res, ks). submit_batches env now rest (ackBatch now addr batch res (st\<lparr>st_keystore := ks\<rparr>)))"

definition processPooledTransactions_tick ::
    "('tx, 'ev) pool_env \<Rightarrow> duration \<Rightarrow> (address \<Rightarrow> time) \<Rightarrow> time
     \<Rightarrow> err + (address \<Rightarrow> err + u64) \<Rightarrow> BatchTxPool \<Rightarrow> BatchTxPool exec" where
  "processPooledTransactions_tick env spacing now ack_time getBlockView st = (case getBlockView of
      Inl e \<Rightarrow> Ret st
    | Inr getNonce \<Rightarrow>
       (let (qs, bs) = collect_batches spacing now getNonce (txQueues st) in
        submit_batches env ack_time bs (st\<lparr>txQueues := qs\<rparr>)))"

section \<open>Lemmas on one queue\<close>

definition queue_ok :: "txQueue \<Rightarrow> bool" where
  "queue_ok q \<longleftrightarrow> wf_map (txs q) \<and> (\<forall>n tx. map_of (txs q) n = Some tx \<longrightarrow> nonce tx = n)
     \<and> retries q \<le> maxSubmissionRetries"

lemma lookup_delete_all:
  "map_of (fold AList.delete ks m) k = (if k \<in> set ks then None else map_of m k)"
  by (induction ks arbitrary: m) auto

lemma wf_map_delete_all: "wf_map m \<Longrightarrow> wf_map (fold AList.delete ks m)"
  by (induction ks arbitrary: m) auto

lemma length_delete_all: "length (fold AList.delete ks m) \<le> length m"
proof (induction ks arbitrary: m)
  case (Cons k ks)
  have "length (fold AList.delete ks (AList.delete k m)) \<le> length (AList.delete k m)"
    by (rule Cons)
  also have "\<dots> \<le> length m" by simp
  finally show ?case by simp
qed simp

lemma pruneTxs_lookup:
  assumes "queue_ok q"
  shows "map_of (txs (pruneTxs now n0 q)) n =
    (case map_of (txs q) n of None \<Rightarrow> None | Some tx \<Rightarrow> if staleTx now n0 tx then None else Some tx)"
proof -
  have "n \<in> set (map fst (filter (\<lambda>(n, tx). staleTx now n0 tx) (txs q))) \<longleftrightarrow>
      (\<exists>tx. map_of (txs q) n = Some tx \<and> staleTx now n0 tx)"
    using assms by (force simp: queue_ok_def in_set_iff_lookup)
  then show ?thesis
    by (auto simp: pruneTxs_def Let_def lookup_delete_all split: option.splits)
qed

lemma pruneTxs_ok:
  assumes "queue_ok q"
  shows "queue_ok (pruneTxs now n0 q)" "length (txs (pruneTxs now n0 q)) \<le> length (txs q)"
  using assms length_delete_all
  by (auto simp: queue_ok_def pruneTxs_def Let_def wf_map_delete_all lookup_delete_all split: if_splits)

text \<open>
  The selection takes the entries at consecutive nonces from \<open>n\<close> on, as many as there
  are up to the bound, out of the map.
\<close>

lemma nonce_run_distinct:
  "j < 2 ^ 64 \<Longrightarrow> 0 < j \<Longrightarrow> (n :: u64) + of_nat j \<noteq> n"
proof
  assume j: "j < 2 ^ 64" "0 < j" and "n + of_nat j = n"
  then have "unat (of_nat j :: u64) = 0" by simp
  with j show False by (simp add: unat_of_nat)
qed

lemma select_loop_spec:
  assumes "select_loop i n m = (seq, m')" "wf_map m" "i < 2 ^ 64"
  shows "length seq \<le> i \<and> (\<forall>j < length seq. map_of m (n + of_nat j) = Some (seq ! j))
    \<and> (length seq < i \<longrightarrow> map_of m (n + of_nat (length seq)) = None)
    \<and> wf_map m' \<and> length m = length m' + length seq
    \<and> (\<forall>x. map_of m' x = (if \<exists>j < length seq. x = n + of_nat j then None else map_of m x))"
  using assms
proof (induction i arbitrary: n m seq m')
  case 0
  then show ?case by simp
next
  case (Suc i)
  show ?case
  proof (cases "map_of m n")
    case None
    with Suc.prems show ?thesis by simp
  next
    case (Some tx)
    then obtain rest where rec: "select_loop i (n + 1) (AList.delete n m) = (rest, m')"
      and seq: "seq = tx # rest"
      using Suc.prems(1) by (auto split: prod.splits)
    note IH = Suc.IH [OF rec] 
    have lt: "length rest \<le> i" using IH Suc.prems by simp
    have shift: "n + 1 + of_nat j = n + of_nat (Suc j)" for j by (simp add: ac_simps)
    have ne: "n + of_nat (Suc j) \<noteq> n" if "j \<le> i" for j
      using nonce_run_distinct [of "Suc j" n] that Suc.prems(3) by simp
    have "\<forall>j < length seq. map_of m (n + of_nat j) = Some (seq ! j)"
    proof (intro allI impI)
      fix j assume j: "j < length seq"
      show "map_of m (n + of_nat j) = Some (seq ! j)"
      proof (cases j)
        case 0 with Some seq show ?thesis by simp
      next
        case (Suc j')
        with j seq lt have "j' < length rest" "j' \<le> i" by auto
        with IH Suc.prems ne [of j'] Suc seq show ?thesis
          by (auto simp: shift)
      qed
    qed
    moreover have "length seq < Suc i \<longrightarrow> map_of m (n + of_nat (length seq)) = None"
      using IH Suc.prems seq ne [OF lt] by (auto simp: shift)
    moreover have "length m = length m' + length seq"
      using IH Suc.prems seq length_delete [OF Suc.prems(2) Some] by simp
    moreover have "map_of m' x = (if \<exists>j < length seq. x = n + of_nat j then None else map_of m x)" for x
      using IH Suc.prems seq by (auto simp: shift Ex_less_Suc2)
    ultimately show ?thesis
      using IH Suc.prems seq lt by simp
  qed
qed

lemma selectSequentialNonces_loop:
  assumes "selectSequentialNonces n q = (seq, q')" "queue_ok q"
  shows "\<exists>m. select_loop maxTxBatch n (txs q) = (seq, m) \<and> q' = q\<lparr>txs := m\<rparr>"
  using assms by (auto simp: selectSequentialNonces_def split: prod.splits)

lemmas select_spec = select_loop_spec [where i = maxTxBatch]

lemma maxTxBatch_Suc: "maxTxBatch = Suc (Suc (Suc (Suc (Suc 0))))"
  by (simp add: maxTxBatch_def)

lemma maxTxBatch_lt: "maxTxBatch < 2 ^ 64"
  by (simp add: maxTxBatch_def)

lemma selectSequentialNonces_ok:
  assumes "selectSequentialNonces n q = (seq, q')" "queue_ok q"
  shows "queue_ok q'" "length (txs q) = length (txs q') + length seq" "length seq \<le> maxTxBatch"
    "\<And>j. j < length seq \<Longrightarrow> nonce (seq ! j) = n + of_nat j"
    "\<And>tx. tx \<in> set seq \<Longrightarrow> map_of (txs q) (nonce tx) = Some tx \<and> map_of (txs q') (nonce tx) = None"
    "lastSubmittedAt q' = lastSubmittedAt q" "lastSubmittedNonce q' = lastSubmittedNonce q"
    "retries q' = retries q"
proof -
  obtain m where m: "select_loop maxTxBatch n (txs q) = (seq, m)" "q' = q\<lparr>txs := m\<rparr>"
    using selectSequentialNonces_loop [OF assms] by blast
  have wf: "wf_map (txs q)" using assms(2) by (simp add: queue_ok_def)
  note spec = select_spec [OF m(1) wf maxTxBatch_lt]
  show "queue_ok q'" using spec assms(2) m(2) by (auto simp: queue_ok_def split: if_splits)
  show "length (txs q) = length (txs q') + length seq" "length seq \<le> maxTxBatch"
    using spec m(2) by auto
  show nonce: "nonce (seq ! j) = n + of_nat j" if "j < length seq" for j
    using spec assms(2) that by (auto simp: queue_ok_def)
  show "lastSubmittedAt q' = lastSubmittedAt q" "lastSubmittedNonce q' = lastSubmittedNonce q"
    "retries q' = retries q"
    using m(2) by simp_all
  show "map_of (txs q) (nonce tx) = Some tx \<and> map_of (txs q') (nonce tx) = None" if "tx \<in> set seq" for tx
  proof -
    from that obtain j where "j < length seq" "tx = seq ! j" by (auto simp: in_set_conv_nth)
    with spec nonce [of j] m(2) show ?thesis by auto
  qed
qed

section \<open>Invariant of the pool\<close>

text \<open>
  A batch in flight has between one and \<open>maxTxBatch\<close> transactions at consecutive nonces;
  its nonces are reserved: they are not in the queue, and the last submitted nonce is at
  least its last one, so that no \<open>Add\<close> can bring them back.
\<close>

definition batch_ok :: "batchSubmission \<Rightarrow> bool" where
  "batch_ok b \<longleftrightarrow> bTxs b \<noteq> [] \<and> length (bTxs b) \<le> maxTxBatch
     \<and> (\<exists>n. map (unat \<circ> nonce) (bTxs b) = [n ..< n + length (bTxs b)])"

definition batch_tail :: "batchSubmission \<Rightarrow> u64" where
  "batch_tail b = nonce (last (bTxs b))"

definition reserved :: "batchSubmission \<Rightarrow> txQueue \<Rightarrow> bool" where
  "reserved b q \<longleftrightarrow> lastSubmittedAt q \<noteq> 0 \<and> batch_tail b \<le> lastSubmittedNonce q
     \<and> (\<forall>tx \<in> set (bTxs b). map_of (txs q) (nonce tx) = None)"

definition queueBound :: nat where "queueBound = maxEOAQueueSize + maxTxBatch"

fun inflight :: "batchSubmission option \<Rightarrow> nat" where
  "inflight None = 0"
| "inflight (Some b) = length (bTxs b)"

definition pool_ok :: "(address, txQueue) gomap \<Rightarrow> (address, batchSubmission) gomap \<Rightarrow> bool" where
  "pool_ok qs bs \<longleftrightarrow> wf_map qs \<and> wf_map bs
     \<and> (\<forall>a q. map_of qs a = Some q \<longrightarrow> queue_ok q \<and> length (txs q) + inflight (map_of bs a) \<le> queueBound)
     \<and> (\<forall>a b. map_of bs a = Some b \<longrightarrow> batch_ok b \<and> (\<exists>q. map_of qs a = Some q \<and> reserved b q))"

lemma batch_nonces_le_tail:
  assumes "batch_ok b" "tx \<in> set (bTxs b)"
  shows "nonce tx \<le> batch_tail b"
proof -
  obtain n where n: "map (unat \<circ> nonce) (bTxs b) = [n ..< n + length (bTxs b)]" and ne: "bTxs b \<noteq> []"
    using assms(1) by (auto simp: batch_ok_def)
  have at: "unat (nonce (bTxs b ! j)) = n + j" if "j < length (bTxs b)" for j
    using arg_cong [OF n, of "\<lambda>xs. xs ! j"] that by simp
  obtain j where j: "j < length (bTxs b)" "tx = bTxs b ! j"
    using assms(2) by (auto simp: in_set_conv_nth)
  with at [OF j(1)] at [of "length (bTxs b) - 1"] ne show ?thesis
    by (simp add: batch_tail_def last_conv_nth word_le_nat_alt)
qed

lemma pool_ok_pending:
  "pool_ok qs bs \<Longrightarrow> map_of bs a = Some b \<Longrightarrow> batch_ok b \<and> (\<exists>q. map_of qs a = Some q \<and> reserved b q)"
  unfolding pool_ok_def by blast

lemma inflight_le: "pool_ok qs bs \<Longrightarrow> inflight (map_of bs a) \<le> maxTxBatch"
  by (cases "map_of bs a") (auto simp: pool_ok_def batch_ok_def)

lemma new_queue_ok: "queue_ok new_queue" "txs new_queue = []"
  by (simp_all add: queue_ok_def new_queue_def)

lemma pool_ok_update:
  assumes "pool_ok qs bs" "queue_ok q" "length (txs q) + inflight (map_of bs a) \<le> queueBound"
    and "\<And>b. map_of bs a = Some b \<Longrightarrow> reserved b q"
  shows "pool_ok (AList.update a q qs) bs"
  using assms by (simp add: pool_ok_def)

lemma eoaQueueEntry_ok:
  assumes "pool_ok qs bs" "eoaQueueEntry a qs = (q, qs')"
  shows "pool_ok qs' bs" "map_of qs' a = Some q"
proof -
  have "pool_ok (AList.update a new_queue qs) bs" if "map_of qs a = None"
  proof -
    have none: "map_of bs a = None"
      using that assms(1) unfolding pool_ok_def by (metis not_None_eq)
    show ?thesis
      by (rule pool_ok_update [OF assms(1)]) (simp_all add: none new_queue_ok)
  qed
  with assms show "pool_ok qs' bs" "map_of qs' a = Some q"
    by (auto simp: eoaQueueEntry_def split: option.splits)
qed

section \<open>Flushing\<close>

lemma run_nonces:
  assumes "\<And>j. j < k \<Longrightarrow> nonce (seq ! j) = n + of_nat j" "\<And>j. j < k \<Longrightarrow> n \<le> nonce (seq ! j)"
    and "k = length seq" "k < 2 ^ 64"
  shows "map (unat \<circ> nonce) seq = [unat n ..< unat n + k]"
proof (rule nth_equalityI)
  fix j assume "j < length (map (unat \<circ> nonce) seq)"
  then have j: "j < k" using assms(3) by simp
  then have "n \<le> n + of_nat j" using assms(1,2) by metis
  then have "unat (n + of_nat j) = unat n + unat (of_nat j :: u64)"
    by (simp add: unat_plus_simple)
  also have "unat (of_nat j :: u64) = j" using j assms(4) by (simp add: unat_of_nat)
  finally show "map (unat \<circ> nonce) seq ! j = [unat n ..< unat n + k] ! j"
    using assms(1,3) j by simp
qed (use assms in simp)

lemma flush_queue_ok:
  assumes "queue_ok q" "now \<noteq> 0"
  shows "case flush_queue spacing now getNonce q of
      Skip q' \<Rightarrow> queue_ok q' \<and> length (txs q') \<le> length (txs q)
    | Drop \<Rightarrow> txs q = []
    | Submit b q' \<Rightarrow> queue_ok q' \<and> length (txs q') + length (bTxs b) \<le> length (txs q)
        \<and> batch_ok b \<and> reserved b q'"
proof -
  { fix n assume gn: "getNonce = Inr n" and el: "spacingElapsed now spacing q" "\<not> staleEntry now spacing q"
    obtain seq q' where sel: "selectSequentialNonces n (pruneTxs now n q) = (seq, q')"
      by fastforce
    note p = pruneTxs_ok [OF assms(1), of now n]
    note s = selectSequentialNonces_ok [OF sel p(1)]
    let ?b = "\<lparr>bTxs = seq, bLastSubmittedAt = lastSubmittedAt q', bLastSubmittedNonce = lastSubmittedNonce q'\<rparr>"
    have ge: "n \<le> nonce (seq ! j)" if "j < length seq" for j
      using s(5) [OF nth_mem [OF that]] pruneTxs_lookup [OF assms(1), of now n "nonce (seq ! j)"]
      by (auto simp: staleTx_def split: option.splits if_splits)
    have "length seq < 2 ^ 64" using s(3) maxTxBatch_lt by linarith
    with run_nonces [OF s(4) ge refl] have "batch_ok ?b" if "seq \<noteq> []"
      using that s(3) by (auto simp: batch_ok_def)
    moreover have "reserved ?b (q'\<lparr>lastSubmittedAt := now, lastSubmittedNonce := nonce (last seq)\<rparr>)"
      using s(5) assms(2) by (auto simp: reserved_def batch_tail_def)
    moreover have "queue_ok (q'\<lparr>lastSubmittedAt := now, lastSubmittedNonce := nonce (last seq)\<rparr>)"
      using s(1) by (simp add: queue_ok_def)
    ultimately have ?thesis
      using sel gn el s(1,2) p(2) by (simp add: flush_queue_def) }
  note submit = this
  show ?thesis
  proof (cases "spacingElapsed now spacing q \<and> \<not> staleEntry now spacing q")
    case True
    with submit show ?thesis
      by (cases getNonce) (auto simp: flush_queue_def assms(1))
  next
    case False
    then show ?thesis
      using assms(1) by (auto simp: flush_queue_def staleEntry_def)
  qed
qed

lemma collect_keys:
  "collect_batches spacing now getNonce qs = (qs', bs) \<Longrightarrow>
   fst ` set qs' \<subseteq> fst ` set qs \<and> fst ` set bs \<subseteq> fst ` set qs'"
  by (induction qs arbitrary: qs' bs) (force split: prod.splits flush_result.splits)+

lemma collect_lookup:
  assumes "collect_batches spacing now getNonce qs = (qs', bs)" "wf_map qs"
  shows "wf_map qs' \<and> wf_map bs
    \<and> map_of qs' a = (case map_of qs a of None \<Rightarrow> None
        | Some q \<Rightarrow> (case flush_queue spacing (now a) (getNonce a) q of
            Skip q' \<Rightarrow> Some q' | Drop \<Rightarrow> None | Submit b q' \<Rightarrow> Some q'))
    \<and> map_of bs a = (case map_of qs a of None \<Rightarrow> None
        | Some q \<Rightarrow> (case flush_queue spacing (now a) (getNonce a) q of
            Submit b q' \<Rightarrow> Some b | _ \<Rightarrow> None))"
  using assms
proof (induction qs arbitrary: qs' bs)
  case Nil
  then show ?case by simp
next
  case (Cons p qs)
  obtain addr q where p: "p = (addr, q)" by (cases p)
  obtain qs1 bs1 where rec: "collect_batches spacing now getNonce qs = (qs1, bs1)" by fastforce
  have wf: "wf_map qs" "addr \<notin> fst ` set qs" using Cons.prems(2) p by (auto simp: wf_map_def)
  note IH = Cons.IH [OF rec wf(1)]
  have notin: "addr \<notin> fst ` set qs1" "addr \<notin> fst ` set bs1"
    using collect_keys [OF rec] wf(2) by blast+
  then have none: "map_of qs1 addr = None" "map_of bs1 addr = None" "map_of qs addr = None"
    using wf(2) by (simp_all add: map_of_eq_None_iff)
  show ?case
    using Cons.prems(1) IH notin none rec p
    by (cases "a = addr"; cases "flush_queue spacing (now addr) (getNonce addr) q")
      (auto simp: wf_map_def split: option.splits flush_result.splits)
qed

lemma collect_pool_ok:
  assumes "collect_batches spacing now getNonce qs = (qs', bs)" "pool_ok qs []" "\<And>a. now a \<noteq> 0"
  shows "pool_ok qs' bs"
proof -
  have wf: "wf_map qs" using assms(2) by (simp add: pool_ok_def)
  note look = collect_lookup [OF assms(1) wf]
  have "queue_ok q' \<and> length (txs q') + inflight (map_of bs a) \<le> queueBound"
    if m: "map_of qs' a = Some q'" for a q'
  proof -
    obtain q where q: "map_of qs a = Some q" using m look [of a] by (cases "map_of qs a") auto
    with assms(2) have "queue_ok q" "length (txs q) \<le> queueBound" by (auto simp: pool_ok_def)
    with flush_queue_ok [OF this(1) assms(3) [of a], of spacing "getNonce a"] that q look [of a] show ?thesis
      by (auto split: flush_result.splits)
  qed
  moreover have "batch_ok b \<and> (\<exists>q'. map_of qs' a = Some q' \<and> reserved b q')"
    if m: "map_of bs a = Some b" for a b
  proof -
    obtain q where q: "map_of qs a = Some q" using m look [of a] by (cases "map_of qs a") auto
    with assms(2) have "queue_ok q" by (auto simp: pool_ok_def)
    with flush_queue_ok [OF this assms(3) [of a], of spacing "getNonce a"] that q look [of a] show ?thesis
      by (auto split: flush_result.splits)
  qed
  ultimately show ?thesis
    using look by (simp add: pool_ok_def)
qed

section \<open>Adding\<close>

lemma submitPayloads_ok:
  assumes "ks_ok ks"
  shows "\<exists>r ks'. submitPayloads env ref ps ks = Ret (r, ks') \<and> ks_ok ks'"
proof (cases "NewString env (CoinbaseHex env)")
  case (Inl e)
  with assms show ?thesis by (simp add: submitPayloads_def)
next
  case (Inr cb)
  obtain r ks' where "build_with_keystore env ref
      (replaceAddresses (systemContracts env) (runTxScript env)) [CArray ps, cb] ks = Ret (r, ks')"
    "ks_ok ks'"
    using build_with_keystore_keys [OF assms] by blast
  with Inr show ?thesis
    by (cases r) (auto simp: submitPayloads_def split: option.splits)
qed

text \<open>The queue after a fast-path submission and after an enqueue.\<close>

definition submitted :: "time \<Rightarrow> u64 \<Rightarrow> txQueue \<Rightarrow> txQueue" where
  "submitted t n q = q\<lparr>lastSubmittedAt := t, lastSubmittedNonce := n, txs := AList.delete n (txs q)\<rparr>"

definition enqueued :: "pooledEvmTx \<Rightarrow> txQueue \<Rightarrow> txQueue" where
  "enqueued tx q = q\<lparr>txs := AList.update (nonce tx) tx (txs q)\<rparr>"

definition admissible :: "u64 \<Rightarrow> txQueue \<Rightarrow> bool" where
  "admissible n q \<longleftrightarrow> lastSubmittedAt q = 0 \<or> lastSubmittedNonce q < n"

text \<open>
  The access node accepted the Flow transaction that was built around exactly these payloads with a key of
  the key store.
\<close>

definition node_accepted :: "('tx, 'ev) pool_env \<Rightarrow> BlockHeader \<Rightarrow> cadence_value list \<Rightarrow> KeyStore \<Rightarrow> KeyStore \<Rightarrow> bool" where
  "node_accepted env ref payloads ks ks' \<longleftrightarrow> (\<exists>coinbase flowTx. NewString env (CoinbaseHex env) = Inr coinbase
     \<and> build_with_keystore env ref (replaceAddresses (systemContracts env) (runTxScript env)) [CArray payloads, coinbase] ks
         = Ret (Inr flowTx, ks')
     \<and> SendTransaction env flowTx = None)"

lemma submitPayloads_accepted: "submitPayloads env ref ps ks = Ret (Inr i, ks') \<Longrightarrow> node_accepted env ref ps ks ks'"
proof -
  assume sub: "submitPayloads env ref ps ks = Ret (Inr i, ks')"
  then obtain cb where cb: "NewString env (CoinbaseHex env) = Inr cb" by (auto simp: submitPayloads_def split: sum.splits)
  let ?build = "build_with_keystore env ref (replaceAddresses (systemContracts env) (runTxScript env)) [CArray ps, cb] ks"
  obtain r ks1 where b: "?build = Ret (r, ks1)" using sub cb by (cases ?build) (auto simp: submitPayloads_def)
  obtain flowTx where "r = Inr flowTx" "SendTransaction env flowTx = None" "ks1 = ks'"
    using sub cb b by (cases r) (auto simp: submitPayloads_def split: option.splits)
  with cb b show ?thesis by (auto simp: node_accepted_def)
qed

lemma Add_result:
  assumes "ks_ok (st_keystore st)" "encodeTx env tx = Inr (from, payload)"
    and "eoaQueueEntry from (txQueues st) = (q, qs)"
  shows "\<exists>r st'. BatchTxPool_Add env gn spacing (t1, t2, t3) tx st = Ret (r, st') \<and> ks_ok (st_keystore st') \<and>
    ((\<exists>e. r = Some e \<and> txQueues st' = qs
         \<and> (st_keystore st' = st_keystore st \<and> st_dropped st' = st_dropped st
            \<or> submitPayloads env (st_referenceBlock st) [payload] (st_keystore st) = Ret (Inl e, st_keystore st')
              \<and> st_dropped st' = st_dropped st + 1))
     \<or> r = None \<and> admissible (gtNonce tx) q
         \<and> (\<exists>n. gn from = Inr n \<and> snd (fastPathAvailable t2 spacing (gtNonce tx) n q))
         \<and> node_accepted env (st_referenceBlock st) [payload] (st_keystore st) (st_keystore st')
         \<and> txQueues st' = AList.update from (submitted t3 (gtNonce tx) q) qs
     \<or> r = None \<and> admissible (gtNonce tx) q
         \<and> (\<exists>n. gn from = Inr n \<and> \<not> snd (fastPathAvailable t2 spacing (gtNonce tx) n q))
         \<and> st_keystore st' = st_keystore st
         \<and> (map_of (txs q) (gtNonce tx) \<noteq> None \<or> queue_size q < maxEOAQueueSize)
         \<and> txQueues st' = AList.update from (enqueued
             \<lparr>txPayload = payload, txHash = gtHash tx, nonce = gtNonce tx, enqueuedAt = t1\<rparr> q) qs)"
proof -
  obtain r ks' where sub: "submitPayloads env (st_referenceBlock st) [payload] (st_keystore st) = Ret (r, ks')"
    and ks': "ks_ok ks'"
    using submitPayloads_ok [OF assms(1)] by blast
  show ?thesis
  proof (cases "map_option txHash (map_of (txs q) (gtNonce tx)) = Some (gtHash tx)
      \<or> \<not> admissible (gtNonce tx) q")
    case True
    then have "\<exists>e. BatchTxPool_Add env gn spacing (t1, t2, t3) tx st =
        Ret (Some e, st\<lparr>st_published := st_published st @ [tx], txQueues := qs\<rparr>)"
      using assms(2,3) by (auto simp: BatchTxPool_Add_def IsZero_def admissible_def not_less Let_def)
    with assms(1) show ?thesis by auto
  next
    case False
    then have guards: "map_option txHash (map_of (txs q) (gtNonce tx)) \<noteq> Some (gtHash tx)"
      "\<not> (lastSubmittedAt q \<noteq> 0 \<and> gtNonce tx \<le> lastSubmittedNonce q)" "admissible (gtNonce tx) q"
      by (auto simp: admissible_def not_less)
    show ?thesis
    proof (cases "gn from")
      case (Inl e)
      with guards assms show ?thesis by (simp add: BatchTxPool_Add_def IsZero_def Let_def)
    next
      case (Inr sn)
      note base = Inr guards(1,2) assms(2,3)
      let ?st = "st\<lparr>st_published := st_published st @ [tx], txQueues := qs\<rparr>"
      let ?full = "map_of (txs q) (gtNonce tx) = None \<and> queue_size q \<ge> maxEOAQueueSize"
      consider (fast) "snd (fastPathAvailable t2 spacing (gtNonce tx) sn q)"
        | (full) "\<not> snd (fastPathAvailable t2 spacing (gtNonce tx) sn q)" ?full
        | (enq) "\<not> snd (fastPathAvailable t2 spacing (gtNonce tx) sn q)" "\<not> ?full" by blast
      then show ?thesis
      proof cases
        case fast
        with base assms(1) sub ks' guards(3) show ?thesis
          using submitPayloads_accepted [of env "st_referenceBlock st" "[payload]" "st_keystore st"]
          by (cases r) (simp_all add: BatchTxPool_Add_def IsZero_def Let_def
              submitSingleTransaction_def submitted_def)
      next
        case full
        with base have "BatchTxPool_Add env gn spacing (t1, t2, t3) tx st = Ret (Some ErrTxPoolFull, ?st)"
          by (simp add: BatchTxPool_Add_def IsZero_def Let_def)
        with assms(1) show ?thesis by auto
      next
        case enq
        with base assms(1) guards(3) show ?thesis
          by (simp add: BatchTxPool_Add_def IsZero_def Let_def enqueued_def not_le)
      qed
    qed
  qed
qed

lemma Add_encode_error:
  "encodeTx env tx = Inl e \<Longrightarrow> BatchTxPool_Add env gn spacing clock tx st =
     Ret (Some e, st\<lparr>st_published := st_published st @ [tx]\<rparr>)"
  by (simp add: BatchTxPool_Add_def split: prod.split)

lemma submitted_ok: "queue_ok q \<Longrightarrow> queue_ok (submitted t n q)"
  "reserved b q \<Longrightarrow> admissible n q \<Longrightarrow> t \<noteq> 0 \<Longrightarrow> reserved b (submitted t n q)"
  by (auto simp: queue_ok_def submitted_def reserved_def admissible_def split: if_splits)

lemma enqueued_ok:
  assumes "queue_ok q" shows "queue_ok (enqueued tx q)"
  using assms by (auto simp: queue_ok_def enqueued_def split: if_splits)

lemma enqueued_reserved:
  assumes "reserved b q" "admissible (nonce tx) q" "batch_ok b"
  shows "reserved b (enqueued tx q)"
proof -
  have "batch_tail b < nonce tx"
    using assms by (auto simp: reserved_def admissible_def)
  then have "nonce tx' \<noteq> nonce tx" if "tx' \<in> set (bTxs b)" for tx'
    using batch_nonces_le_tail [OF assms(3) that] by auto
  with assms(1) show ?thesis by (simp add: reserved_def enqueued_def)
qed

lemma enqueued_bound:
  assumes "map_of (txs q) (nonce tx) \<noteq> None \<or> queue_size q < maxEOAQueueSize"
    and "length (txs q) + k \<le> queueBound" "k \<le> maxTxBatch"
  shows "length (txs (enqueued tx q)) + k \<le> queueBound"
  using assms by (auto simp: enqueued_def length_update queue_size_def queueBound_def split: option.splits)

lemma Add_pool_ok:
  assumes "BatchTxPool_Add env gn spacing (t1, t2, t3) tx st = Ret (r, st')"
    and "ks_ok (st_keystore st)" "pool_ok (txQueues st) bs" "t3 \<noteq> 0"
  shows "ks_ok (st_keystore st') \<and> pool_ok (txQueues st') bs"
proof (cases "encodeTx env tx")
  case (Inl e)
  with assms Add_encode_error [OF Inl, of gn spacing "(t1, t2, t3)" st] show ?thesis by auto
next
  case (Inr p)
  obtain sender payload where p: "encodeTx env tx = Inr (sender, payload)" using Inr by (cases p) simp
  obtain q qs where e: "eoaQueueEntry sender (txQueues st) = (q, qs)" by fastforce
  note ent = eoaQueueEntry_ok [OF assms(3) e]
  have q: "queue_ok q" "length (txs q) + inflight (map_of bs sender) \<le> queueBound"
    "\<And>b. map_of bs sender = Some b \<Longrightarrow> batch_ok b \<and> reserved b q"
    using ent by (fastforce simp: pool_ok_def)+
  let ?tx = "\<lparr>txPayload = payload, txHash = gtHash tx, nonce = gtNonce tx, enqueuedAt = t1\<rparr>"
  have "length (txs (submitted t3 (gtNonce tx) q)) \<le> length (txs q)"
    by (simp add: submitted_def)
  with q(2) have "length (txs (submitted t3 (gtNonce tx) q)) + inflight (map_of bs sender) \<le> queueBound"
    by linarith
  then have "admissible (gtNonce tx) q \<Longrightarrow> pool_ok (AList.update sender (submitted t3 (gtNonce tx) q) qs) bs"
    using q assms(4) by (intro pool_ok_update [OF ent(1)] submitted_ok) auto
  moreover have "pool_ok (AList.update sender (enqueued ?tx q) qs) bs"
    if "admissible (gtNonce tx) q" "map_of (txs q) (gtNonce tx) \<noteq> None \<or> queue_size q < maxEOAQueueSize"
    using q that inflight_le [OF ent(1), of sender]
    by (intro pool_ok_update [OF ent(1)] enqueued_ok enqueued_bound enqueued_reserved) auto
  ultimately show ?thesis
    using Add_result [OF assms(2) p e, of gn spacing t1 t2 t3] assms(1) ent(1) by auto
qed

section \<open>Acknowledging\<close>

lemma readd_loop:
  assumes "wf_map m" "\<And>n tx. map_of m n = Some tx \<Longrightarrow> nonce tx = n"
  shows "wf_map (fold readd l m) \<and> length (fold readd l m) \<le> length m + length l
    \<and> (\<forall>n tx. map_of (fold readd l m) n = Some tx \<longrightarrow> nonce tx = n)"
  using assms
proof (induction l arbitrary: m)
  case (Cons tx l)
  have "wf_map (readd tx m)" "length (readd tx m) \<le> Suc (length m)"
    "\<And>n t. map_of (readd tx m) n = Some t \<Longrightarrow> nonce t = n"
    using Cons.prems by (auto simp: readd_def length_update split: if_splits option.splits)
  with Cons.IH [of "readd tx m"] show ?case by fastforce
qed simp

text \<open>Distinct nonces that are all absent are all put back, and nothing else changes.\<close>

lemma readd_absent:
  assumes "distinct (map nonce l)" "\<And>tx. tx \<in> set l \<Longrightarrow> map_of m (nonce tx) = None"
  shows "map_of (fold readd l m) n =
      (case find (\<lambda>tx. nonce tx = n) l of Some tx \<Rightarrow> Some tx | None \<Rightarrow> map_of m n)
    \<and> length (fold readd l m) = length m + length l"
  using assms
proof (induction l arbitrary: m)
  case Nil
  then show ?case by simp
next
  case (Cons tx l)
  let ?m = "readd tx m"
  have m: "?m = AList.update (nonce tx) tx m" using Cons.prems(2) [of tx] by (simp add: readd_def)
  have "map_of ?m (nonce t) = None" if "t \<in> set l" for t
    using that Cons.prems unfolding m by (auto simp: image_iff)
  with Cons.IH [of ?m] Cons.prems have IH: "map_of (fold readd l ?m) n =
      (case find (\<lambda>tx. nonce tx = n) l of Some tx \<Rightarrow> Some tx | None \<Rightarrow> map_of ?m n)"
    "length (fold readd l ?m) = length ?m + length l" by auto
  have "find (\<lambda>t. nonce t = nonce tx) l = None"
    using Cons.prems(1) by (auto simp: find_None_iff image_iff)
  with IH m Cons.prems(2) [of tx] show ?case
    by (auto simp: length_update split: option.splits)
qed

lemma pool_ok_ack:
  assumes "pool_ok qs bs" "queue_ok q" "length (txs q) \<le> queueBound"
  shows "pool_ok (AList.update a q qs) (AList.delete a bs)"
  using assms by (auto simp: pool_ok_def)

lemma ackBatch_pool_ok:
  assumes "pool_ok (txQueues st) bs" "map_of bs a = Some b"
  shows "pool_ok (txQueues (ackBatch now a b res st)) (AList.delete a bs)"
proof -
  obtain q where q: "map_of (txQueues st) a = Some q" "queue_ok q"
    "length (txs q) + length (bTxs b) \<le> queueBound"
    using assms by (fastforce simp: pool_ok_def)
  show ?thesis
  proof (cases res)
    case (Inr i)
    have "queue_ok (merge_ack now b q)" "txs (merge_ack now b q) = txs q"
      using q(2) by (auto simp: merge_ack_def Let_def queue_ok_def)
    then show ?thesis
      using pool_ok_ack [OF assms(1), of "merge_ack now b q" a] q Inr by (simp add: ackBatch_def)
  next
    case (Inl e)
    have e: "eoaQueueEntry a (txQueues st) = (q, txQueues st)"
      using q(1) by (simp add: eoaQueueEntry_def)
    let ?q1 = "if lastSubmittedNonce q = nonce (last (bTxs b))
        then q\<lparr>lastSubmittedNonce := bLastSubmittedNonce b, lastSubmittedAt := bLastSubmittedAt b\<rparr> else q"
    let ?q2 = "?q1\<lparr>txs := fold readd (bTxs b) (txs ?q1), retries := retries ?q1 + 1\<rparr>"
    have q1: "queue_ok ?q1" "txs ?q1 = txs q" "retries ?q1 = retries q"
      using q(2) by (auto simp: queue_ok_def)
    have "queue_ok ?q2" "length (txs ?q2) \<le> queueBound" if "retries q < maxSubmissionRetries"
      using readd_loop [of "txs ?q1" "bTxs b"] q1 q(3) that by (auto simp: queue_ok_def)
    moreover have "length (txs ?q1) \<le> queueBound" using q(3) q1(2) by simp
    ultimately have "pool_ok (AList.update a ?q1 (txQueues st)) (AList.delete a bs)"
      "retries q < maxSubmissionRetries \<Longrightarrow> pool_ok (AList.update a ?q2 (txQueues st)) (AList.delete a bs)"
      using pool_ok_ack [OF assms(1)] q1(1) by blast+
    then show ?thesis
      using Inl q1(3) by (simp add: ackBatch_def eoaEnqueueTxs_def e Let_def not_le del: if_split)
  qed
qed

section \<open>Interleavings\<close>

text \<open>
  A configuration is the pool and the batches the flush goroutine has collected but not yet
  acknowledged.  The goroutine collects only when it has none left, and acknowledges them in
  any order with any outcome; \<open>Add\<close> may come in between; submissions and notifications may
  change the key store at any time, within its invariant.  Clock readings are not the zero
  time.
\<close>

inductive pool_step :: "('tx, 'ev) pool_env \<Rightarrow> BatchTxPool \<times> (address, batchSubmission) gomap
    \<Rightarrow> BatchTxPool \<times> (address, batchSubmission) gomap \<Rightarrow> bool" for env where
  add: "BatchTxPool_Add env getNextNonce spacing (t1, t2, t3) tx st = Ret (r, st') \<Longrightarrow> t3 \<noteq> 0 \<Longrightarrow>
    pool_step env (st, bs) (st', bs)"
| collect: "collect_batches spacing now getNonce (txQueues st) = (qs, bs) \<Longrightarrow> (\<And>a. now a \<noteq> 0) \<Longrightarrow>
    pool_step env (st, []) (st\<lparr>txQueues := qs\<rparr>, bs)"
| ack: "map_of bs a = Some b \<Longrightarrow> pool_step env (st, bs) (ackBatch now a b res st, AList.delete a bs)"
| keys: "ks_ok ks \<Longrightarrow> pool_step env (st, bs) (st\<lparr>st_keystore := ks\<rparr>, bs)"
| reference: "pool_step env (st, bs) (updateReferenceBlock hdr st, bs)"

definition pool_inv :: "BatchTxPool \<times> (address, batchSubmission) gomap \<Rightarrow> bool" where
  "pool_inv c \<longleftrightarrow> (case c of (st, bs) \<Rightarrow> ks_ok (st_keystore st) \<and> pool_ok (txQueues st) bs)"

lemma pool_inv_iff [simp]: "pool_inv (st, bs) \<longleftrightarrow> ks_ok (st_keystore st) \<and> pool_ok (txQueues st) bs"
  by (simp add: pool_inv_def)

lemma pool_step_inv: "pool_step env c c' \<Longrightarrow> pool_inv c \<Longrightarrow> pool_inv c'"
proof (induction rule: pool_step.induct)
  case (add getNextNonce spacing t1 t2 t3 tx st r st' bs)
  then show ?case using Add_pool_ok by (metis pool_inv_iff)
next
  case (collect spacing now getNonce st qs bs)
  then show ?case using collect_pool_ok by auto
next
  case (ack bs a b st now res)
  moreover have "st_keystore (ackBatch now a b res st) = st_keystore st"
    by (simp add: ackBatch_def Let_def split: sum.splits option.splits prod.splits)
  ultimately show ?case using ackBatch_pool_ok by simp
qed (auto simp: updateReferenceBlock_def split: sum.split)

lemma pool_reachable_inv: "(pool_step env)\<^sup>*\<^sup>* c c' \<Longrightarrow> pool_inv c \<Longrightarrow> pool_inv c'"
  by (induction rule: rtranclp_induct) (auto intro: pool_step_inv)

lemma NewBatchTxPool_inv:
  "NewBatchTxPool hdr ks = Inr st \<Longrightarrow> ks_ok ks \<Longrightarrow> pool_inv (st, [])"
  by (auto simp: NewBatchTxPool_def NewSingleTxPool_def gw_result pool_ok_def SingleTxPool.defs BatchTxPool.defs)

lemma submit_batches_inv:
  "pool_inv (st, bs) \<Longrightarrow> \<exists>st'. submit_batches env now bs st = Ret st' \<and> pool_inv (st', [])"
proof (induction env now bs st rule: submit_batches.induct)
  case (1 env now st)
  then show ?case by simp
next
  case (2 env now a b rest st)
  then have ks: "ks_ok (st_keystore st)" and ok: "pool_ok (txQueues st) ((a, b) # rest)" by simp_all
  obtain r ks' where sub: "submitPayloads env (st_referenceBlock st) (map txPayload (bTxs b)) (st_keystore st)
      = Ret (r, ks')" "ks_ok ks'"
    using submitPayloads_ok [OF ks] by blast
  let ?st = "ackBatch now a b r (st\<lparr>st_keystore := ks'\<rparr>)"
  have "a \<notin> fst ` set rest" using ok by (simp add: pool_ok_def wf_map_def)
  then have "AList.delete a ((a, b) # rest) = rest" by simp
  moreover have "st_keystore ?st = ks'"
    by (simp add: ackBatch_def Let_def split: sum.splits option.splits prod.splits)
  ultimately have "pool_inv (?st, rest)"
    using ackBatch_pool_ok [of "st\<lparr>st_keystore := ks'\<rparr>" "(a, b) # rest" a b now r] ok sub(2) by simp
  with "2.IH" sub(1) show ?case
    by (auto simp: batchSubmitTransactionsForSameAddress_def)
qed

lemma batch_ok_distinct: "batch_ok b \<Longrightarrow> distinct (map nonce (bTxs b))"
proof -
  assume "batch_ok b"
  then obtain n where "map (unat \<circ> nonce) (bTxs b) = [n ..< n + length (bTxs b)]"
    by (auto simp: batch_ok_def)
  then have "distinct (map unat (map nonce (bTxs b)))" by simp
  then show ?thesis by (auto simp: distinct_map intro: inj_on_imageI2)
qed

section \<open>Properties\<close>

text \<open>C5: In every interleaving of \<open>Add\<close>, collection and acknowledgement from a new pool: each
  queue is keyed by its transactions' nonces, retries at most five times and, with its batch
  in flight, holds at most 55 transactions; each batch in flight has one to five
  transactions at consecutive nonces that are no longer queued and are reserved by the
  queue's last submitted nonce.\<close>

theorem batch_pool_interleavings:
  assumes "NewBatchTxPool hdr ks = Inr st0" and "ks_ok ks"
    and "(pool_step env)\<^sup>*\<^sup>* (st0, []) (st, bs)"
  shows "(\<forall>a q. map_of (txQueues st) a = Some q \<longrightarrow>
      (\<forall>n tx. map_of (txs q) n = Some tx \<longrightarrow> nonce tx = n) \<and> retries q \<le> 5
      \<and> queue_size q + inflight (map_of bs a) \<le> 55)
    \<and> (\<forall>a b. map_of bs a = Some b \<longrightarrow> (\<exists>q n. map_of (txQueues st) a = Some q
      \<and> 1 \<le> length (bTxs b) \<and> length (bTxs b) \<le> 5
      \<and> map (unat \<circ> nonce) (bTxs b) = [n ..< n + length (bTxs b)]
      \<and> (\<forall>tx \<in> set (bTxs b). map_of (txs q) (nonce tx) = None \<and> nonce tx \<le> lastSubmittedNonce q)))"
proof -
  have "pool_inv (st, bs)"
    using pool_reachable_inv [OF assms(3)] NewBatchTxPool_inv [OF assms(1,2)] by blast
  then have ok: "pool_ok (txQueues st) bs" by simp
  have "(\<forall>n tx. map_of (txs q) n = Some tx \<longrightarrow> nonce tx = n) \<and> retries q \<le> 5
      \<and> queue_size q + inflight (map_of bs a) \<le> 55" if "map_of (txQueues st) a = Some q" for a q
    using ok that by (auto simp: pool_ok_def queue_ok_def queue_size_def queueBound_def
        maxSubmissionRetries_def maxEOAQueueSize_def maxTxBatch_def)
  moreover have "\<exists>q n. map_of (txQueues st) a = Some q
      \<and> 1 \<le> length (bTxs b) \<and> length (bTxs b) \<le> 5
      \<and> map (unat \<circ> nonce) (bTxs b) = [n ..< n + length (bTxs b)]
      \<and> (\<forall>tx \<in> set (bTxs b). map_of (txs q) (nonce tx) = None \<and> nonce tx \<le> lastSubmittedNonce q)"
    if "map_of bs a = Some b" for a b
  proof -
    obtain q where q: "map_of (txQueues st) a = Some q" "reserved b q" and b: "batch_ok b"
      using pool_ok_pending [OF ok \<open>map_of bs a = Some b\<close>] by blast
    have "nonce tx \<le> lastSubmittedNonce q" if "tx \<in> set (bTxs b)" for tx
      using batch_nonces_le_tail [OF b that] q(2) by (auto simp: reserved_def)
    with q b show ?thesis
      by (auto simp: batch_ok_def reserved_def maxTxBatch_def Suc_le_eq)
  qed
  ultimately show ?thesis by blast
qed

text \<open>While a batch is in flight, a transaction of the same sender with one of its nonces is
  rejected as in flight, whatever its payload, and no queue changes: a nonce is never
  handed to the network twice at a time.\<close>

theorem inflight_nonce_rejected:
  assumes "pool_inv (st, bs)" and "map_of bs sender = Some b" and "tx' \<in> set (bTxs b)"
    and "encodeTx env tx = Inr (sender, payload)" and "gtNonce tx = nonce tx'"
  shows "BatchTxPool_Add env getNextNonce spacing clock tx st =
    Ret (Some ErrInFlightNonce, st\<lparr>st_published := st_published st @ [tx]\<rparr>)"
proof -
  obtain q where q: "map_of (txQueues st) sender = Some q" "reserved b q" and b: "batch_ok b"
    using pool_ok_pending [of "txQueues st" bs sender b] assms(1,2) by auto
  have "map_of (txs q) (gtNonce tx) = None" "lastSubmittedAt q \<noteq> 0" "gtNonce tx \<le> lastSubmittedNonce q"
    using q(2) batch_nonces_le_tail [OF b assms(3)] assms(3,5) by (auto simp: reserved_def)
  with q(1) assms(4) show ?thesis
    by (simp add: BatchTxPool_Add_def eoaQueueEntry_def IsZero_def Let_def split: prod.split)
qed

text \<open>C13: A failed submission loses no transaction while the queue has retries left: after its
  acknowledgement the queue holds exactly what it held plus the whole batch, which may take
  it above the admission cap, and one more retry is counted.  After the fifth retry the whole batch is
  dropped and counted, and the queued transactions stay.  In both cases the reservation of the nonces is
  taken back unless a later submission has moved it.\<close>

theorem failed_batch_requeued:
  assumes "pool_inv (st, bs)" and "map_of bs a = Some b" and "map_of (txQueues st) a = Some q"
  shows "\<exists>q'. map_of (txQueues (ackBatch now a b (Inl e) st)) a = Some q'
    \<and> (if retries q < 5
       then (\<forall>n. map_of (txs q') n = (case find (\<lambda>tx. nonce tx = n) (bTxs b) of
               Some tx \<Rightarrow> Some tx | None \<Rightarrow> map_of (txs q) n))
         \<and> queue_size q' = queue_size q + length (bTxs b) \<and> retries q' = Suc (retries q)
         \<and> st_dropped (ackBatch now a b (Inl e) st) = st_dropped st
       else txs q' = txs q \<and> retries q' = retries q
         \<and> st_dropped (ackBatch now a b (Inl e) st) = st_dropped st + length (bTxs b))
    \<and> (lastSubmittedNonce q', lastSubmittedAt q') =
        (if lastSubmittedNonce q = nonce (last (bTxs b)) then (bLastSubmittedNonce b, bLastSubmittedAt b)
         else (lastSubmittedNonce q, lastSubmittedAt q))"
proof -
  have "reserved b q" and b: "batch_ok b"
    using pool_ok_pending [of "txQueues st" bs a b] assms(1,2,3) by auto
  then have absent: "\<And>tx. tx \<in> set (bTxs b) \<Longrightarrow> map_of (txs q) (nonce tx) = None"
    by (simp add: reserved_def)
  note look = readd_absent [OF batch_ok_distinct [OF b] absent]
  have "eoaQueueEntry a (txQueues st) = (q, txQueues st)"
    using assms(3) by (simp add: eoaQueueEntry_def)
  then show ?thesis
    using look by (simp add: ackBatch_def eoaEnqueueTxs_def Let_def queue_size_def maxSubmissionRetries_def)
qed

text \<open>C14: \<open>selectSequentialNonces\<close> takes the longest run of at most five queued transactions at
  consecutive nonces from the state nonce on, in ascending order, and removes exactly those
  from the queue.\<close>

theorem selectSequentialNonces_spec:
  assumes "queue_ok q" and "selectSequentialNonces n q = (seq, q')"
  shows "length seq \<le> 5
    \<and> (\<forall>j < length seq. map_of (txs q) (n + of_nat j) = Some (seq ! j))
    \<and> (length seq < 5 \<longrightarrow> map_of (txs q) (n + of_nat (length seq)) = None)
    \<and> (\<forall>x. map_of (txs q') x = (if \<exists>j < length seq. x = n + of_nat j then None else map_of (txs q) x))
    \<and> lastSubmittedNonce q' = lastSubmittedNonce q \<and> lastSubmittedAt q' = lastSubmittedAt q"
proof -
  obtain m where m: "select_loop maxTxBatch n (txs q) = (seq, m)" "q' = q\<lparr>txs := m\<rparr>"
    using selectSequentialNonces_loop [OF assms(2,1)] by blast
  have wf: "wf_map (txs q)" using assms(1) by (simp add: queue_ok_def)
  show ?thesis
    using select_spec [OF m(1) wf maxTxBatch_lt] m(2) by (simp add: maxTxBatch_def)
qed

text \<open>\<open>pruneTxs\<close> keeps a queued transaction exactly if its nonce is not below the state
  nonce, at most fifty above it (in unsigned arithmetic), and it has waited less than thirty
  seconds.\<close>

theorem pruneTxs_spec:
  assumes "queue_ok q"
  shows "map_of (txs (pruneTxs now stateNonce q)) n = Some tx \<longleftrightarrow>
    map_of (txs q) n = Some tx \<and> stateNonce \<le> n \<and> n \<le> 50 + stateNonce
    \<and> Sub now (enqueuedAt tx) < 30 * Second"
  using assms pruneTxs_lookup [OF assms, of now stateNonce n]
  by (auto simp: staleTx_def queue_ok_def maxNonceLookahead_def maxQueueTTL_def not_le not_less
      split: option.splits if_splits)

text \<open>Acknowledging a submitted batch never takes a queue back: the last submitted nonce and
  time do not decrease, they cover the batch and the acknowledgement, the retry count is
  reset and the queued transactions stay.\<close>

theorem ack_monotone:
  assumes "map_of (txQueues st) a = Some q"
  shows "\<exists>q'. map_of (txQueues (ackBatch now a b (Inr flowID) st)) a = Some q'
    \<and> lastSubmittedNonce q' = max (lastSubmittedNonce q) (batch_tail b)
    \<and> lastSubmittedAt q' = max (lastSubmittedAt q) now \<and> retries q' = 0 \<and> txs q' = txs q"
  using assms by (auto simp: ackBatch_def merge_ack_def batch_tail_def Let_def max_def)

text \<open>C12: \<open>Add\<close> of a transaction whose sender and payload can be derived always returns, without panicking
  or blocking on a key.  It changes no queue but the sender's.  An error leaves that as it was (empty if it
  is new), and either nothing was sent or the submission failed with this error and is counted as dropped.
  Success means that the nonce was above the last submitted one, and then exactly one of two things: on the
  fast path an access node accepted a Flow transaction with exactly this payload, and the nonce is now the
  last submitted one and is not queued; otherwise nothing was sent, no key was used, and the transaction is
  queued under its nonce in place of what was there, within the limit of the queue.\<close>

theorem Add_outcome:
  assumes "pool_inv (st, bs)" and "encodeTx env tx = Inr (sender, payload)"
    and "q = (case map_of (txQueues st) sender of Some q \<Rightarrow> q | None \<Rightarrow> new_queue)"
  shows "\<exists>r st' q'. BatchTxPool_Add env getNextNonce spacing (t1, t2, t3) tx st = Ret (r, st')
    \<and> (\<forall>a. a \<noteq> sender \<longrightarrow> map_of (txQueues st') a = map_of (txQueues st) a)
    \<and> map_of (txQueues st') sender = Some q'
    \<and> (case r of
         Some e \<Rightarrow> q' = q
           \<and> (st_keystore st' = st_keystore st \<and> st_dropped st' = st_dropped st
              \<or> submitPayloads env (st_referenceBlock st) [payload] (st_keystore st) = Ret (Inl e, st_keystore st')
                \<and> st_dropped st' = st_dropped st + 1)
       | None \<Rightarrow> (lastSubmittedAt q = 0 \<or> lastSubmittedNonce q < gtNonce tx)
           \<and> (\<exists>n. getNextNonce sender = Inr n
             \<and> (if snd (fastPathAvailable t2 spacing (gtNonce tx) n q)
                then node_accepted env (st_referenceBlock st) [payload] (st_keystore st) (st_keystore st')
                  \<and> q' = q\<lparr>lastSubmittedAt := t3, lastSubmittedNonce := gtNonce tx,
                     txs := AList.delete (gtNonce tx) (txs q)\<rparr>
                else st_keystore st' = st_keystore st
                  \<and> (map_of (txs q) (gtNonce tx) \<noteq> None \<or> queue_size q < maxEOAQueueSize)
                  \<and> q' = q\<lparr>txs := AList.update (gtNonce tx) \<lparr>txPayload = payload, txHash = gtHash tx,
                     nonce = gtNonce tx, enqueuedAt = t1\<rparr> (txs q)\<rparr>)))"
proof -
  obtain qs where e: "eoaQueueEntry sender (txQueues st) = (q, qs)"
    and qs: "\<And>a. a \<noteq> sender \<Longrightarrow> map_of qs a = map_of (txQueues st) a" "map_of qs sender = Some q"
    using assms(3) by (cases "map_of (txQueues st) sender") (auto simp: eoaQueueEntry_def)
  have "ks_ok (st_keystore st)" using assms(1) by simp
  from Add_result [OF this assms(2) e, of getNextNonce spacing t1 t2 t3] obtain r st' where
    add: "BatchTxPool_Add env getNextNonce spacing (t1, t2, t3) tx st = Ret (r, st')" and
    "((\<exists>e. r = Some e \<and> txQueues st' = qs
         \<and> (st_keystore st' = st_keystore st \<and> st_dropped st' = st_dropped st
            \<or> submitPayloads env (st_referenceBlock st) [payload] (st_keystore st) = Ret (Inl e, st_keystore st')
              \<and> st_dropped st' = st_dropped st + 1))
     \<or> r = None \<and> admissible (gtNonce tx) q
         \<and> (\<exists>n. getNextNonce sender = Inr n \<and> snd (fastPathAvailable t2 spacing (gtNonce tx) n q))
         \<and> node_accepted env (st_referenceBlock st) [payload] (st_keystore st) (st_keystore st')
         \<and> txQueues st' = AList.update sender (submitted t3 (gtNonce tx) q) qs
     \<or> r = None \<and> admissible (gtNonce tx) q
         \<and> (\<exists>n. getNextNonce sender = Inr n \<and> \<not> snd (fastPathAvailable t2 spacing (gtNonce tx) n q))
         \<and> st_keystore st' = st_keystore st
         \<and> (map_of (txs q) (gtNonce tx) \<noteq> None \<or> queue_size q < maxEOAQueueSize)
         \<and> txQueues st' = AList.update sender (enqueued
             \<lparr>txPayload = payload, txHash = gtHash tx, nonce = gtNonce tx, enqueuedAt = t1\<rparr> q) qs)"
    by blast
  then show ?thesis
    using add qs by (elim disjE) (auto simp: admissible_def submitted_def enqueued_def)
qed

text \<open>C29: A tick of the flush goroutine returns from every pool within the invariant, whatever
  the nonces it reads and the outcome of each submission, and leaves no batch in flight.\<close>

theorem flush_tick_returns:
  assumes "pool_inv (st, [])" and "\<forall>a. now a \<noteq> 0"
  shows "\<exists>st'. processPooledTransactions_tick env spacing now ack_time getBlockView st = Ret st'
    \<and> pool_inv (st', [])"
proof (cases getBlockView)
  case (Inl e)
  with assms show ?thesis by (simp add: processPooledTransactions_tick_def)
next
  case (Inr getNonce)
  obtain qs bs where c: "collect_batches spacing now getNonce (txQueues st) = (qs, bs)" by fastforce
  have "pool_inv (st\<lparr>txQueues := qs\<rparr>, bs)"
    using collect_pool_ok [OF c] assms by simp
  with submit_batches_inv [OF this] Inr c show ?thesis
    by (simp add: processPooledTransactions_tick_def)
qed

section \<open>Witnesses\<close>

definition demo_ptx :: "u64 \<Rightarrow> pooledEvmTx" where
  "demo_ptx n = \<lparr>txPayload = CString ''00'', txHash = 17, nonce = n, enqueuedAt = 1\<rparr>"

definition demo_queue :: txQueue where
  "demo_queue = \<lparr>txs = [(9, demo_ptx 9)], lastSubmittedAt = 10, lastSubmittedNonce = 6, retries = 0\<rparr>"

definition demo_pool :: "(address, txQueue) gomap \<Rightarrow> BatchTxPool" where
  "demo_pool qs = \<lparr>st_pool = [], st_keystore = one_key_in_use,
     st_referenceBlock = \<lparr>bhID = 1, bhParentID = 0, bhHeight = 1000, bhTimestamp = 0\<rparr>, st_published = [], st_dropped = 0,
     txQueues = qs\<rparr>"

definition demo_batch :: batchSubmission where
  "demo_batch = \<lparr>bTxs = [demo_ptx 5, demo_ptx 6], bLastSubmittedAt = 0, bLastSubmittedNonce = 0\<rparr>"

lemma demo_queue_ok: "queue_ok demo_queue"
  by (simp add: queue_ok_def demo_queue_def demo_ptx_def wf_map_def)

lemma demo_batch_ok: "batch_ok demo_batch"
  by (simp add: batch_ok_def demo_batch_def demo_ptx_def maxTxBatch_def upt_rec)

lemma demo_pool_inv: "pool_inv (demo_pool [(17, demo_queue)], [(17, demo_batch)])"
  using demo_queue_ok demo_batch_ok
  by (simp add: demo_pool_def one_key_in_use_ok pool_ok_def wf_map_def queueBound_def
      maxEOAQueueSize_def maxTxBatch_def reserved_def batch_tail_def demo_queue_def demo_batch_def demo_ptx_def)

lemma inflight_nonce_rejected_witness:
  "BatchTxPool_Add (ref_env [demo_tx 6]) (\<lambda>_. Inr 5) Second (20, 20, 20) (demo_tx 6)
     (demo_pool [(17, demo_queue)]) =
   Ret (Some ErrInFlightNonce, (demo_pool [(17, demo_queue)])\<lparr>st_published := [demo_tx 6]\<rparr>)"
  using inflight_nonce_rejected [OF demo_pool_inv, where sender = 17 and tx' = "demo_ptx 6", OF _ _ encode_demo_tx]
  by (simp add: demo_batch_def demo_ptx_def demo_tx_def demo_pool_def)

lemma failed_batch_requeued_witness:
  "\<exists>q'. map_of (txQueues (ackBatch 30 17 demo_batch (Inl ErrNoKeysAvailable) (demo_pool [(17, demo_queue)]))) 17 = Some q'
     \<and> queue_size q' = 3"
  using failed_batch_requeued [OF demo_pool_inv, of 17 demo_batch demo_queue 30 ErrNoKeysAvailable]
  by (auto simp: demo_pool_def demo_queue_def demo_batch_def queue_size_def)

lemma selectSequentialNonces_spec_witness:
  "selectSequentialNonces 9 demo_queue = ([demo_ptx 9], demo_queue\<lparr>txs := []\<rparr>)
   \<and> map_of (txs demo_queue) (9 + of_nat (length [demo_ptx 9])) = None"
proof
  show sel: "selectSequentialNonces 9 demo_queue = ([demo_ptx 9], demo_queue\<lparr>txs := []\<rparr>)"
    by (simp add: selectSequentialNonces_def demo_queue_def maxTxBatch_Suc)
  show "map_of (txs demo_queue) (9 + of_nat (length [demo_ptx 9])) = None"
    using selectSequentialNonces_spec [OF demo_queue_ok sel] by simp
qed

lemma pruneTxs_spec_witness:
  "map_of (txs (pruneTxs 2 5 demo_queue)) 9 = Some (demo_ptx 9)"
  using pruneTxs_spec [OF demo_queue_ok, of 2 5 9 "demo_ptx 9"]
  by (simp add: demo_queue_def demo_ptx_def Sub_def Second_def Millisecond_def minDuration_def maxDuration_def)

lemma ack_monotone_witness:
  "\<exists>q'. map_of (txQueues (ackBatch 30 17 demo_batch (Inr 3) (demo_pool [(17, demo_queue)]))) 17 = Some q'
     \<and> lastSubmittedNonce q' = 6 \<and> lastSubmittedAt q' = 30"
  using ack_monotone [of "demo_pool [(17, demo_queue)]" 17 demo_queue 30 demo_batch 3]
  by (auto simp: demo_pool_def demo_queue_def demo_batch_def batch_tail_def demo_ptx_def)

text \<open>A run from the empty pool: a transaction is queued, and the next tick collects it.\<close>

lemma batch_demo_run:
  "(pool_step (ref_env [demo_tx 5]))\<^sup>*\<^sup>* (demo_pool [], [])
     ((demo_pool [(17, \<lparr>txs = [], lastSubmittedAt = 20, lastSubmittedNonce = 5, retries = 0\<rparr>)])
        \<lparr>st_published := [demo_tx 5]\<rparr>,
      [(17, \<lparr>bTxs = [demo_ptx 5], bLastSubmittedAt = 0, bLastSubmittedNonce = 0\<rparr>)])"
proof -
  let ?st = "(demo_pool [(17, \<lparr>txs = [(5, demo_ptx 5)], lastSubmittedAt = 0, lastSubmittedNonce = 0, retries = 0\<rparr>)])
        \<lparr>st_published := [demo_tx 5]\<rparr>"
  have "BatchTxPool_Add (ref_env [demo_tx 5]) (\<lambda>_. Inr 4) 10 (1, 2, 3) (demo_tx 5) (demo_pool []) = Ret (None, ?st)"
    unfolding BatchTxPool_Add_def encode_demo_tx
    by (simp add: demo_pool_def eoaQueueEntry_def new_queue_def demo_tx_def IsZero_def
        fastPathAvailable_def spacingElapsed_def queue_size_def maxEOAQueueSize_def demo_ptx_def)
  then have 1: "pool_step (ref_env [demo_tx 5]) (demo_pool [], []) (?st, [])"
    by (rule pool_step.add) simp
  have "collect_batches 10 (\<lambda>_. 20) (\<lambda>_. Inr 5) (txQueues ?st) =
      ([(17, \<lparr>txs = [], lastSubmittedAt = 20, lastSubmittedNonce = 5, retries = 0\<rparr>)],
       [(17, \<lparr>bTxs = [demo_ptx 5], bLastSubmittedAt = 0, bLastSubmittedNonce = 0\<rparr>)])"
    by (simp add: demo_pool_def flush_queue_def spacingElapsed_def IsZero_def staleEntry_def pruneTxs_def
        staleTx_def demo_ptx_def Sub_def minDuration_def maxDuration_def maxQueueTTL_def Second_def
        Millisecond_def maxNonceLookahead_def selectSequentialNonces_def maxTxBatch_Suc)
  from pool_step.collect [OF this, of "ref_env [demo_tx 5]"]
  have "pool_step (ref_env [demo_tx 5]) (?st, [])
     ((demo_pool [(17, \<lparr>txs = [], lastSubmittedAt = 20, lastSubmittedNonce = 5, retries = 0\<rparr>)])
        \<lparr>st_published := [demo_tx 5]\<rparr>,
      [(17, \<lparr>bTxs = [demo_ptx 5], bLastSubmittedAt = 0, bLastSubmittedNonce = 0\<rparr>)])"
    by (simp add: demo_pool_def)
  with 1 show ?thesis by (meson converse_rtranclp_into_rtranclp r_into_rtranclp)
qed

lemma batch_pool_interleavings_witness:
  "\<exists>st. (pool_step (ref_env [demo_tx 5]))\<^sup>*\<^sup>* (demo_pool [], [])
     (st, [(17, \<lparr>bTxs = [demo_ptx 5], bLastSubmittedAt = 0, bLastSubmittedNonce = 0\<rparr>)])
   \<and> (\<exists>q. map_of (txQueues st) 17 = Some q \<and> nonce (demo_ptx 5) \<le> lastSubmittedNonce q)"
proof -
  have new: "NewBatchTxPool (Inr \<lparr>bhID = 1, bhParentID = 0, bhHeight = 1000, bhTimestamp = 0\<rparr>) one_key_in_use = Inr (demo_pool [])"
    by (simp add: NewBatchTxPool_def NewSingleTxPool_def demo_pool_def SingleTxPool.defs BatchTxPool.defs)
  let ?st = "(demo_pool [(17, \<lparr>txs = [], lastSubmittedAt = 20, lastSubmittedNonce = 5, retries = 0\<rparr>)])
        \<lparr>st_published := [demo_tx 5]\<rparr>"
  have "\<exists>q. map_of (txQueues ?st) 17 = Some q \<and> nonce (demo_ptx 5) \<le> lastSubmittedNonce q"
    using conjunct2 [OF batch_pool_interleavings [OF new one_key_in_use_ok batch_demo_run], rule_format,
        of 17 "\<lparr>bTxs = [demo_ptx 5], bLastSubmittedAt = 0, bLastSubmittedNonce = 0\<rparr>"] by auto
  with batch_demo_run show ?thesis by blast
qed

lemma Add_outcome_witness:
  "\<exists>r st' q'. BatchTxPool_Add (ref_env [demo_tx 8]) (\<lambda>_. Inr 5) 10 (30, 30, 30) (demo_tx 8)
       (demo_pool [(17, demo_queue)]) = Ret (r, st') \<and> map_of (txQueues st') 17 = Some q'"
  using Add_outcome [OF demo_pool_inv encode_demo_tx refl] by blast

lemma flush_tick_returns_witness:
  "\<exists>st'. processPooledTransactions_tick (ref_env []) 10 (\<lambda>_. 40) 41 (Inr (\<lambda>_. Inr 9))
      (demo_pool [(17, demo_queue)]) = Ret st' \<and> pool_inv (st', [])"
proof -
  have "pool_inv (demo_pool [(17, demo_queue)], [])"
    using demo_queue_ok by (simp add: demo_pool_def one_key_in_use_ok pool_ok_def wf_map_def queueBound_def
      maxEOAQueueSize_def maxTxBatch_def demo_queue_def)
  from flush_tick_returns [OF this, of "\<lambda>_. 40" "ref_env []" 10 41 "Inr (\<lambda>_. Inr 9)"] show ?thesis by simp
qed

end
