(* ===== verification/Pebble_Store.thy ===== *)
theory Pebble_Store
  imports Evm_Models
begin

text \<open>
  The key-value storage under all indexes, \<^verbatim>\<open>storage/pebble\<close>: \<^verbatim>\<open>keys.go\<close>, \<^verbatim>\<open>storage.go\<close> and
  \<^verbatim>\<open>db.go\<close>.  Pebble itself is the record \<open>pebble_api\<close> of the calls the gateway makes;
  \<open>pebble_ok\<close> states its documented behaviour in terms of a view of the database as a map
  and of a batch as a list of operations, and \<open>mem_pebble\<close> is an engine that has it.
\<close>

section \<open>Keys\<close>

definition blockHeightKey :: byte where "blockHeightKey = 1"
definition blockIDToHeightKey :: byte where "blockIDToHeightKey = 2"
definition evmHeightToCadenceHeightKey :: byte where "evmHeightToCadenceHeightKey = 3"
definition evmHeightToCadenceIDKey :: byte where "evmHeightToCadenceIDKey = 4"
definition txIDKey :: byte where "txIDKey = 10"
definition receiptTxIDToHeightKey :: byte where "receiptTxIDToHeightKey = 20"
definition receiptHeightKey :: byte where "receiptHeightKey = 21"
definition bloomHeightKey :: byte where "bloomHeightKey = 22"
definition traceTxIDKey :: byte where "traceTxIDKey = 40"
definition registerKeyMarker :: byte where "registerKeyMarker = 50"
definition latestEVMHeightKey :: byte where "latestEVMHeightKey = 100"
definition latestCadenceHeightKey :: byte where "latestCadenceHeightKey = 102"
definition eventsHashKey :: byte where "eventsHashKey = 150"
definition sealedEventsHeightKey :: byte where "sealedEventsHeightKey = 151"

lemmas key_codes = blockHeightKey_def blockIDToHeightKey_def evmHeightToCadenceHeightKey_def
  evmHeightToCadenceIDKey_def txIDKey_def receiptTxIDToHeightKey_def receiptHeightKey_def
  bloomHeightKey_def traceTxIDKey_def registerKeyMarker_def latestEVMHeightKey_def
  latestCadenceHeightKey_def eventsHashKey_def sealedEventsHeightKey_def

text \<open>
  The variadic key of \<open>makePrefix\<close> is absent for the special keys; no caller passes more
  than one, so that its panic is unreachable.  \<^verbatim>\<open>set\<close> passes \<^verbatim>\<open>nil\<close> for the special
  keys, which appends nothing.
\<close>

definition makePrefix :: "byte \<Rightarrow> bytes option \<Rightarrow> bytes" where
  "makePrefix code key = (case key of None \<Rightarrow> [code] | Some k \<Rightarrow> code # k)"

definition stripPrefix :: "bytes \<Rightarrow> bytes" where
  "stripPrefix key = tl key"

definition uint64Bytes :: "u64 \<Rightarrow> bytes" where
  "uint64Bytes height = be 8 (unat height)"

text \<open>\<^verbatim>\<open>binary.BigEndian.Uint64\<close> reads the first eight bytes and panics if there are fewer.\<close>

definition BE_Uint64 :: "bytes \<Rightarrow> err + u64" where
  "BE_Uint64 b =
     (if length b < 8 then Inl (RuntimePanic ''index out of range'')
      else Inr (of_nat (unbe (take 8 b))))"

definition hashBytes :: "hash \<Rightarrow> bytes" where
  "hashBytes h = be 32 (unat h)"

text \<open>The split point of the MVCC comparer: a register key without its height suffix.\<close>

definition MVCC_Split :: "bytes \<Rightarrow> int" where
  "MVCC_Split a = (case a of
      [] \<Rightarrow> 0
    | c # _ \<Rightarrow> if c = registerKeyMarker then int (length a) - 8 else int (length a))"

lemma unat_hash_lt: "unat (h :: hash) < 256 ^ 32"
  using unsigned_less [of h] by simp

lemma length_uint64Bytes [simp]: "length (uint64Bytes h) = 8"
  by (simp add: uint64Bytes_def)

lemma BE_Uint64_uint64Bytes [simp]: "BE_Uint64 (uint64Bytes h) = Inr h"
  using unbe_be [OF unat_u64_lt, of h] by (simp add: BE_Uint64_def uint64Bytes_def)

lemma uint64Bytes_inject [simp]: "uint64Bytes a = uint64Bytes b \<longleftrightarrow> a = b"
  using be_inject [OF unat_u64_lt unat_u64_lt, of a b] by (simp add: uint64Bytes_def word_unat_eq_iff)

lemma uint64Bytes_less [simp]: "uint64Bytes a < uint64Bytes b \<longleftrightarrow> a < b"
  using unbe_be [OF unat_u64_lt, of a] unbe_be [OF unat_u64_lt, of b]
  by (simp add: less_bytes_iff uint64Bytes_def word_less_nat_alt)

lemma uint64Bytes_le [simp]: "uint64Bytes a \<le> uint64Bytes b \<longleftrightarrow> a \<le> b"
  by (simp add: not_less [symmetric])

lemma hashBytes_inject [simp]: "hashBytes a = hashBytes b \<longleftrightarrow> a = b"
  using be_inject [OF unat_hash_lt unat_hash_lt, of a b] by (simp add: hashBytes_def word_unat_eq_iff)

lemma makePrefix_simps [simp]:
  "makePrefix code None = [code]" "makePrefix code (Some k) = code # k"
  by (simp_all add: makePrefix_def)

text \<open>Every byte string of eight bytes is the encoding of a height.\<close>

lemma uint64Bytes_surj: "length b = 8 \<Longrightarrow> \<exists>h. b = uint64Bytes h"
proof
  assume "length b = 8"
  moreover from this have "unbe b < 2 ^ 64" using unbe_lt [of b] by simp
  then have "unat (of_nat (unbe b) :: u64) = unbe b" by (simp add: unat_of_nat)
  ultimately show "b = uint64Bytes (of_nat (unbe b))" by (simp add: uint64Bytes_def)
qed

section \<open>Pebble\<close>

datatype batch_op = OpSet bytes bytes | OpDeleteRange bytes bytes

fun apply_op :: "batch_op \<Rightarrow> (bytes \<rightharpoonup> bytes) \<Rightarrow> (bytes \<rightharpoonup> bytes)" where
  "apply_op (OpSet k v) m = m(k \<mapsto> v)"
| "apply_op (OpDeleteRange lo hi) m = (\<lambda>k. if lo \<le> k \<and> k < hi then None else m k)"

definition apply_ops :: "batch_op list \<Rightarrow> (bytes \<rightharpoonup> bytes) \<Rightarrow> (bytes \<rightharpoonup> bytes)" where
  "apply_ops ops m = fold apply_op ops m"

lemma apply_ops_Nil [simp]: "apply_ops [] m = m"
  by (simp add: apply_ops_def)

lemma apply_ops_append [simp]: "apply_ops (xs @ ys) m = apply_ops ys (apply_ops xs m)"
  by (simp add: apply_ops_def)

lemma apply_ops_Cons [simp]: "apply_ops (x # xs) m = apply_ops xs (apply_op x m)"
  by (simp add: apply_ops_def)

text \<open>
  The calls of the Pebble library: point reads, batches, an iterator over a key range, and
  the seek of the first key not below a given one with the same prefix, where \<open>split\<close> is the
  comparer's.  A key's value may fail to load.
\<close>

record ('db, 'batch) pebble_api =
  db_Get :: "'db \<Rightarrow> bytes \<Rightarrow> err + bytes"
  db_NewBatch :: "'db \<Rightarrow> 'batch"
  b_Set :: "bytes \<Rightarrow> bytes \<Rightarrow> 'batch \<Rightarrow> err + 'batch"
  b_DeleteRange :: "bytes \<Rightarrow> bytes \<Rightarrow> 'batch \<Rightarrow> err + 'batch"
  b_Commit :: "'batch \<Rightarrow> 'db \<Rightarrow> err + 'db"
  db_Iter :: "'db \<Rightarrow> bytes \<Rightarrow> bytes \<Rightarrow> err + (bytes \<times> (err + bytes)) list"
  db_SeekPrefixGE :: "(bytes \<Rightarrow> int) \<Rightarrow> 'db \<Rightarrow> bytes \<Rightarrow> err + (err + bytes) option"

definition seek_candidates :: "(bytes \<Rightarrow> int) \<Rightarrow> (bytes \<rightharpoonup> bytes) \<Rightarrow> bytes \<Rightarrow> bytes set" where
  "seek_candidates split m key =
     {k. m k \<noteq> None \<and> key \<le> k \<and> take (nat (split k)) k = take (nat (split key)) key}"

text \<open>
  Documented behaviour of a healthy database: reads see the committed map, a batch collects
  its operations in order, a commit applies all of them, iterators visit the keys of the
  range in ascending order, and a prefix seek finds the least candidate.
\<close>

definition pebble_ok ::
    "('db, 'batch) pebble_api \<Rightarrow> ('db \<Rightarrow> bytes \<rightharpoonup> bytes) \<Rightarrow> ('batch \<Rightarrow> batch_op list) \<Rightarrow> bool" where
  "pebble_ok P view ops \<longleftrightarrow>
     (\<forall>d k. db_Get P d k = (case view d k of None \<Rightarrow> Inl PebbleErrNotFound | Some v \<Rightarrow> Inr v))
   \<and> (\<forall>d. ops (db_NewBatch P d) = [])
   \<and> (\<forall>k v b. \<exists>b'. b_Set P k v b = Inr b' \<and> ops b' = ops b @ [OpSet k v])
   \<and> (\<forall>lo hi b. \<exists>b'. b_DeleteRange P lo hi b = Inr b' \<and> ops b' = ops b @ [OpDeleteRange lo hi])
   \<and> (\<forall>b d d'. b_Commit P b d = Inr d' \<longrightarrow> view d' = apply_ops (ops b) (view d))
   \<and> (\<forall>d lo hi. \<exists>xs. db_Iter P d lo hi = Inr (map (\<lambda>(k, v). (k, Inr v)) xs)
        \<and> sorted_wrt (<) (map fst xs) \<and> set xs = {(k, v). view d k = Some v \<and> lo \<le> k \<and> k < hi})
   \<and> (\<forall>split d key. case db_SeekPrefixGE P split d key of
        Inr None \<Rightarrow> seek_candidates split (view d) key = {}
      | Inr (Some r) \<Rightarrow> (\<exists>k \<in> seek_candidates split (view d) key. \<exists>v.
          (\<forall>k' \<in> seek_candidates split (view d) key. k \<le> k') \<and> view d k = Some v \<and> r = Inr v)
      | Inl _ \<Rightarrow> False)"

section \<open>Storage\<close>

definition storage_set ::
    "('db, 'batch) pebble_api \<Rightarrow> byte \<Rightarrow> bytes option \<Rightarrow> bytes \<Rightarrow> 'batch \<Rightarrow> err + 'batch" where
  "storage_set P keyCode key value batch = b_Set P (makePrefix keyCode key) value batch"

definition storage_get :: "('db, 'batch) pebble_api \<Rightarrow> 'db \<Rightarrow> byte \<Rightarrow> bytes option \<Rightarrow> err + bytes" where
  "storage_get P d keyCode key = (case db_Get P d (makePrefix keyCode key) of
      Inl e \<Rightarrow> if errors_Is e PebbleErrNotFound then Inl ErrEntityNotFound else Inl e
    | Inr data \<Rightarrow> Inr data)"

definition NewBatch :: "('db, 'batch) pebble_api \<Rightarrow> 'db \<Rightarrow> 'batch" where
  "NewBatch P d = db_NewBatch P d"

text \<open>The database after the call, and the error if there is one.\<close>

definition WithBatch ::
    "('db, 'batch) pebble_api \<Rightarrow> ('batch \<Rightarrow> err + 'batch) \<Rightarrow> 'db \<Rightarrow> err option \<times> 'db" where
  "WithBatch P f d = (case f (NewBatch P d) of
      Inl e \<Rightarrow> (Some e, d)
    | Inr batch \<Rightarrow>
       (case b_Commit P batch d of
          Inl e \<Rightarrow> (Some (Errorf ''failed to commit batch: %w'' [] [e]), d)
        | Inr d' \<Rightarrow> (None, d')))"

lemma storage_get_view:
  "pebble_ok P view ops \<Longrightarrow> storage_get P d code key =
     (case view d (makePrefix code key) of None \<Rightarrow> Inl ErrEntityNotFound | Some v \<Rightarrow> Inr v)"
  by (auto simp: pebble_ok_def storage_get_def split: option.splits)

lemma storage_set_ops:
  "pebble_ok P view ops \<Longrightarrow>
   \<exists>b'. storage_set P code key v b = Inr b' \<and> ops b' = ops b @ [OpSet (makePrefix code key) v]"
  by (simp add: pebble_ok_def storage_set_def)

lemma pebble_set:
  "pebble_ok P view ops \<Longrightarrow> \<exists>b'. b_Set P k v b = Inr b' \<and> ops b' = ops b @ [OpSet k v]"
  by (simp add: pebble_ok_def)

lemma pebble_delete_range:
  "pebble_ok P view ops \<Longrightarrow> \<exists>b'. b_DeleteRange P lo hi b = Inr b' \<and> ops b' = ops b @ [OpDeleteRange lo hi]"
  by (simp add: pebble_ok_def)

lemma pebble_commit:
  "pebble_ok P view ops \<Longrightarrow> b_Commit P b d = Inr d' \<Longrightarrow> view d' = apply_ops (ops b) (view d)"
  unfolding pebble_ok_def by blast

lemma pebble_iter:
  assumes "pebble_ok P view ops"
  obtains xs where "db_Iter P d lo hi = Inr (map (\<lambda>(k, v). (k, Inr v)) xs)"
    "sorted_wrt (<) (map fst xs)" "set xs = {(k, v). view d k = Some v \<and> lo \<le> k \<and> k < hi}"
  using assms unfolding pebble_ok_def by blast

lemma WithBatch_view:
  assumes "pebble_ok P view ops" "WithBatch P f d = (None, d')"
  shows "\<exists>b. f (NewBatch P d) = Inr b \<and> view d' = apply_ops (ops b) (view d)"
  using assms(2) pebble_commit [OF assms(1)]
  by (auto simp: WithBatch_def split: sum.splits)

lemma WithBatch_error: "WithBatch P f d = (Some e, d') \<Longrightarrow> d' = d"
  by (auto simp: WithBatch_def split: sum.splits)

section \<open>A reference engine\<close>

text \<open>An in-memory engine: the database is an association list, a batch its operations.\<close>

definition mem_entries :: "(bytes \<times> bytes) list \<Rightarrow> (bytes \<Rightarrow> bool) \<Rightarrow> (bytes \<times> bytes) list" where
  "mem_entries d f = sort_key fst (filter (\<lambda>(k, v). f k) (AList.clearjunk d))"

fun mem_apply :: "batch_op \<Rightarrow> (bytes \<times> bytes) list \<Rightarrow> (bytes \<times> bytes) list" where
  "mem_apply (OpSet k v) d = AList.update k v d"
| "mem_apply (OpDeleteRange lo hi) d = filter (\<lambda>(k, v). \<not> (lo \<le> k \<and> k < hi)) d"

definition mem_pebble :: "((bytes \<times> bytes) list, batch_op list) pebble_api" where
  "mem_pebble =
     \<lparr>db_Get = (\<lambda>d k. case map_of d k of None \<Rightarrow> Inl PebbleErrNotFound | Some v \<Rightarrow> Inr v),
      db_NewBatch = (\<lambda>_. []),
      b_Set = (\<lambda>k v b. Inr (b @ [OpSet k v])),
      b_DeleteRange = (\<lambda>lo hi b. Inr (b @ [OpDeleteRange lo hi])),
      b_Commit = (\<lambda>b d. Inr (fold mem_apply b d)),
      db_Iter = (\<lambda>d lo hi. Inr (map (\<lambda>(k, v). (k, Inr v)) (mem_entries d (\<lambda>k. lo \<le> k \<and> k < hi)))),
      db_SeekPrefixGE = (\<lambda>split d key. Inr (case mem_entries d (\<lambda>k. key \<le> k \<and>
          take (nat (split k)) k = take (nat (split key)) key) of
            [] \<Rightarrow> None | (k, v) # _ \<Rightarrow> Some (Inr v)))\<rparr>"

lemma mem_entries_set: "set (mem_entries d f) = {(k, v). map_of d k = Some v \<and> f k}"
proof -
  have "(k, v) \<in> set (AList.clearjunk d) \<longleftrightarrow> map_of d k = Some v" for k v
    by (metis distinct_clearjunk map_of_clearjunk map_of_eq_Some_iff)
  then show ?thesis by (auto simp: mem_entries_def)
qed

lemma mem_entries_sorted: "sorted_wrt (<) (map fst (mem_entries d f))"
proof -
  have "distinct (map fst (filter (\<lambda>(k, v). f k) (AList.clearjunk d)))"
    using distinct_clearjunk [of d] by (rule distinct_map_filter)
  then have "distinct (map fst (mem_entries d f))"
    by (simp add: mem_entries_def distinct_map)
  then show ?thesis
    by (simp add: mem_entries_def strict_sorted_iff)
qed

lemma mem_apply_view: "map_of (mem_apply x d) = apply_op x (map_of d)"
proof (cases x)
  case (OpSet k v)
  then show ?thesis by (simp add: update_conv')
next
  case (OpDeleteRange lo hi)
  have "map_of (filter (\<lambda>(k, v). f k) d) k = (if f k then map_of d k else None)" for f k
    by (induction d) auto
  with OpDeleteRange show ?thesis by (auto simp: fun_eq_iff)
qed

lemma mem_commit_view: "map_of (fold mem_apply b d) = apply_ops b (map_of d)"
  by (induction b arbitrary: d) (simp_all add: apply_ops_def mem_apply_view)

theorem mem_pebble_ok: "pebble_ok mem_pebble map_of (\<lambda>b. b)"
proof -
  have iter: "\<exists>xs. db_Iter mem_pebble d lo hi = Inr (map (\<lambda>(k, v). (k, Inr v)) xs)
        \<and> sorted_wrt (<) (map fst xs) \<and> set xs = {(k, v). map_of d k = Some v \<and> lo \<le> k \<and> k < hi}" for d lo hi
    by (intro exI [of _ "mem_entries d (\<lambda>k. lo \<le> k \<and> k < hi)"])
      (simp add: mem_pebble_def mem_entries_sorted mem_entries_set)
  have seek: "case db_SeekPrefixGE mem_pebble split d key of
        Inr None \<Rightarrow> seek_candidates split (map_of d) key = {}
      | Inr (Some r) \<Rightarrow> (\<exists>k \<in> seek_candidates split (map_of d) key. \<exists>v.
          (\<forall>k' \<in> seek_candidates split (map_of d) key. k \<le> k') \<and> map_of d k = Some v \<and> r = Inr v)
      | Inl _ \<Rightarrow> False" for split d key
  proof -
    let ?f = "\<lambda>k. key \<le> k \<and> take (nat (split k)) k = take (nat (split key)) key"
    have cand: "seek_candidates split (map_of d) key = fst ` set (mem_entries d ?f)"
      by (force simp: seek_candidates_def mem_entries_set)
    show ?thesis
    proof (cases "mem_entries d ?f")
      case Nil
      then show ?thesis by (simp add: mem_pebble_def cand)
    next
      case (Cons p ps)
      obtain k v where p: "p = (k, v)" by (cases p)
      have "(k, v) \<in> set (mem_entries d ?f)" using Cons p by simp
      then have "map_of d k = Some v" by (simp add: mem_entries_set)
      moreover have "\<forall>k' \<in> fst ` set (mem_entries d ?f). k \<le> k'"
        using mem_entries_sorted [of d ?f] by (auto simp: Cons p)
      moreover have "k \<in> fst ` set (mem_entries d ?f)" using Cons p by simp
      ultimately show ?thesis using Cons p by (simp add: mem_pebble_def cand)
    qed
  qed
  show ?thesis
    unfolding pebble_ok_def using iter seek
    by (simp add: mem_commit_view mem_pebble_def [THEN arg_cong [of _ _ db_Get]]
        mem_pebble_def [THEN arg_cong [of _ _ db_NewBatch]] mem_pebble_def [THEN arg_cong [of _ _ b_Set]]
        mem_pebble_def [THEN arg_cong [of _ _ b_DeleteRange]] mem_pebble_def [THEN arg_cong [of _ _ b_Commit]])
qed

end
