(* ===== verification/Blocks_Index.thy ===== *)
theory Blocks_Index
  imports Pebble_Store
begin

text \<open>
  The index of EVM blocks, \<^verbatim>\<open>storage/pebble/blocks.go\<close>: four mappings per block and the two
  latest heights.  \<open>index_of\<close> reads a database view as an abstract index of blocks, and
  storing and reading are shown to refine its updates and lookups.
\<close>

section \<open>Operations\<close>

text \<open>\<open>testnet\<close> tells whether the chain is the Flow testnet, \<open>genesis\<close> is its genesis block.\<close>

record Blocks =
  testnet :: bool
  genesis :: EvmBlock

definition testnetBrokenParentHashBlockHeights :: "u64 list" where
  "testnetBrokenParentHashBlockHeights = [1, 1385491]"

definition Blocks_Store ::
    "('db, 'batch) pebble_api \<Rightarrow> 'ev codec \<Rightarrow> u64 \<Rightarrow> flow_id \<Rightarrow> Block \<Rightarrow> 'batch \<Rightarrow> err + 'batch" where
  "Blocks_Store P c cadenceHeight cadenceID block batch =
     rbind (ToBytes c block) (\<lambda>val.
     rbind (Hash c block) (\<lambda>id.
     let height = Height (evmBlock block);
         cadenceHeightBytes = uint64Bytes cadenceHeight;
         evmHeightBytes = uint64Bytes height;
         args = [FNum (unat height), FNum (unat cadenceHeight)] in
     rbind (rwrap (\<lambda>e. Errorf ''failed to store EVM block: %d at Cadence height: %d, with: %w'' args [e])
       (storage_set P blockHeightKey (Some evmHeightBytes) val batch)) (\<lambda>batch.
     rbind (rwrap (\<lambda>e. Errorf ''failed to store EVM block ID: %s to height: %d mapping, with: %w''
              [FNum (unat id), FNum (unat height)] [e])
       (storage_set P blockIDToHeightKey (Some (hashBytes id)) evmHeightBytes batch)) (\<lambda>batch.
     rbind (rwrap (\<lambda>e. Errorf ''failed to store EVM block height: %d to Cadence height: %d mapping, with: %w'' args [e])
       (storage_set P evmHeightToCadenceHeightKey (Some evmHeightBytes) cadenceHeightBytes batch)) (\<lambda>batch.
     rbind (rwrap (\<lambda>e. Errorf ''failed to store EVM block height: %d to Cadence ID: %s mapping, with: %w''
              [FNum (unat height), FNum (unat cadenceID)] [e])
       (storage_set P evmHeightToCadenceIDKey (Some evmHeightBytes) (hashBytes cadenceID) batch)) (\<lambda>batch.
     rbind (rwrap (\<lambda>e. Errorf ''failed to store latest Cadence height: %d, with: %w'' [FNum (unat cadenceHeight)] [e])
       (storage_set P latestCadenceHeightKey None cadenceHeightBytes batch)) (\<lambda>batch.
     rwrap (\<lambda>e. Errorf ''failed to store latest EVM height: %d, with: %w'' [FNum (unat height)] [e])
       (storage_set P latestEVMHeightKey None evmHeightBytes batch))))))))"

definition latestEVMHeight :: "('db, 'batch) pebble_api \<Rightarrow> 'db \<Rightarrow> err + u64" where
  "latestEVMHeight P d = (case storage_get P d latestEVMHeightKey None of
      Inl e \<Rightarrow> if errors_Is e ErrEntityNotFound then Inl ErrStorageNotInitialized
               else Inl (Errorf ''failed to get EVM height: %w'' [] [e])
    | Inr val \<Rightarrow> BE_Uint64 val)"

definition LatestEVMHeight :: "('db, 'batch) pebble_api \<Rightarrow> 'db \<Rightarrow> err + u64" where
  "LatestEVMHeight P d = latestEVMHeight P d"

definition LatestCadenceHeight :: "('db, 'batch) pebble_api \<Rightarrow> 'db \<Rightarrow> err + u64" where
  "LatestCadenceHeight P d = (case storage_get P d latestCadenceHeightKey None of
      Inl e \<Rightarrow> if errors_Is e ErrEntityNotFound then Inl ErrStorageNotInitialized
               else Inl (Errorf ''failed to get latest Cadence height: %w'' [] [e])
    | Inr val \<Rightarrow> BE_Uint64 val)"

definition SetLatestCadenceHeight ::
    "('db, 'batch) pebble_api \<Rightarrow> u64 \<Rightarrow> 'batch \<Rightarrow> err + 'batch" where
  "SetLatestCadenceHeight P height batch =
     rwrap (\<lambda>e. Errorf ''failed to store latest Cadence height: %d, with: %w'' [FNum (unat height)] [e])
       (storage_set P latestCadenceHeightKey None (uint64Bytes height) batch)"

text \<open>
  \<open>getBlock\<close> calls itself for the parent of the two testnet blocks.  After the first call
  its key is one of two heights, so that a chain of more than three calls repeats a key and
  never ends: running out of five nested calls is exactly endless recursion, which the running
  program ends by exhausting its stack.
\<close>

fun getBlock_rec :: "nat \<Rightarrow> ('db, 'batch) pebble_api \<Rightarrow> 'ev codec \<Rightarrow> Blocks \<Rightarrow> 'db \<Rightarrow> bytes \<Rightarrow> err + Block" where
  "getBlock_rec 0 P c b d key = Inl (RuntimePanic ''stack overflow'')"
| "getBlock_rec (Suc n) P c b d key =
     rbind (rwrap (\<lambda>e. Errorf ''failed to get block: %w'' [] [e]) (storage_get P d blockHeightKey (Some key))) (\<lambda>data.
     rbind (NewBlockFromBytes c data) (\<lambda>block.
     if testnet b \<and> Height (evmBlock block) \<in> set testnetBrokenParentHashBlockHeights then
       rbind (Hash c block) (\<lambda>blockHash.
       rbind (getBlock_rec n P c b d (uint64Bytes (Height (evmBlock block) - 1))) (\<lambda>parentBlock.
       rbind (Hash c parentBlock) (\<lambda>parentHash.
       Inr (block\<lparr>FixedHash := blockHash,
                   evmBlock := (evmBlock block)\<lparr>ParentBlockHash := parentHash\<rparr>\<rparr>))))
     else Inr block))"

definition getBlock :: "('db, 'batch) pebble_api \<Rightarrow> 'ev codec \<Rightarrow> Blocks \<Rightarrow> 'db \<Rightarrow> bytes \<Rightarrow> err + Block" where
  "getBlock = getBlock_rec 5"

definition GetByHeight ::
    "('db, 'batch) pebble_api \<Rightarrow> 'ev codec \<Rightarrow> Blocks \<Rightarrow> 'db \<Rightarrow> u64 \<Rightarrow> err + Block" where
  "GetByHeight P c b d height =
     rbind (latestEVMHeight P d) (\<lambda>last.
     if height > last then Inl ErrEntityNotFound
     else rwrapf ''failed to get EVM block by height: %d, with: %w'' [FNum (unat height)]
            (getBlock P c b d (uint64Bytes height)))"

definition GetByID ::
    "('db, 'batch) pebble_api \<Rightarrow> 'ev codec \<Rightarrow> Blocks \<Rightarrow> 'db \<Rightarrow> hash \<Rightarrow> err + Block" where
  "GetByID P c b d ID =
     rbind (rwrap (\<lambda>e. Errorf ''failed to get EVM block by ID: %s, with: %w'' [FNum (unat ID)] [e])
       (storage_get P d blockIDToHeightKey (Some (hashBytes ID)))) (\<lambda>height.
     rwrapf ''failed to get EVM block by height: %d, with: %w'' [FNum (unbe height)]
       (getBlock P c b d height))"

definition GetHeightByID :: "('db, 'batch) pebble_api \<Rightarrow> 'db \<Rightarrow> hash \<Rightarrow> err + u64" where
  "GetHeightByID P d ID =
     rbind (rwrap (\<lambda>e. Errorf ''failed to get EVM block by ID: %s, with: %w'' [FNum (unat ID)] [e])
       (storage_get P d blockIDToHeightKey (Some (hashBytes ID)))) BE_Uint64"

definition GetCadenceHeight :: "('db, 'batch) pebble_api \<Rightarrow> 'db \<Rightarrow> u64 \<Rightarrow> err + u64" where
  "GetCadenceHeight P d evmHeight =
     rbind (storage_get P d evmHeightToCadenceHeightKey (Some (uint64Bytes evmHeight))) BE_Uint64"

definition GetCadenceID :: "('db, 'batch) pebble_api \<Rightarrow> 'ev codec \<Rightarrow> 'db \<Rightarrow> u64 \<Rightarrow> err + flow_id" where
  "GetCadenceID P c d evmHeight =
     rbind (storage_get P d evmHeightToCadenceIDKey (Some (uint64Bytes evmHeight)))
       (\<lambda>val. Inr (BytesToID c val))"

text \<open>\<open>InitHeights\<close> reads the database, not the batch, for its sanity check.\<close>

definition InitHeights ::
    "('db, 'batch) pebble_api \<Rightarrow> 'ev codec \<Rightarrow> Blocks \<Rightarrow> 'db \<Rightarrow> u64 \<Rightarrow> flow_id \<Rightarrow> 'batch \<Rightarrow> err + 'batch" where
  "InitHeights P c b d cadenceHeight cadenceID batch =
     (case LatestEVMHeight P d of
        Inr _ \<Rightarrow> Inl (New_err ''can't init the database that already has data stored'')
      | Inl e \<Rightarrow>
       if is_panic e then Inl e
       else if \<not> errors_Is e ErrStorageNotInitialized
       then Inl (New_err ''can't init the database that already has data stored'')
       else
       rbind (rwrap (\<lambda>e. Errorf ''failed to init latest Cadence height at: %d, with: %w'' [FNum (unat cadenceHeight)] [e])
         (storage_set P latestCadenceHeightKey None (uint64Bytes cadenceHeight) batch)) (\<lambda>batch.
       rbind (rwrap (\<lambda>e. Errorf ''failed to init latest EVM height at: %d, with: %w'' [FNum 0] [e])
         (storage_set P latestEVMHeightKey None (uint64Bytes 0) batch)) (\<lambda>batch.
       rwrap (\<lambda>e. Errorf ''failed to store genesis block at Cadence height: %d, with: %w'' [FNum (unat cadenceHeight)] [e])
         (Blocks_Store P c cadenceHeight cadenceID (GenesisBlock (genesis b)) batch))))"

section \<open>The abstract index\<close>

text \<open>
  What the mappings stand for: the decoded block at a height, the height of a hash, the
  Cadence height and identifier of a height, and the latest heights.
\<close>

record index =
  ixBlock :: "u64 \<rightharpoonup> Block"
  ixHeight :: "hash \<rightharpoonup> u64"
  ixCadence :: "u64 \<rightharpoonup> u64"
  ixCadenceID :: "u64 \<rightharpoonup> flow_id"
  ixLatest :: "u64 option"
  ixLatestCadence :: "u64 option"

definition decoded :: "(bytes \<Rightarrow> err + 'a) \<Rightarrow> bytes option \<Rightarrow> 'a option" where
  "decoded f x = (case x of None \<Rightarrow> None | Some v \<Rightarrow> (case f v of Inl _ \<Rightarrow> None | Inr y \<Rightarrow> Some y))"

lemma decoded_simps [simp]: "decoded f None = None"
  "decoded f (Some v) = (case f v of Inl _ \<Rightarrow> None | Inr y \<Rightarrow> Some y)"
  by (simp_all add: decoded_def)

definition index_of :: "'ev codec \<Rightarrow> (bytes \<rightharpoonup> bytes) \<Rightarrow> index" where
  "index_of c m =
     \<lparr>ixBlock = (\<lambda>h. decoded (NewBlockFromBytes c) (m (blockHeightKey # uint64Bytes h))),
      ixHeight = (\<lambda>i. decoded BE_Uint64 (m (blockIDToHeightKey # hashBytes i))),
      ixCadence = (\<lambda>h. decoded BE_Uint64 (m (evmHeightToCadenceHeightKey # uint64Bytes h))),
      ixCadenceID = (\<lambda>h. map_option (BytesToID c) (m (evmHeightToCadenceIDKey # uint64Bytes h))),
      ixLatest = decoded BE_Uint64 (m [latestEVMHeightKey]),
      ixLatestCadence = decoded BE_Uint64 (m [latestCadenceHeightKey])\<rparr>"

definition index_store :: "u64 \<Rightarrow> flow_id \<Rightarrow> Block \<Rightarrow> hash \<Rightarrow> index \<Rightarrow> index" where
  "index_store cadenceHeight cadenceID block blockID ix =
     \<lparr>ixBlock = (ixBlock ix)(Height (evmBlock block) \<mapsto> block),
      ixHeight = (ixHeight ix)(blockID \<mapsto> Height (evmBlock block)),
      ixCadence = (ixCadence ix)(Height (evmBlock block) \<mapsto> cadenceHeight),
      ixCadenceID = (ixCadenceID ix)(Height (evmBlock block) \<mapsto> cadenceID),
      ixLatest = Some (Height (evmBlock block)),
      ixLatestCadence = Some cadenceHeight\<rparr>"

text \<open>The operations a stored block adds to a batch.\<close>

definition block_ops :: "u64 \<Rightarrow> flow_id \<Rightarrow> u64 \<Rightarrow> bytes \<Rightarrow> hash \<Rightarrow> batch_op list" where
  "block_ops cadenceHeight cadenceID height val blockID =
     [OpSet (blockHeightKey # uint64Bytes height) val,
      OpSet (blockIDToHeightKey # hashBytes blockID) (uint64Bytes height),
      OpSet (evmHeightToCadenceHeightKey # uint64Bytes height) (uint64Bytes cadenceHeight),
      OpSet (evmHeightToCadenceIDKey # uint64Bytes height) (hashBytes cadenceID),
      OpSet [latestCadenceHeightKey] (uint64Bytes cadenceHeight),
      OpSet [latestEVMHeightKey] (uint64Bytes height)]"

lemma storage_set_step:
  assumes "pebble_ok P view ops"
  obtains b' where "storage_set P code key v b = Inr b'" "ops b' = ops b @ [OpSet (makePrefix code key) v]"
  using storage_set_ops [OF assms] by blast

lemma Blocks_Store_ops:
  assumes "pebble_ok P view ops" "ToBytes c block = Inr val" "Hash c block = Inr blockID"
  shows "\<exists>b'. Blocks_Store P c ch cid block b = Inr b'
    \<and> ops b' = ops b @ block_ops ch cid (Height (evmBlock block)) val blockID"
proof -
  let ?h = "uint64Bytes (Height (evmBlock block))"
  obtain b1 where b1: "storage_set P blockHeightKey (Some ?h) val b = Inr b1"
    "ops b1 = ops b @ [OpSet (blockHeightKey # ?h) val]"
    using storage_set_step [OF assms(1)] by (metis makePrefix_simps(2))
  obtain b2 where b2: "storage_set P blockIDToHeightKey (Some (hashBytes blockID)) ?h b1 = Inr b2"
    "ops b2 = ops b1 @ [OpSet (blockIDToHeightKey # hashBytes blockID) ?h]"
    using storage_set_step [OF assms(1)] by (metis makePrefix_simps(2))
  obtain b3 where b3: "storage_set P evmHeightToCadenceHeightKey (Some ?h) (uint64Bytes ch) b2 = Inr b3"
    "ops b3 = ops b2 @ [OpSet (evmHeightToCadenceHeightKey # ?h) (uint64Bytes ch)]"
    using storage_set_step [OF assms(1)] by (metis makePrefix_simps(2))
  obtain b4 where b4: "storage_set P evmHeightToCadenceIDKey (Some ?h) (hashBytes cid) b3 = Inr b4"
    "ops b4 = ops b3 @ [OpSet (evmHeightToCadenceIDKey # ?h) (hashBytes cid)]"
    using storage_set_step [OF assms(1)] by (metis makePrefix_simps(2))
  obtain b5 where b5: "storage_set P latestCadenceHeightKey None (uint64Bytes ch) b4 = Inr b5"
    "ops b5 = ops b4 @ [OpSet [latestCadenceHeightKey] (uint64Bytes ch)]"
    using storage_set_step [OF assms(1)] by (metis makePrefix_simps(1))
  obtain b6 where b6: "storage_set P latestEVMHeightKey None ?h b5 = Inr b6"
    "ops b6 = ops b5 @ [OpSet [latestEVMHeightKey] ?h]"
    using storage_set_step [OF assms(1)] by (metis makePrefix_simps(1))
  have "Blocks_Store P c ch cid block b = Inr b6"
    using assms(2,3) b1(1) b2(1) b3(1) b4(1) b5(1) b6(1) by (simp add: Blocks_Store_def Let_def)
  with b1(2) b2(2) b3(2) b4(2) b5(2) b6(2) show ?thesis by (simp add: block_ops_def)
qed

lemma Blocks_Store_error:
  "ToBytes c block = Inl e \<or> (\<exists>v. ToBytes c block = Inr v) \<and> Hash c block = Inl e \<Longrightarrow>
   Blocks_Store P c ch cid block b = Inl e"
  by (auto simp: Blocks_Store_def)

lemma index_of_block_ops:
  assumes "codec_ok c" "ToBytes c block = Inr val"
  shows "index_of c (apply_ops (block_ops ch cid (Height (evmBlock block)) val blockID) m) =
    index_store ch cid block blockID (index_of c m)"
proof -
  have "NewBlockFromBytes c val = Inr block" using NewBlockFromBytes_ToBytes [OF assms] .
  moreover have "BytesToID c (hashBytes cid) = cid" using assms(1) by (simp add: codec_ok_def hashBytes_def)
  ultimately show ?thesis
    by (simp add: index_of_def index_store_def block_ops_def apply_ops_def key_codes fun_eq_iff)
qed

section \<open>Reads refine lookups\<close>

lemma LatestEVMHeight_index:
  "pebble_ok P view ops \<Longrightarrow>
   LatestEVMHeight P d = Inr h \<longleftrightarrow> ixLatest (index_of c (view d)) = Some h"
  by (auto simp: LatestEVMHeight_def latestEVMHeight_def storage_get_view index_of_def split: option.splits sum.splits)

lemma latestEVMHeight_index:
  "pebble_ok P view ops \<Longrightarrow> ixLatest (index_of c (view d)) = Some h \<Longrightarrow> latestEVMHeight P d = Inr h"
  using LatestEVMHeight_index [of P view ops d h c] by (simp add: LatestEVMHeight_def)

lemma LatestCadenceHeight_index:
  "pebble_ok P view ops \<Longrightarrow>
   LatestCadenceHeight P d = Inr h \<longleftrightarrow> ixLatestCadence (index_of c (view d)) = Some h"
  by (auto simp: LatestCadenceHeight_def storage_get_view index_of_def split: option.splits sum.splits)

lemma GetHeightByID_index:
  "pebble_ok P view ops \<Longrightarrow> GetHeightByID P d i = Inr h \<longleftrightarrow> ixHeight (index_of c (view d)) i = Some h"
  by (auto simp: GetHeightByID_def storage_get_view index_of_def split: option.splits sum.splits)

lemma GetCadenceHeight_index:
  "pebble_ok P view ops \<Longrightarrow> GetCadenceHeight P d h = Inr ch \<longleftrightarrow> ixCadence (index_of c (view d)) h = Some ch"
  by (auto simp: GetCadenceHeight_def storage_get_view index_of_def split: option.splits sum.splits)

lemma GetCadenceID_index:
  "pebble_ok P view ops \<Longrightarrow> GetCadenceID P c d h = Inr i \<longleftrightarrow> ixCadenceID (index_of c (view d)) h = Some i"
  by (auto simp: GetCadenceID_def storage_get_view index_of_def split: option.splits)

lemmas read_refinements = LatestEVMHeight_index LatestCadenceHeight_index GetHeightByID_index
  GetCadenceHeight_index GetCadenceID_index

definition broken :: "Blocks \<Rightarrow> Block \<Rightarrow> bool" where
  "broken b block \<longleftrightarrow> testnet b \<and> Height (evmBlock block) \<in> set testnetBrokenParentHashBlockHeights"

lemma getBlock_rec_plain:
  assumes "pebble_ok P view ops" "ixBlock (index_of c (view d)) h = Some block" "\<not> broken b block"
  shows "getBlock_rec (Suc n) P c b d (uint64Bytes h) = Inr block"
proof -
  obtain v where "view d (blockHeightKey # uint64Bytes h) = Some v" "NewBlockFromBytes c v = Inr block"
    using assms(2) by (auto simp: index_of_def decoded_def split: option.splits sum.splits)
  with assms(1,3) show ?thesis
    by (auto simp: storage_get_view broken_def)
qed

text \<open>An index is consistent if a block is stored under its own height.\<close>

definition index_ok :: "index \<Rightarrow> bool" where
  "index_ok ix \<longleftrightarrow> (\<forall>h block. ixBlock ix h = Some block \<longrightarrow> Height (evmBlock block) = h)"

lemma index_ok_store: "index_ok ix \<Longrightarrow> index_ok (index_store ch cid block blockID ix)"
  by (auto simp: index_ok_def index_store_def)

lemma broken_parent: "h \<in> set testnetBrokenParentHashBlockHeights \<Longrightarrow>
   h - 1 \<notin> set testnetBrokenParentHashBlockHeights"
  by (auto simp: testnetBrokenParentHashBlockHeights_def)

lemma getBlock_broken:
  assumes "pebble_ok P view ops" "index_ok (index_of c (view d))"
    and "ixBlock (index_of c (view d)) h = Some block" "broken b block"
    and "ixBlock (index_of c (view d)) (h - 1) = Some parent"
    and "Hash c block = Inr bh" "Hash c parent = Inr ph"
  shows "getBlock P c b d (uint64Bytes h) =
    Inr (block\<lparr>FixedHash := bh, evmBlock := (evmBlock block)\<lparr>ParentBlockHash := ph\<rparr>\<rparr>)"
proof -
  obtain v where v: "view d (blockHeightKey # uint64Bytes h) = Some v" "NewBlockFromBytes c v = Inr block"
    using assms(3) by (auto simp: index_of_def decoded_def split: option.splits sum.splits)
  have h: "Height (evmBlock block) = h" "Height (evmBlock parent) = h - 1"
    using assms(2,3,5) by (auto simp: index_ok_def)
  have "\<not> broken b parent"
    using assms(4) broken_parent h by (auto simp: broken_def)
  then have parent: "getBlock_rec (Suc n) P c b d (uint64Bytes (h - 1)) = Inr parent" for n
    by (rule getBlock_rec_plain [OF assms(1,5)])
  show ?thesis
    using v h parent assms(1,4,6,7) by (simp add: getBlock_def eval_nat_numeral storage_get_view broken_def)
qed

section \<open>Properties\<close>

text \<open>C19: Storing a block refines the update of the abstract index: if the batch commits, every
  mapping reads the new block, its Cadence height and identifier at its height and hash and
  is unchanged elsewhere, and the latest heights are the block's; if anything fails, the
  database is as it was.\<close>

theorem Store_refines_index:
  assumes "pebble_ok P view ops" and "codec_ok c"
    and "ToBytes c block = Inr val" and "Hash c block = Inr blockID"
  shows "case WithBatch P (Blocks_Store P c cadenceHeight cadenceID block) d of
      (None, d') \<Rightarrow> index_of c (view d') = index_store cadenceHeight cadenceID block blockID (index_of c (view d))
    | (Some e, d') \<Rightarrow> d' = d"
proof (cases "WithBatch P (Blocks_Store P c cadenceHeight cadenceID block) d")
  case (Pair r d')
  show ?thesis
  proof (cases r)
    case None
    obtain b' where "Blocks_Store P c cadenceHeight cadenceID block (NewBatch P d) = Inr b'"
      "view d' = apply_ops (ops b') (view d)"
      using WithBatch_view [OF assms(1)] Pair None by metis
    moreover have "ops (NewBatch P d) = []" using assms(1) by (simp add: pebble_ok_def NewBatch_def)
    ultimately have "view d' = apply_ops (block_ops cadenceHeight cadenceID (Height (evmBlock block)) val blockID) (view d)"
      using Blocks_Store_ops [OF assms(1,3,4), of cadenceHeight cadenceID "NewBatch P d"] by auto
    with index_of_block_ops [OF assms(2,3)] show ?thesis by (simp add: Pair None)
  next
    case (Some e)
    with Pair WithBatch_error show ?thesis by fastforce
  qed
qed

text \<open>Once the batch that stores a block has committed, the block is found by its height and
  by its hash, its hash maps to its height, and both latest heights, the Cadence height and
  the Cadence identifier are those it was stored with.\<close>

theorem stored_block_readable:
  assumes "pebble_ok P view ops" and "codec_ok c"
    and "ToBytes c block = Inr val" and "Hash c block = Inr blockID" and "\<not> broken b block"
    and "WithBatch P (Blocks_Store P c cadenceHeight cadenceID block) d = (None, d')"
  shows "GetByHeight P c b d' (Height (evmBlock block)) = Inr block
    \<and> GetByID P c b d' blockID = Inr block
    \<and> GetHeightByID P d' blockID = Inr (Height (evmBlock block))
    \<and> LatestEVMHeight P d' = Inr (Height (evmBlock block))
    \<and> LatestCadenceHeight P d' = Inr cadenceHeight
    \<and> GetCadenceHeight P d' (Height (evmBlock block)) = Inr cadenceHeight
    \<and> GetCadenceID P c d' (Height (evmBlock block)) = Inr cadenceID"
proof -
  let ?h = "Height (evmBlock block)"
  obtain b' where "Blocks_Store P c cadenceHeight cadenceID block (NewBatch P d) = Inr b'"
    "view d' = apply_ops (ops b') (view d)"
    using WithBatch_view [OF assms(1,6)] by blast
  moreover have "ops (NewBatch P d) = []" using assms(1) by (simp add: pebble_ok_def NewBatch_def)
  ultimately have v: "view d' = apply_ops (block_ops cadenceHeight cadenceID ?h val blockID) (view d)"
    using Blocks_Store_ops [OF assms(1,3,4), of cadenceHeight cadenceID "NewBatch P d"] by auto
  then have ix: "index_of c (view d') = index_store cadenceHeight cadenceID block blockID (index_of c (view d))"
    using index_of_block_ops [OF assms(2,3)] by simp
  have blk: "ixBlock (index_of c (view d')) ?h = Some block" by (simp add: ix index_store_def)
  have get: "getBlock P c b d' (uint64Bytes ?h) = Inr block"
    unfolding getBlock_def eval_nat_numeral by (rule getBlock_rec_plain [OF assms(1) blk assms(5)])
  have "view d' (blockIDToHeightKey # hashBytes blockID) = Some (uint64Bytes ?h)"
    by (simp add: v block_ops_def apply_ops_def key_codes)
  then have "GetByID P c b d' blockID = Inr block"
    using get by (simp add: GetByID_def storage_get_view [OF assms(1)])
  moreover have "latestEVMHeight P d' = Inr ?h"
    by (rule latestEVMHeight_index [OF assms(1), of c]) (simp add: ix index_store_def)
  then have "GetByHeight P c b d' ?h = Inr block"
    using get by (simp add: GetByHeight_def)
  ultimately show ?thesis
    by (simp add: read_refinements [OF assms(1), where c = c] ix index_store_def)
qed

text \<open>On testnet, each of the two blocks whose parent hash broke is returned linked to its
  parent, the stored block below it, and still reports its own hash.\<close>

theorem testnet_parent_link:
  assumes "pebble_ok P view ops" and "index_ok (index_of c (view d))"
    and "ixBlock (index_of c (view d)) h = Some block" and "broken b block"
    and "ixBlock (index_of c (view d)) (h - 1) = Some parent"
    and "Hash c block = Inr bh" and "Hash c parent = Inr ph" and "bh \<noteq> 0"
    and "LatestEVMHeight P d = Inr latest" and "h \<le> latest"
  shows "\<exists>block'. GetByHeight P c b d h = Inr block'
    \<and> ParentBlockHash (evmBlock block') = ph \<and> Hash c block' = Inr bh
    \<and> Height (evmBlock block') = h"
proof -
  have "Height (evmBlock block) = h" using assms(2,3) by (simp add: index_ok_def)
  moreover have "\<not> latest < h" using assms(10) by simp
  ultimately show ?thesis
    using getBlock_broken [OF assms(1-7)] assms(8,9) by (simp add: GetByHeight_def LatestEVMHeight_def Hash_def)
qed

text \<open>\<open>InitHeights\<close> adds to the batch exactly when the database has no latest EVM height
  yet; it then makes the genesis block the latest block.  A database that already has
  heights is refused.\<close>

theorem InitHeights_spec:
  assumes "pebble_ok P view ops" and "codec_ok c"
    and "ToBytes c (GenesisBlock (genesis b)) = Inr val" and "Hash c (GenesisBlock (genesis b)) = Inr blockID"
  shows "case view d [latestEVMHeightKey] of
      None \<Rightarrow> (\<exists>batch'. InitHeights P c b d cadenceHeight cadenceID batch = Inr batch' \<and>
        index_of c (apply_ops (ops batch') m) = index_store cadenceHeight cadenceID (GenesisBlock (genesis b)) blockID
          (index_of c (apply_ops (ops batch) m)))
    | Some v \<Rightarrow> (\<exists>e. InitHeights P c b d cadenceHeight cadenceID batch = Inl e)"
proof (cases "view d [latestEVMHeightKey]")
  case None
  obtain b1 where b1: "storage_set P latestCadenceHeightKey None (uint64Bytes cadenceHeight) batch = Inr b1"
    "ops b1 = ops batch @ [OpSet [latestCadenceHeightKey] (uint64Bytes cadenceHeight)]"
    using storage_set_step [OF assms(1)] by (metis makePrefix_simps(1))
  obtain b2 where b2: "storage_set P latestEVMHeightKey None (uint64Bytes 0) b1 = Inr b2"
    "ops b2 = ops b1 @ [OpSet [latestEVMHeightKey] (uint64Bytes 0)]"
    using storage_set_step [OF assms(1)] by (metis makePrefix_simps(1))
  obtain b3 where b3: "Blocks_Store P c cadenceHeight cadenceID (GenesisBlock (genesis b)) b2 = Inr b3"
    "ops b3 = ops b2 @ block_ops cadenceHeight cadenceID (Height (evmBlock (GenesisBlock (genesis b)))) val blockID"
    using Blocks_Store_ops [OF assms(1,3,4)] by blast
  have "InitHeights P c b d cadenceHeight cadenceID batch = Inr b3"
    using b1(1) b2(1) b3(1) None
    by (simp add: InitHeights_def LatestEVMHeight_def latestEVMHeight_def storage_get_view [OF assms(1)])
  moreover have "index_of c (apply_ops (ops b3) m) =
      index_store cadenceHeight cadenceID (GenesisBlock (genesis b)) blockID (index_of c (apply_ops (ops b2) m))"
    using b3(2) index_of_block_ops [OF assms(2,3)] by simp
  moreover have "index_store cadenceHeight cadenceID (GenesisBlock (genesis b)) blockID (index_of c (apply_ops (ops b2) m)) =
      index_store cadenceHeight cadenceID (GenesisBlock (genesis b)) blockID (index_of c (apply_ops (ops batch) m))"
    using b1(2) b2(2) by (simp add: index_of_def index_store_def key_codes fun_eq_iff)
  ultimately show ?thesis using None by auto
next
  case (Some v)
  then show ?thesis
    by (auto simp: InitHeights_def LatestEVMHeight_def latestEVMHeight_def storage_get_view [OF assms(1)] BE_Uint64_def)
qed

section \<open>Witnesses\<close>

definition demo_block :: "u64 \<Rightarrow> Block" where
  "demo_block h = \<lparr>evmBlock = \<lparr>ParentBlockHash = 5, Height = h, Timestamp = 100, TotalSupply = 0, ReceiptRoot = 0,
     TransactionHashRoot = 0, TotalGasUsed = 0, PrevRandao = 1\<rparr>, FixedHash = 0, TransactionHashes = [],
     AccessListHash = None\<rparr>"

definition demo_codec :: "unit codec" where
  "demo_codec = ref_codec [demo_block 0, demo_block 1, demo_block 2] [] [] []"

definition demo_blocks :: "bool \<Rightarrow> Blocks" where
  "demo_blocks tn = \<lparr>testnet = tn, genesis = evmBlock (demo_block 0)\<rparr>"

lemma demo_codec_ok: "codec_ok demo_codec"
  by (simp add: demo_codec_def ref_codec_ok)

lemma demo_ToBytes:
  "ToBytes demo_codec (demo_block 0) = Inr [0]" "ToBytes demo_codec (demo_block 1) = Inr [1]"
  "ToBytes demo_codec (demo_block 2) = Inr [2]"
  by (simp_all add: demo_codec_def ref_codec_def ToBytes_def encode_in_def demo_block_def)

lemma demo_Hash:
  "Hash demo_codec (demo_block 0) = Inr 1" "Hash demo_codec (demo_block 1) = Inr 2"
  "Hash demo_codec (demo_block 2) = Inr 3"
  by (simp_all add: demo_codec_def ref_codec_def Hash_def demo_block_def)

lemma Store_refines_index_witness:
  "case WithBatch mem_pebble (Blocks_Store mem_pebble demo_codec 77 9 (demo_block 2)) [] of
     (None, d') \<Rightarrow> ixLatest (index_of demo_codec (map_of d')) = Some 2 | (Some e, d') \<Rightarrow> d' = []"
  using Store_refines_index [OF mem_pebble_ok demo_codec_ok demo_ToBytes(3) demo_Hash(3), of 77 9 "[]"]
  by (auto simp: index_store_def demo_block_def split: prod.splits option.splits)

lemma demo_store:
  "\<exists>d'. WithBatch mem_pebble (Blocks_Store mem_pebble demo_codec 77 9 (demo_block 2)) [] = (None, d')"
  using Blocks_Store_ops [OF mem_pebble_ok demo_ToBytes(3) demo_Hash(3), of 77 9 "NewBatch mem_pebble []"]
  by (auto simp: WithBatch_def) (simp add: mem_pebble_def)

lemma stored_block_readable_witness:
  "\<exists>d'. WithBatch mem_pebble (Blocks_Store mem_pebble demo_codec 77 9 (demo_block 2)) [] = (None, d')
     \<and> GetByHeight mem_pebble demo_codec (demo_blocks True) d' 2 = Inr (demo_block 2)"
proof -
  obtain d' where d': "WithBatch mem_pebble (Blocks_Store mem_pebble demo_codec 77 9 (demo_block 2)) [] = (None, d')"
    using demo_store by blast
  have "\<not> broken (demo_blocks True) (demo_block 2)"
    by (simp add: broken_def demo_block_def testnetBrokenParentHashBlockHeights_def)
  from stored_block_readable [OF mem_pebble_ok demo_codec_ok demo_ToBytes(3) demo_Hash(3) this d'] d'
  show ?thesis by (simp add: demo_block_def)
qed

definition demo_db :: "(bytes \<times> bytes) list" where
  "demo_db = [([latestEVMHeightKey], uint64Bytes 1), (blockHeightKey # uint64Bytes 0, [0]),
     (blockHeightKey # uint64Bytes 1, [1])]"

lemma demo_decode:
  "NewBlockFromBytes demo_codec [0] = Inr (demo_block 0)" "NewBlockFromBytes demo_codec [1] = Inr (demo_block 1)"
  by (simp_all add: NewBlockFromBytes_def demo_codec_def ref_codec_def decode_in_def)

lemma demo_db_blocks:
  "ixBlock (index_of demo_codec (map_of demo_db)) h =
     (if h = 0 then Some (demo_block 0) else if h = 1 then Some (demo_block 1) else None)"
  by (simp add: index_of_def demo_db_def key_codes demo_decode)

lemma testnet_parent_link_witness:
  "\<exists>block'. GetByHeight mem_pebble demo_codec (demo_blocks True) demo_db 1 = Inr block'
     \<and> ParentBlockHash (evmBlock block') = 1"
proof -
  have "index_ok (index_of demo_codec (map_of demo_db))"
    by (auto simp: index_ok_def demo_db_blocks demo_block_def split: if_splits)
  moreover have "broken (demo_blocks True) (demo_block 1)"
    by (simp add: broken_def demo_blocks_def demo_block_def testnetBrokenParentHashBlockHeights_def)
  moreover have "LatestEVMHeight mem_pebble demo_db = Inr 1"
    by (simp add: LatestEVMHeight_def latestEVMHeight_def storage_get_view [OF mem_pebble_ok] demo_db_def)
  ultimately show ?thesis
    using testnet_parent_link [OF mem_pebble_ok, of demo_codec demo_db 1 "demo_block 1" "demo_blocks True"
        "demo_block 0" 2 1 1] demo_Hash by (auto simp: demo_db_blocks)
qed

lemma InitHeights_spec_witness:
  "\<exists>e. InitHeights mem_pebble demo_codec (demo_blocks True) demo_db 5 6 [] = Inl e"
proof -
  have g: "GenesisBlock (genesis (demo_blocks True)) = demo_block 0"
    by (simp add: GenesisBlock_def demo_blocks_def demo_block_def)
  show ?thesis
    using InitHeights_spec [OF mem_pebble_ok demo_codec_ok, of "demo_blocks True" "[0]" 1 demo_db 5 6 "[]"]
    by (simp add: g demo_ToBytes demo_Hash demo_db_def)
qed

end
