(* ===== verification/Receipts_Index.thy ===== *)
theory Receipts_Index
  imports Blocks_Index
begin

text \<open>
  The indexes of receipts with their bloom filters, of transactions and of traces:
  \<^verbatim>\<open>receipts.go\<close>, \<^verbatim>\<open>transactions.go\<close> and \<^verbatim>\<open>traces.go\<close> of \<^verbatim>\<open>storage/pebble\<close>.
\<close>

section \<open>Receipts\<close>

text \<open>\<^verbatim>\<open>big.Int.Uint64\<close>: the low 64 bits of the absolute value.\<close>

definition big_Uint64 :: "int \<Rightarrow> u64" where
  "big_Uint64 x = word_of_int \<bar>x\<bar>"

text \<open>The loop of \<open>Store\<close> over the receipts: the height so far, the blooms, the batch.\<close>

definition Receipts_Store_step ::
    "('db, 'batch) pebble_api \<Rightarrow> Receipt \<Rightarrow> u64 \<times> bloom list \<times> 'batch \<Rightarrow> err + (u64 \<times> bloom list \<times> 'batch)" where
  "Receipts_Store_step P receipt s = (case s of (height, blooms, batch) \<Rightarrow>
     let h = big_Uint64 (rBlockNumber receipt) in
     if height \<noteq> 0 \<and> h \<noteq> height then Inl (New_err ''can't store receipts for multiple heights'')
     else rbind (rwrap (\<lambda>e. Errorf ''failed to store receipt tx ID: %s to height: %d mapping, with: %w''
                   [FNum (unat (rTxHash receipt)), FNum (unat h)] [e])
             (storage_set P receiptTxIDToHeightKey (Some (hashBytes (rTxHash receipt))) (uint64Bytes h) batch))
            (\<lambda>batch. Inr (h, blooms @ [rBloom receipt], batch)))"

definition Receipts_Store ::
    "('db, 'batch) pebble_api \<Rightarrow> 'ev codec \<Rightarrow> Receipt list \<Rightarrow> 'batch \<Rightarrow> err + 'batch" where
  "Receipts_Store P c receipts batch =
     rbind (rfold (Receipts_Store_step P) receipts (0, [], batch)) (\<lambda>(height, blooms, batch).
     rbind (rlp_receipts_enc c receipts) (\<lambda>receiptBytes.
     rbind (rwrap (\<lambda>e. Errorf ''failed to store receipt height: %d, with: %w'' [FNum (unat height)] [e])
       (storage_set P receiptHeightKey (Some (uint64Bytes height)) receiptBytes batch)) (\<lambda>batch.
     rbind (rwrap (\<lambda>e. Errorf ''failed to encode blooms for height: %d, with: %w'' [FNum (unat height)] [e])
       (rlp_blooms_enc c blooms)) (\<lambda>bloomBytes.
     rwrap (\<lambda>e. Errorf ''failed to store blooms at height: %d, with: %w'' [FNum (unat height)] [e])
       (storage_set P bloomHeightKey (Some (uint64Bytes height)) bloomBytes batch)))))"

text \<open>
  The fields of a log that are not stored, filled in when receipts are read and when a
  block's events are decoded: \<open>logIndex\<close> runs over the whole block.
\<close>

definition fill_log :: "u64 \<Rightarrow> GethReceipt \<Rightarrow> u64 \<Rightarrow> Log \<Rightarrow> Log" where
  "fill_log timestamp rcp logIndex l =
     l\<lparr>lBlockNumber := big_Uint64 (rBlockNumber rcp), lBlockHash := rBlockHash rcp,
       lBlockTimestamp := timestamp, lTxHash := rTxHash rcp, lTxIndex := rTransactionIndex rcp,
       lIndex := logIndex, lRemoved := False\<rparr>"

fun fill_logs :: "u64 \<Rightarrow> GethReceipt \<Rightarrow> u64 \<Rightarrow> Log list \<Rightarrow> Log list" where
  "fill_logs timestamp rcp logIndex [] = []"
| "fill_logs timestamp rcp logIndex (l # ls) =
     fill_log timestamp rcp logIndex l # fill_logs timestamp rcp (logIndex + 1) ls"

fun populate :: "u64 \<Rightarrow> u64 \<Rightarrow> Receipt list \<Rightarrow> Receipt list" where
  "populate timestamp logIndex [] = []"
| "populate timestamp logIndex (rcp # rcps) =
     rcp\<lparr>rLogs := fill_logs timestamp (ToGethReceipt rcp) logIndex (rLogs rcp)\<rparr>
     # populate timestamp (logIndex + of_nat (length (rLogs rcp))) rcps"

definition getByBlockHeight ::
    "('db, 'batch) pebble_api \<Rightarrow> 'ev codec \<Rightarrow> 'db \<Rightarrow> bytes \<Rightarrow> err + Receipt list" where
  "getByBlockHeight P c d height = (case storage_get P d receiptHeightKey (Some height) of
      Inl e \<Rightarrow> if errors_Is e ErrEntityNotFound then Inr [] else Inl e
    | Inr val \<Rightarrow>
       rbind (ReceiptsFromBytes c val) (\<lambda>receipts.
       rbind (rwrap (\<lambda>e. Errorf ''failed to get block: %w'' [] [e])
               (storage_get P d blockHeightKey (Some height))) (\<lambda>blockBytes.
       rbind (NewBlockFromBytes c blockBytes) (\<lambda>block.
       Inr (populate (Timestamp (evmBlock block)) 0 receipts)))))"

definition GetByBlockHeight ::
    "('db, 'batch) pebble_api \<Rightarrow> 'ev codec \<Rightarrow> 'db \<Rightarrow> u64 \<Rightarrow> err + Receipt list" where
  "GetByBlockHeight P c d height = getByBlockHeight P c d (uint64Bytes height)"

definition GetByTransactionID ::
    "('db, 'batch) pebble_api \<Rightarrow> 'ev codec \<Rightarrow> 'db \<Rightarrow> hash \<Rightarrow> err + Receipt" where
  "GetByTransactionID P c d ID =
     rbind (rwrap (\<lambda>e. Errorf ''failed to get receipt by tx ID: %s, with: %w'' [FNum (unat ID)] [e])
       (storage_get P d receiptTxIDToHeightKey (Some (hashBytes ID)))) (\<lambda>height.
     rbind (rwrap (\<lambda>e. Errorf ''failed to get receipt by height: %d, with: %w'' [FNum (unbe height)] [e])
       (getByBlockHeight P c d height)) (\<lambda>receipts.
     case find (\<lambda>rcp. rTxHash rcp = ID) receipts of
       Some rcp \<Rightarrow> Inr rcp
     | None \<Rightarrow> Inl ErrEntityNotFound))"

definition getLast :: "('db, 'batch) pebble_api \<Rightarrow> 'db \<Rightarrow> err + u64" where
  "getLast P d =
     rbind (rwrap (\<lambda>e. Errorf ''failed getting latest EVM height: %w'' [] [e])
       (storage_get P d latestEVMHeightKey None)) BE_Uint64"

definition BloomsForBlockRange ::
    "('db, 'batch) pebble_api \<Rightarrow> 'ev codec \<Rightarrow> 'db \<Rightarrow> u64 \<Rightarrow> u64 \<Rightarrow> err + BloomsHeight list" where
  "BloomsForBlockRange P c d start end =
     (if start > end then
        Inl (Errorf ''%w: start value %d is bigger than end value %d''
               [FNum (unat start), FNum (unat end)] [ErrInvalidBlockRange])
      else
       rbind (rwrapf ''failed getting first and last height: %w'' [] (getLast P d)) (\<lambda>latest.
       if start > latest then
         Inl (Errorf ''%w: start value %d is not within the indexed range of [0 - %d]''
                [FNum (unat start), FNum (unat latest)] [ErrInvalidBlockRange])
       else if end > latest then
         Inl (Errorf ''%w: end value %d is not within the indexed range of [0 - %d]''
                [FNum (unat end), FNum (unat latest)] [ErrInvalidBlockRange])
       else
        let endInclusive = end + 1 in
        rbind (db_Iter P d (makePrefix bloomHeightKey (Some (uint64Bytes start)))
                 (makePrefix bloomHeightKey (Some (uint64Bytes endInclusive))))
          (rmap (\<lambda>(key, value).
             rbind value (\<lambda>val.
             let height = stripPrefix key in
             rbind (rwrap (\<lambda>e. Errorf ''failed to RLP-decode blooms for range [%x] at height: %d, with: %w''
                       [FNum (unbe height)] [e])
                 (rlp_blooms_dec c val)) (\<lambda>blooms.
             rbind (BE_Uint64 height) (\<lambda>h.
             Inr \<lparr>bhBlooms = blooms, bhBloomHeight = h\<rparr>)))))))"

section \<open>Transactions and traces\<close>

definition Transactions_Store ::
    "('db, 'batch) pebble_api \<Rightarrow> 'ev codec \<Rightarrow> Transaction \<Rightarrow> 'batch \<Rightarrow> err + 'batch" where
  "Transactions_Store P c tx batch =
     rbind (MarshalBinary c tx) (\<lambda>val.
     storage_set P txIDKey (Some (hashBytes (tx_Hash tx))) val batch)"

definition Transactions_Get ::
    "('db, 'batch) pebble_api \<Rightarrow> 'ev codec \<Rightarrow> 'db \<Rightarrow> hash \<Rightarrow> (err + Transaction) exec" where
  "Transactions_Get P c d ID = (case storage_get P d txIDKey (Some (hashBytes ID)) of
      Inl e \<Rightarrow> Ret (Inl e)
    | Inr val \<Rightarrow> UnmarshalTransaction c val)"

definition StoreTransaction ::
    "('db, 'batch) pebble_api \<Rightarrow> hash \<Rightarrow> bytes \<Rightarrow> 'batch \<Rightarrow> err + 'batch" where
  "StoreTransaction P ID trace batch =
     rwrap (\<lambda>e. Errorf ''failed to store trace for transaction ID %s: %w'' [FNum (unat ID)] [e])
       (storage_set P traceTxIDKey (Some (hashBytes ID)) trace batch)"

definition GetTransaction :: "('db, 'batch) pebble_api \<Rightarrow> 'db \<Rightarrow> hash \<Rightarrow> err + bytes" where
  "GetTransaction P d ID =
     rwrap (\<lambda>e. Errorf ''failed to get trace for transaction ID %s: %w'' [FNum (unat ID)] [e])
       (storage_get P d traceTxIDKey (Some (hashBytes ID)))"

section \<open>Log positions\<close>

lemma fill_logs_map:
  "fill_logs ts rcp i ls = map (\<lambda>(j, l). fill_log ts rcp (i + of_nat j) l) (enumerate 0 ls)"
proof (induction ls arbitrary: i)
  case (Cons l ls)
  have "map (\<lambda>(j, l). fill_log ts rcp (i + 1 + of_nat j) l) (enumerate 0 ls) =
      map (\<lambda>(j, l). fill_log ts rcp (i + of_nat j) l) (enumerate (Suc 0) ls)"
    by (intro nth_equalityI) (auto simp: nth_enumerate_eq ac_simps)
  with Cons show ?case by simp
qed simp

lemma length_fill_logs [simp]: "length (fill_logs ts rcp i ls) = length ls"
  by (simp add: fill_logs_map)

lemma lIndex_fill_logs: "map lIndex (fill_logs ts rcp i ls) = map (\<lambda>j. i + of_nat j) [0..<length ls]"
  by (intro nth_equalityI) (auto simp: fill_logs_map nth_enumerate_eq fill_log_def)

lemma length_populate [simp]: "length (populate ts i rs) = length rs"
  by (induction rs arbitrary: i) auto

lemma populate_TxHash [simp]: "map rTxHash (populate ts i rs) = map rTxHash rs"
  by (induction rs arbitrary: i) auto

lemma populate_nth_TxHash: "k < length rs \<Longrightarrow> rTxHash (populate ts i rs ! k) = rTxHash (rs ! k)"
  by (metis length_populate nth_map populate_TxHash)

lemma upt_shift: "map (\<lambda>j. i + of_nat n + of_nat j :: u64) [0..<m] = map (\<lambda>j. i + of_nat j) [n..<n + m]"
proof -
  have "[n..<n + m] = map (\<lambda>j. n + j) [0..<m]"
    by (simp add: map_add_upt add.commute)
  then show ?thesis by (simp add: add.assoc)
qed

text \<open>The log indices of a populated block count its logs without gap, from the start value.\<close>

lemma populate_lIndex:
  "map lIndex (concat (map rLogs (populate ts i rs))) =
     map (\<lambda>j. i + of_nat j) [0..<length (concat (map rLogs rs))]"
proof (induction rs arbitrary: i)
  case (Cons r rs)
  let ?n = "length (rLogs r)" and ?m = "length (concat (map rLogs rs))"
  have "map lIndex (concat (map rLogs (populate ts i (r # rs)))) =
      map (\<lambda>j. i + of_nat j) [0..<?n] @ map (\<lambda>j. i + of_nat ?n + of_nat j) [0..<?m]"
    by (simp add: lIndex_fill_logs Cons)
  also have "\<dots> = map (\<lambda>j. i + of_nat j) ([0..<?n] @ [?n..<?n + ?m])"
    by (simp only: upt_shift map_append)
  also have "[0..<?n] @ [?n..<?n + ?m] = [0..<?n + ?m]"
    by (rule upt_add_eq_append [symmetric]) simp
  finally show ?case by simp
qed simp

lemma populate_nth:
  "k < length rs \<Longrightarrow> \<exists>i'. populate ts i rs ! k =
     (rs ! k)\<lparr>rLogs := fill_logs ts (ToGethReceipt (rs ! k)) i' (rLogs (rs ! k))\<rparr>"
proof (induction rs arbitrary: i k)
  case (Cons r rs)
  then show ?case by (cases k) auto
qed simp

section \<open>Stored receipts\<close>

text \<open>What a read gives back of a stored receipt: it fills in every field of a log that was not stored.\<close>

definition with_blob_price :: "Receipt \<Rightarrow> Receipt" where
  "with_blob_price r = r\<lparr>rBlobGasPrice := Some (case rBlobGasPrice r of None \<Rightarrow> 0 | Some p \<Rightarrow> p)\<rparr>"

lemma fill_logs_stored: "fill_logs ts (ToGethReceipt (rlp_receipt r)) i (map rlp_log ls) = fill_logs ts (ToGethReceipt r) i ls"
  by (induction ls arbitrary: i) (simp_all add: fill_log_def rlp_log_def ToGethReceipt_def GethReceipt.defs)

lemma populate_stored: "populate ts i (map rlp_receipt rs) = map with_blob_price (populate ts i rs)"
  by (induction rs arbitrary: i) (simp_all add: fill_logs_stored, simp_all add: with_blob_price_def rlp_receipt_def)

lemma with_blob_price_simps [simp]:
  "rLogs (with_blob_price r) = rLogs r" "rTxHash (with_blob_price r) = rTxHash r" "rBloom (with_blob_price r) = rBloom r"
  by (simp_all add: with_blob_price_def)

definition receipt_ops :: "u64 \<Rightarrow> Receipt list \<Rightarrow> bytes \<Rightarrow> bytes \<Rightarrow> batch_op list" where
  "receipt_ops h rs receiptBytes bloomBytes =
     map (\<lambda>r. OpSet (receiptTxIDToHeightKey # hashBytes (rTxHash r)) (uint64Bytes h)) rs
     @ [OpSet (receiptHeightKey # uint64Bytes h) receiptBytes, OpSet (bloomHeightKey # uint64Bytes h) bloomBytes]"

lemma apply_ops_map_set:
  "apply_ops (map (\<lambda>r. OpSet (f r) v) rs) m k = (if k \<in> f ` set rs then Some v else m k)"
  by (induction rs arbitrary: m) auto

lemma Receipts_Store_loop:
  assumes "pebble_ok P view ops" "\<And>r. r \<in> set rs \<Longrightarrow> big_Uint64 (rBlockNumber r) = h"
    and "h0 = 0 \<or> h0 = h"
  shows "\<exists>b'. rfold (Receipts_Store_step P) rs (h0, bl, b) =
      Inr (if rs = [] then h0 else h, bl @ map rBloom rs, b')
    \<and> ops b' = ops b @ map (\<lambda>r. OpSet (receiptTxIDToHeightKey # hashBytes (rTxHash r)) (uint64Bytes h)) rs"
  using assms(2,3)
proof (induction rs arbitrary: h0 bl b)
  case Nil
  then show ?case by simp
next
  case (Cons r rs)
  obtain b1 where b1: "storage_set P receiptTxIDToHeightKey (Some (hashBytes (rTxHash r))) (uint64Bytes h) b = Inr b1"
    "ops b1 = ops b @ [OpSet (receiptTxIDToHeightKey # hashBytes (rTxHash r)) (uint64Bytes h)]"
    using storage_set_step [OF assms(1)] by (metis makePrefix_simps(2))
  have "Receipts_Store_step P r (h0, bl, b) = Inr (h, bl @ [rBloom r], b1)"
    using Cons.prems b1(1) by (auto simp: Receipts_Store_step_def Let_def)
  moreover obtain b2 where "rfold (Receipts_Store_step P) rs (h, bl @ [rBloom r], b1) =
      Inr (if rs = [] then h else h, (bl @ [rBloom r]) @ map rBloom rs, b2)"
    "ops b2 = ops b1 @ map (\<lambda>r. OpSet (receiptTxIDToHeightKey # hashBytes (rTxHash r)) (uint64Bytes h)) rs"
    using Cons.IH [of h "bl @ [rBloom r]" b1] Cons.prems(1) by auto
  ultimately show ?case using b1(2) by simp
qed

lemma Receipts_Store_ops:
  assumes "pebble_ok P view ops" "\<And>r. r \<in> set rs \<Longrightarrow> big_Uint64 (rBlockNumber r) = h" "rs \<noteq> []"
    and "rlp_receipts_enc c rs = Inr rb" "rlp_blooms_enc c (map rBloom rs) = Inr bb"
  shows "\<exists>b'. Receipts_Store P c rs b = Inr b' \<and> ops b' = ops b @ receipt_ops h rs rb bb"
proof -
  obtain b1 where b1: "rfold (Receipts_Store_step P) rs (0, [], b) = Inr (h, map rBloom rs, b1)"
    "ops b1 = ops b @ map (\<lambda>r. OpSet (receiptTxIDToHeightKey # hashBytes (rTxHash r)) (uint64Bytes h)) rs"
    using Receipts_Store_loop [OF assms(1,2), of rs 0 "[]" b] assms(3) by auto
  obtain b2 where b2: "storage_set P receiptHeightKey (Some (uint64Bytes h)) rb b1 = Inr b2"
    "ops b2 = ops b1 @ [OpSet (receiptHeightKey # uint64Bytes h) rb]"
    using storage_set_step [OF assms(1)] by (metis makePrefix_simps(2))
  obtain b3 where b3: "storage_set P bloomHeightKey (Some (uint64Bytes h)) bb b2 = Inr b3"
    "ops b3 = ops b2 @ [OpSet (bloomHeightKey # uint64Bytes h) bb]"
    using storage_set_step [OF assms(1)] by (metis makePrefix_simps(2))
  have "Receipts_Store P c rs b = Inr b3"
    using b1(1) b2(1) b3(1) assms(4,5) by (simp add: Receipts_Store_def)
  with b1(2) b2(2) b3(2) show ?thesis by (simp add: receipt_ops_def)
qed

text \<open>Receipts of different heights are refused, with the first height not zero.\<close>

lemma Receipts_Store_multiple_heights:
  assumes "pebble_ok P view ops" "\<And>r. r \<in> set rs \<Longrightarrow> big_Uint64 (rBlockNumber r) = h" "rs \<noteq> []"
    and "h \<noteq> 0" "big_Uint64 (rBlockNumber r') \<noteq> h"
  shows "Receipts_Store P c (rs @ r' # rs') b = Inl (New_err ''can't store receipts for multiple heights'')"
proof -
  obtain b1 where "rfold (Receipts_Store_step P) rs (0, [], b) = Inr (h, map rBloom rs, b1)"
    using Receipts_Store_loop [OF assms(1,2), of rs 0 "[]" b] assms(3) by auto
  with assms(4,5) show ?thesis
    by (simp add: Receipts_Store_def rfold_append Receipts_Store_step_def Let_def)
qed

lemma receipt_ops_view:
  "apply_ops (receipt_ops h rs rb bb) m k =
     (if k = bloomHeightKey # uint64Bytes h then Some bb
      else if k = receiptHeightKey # uint64Bytes h then Some rb
      else if k \<in> (\<lambda>r. receiptTxIDToHeightKey # hashBytes (rTxHash r)) ` set rs then Some (uint64Bytes h)
      else m k)"
  by (simp add: receipt_ops_def apply_ops_map_set)

lemma WithBatch_ops:
  assumes "pebble_ok P view ops" "WithBatch P f d = (None, d')"
    and "\<exists>b'. f (NewBatch P d) = Inr b' \<and> ops b' = ops (NewBatch P d) @ xs"
  shows "view d' = apply_ops xs (view d)"
proof -
  have "ops (NewBatch P d) = []" using assms(1) by (simp add: pebble_ok_def NewBatch_def)
  with assms(3) WithBatch_view [OF assms(1,2)] show ?thesis by auto
qed

lemma find_nth_distinct:
  assumes "k < length xs" "distinct (map f xs)"
  shows "find (\<lambda>x. f x = f (xs ! k)) xs = Some (xs ! k)"
proof -
  have "find (\<lambda>x. f x = f (xs ! k)) xs = Some y \<longrightarrow> y = xs ! k" for y
    using assms by (auto simp: find_Some_iff distinct_conv_nth)
  moreover have "\<exists>x. x \<in> set xs \<and> f x = f (xs ! k)"
    using nth_mem [OF assms(1)] by blast
  then have "find (\<lambda>x. f x = f (xs ! k)) xs \<noteq> None"
    by (simp add: find_None_iff)
  ultimately show ?thesis by auto
qed

section \<open>Bloom ranges\<close>

text \<open>The blooms of a database: every bloom key is a height, every value decodes.\<close>

definition blooms_ok :: "'ev codec \<Rightarrow> (bytes \<rightharpoonup> bytes) \<Rightarrow> bool" where
  "blooms_ok c m \<longleftrightarrow> (\<forall>k v. m (bloomHeightKey # k) = Some v \<longrightarrow>
     length k = 8 \<and> (\<exists>bs. rlp_blooms_dec c v = Inr bs))"

definition blooms_at :: "'ev codec \<Rightarrow> (bytes \<rightharpoonup> bytes) \<Rightarrow> u64 \<Rightarrow> bloom list option" where
  "blooms_at c m h = decoded (rlp_blooms_dec c) (m (bloomHeightKey # uint64Bytes h))"

lemma key_in_range:
  "c # lo \<le> k \<and> k < c # hi \<longleftrightarrow> (\<exists>k'. k = c # k' \<and> lo \<le> k' \<and> k' < (hi :: bytes))" for c :: byte
  by (cases k) auto

lemma bloom_range_entries:
  assumes "blooms_ok c m" "end < - 1"
  shows "{(k, v). m k = Some v \<and> bloomHeightKey # uint64Bytes start \<le> k \<and> k < bloomHeightKey # uint64Bytes (end + 1)}
    = {(bloomHeightKey # uint64Bytes h, v) | h v. m (bloomHeightKey # uint64Bytes h) = Some v \<and> start \<le> h \<and> h \<le> end}"
proof -
  have lt: "h < end + 1 \<longleftrightarrow> h \<le> end" for h
  proof -
    have "1 + end \<noteq> 0" using assms(2) by (auto simp: add_eq_0_iff)
    then have "unat (end + 1) = unat end + 1" using unatSuc [of "end"] by (simp add: add.commute)
    then show ?thesis by (auto simp: word_less_nat_alt word_le_nat_alt)
  qed
  have "\<exists>h. k' = uint64Bytes h" if "m (bloomHeightKey # k') = Some v" for k' v
    using that assms(1) uint64Bytes_surj [of k'] by (auto simp: blooms_ok_def)
  then show ?thesis
    unfolding key_in_range by (fastforce simp: lt)
qed

lemma bloom_entry_decoded:
  assumes "blooms_ok c m" "m (bloomHeightKey # uint64Bytes h) = Some v"
  shows "\<exists>bs. rlp_blooms_dec c v = Inr bs \<and> blooms_at c m h = Some bs"
proof -
  obtain bs where "rlp_blooms_dec c v = Inr bs" using assms by (auto simp: blooms_ok_def)
  with assms(2) show ?thesis by (simp add: blooms_at_def)
qed

section \<open>Properties\<close>

text \<open>For a range within the indexed heights, \<open>BloomsForBlockRange\<close> returns the blooms of
  exactly the heights of the range, both ends included, that have any, in ascending order.\<close>

theorem BloomsForBlockRange_exact:
  assumes "pebble_ok P view ops" and "blooms_ok c (view d)"
    and "LatestEVMHeight P d = Inr latest" and "start \<le> end" and "end \<le> latest" and "end < - 1"
  shows "\<exists>bhs. BloomsForBlockRange P c d start end = Inr bhs
    \<and> sorted_wrt (<) (map bhBloomHeight bhs)
    \<and> (\<forall>h bs. \<lparr>bhBlooms = bs, bhBloomHeight = h\<rparr> \<in> set bhs \<longleftrightarrow>
          start \<le> h \<and> h \<le> end \<and> blooms_at c (view d) h = Some bs)"
proof -
  obtain xs where xs: "db_Iter P d (bloomHeightKey # uint64Bytes start) (bloomHeightKey # uint64Bytes (end + 1)) =
      Inr (map (\<lambda>(k, v). (k, Inr v)) xs)" "sorted_wrt (<) (map fst xs)"
    "set xs = {(k, v). view d k = Some v \<and> bloomHeightKey # uint64Bytes start \<le> k \<and> k < bloomHeightKey # uint64Bytes (end + 1)}"
    by (rule pebble_iter [OF assms(1)])
  note ent = xs(3) [unfolded bloom_range_entries [OF assms(2,6)]]
  let ?g = "\<lambda>(k, v). \<lparr>bhBlooms = projr (rlp_blooms_dec c v), bhBloomHeight = projr (BE_Uint64 (tl k))\<rparr>"
  let ?f = "\<lambda>(key, value). rbind value (\<lambda>val. let height = stripPrefix key in
      rbind (rwrap (\<lambda>e. Errorf ''failed to RLP-decode blooms for range [%x] at height: %d, with: %w'' [FNum (unbe height)] [e])
        (rlp_blooms_dec c val)) (\<lambda>blooms. rbind (BE_Uint64 height) (\<lambda>h. Inr \<lparr>bhBlooms = blooms, bhBloomHeight = h\<rparr>)))"
  have elem: "\<exists>h bs. x = (bloomHeightKey # uint64Bytes h, snd x) \<and> rlp_blooms_dec c (snd x) = Inr bs
      \<and> blooms_at c (view d) h = Some bs \<and> start \<le> h \<and> h \<le> end" if "x \<in> set xs" for x
  proof -
    from that ent obtain h v where "x = (bloomHeightKey # uint64Bytes h, v)"
      "view d (bloomHeightKey # uint64Bytes h) = Some v" "start \<le> h" "h \<le> end" by auto
    moreover from this(2) obtain bs where "rlp_blooms_dec c v = Inr bs" "blooms_at c (view d) h = Some bs"
      using bloom_entry_decoded [OF assms(2)] by blast
    ultimately show ?thesis by (intro exI [of _ h] exI [of _ bs]) simp
  qed
  have "?f ((\<lambda>(k, v). (k, Inr v)) x) = Inr (?g x)" if m: "x \<in> set xs" for x
  proof -
    obtain h1 v1 bs1 where "x = (bloomHeightKey # uint64Bytes h1, v1)" "rlp_blooms_dec c v1 = Inr bs1"
      using elem [OF m] by (metis snd_conv)
    then show ?thesis by (simp add: stripPrefix_def)
  qed
  then have "rmap ?f (map (\<lambda>(k, v). (k, Inr v)) xs) = Inr (map ?g xs)"
    by (induction xs) auto
  moreover have "getLast P d = Inr latest"
    using assms(3) by (auto simp: getLast_def LatestEVMHeight_def latestEVMHeight_def storage_get_view [OF assms(1)]
        split: option.splits if_splits)
  ultimately have "BloomsForBlockRange P c d start end = Inr (map ?g xs)"
    using xs(1) assms(4,5) by (simp add: BloomsForBlockRange_def Let_def not_less [symmetric])
  moreover have "sorted_wrt (<) (map bhBloomHeight (map ?g xs))"
  proof -
    have "sorted_wrt (\<lambda>x y. bhBloomHeight (?g x) < bhBloomHeight (?g y)) xs"
    proof (rule sorted_wrt_mono_rel)
      show "sorted_wrt (\<lambda>x y. fst x < fst y) xs" using xs(2) by (simp add: sorted_wrt_map)
      fix x y assume xy: "x \<in> set xs" "y \<in> set xs" "fst x < fst y"
      obtain h1 v1 where "x = (bloomHeightKey # uint64Bytes h1, v1)" using elem [OF xy(1)] by blast
      moreover obtain h2 v2 where "y = (bloomHeightKey # uint64Bytes h2, v2)" using elem [OF xy(2)] by blast
      ultimately show "bhBloomHeight (?g x) < bhBloomHeight (?g y)" using xy(3) by simp
    qed
    then show ?thesis by (simp add: sorted_wrt_map)
  qed
  moreover have "\<lparr>bhBlooms = bs, bhBloomHeight = h\<rparr> \<in> set (map ?g xs) \<longleftrightarrow>
      start \<le> h \<and> h \<le> end \<and> blooms_at c (view d) h = Some bs" for h bs
  proof
    assume "\<lparr>bhBlooms = bs, bhBloomHeight = h\<rparr> \<in> set (map ?g xs)"
    then obtain x where x: "x \<in> set xs" "\<lparr>bhBlooms = bs, bhBloomHeight = h\<rparr> = ?g x" by auto
    obtain h1 v1 bs1 where "x = (bloomHeightKey # uint64Bytes h1, v1)" "rlp_blooms_dec c v1 = Inr bs1"
      "blooms_at c (view d) h1 = Some bs1" "start \<le> h1" "h1 \<le> end"
      using elem [OF x(1)] by (metis snd_conv)
    with x(2) show "start \<le> h \<and> h \<le> end \<and> blooms_at c (view d) h = Some bs" by simp
  next
    assume a: "start \<le> h \<and> h \<le> end \<and> blooms_at c (view d) h = Some bs"
    then obtain v where v: "view d (bloomHeightKey # uint64Bytes h) = Some v" "rlp_blooms_dec c v = Inr bs"
      by (auto simp: blooms_at_def decoded_def split: option.splits sum.splits)
    with a ent have "(bloomHeightKey # uint64Bytes h, v) \<in> set xs" by auto
    with v(2) show "\<lparr>bhBlooms = bs, bhBloomHeight = h\<rparr> \<in> set (map ?g xs)"
      by (force simp: image_iff)
  qed
  ultimately show ?thesis by blast
qed

text \<open>A range that is empty or not within the indexed heights is rejected with an error that
  is an invalid block range and an invalid request.\<close>

theorem BloomsForBlockRange_rejects:
  assumes "pebble_ok P view ops" and "LatestEVMHeight P d = Inr latest"
    and "end < start \<or> latest < end"
  shows "\<exists>e. BloomsForBlockRange P c d start end = Inl e
    \<and> errors_Is e ErrInvalidBlockRange \<and> errors_Is e ErrInvalid"
proof -
  have "getLast P d = Inr latest"
    using assms(2) by (auto simp: getLast_def LatestEVMHeight_def latestEVMHeight_def storage_get_view [OF assms(1)]
        split: option.splits if_splits)
  with assms(3) show ?thesis by (auto simp: BloomsForBlockRange_def)
qed


text \<open>A stored transaction is read back unchanged by its hash, whether a direct call or an
  Ethereum transaction, and a stored trace by the hash of its transaction.\<close>

theorem stored_transaction_readable:
  assumes "pebble_ok P view ops" and "codec_ok c" and "MarshalBinary c tx = Inr val"
    and "\<forall>tc. tx = TransactionCall tc \<longrightarrow> gtType tc \<noteq> DirectCallTxType c"
    and "WithBatch P (\<lambda>b. rbind (Transactions_Store P c tx b) (StoreTransaction P ID trace)) d = (None, d')"
  shows "Transactions_Get P c d' (tx_Hash tx) = Ret (Inr tx) \<and> GetTransaction P d' ID = Inr trace"
proof -
  have "\<exists>b'. rbind (Transactions_Store P c tx (NewBatch P d)) (StoreTransaction P ID trace) = Inr b'
      \<and> ops b' = ops (NewBatch P d) @ [OpSet (txIDKey # hashBytes (tx_Hash tx)) val,
          OpSet (traceTxIDKey # hashBytes ID) trace]"
  proof -
    obtain b1 where b1: "storage_set P txIDKey (Some (hashBytes (tx_Hash tx))) val (NewBatch P d) = Inr b1"
      "ops b1 = ops (NewBatch P d) @ [OpSet (txIDKey # hashBytes (tx_Hash tx)) val]"
      using storage_set_step [OF assms(1)] by (metis makePrefix_simps(2))
    obtain b2 where b2: "storage_set P traceTxIDKey (Some (hashBytes ID)) trace b1 = Inr b2"
      "ops b2 = ops b1 @ [OpSet (traceTxIDKey # hashBytes ID) trace]"
      using storage_set_step [OF assms(1)] by (metis makePrefix_simps(2))
    show ?thesis
      using b1 b2 assms(3) by (simp add: Transactions_Store_def StoreTransaction_def)
  qed
  from WithBatch_ops [OF assms(1,5) this] have
    "view d' (txIDKey # hashBytes (tx_Hash tx)) = Some val" "view d' (traceTxIDKey # hashBytes ID) = Some trace"
    by (auto simp: key_codes)
  moreover have "UnmarshalTransaction c val = Ret (Inr tx)"
    using UnmarshalTransaction_MarshalBinary [OF assms(2,3)] assms(4) by blast
  ultimately show ?thesis
    by (simp add: Transactions_Get_def GetTransaction_def storage_get_view [OF assms(1)])
qed

section \<open>Witnesses\<close>

definition demo_log :: Log where
  "demo_log = \<lparr>lAddress = 7, lTopics = [11], lData = [], lBlockNumber = 0, lBlockHash = 0, lBlockTimestamp = 0,
     lTxHash = 0, lTxIndex = 0, lIndex = 0, lRemoved = False\<rparr>"

definition demo_receipt :: "hash \<Rightarrow> Receipt" where
  "demo_receipt h = \<lparr>rType = 2, rPostState = [], rStatus = 1, rCumulativeGasUsed = 0, rBloom = 3,
     rLogs = [demo_log, demo_log], rTxHash = h, rContractAddress = 0, rGasUsed = 21000, rEffectiveGasPrice = 1,
     rBlobGasUsed = 0, rBlobGasPrice = None, rBlockHash = 3, rBlockNumber = 2, rTransactionIndex = 0,
     rRevertReason = [], rPrecompiledCalls = []\<rparr>"

definition demo_tx_call :: gethTx where
  "demo_tx_call = \<lparr>gtHash = 17, gtTo = Some 3, gtData = [], gtNonce = 1, gtValue = 0, gtType = 2, gtGas = 21000,
     gtGasFeeCap = 1, gtGasTipCap = 1, gtGasPrice = 1, gtChainId = 747, gtSignature = (1, 1, 1)\<rparr>"

definition receipts_codec :: "unit codec" where
  "receipts_codec = ref_codec [demo_block 2] [[demo_receipt 17, demo_receipt 18]] [demo_tx_call] []"

definition receipts_db :: "(bytes \<times> bytes) list" where
  "receipts_db = [([latestEVMHeightKey], uint64Bytes 2), (blockHeightKey # uint64Bytes 2, [0]),
     (bloomHeightKey # uint64Bytes 1, [0])]"

lemma receipts_codec_ok: "codec_ok receipts_codec"
  by (simp add: receipts_codec_def ref_codec_ok)

lemma receipts_codec_dec:
  "NewBlockFromBytes receipts_codec [0] = Inr (demo_block 2)" "rlp_blooms_dec receipts_codec [0] = Inr [3, 3]"
  "rlp_receipts_enc receipts_codec [demo_receipt 17, demo_receipt 18] = Inr [0]"
  "rlp_blooms_enc receipts_codec (map rBloom [demo_receipt 17, demo_receipt 18]) = Inr [0]"
  "MarshalBinary receipts_codec (TransactionCall demo_tx_call) = Inr [2, 0]"
  by (simp_all add: NewBlockFromBytes_def receipts_codec_def ref_codec_def decode_in_def encode_in_def
      demo_receipt_def demo_tx_call_def)

lemma receipts_latest: "LatestEVMHeight mem_pebble receipts_db = Inr 2"
  by (simp add: LatestEVMHeight_def latestEVMHeight_def storage_get_view [OF mem_pebble_ok] receipts_db_def)

lemma receipts_blooms_ok: "blooms_ok receipts_codec (map_of receipts_db)"
  by (auto simp: blooms_ok_def receipts_db_def key_codes receipts_codec_dec split: if_splits)

lemma BloomsForBlockRange_exact_witness:
  "\<exists>bhs. BloomsForBlockRange mem_pebble receipts_codec receipts_db 0 2 = Inr bhs
     \<and> \<lparr>bhBlooms = [3, 3], bhBloomHeight = 1\<rparr> \<in> set bhs"
proof -
  have "blooms_at receipts_codec (map_of receipts_db) 1 = Some [3, 3]"
    by (simp add: blooms_at_def receipts_db_def key_codes receipts_codec_dec)
  then show ?thesis
    using BloomsForBlockRange_exact [OF mem_pebble_ok receipts_blooms_ok receipts_latest, of 0 2] by auto
qed

lemma BloomsForBlockRange_rejects_witness:
  "\<exists>e. BloomsForBlockRange mem_pebble receipts_codec receipts_db 1 3 = Inl e \<and> errors_Is e ErrInvalid"
  using BloomsForBlockRange_rejects [OF mem_pebble_ok receipts_latest, of 3 1 receipts_codec] by auto

lemma mem_storage_set: "storage_set mem_pebble code key v b = Inr (b @ [OpSet (makePrefix code key) v])"
  by (simp add: storage_set_def mem_pebble_def)

lemma mem_WithBatch: "f [] = Inr b \<Longrightarrow> WithBatch mem_pebble f d = (None, fold mem_apply b d)"
  by (simp add: WithBatch_def NewBatch_def) (simp add: mem_pebble_def)


lemma stored_transaction_readable_witness:
  "\<exists>d'. WithBatch mem_pebble (\<lambda>b. rbind (Transactions_Store mem_pebble receipts_codec (TransactionCall demo_tx_call) b)
       (StoreTransaction mem_pebble 17 [1, 2])) [] = (None, d')
     \<and> Transactions_Get mem_pebble receipts_codec d' 17 = Ret (Inr (TransactionCall demo_tx_call))"
proof -
  let ?f = "\<lambda>b. rbind (Transactions_Store mem_pebble receipts_codec (TransactionCall demo_tx_call) b)
       (StoreTransaction mem_pebble 17 [1, 2])"
  have "\<exists>b. ?f [] = Inr b"
    using receipts_codec_dec(5) by (simp add: Transactions_Store_def StoreTransaction_def mem_storage_set del: MarshalBinary.simps)
  then obtain b where "?f [] = Inr b" by blast
  then have d': "WithBatch mem_pebble ?f [] = (None, fold mem_apply b [])" by (rule mem_WithBatch)
  have "\<forall>tc. TransactionCall demo_tx_call = TransactionCall tc \<longrightarrow> gtType tc \<noteq> DirectCallTxType receipts_codec"
    by (simp add: demo_tx_call_def receipts_codec_def ref_codec_def)
  from stored_transaction_readable [OF mem_pebble_ok receipts_codec_ok receipts_codec_dec(5) this d'] d'
  show ?thesis by (intro exI [of _ "fold mem_apply b []"]) (simp add: demo_tx_call_def)
qed

end
