(* ===== verification/Register_Index.thy ===== *)
theory Register_Index
  imports Receipts_Index
begin

text \<open>
  The versioned EVM registers, \<^verbatim>\<open>storage/pebble/register_storage.go\<close>, and the in-memory
  overlay a block is executed on, \<^verbatim>\<open>storage/register_delta.go\<close>.  A register is stored once per
  height it changes at, under a key that ends in the complement of the height, so that a
  forward seek finds the latest value at or below a height.  The address and identifier
  conversions of flow-go are arguments.
\<close>

unbundle bit_operations_syntax

section \<open>Register storage\<close>

record RegisterID =
  Owner :: bytes
  Key :: bytes

record RegisterEntry =
  reKey :: RegisterID
  reValue :: bytes

text \<open>\<open>owner\<close> is the address of the storage, \<open>toAddress\<close> is \<^verbatim>\<open>flow.BytesToAddress\<close>.\<close>

record RegisterStorage =
  owner :: flow_address
  toAddress :: "bytes \<Rightarrow> flow_address"

definition slash :: byte where "slash = 47"

definition newLookupKey :: "u64 \<Rightarrow> bytes \<Rightarrow> bytes" where
  "newLookupKey height key = (registerKeyMarker # key @ [slash]) @ uint64Bytes (NOT height)"

definition registerOwnerMismatch :: "flow_address \<Rightarrow> flow_address \<Rightarrow> err" where
  "registerOwnerMismatch expected own =
     Errorf ''owner mismatch. Storage expects a single owner %s, given %s''
       [FNum (unat expected), FNum (unat own)] []"

text \<open>\<open>None\<close> is the nil value of a register that does not exist.\<close>

definition lookupRegister :: "('db, 'batch) pebble_api \<Rightarrow> 'db \<Rightarrow> bytes \<Rightarrow> err + bytes option" where
  "lookupRegister P d key = (case db_SeekPrefixGE P MVCC_Split d key of
      Inl e \<Rightarrow> Inl e
    | Inr None \<Rightarrow> Inr None
    | Inr (Some (Inl e)) \<Rightarrow> Inl (Errorf ''failed to get value: %w'' [] [e])
    | Inr (Some (Inr v)) \<Rightarrow> Inr (Some v))"

text \<open>The deferred \<^verbatim>\<open>recover\<close> turns a panic into an error.\<close>

definition recover_panic :: "err + 'a \<Rightarrow> err + 'a" where
  "recover_panic r = (case r of
      Inl (RuntimePanic m) \<Rightarrow> Inl (Errorf ''panic: %v'' [FStr m] [])
    | _ \<Rightarrow> r)"

definition RegisterStorage_Get ::
    "('db, 'batch) pebble_api \<Rightarrow> RegisterStorage \<Rightarrow> 'db \<Rightarrow> RegisterID \<Rightarrow> u64 \<Rightarrow> err + bytes option" where
  "RegisterStorage_Get P r d rid height =
     recover_panic
       (if owner r \<noteq> toAddress r (Owner rid)
        then Inl (registerOwnerMismatch (owner r) (toAddress r (Owner rid)))
        else lookupRegister P d (newLookupKey height (Key rid)))"

definition RegisterStorage_Store ::
    "('db, 'batch) pebble_api \<Rightarrow> RegisterStorage \<Rightarrow> RegisterEntry list \<Rightarrow> u64 \<Rightarrow> 'batch \<Rightarrow> err + 'batch" where
  "RegisterStorage_Store P r entries height batch =
     rfold (\<lambda>entry batch.
       if owner r \<noteq> toAddress r (Owner (reKey entry))
       then Inl (registerOwnerMismatch (owner r) (toAddress r (Owner (reKey entry))))
       else rwrap (\<lambda>e. Errorf ''failed to set key: %w'' [] [e])
              (b_Set P (newLookupKey height (Key (reKey entry))) (reValue entry) batch))
     entries batch"

text \<open>
  A snapshot reads at a fixed height through a cache; \<open>registerID\<close> is
  \<^verbatim>\<open>flow.CadenceRegisterID\<close>.
\<close>

record StorageSnapshot =
  cache :: "(RegisterID, bytes option) gomap"
  evmBlockHeight :: u64
  storageGet :: "RegisterID \<Rightarrow> u64 \<Rightarrow> err + bytes option"

definition NewStorageSnapshot :: "(RegisterID \<Rightarrow> u64 \<Rightarrow> err + bytes option) \<Rightarrow> u64 \<Rightarrow> StorageSnapshot" where
  "NewStorageSnapshot get height = \<lparr>cache = [], evmBlockHeight = height, storageGet = get\<rparr>"

definition Snapshot_GetValue ::
    "(bytes \<Rightarrow> bytes \<Rightarrow> RegisterID) \<Rightarrow> bytes \<Rightarrow> bytes \<Rightarrow> StorageSnapshot \<Rightarrow> (err + bytes option) \<times> StorageSnapshot" where
  "Snapshot_GetValue registerID own key s =
     (let id = registerID own key in
      case map_of (cache s) id of
        Some value \<Rightarrow> (Inr value, s)
      | None \<Rightarrow>
         (case storageGet s id (evmBlockHeight s) of
            Inl e \<Rightarrow> (Inl e, s)
          | Inr val \<Rightarrow> (Inr val, s\<lparr>cache := AList.update id val (cache s)\<rparr>)))"

definition GetSnapshotAt :: "('db, 'batch) pebble_api \<Rightarrow> RegisterStorage \<Rightarrow> 'db \<Rightarrow> u64 \<Rightarrow> StorageSnapshot" where
  "GetSnapshotAt P r d height =
     NewStorageSnapshot (RegisterStorage_Get P r d) (if height > 0 then height - 1 else 0)"

section \<open>Register delta\<close>

text \<open>\<open>registers\<close> is the snapshot below the overlay, by its \<^verbatim>\<open>GetValue\<close>.\<close>

record RegisterDelta =
  deltas :: "(RegisterID, RegisterEntry) gomap"
  registers :: "bytes \<Rightarrow> bytes \<Rightarrow> err + bytes option"

definition NewRegisterDelta :: "(bytes \<Rightarrow> bytes \<Rightarrow> err + bytes option) \<Rightarrow> RegisterDelta" where
  "NewRegisterDelta regs = \<lparr>deltas = [], registers = regs\<rparr>"

definition Delta_GetValue ::
    "(bytes \<Rightarrow> bytes \<Rightarrow> RegisterID) \<Rightarrow> RegisterDelta \<Rightarrow> bytes \<Rightarrow> bytes \<Rightarrow> err + bytes option" where
  "Delta_GetValue registerID r own key = (case map_of (deltas r) (registerID own key) of
      Some delta \<Rightarrow> Inr (Some (reValue delta))
    | None \<Rightarrow> registers r own key)"

definition SetValue ::
    "(bytes \<Rightarrow> bytes \<Rightarrow> RegisterID) \<Rightarrow> bytes \<Rightarrow> bytes \<Rightarrow> bytes \<Rightarrow> RegisterDelta \<Rightarrow> RegisterDelta" where
  "SetValue registerID own key value r =
     (let id = registerID own key in
      r\<lparr>deltas := AList.update id \<lparr>reKey = id, reValue = value\<rparr> (deltas r)\<rparr>)"

definition ValueExists ::
    "(bytes \<Rightarrow> bytes \<Rightarrow> RegisterID) \<Rightarrow> RegisterDelta \<Rightarrow> bytes \<Rightarrow> bytes \<Rightarrow> err + bool" where
  "ValueExists registerID r own key =
     rbind (Delta_GetValue registerID r own key) (\<lambda>value.
     Inr (case value of None \<Rightarrow> False | Some v \<Rightarrow> length v > 0))"

definition GetUpdates :: "RegisterDelta \<Rightarrow> RegisterEntry list" where
  "GetUpdates r = map (\<lambda>(id, delta). \<lparr>reKey = id, reValue = reValue delta\<rparr>) (deltas r)"

text \<open>
  The account status of flow-go, as \<open>allocateSlabIndex\<close> uses it: the register key of an
  address' status, its codec, and the next free slab index in it.
\<close>

record ('st, 'ix) slab_api =
  toAddr :: "bytes \<Rightarrow> flow_address"
  AccountStatusKey :: "flow_address \<Rightarrow> bytes"
  AccountStatusFromBytes :: "bytes \<Rightarrow> err + 'st"
  AccountStatusToBytes :: "'st \<Rightarrow> bytes"
  SlabIndex :: "'st \<Rightarrow> 'ix"
  SlabNext :: "'ix \<Rightarrow> 'ix"
  SetStorageIndex :: "'ix \<Rightarrow> 'st \<Rightarrow> 'st"
  SlabIndexToLedgerKey :: "'ix \<Rightarrow> bytes"
  AccountNotFoundError :: "flow_address \<Rightarrow> err"

definition allocateSlabIndex ::
    "(bytes \<Rightarrow> bytes \<Rightarrow> RegisterID) \<Rightarrow> ('st, 'ix) slab_api \<Rightarrow> bytes \<Rightarrow> RegisterDelta \<Rightarrow> (err + 'ix) \<times> RegisterDelta" where
  "allocateSlabIndex registerID A own r =
     (let address = toAddr A own; statusKey = AccountStatusKey A address in
      case Delta_GetValue registerID r own statusKey of
        Inl e \<Rightarrow> (Inl (Errorf ''failed to load account status for the account (%s): %w'' [FNum (unat address)] [e]), r)
      | Inr value \<Rightarrow>
         (let statusBytes = (case value of None \<Rightarrow> [] | Some v \<Rightarrow> v) in
          if length statusBytes = 0 then (Inl (AccountNotFoundError A address), r)
          else case AccountStatusFromBytes A statusBytes of
            Inl e \<Rightarrow> (Inl e, r)
          | Inr status \<Rightarrow>
             (let index = SlabIndex A status;
                  r1 = SetValue registerID own (SlabIndexToLedgerKey A index) [] r;
                  status' = SetStorageIndex A (SlabNext A index) status;
                  r2 = SetValue registerID own statusKey (AccountStatusToBytes A status') r1
              in (Inr index, r2))))"

section \<open>The order of lookup keys\<close>

lemma unat_not_u64: "unat (NOT (h :: u64)) = 2 ^ 64 - 1 - unat h"
proof -
  have "NOT h = - 1 - h" by (simp add: not_eq_complement)
  moreover have "unat (- 1 - h) = unat (- 1 :: u64) - unat h"
    by (rule unat_sub) simp
  moreover have "unat (- 1 :: u64) = 2 ^ 64 - 1"
    by (simp add: unsigned_minus_1_eq_mask mask_eq_exp_minus_1)
  ultimately show ?thesis by simp
qed

lemma not_le_not_u64: "NOT (a :: u64) \<le> NOT b \<longleftrightarrow> b \<le> a"
  using unat_u64_lt [of a] unat_u64_lt [of b]
  by (auto simp: word_le_nat_alt unat_not_u64)

lemma newLookupKey_inject [simp]: "newLookupKey h k = newLookupKey h' k' \<longleftrightarrow> h = h' \<and> k = k'"
  by (auto simp: newLookupKey_def append_eq_append_conv)

lemma newLookupKey_le: "newLookupKey a k \<le> newLookupKey b k \<longleftrightarrow> b \<le> a"
  unfolding newLookupKey_def append_le_append_iff by (simp add: not_le_not_u64)

lemma MVCC_Split_lookup: "take (nat (MVCC_Split (newLookupKey h k))) (newLookupKey h k) = registerKeyMarker # k @ [slash]"
proof -
  have split: "MVCC_Split (newLookupKey h k) = int (length (registerKeyMarker # k @ [slash]))"
    by (simp add: newLookupKey_def MVCC_Split_def)
  have prefix: "take (length p) (p @ s) = p" for p s :: bytes by simp
  show ?thesis unfolding split nat_int unfolding newLookupKey_def by (rule prefix)
qed

lemma MVCC_prefix_lookup:
  assumes "take (nat (MVCC_Split x)) x = registerKeyMarker # k @ [slash]"
  shows "\<exists>h. x = newLookupKey h k"
proof -
  obtain a t where at: "x = a # t" using assms by (cases x) auto
  moreover have "a = registerKeyMarker"
    using assms by (cases "nat (MVCC_Split x)") (auto simp: at)
  ultimately have x: "x = registerKeyMarker # t" by simp
  then have split: "MVCC_Split x = int (length x) - 8" by (simp add: MVCC_Split_def)
  have "length x \<ge> 8" using assms split by (cases "length x \<ge> 8") auto
  then have "take (length x - 8) x = registerKeyMarker # k @ [slash]"
    using assms split by (simp add: nat_diff_distrib')
  then have "x = (registerKeyMarker # k @ [slash]) @ drop (length x - 8) x"
    by (metis append_take_drop_id)
  moreover have "length (drop (length x - 8) x) = 8" using \<open>length x \<ge> 8\<close> by simp
  then obtain s where "drop (length x - 8) x = uint64Bytes s" using uint64Bytes_surj by blast
  then have "drop (length x - 8) x = uint64Bytes (NOT (NOT s))" by simp
  ultimately show ?thesis unfolding newLookupKey_def by metis
qed

text \<open>The candidates of a seek are the versions of the register at or below the height.\<close>

lemma register_candidates:
  "seek_candidates MVCC_Split m (newLookupKey height key) =
     {newLookupKey h key | h. m (newLookupKey h key) \<noteq> None \<and> h \<le> height}"
proof -
  have "x \<in> seek_candidates MVCC_Split m (newLookupKey height key) \<longleftrightarrow>
      x \<in> {newLookupKey h key | h. m (newLookupKey h key) \<noteq> None \<and> h \<le> height}" for x
    using MVCC_prefix_lookup [of x key]
    by (auto simp: seek_candidates_def MVCC_Split_lookup newLookupKey_le)
  then show ?thesis by blast
qed

section \<open>Versions of a register\<close>

text \<open>
  The value of a register at a height: that of the greatest height at or below it with an
  entry, and nil if there is none.
\<close>

definition latest_version :: "(bytes \<rightharpoonup> bytes) \<Rightarrow> bytes \<Rightarrow> u64 \<Rightarrow> bytes option \<Rightarrow> bool" where
  "latest_version m key height r \<longleftrightarrow> (case r of
      None \<Rightarrow> \<forall>h \<le> height. m (newLookupKey h key) = None
    | Some v \<Rightarrow> \<exists>h \<le> height. m (newLookupKey h key) = Some v
        \<and> (\<forall>h'. h < h' \<and> h' \<le> height \<longrightarrow> m (newLookupKey h' key) = None))"

lemma latest_version_unique:
  assumes "latest_version m k h r" "latest_version m k h r'" shows "r = r'"
proof (cases r; cases r')
  fix v v' assume r: "r = Some v" "r' = Some v'"
  obtain a where a: "a \<le> h" "m (newLookupKey a k) = Some v"
    "\<And>h'. a < h' \<Longrightarrow> h' \<le> h \<Longrightarrow> m (newLookupKey h' k) = None"
    using assms(1) r by (auto simp: latest_version_def)
  obtain b where b: "b \<le> h" "m (newLookupKey b k) = Some v'"
    "\<And>h'. b < h' \<Longrightarrow> h' \<le> h \<Longrightarrow> m (newLookupKey h' k) = None"
    using assms(2) r by (auto simp: latest_version_def)
  have "a = b" using a b by (metis linorder_neqE option.distinct(1))
  with a(2) b(2) r show ?thesis by simp
qed (use assms in \<open>auto simp: latest_version_def\<close>)

lemma lookupRegister_latest:
  assumes "pebble_ok P view ops"
  shows "\<exists>r. lookupRegister P d (newLookupKey height key) = Inr r \<and> latest_version (view d) key height r"
proof -
  let ?C = "seek_candidates MVCC_Split (view d) (newLookupKey height key)"
  have seek: "case db_SeekPrefixGE P MVCC_Split d (newLookupKey height key) of
        Inr None \<Rightarrow> ?C = {}
      | Inr (Some r) \<Rightarrow> (\<exists>k \<in> ?C. \<exists>v. (\<forall>k' \<in> ?C. k \<le> k') \<and> view d k = Some v \<and> r = Inr v)
      | Inl _ \<Rightarrow> False"
    using assms unfolding pebble_ok_def by blast
  note cand = register_candidates [of "view d" height key]
  show ?thesis
  proof (cases "db_SeekPrefixGE P MVCC_Split d (newLookupKey height key)")
    case (Inl e)
    with seek show ?thesis by simp
  next
    case (Inr x)
    show ?thesis
    proof (cases x)
      case None
      with Inr seek cand have "\<forall>h \<le> height. view d (newLookupKey h key) = None" by auto
      with Inr None show ?thesis by (simp add: lookupRegister_def latest_version_def)
    next
      case (Some r)
      then obtain k v where k: "k \<in> ?C" "\<And>k'. k' \<in> ?C \<Longrightarrow> k \<le> k'" "view d k = Some v" "r = Inr v"
        using Inr seek by auto
      then obtain h where h: "k = newLookupKey h key" "h \<le> height" using cand by auto
      have "view d (newLookupKey h' key) = None" if "h < h'" "h' \<le> height" for h'
      proof (rule ccontr)
        assume "view d (newLookupKey h' key) \<noteq> None"
        with that cand have "newLookupKey h' key \<in> ?C" by auto
        from k(2) [OF this] have "h' \<le> h" by (simp add: h(1) newLookupKey_le)
        with that(1) show False by simp
      qed
      with h k(3) have "latest_version (view d) key height (Some v)"
        by (auto simp: latest_version_def)
      with Inr Some k(4) show ?thesis by (simp add: lookupRegister_def)
    qed
  qed
qed

lemma Get_latest:
  assumes "pebble_ok P view ops" "toAddress r (Owner rid) = owner r"
  shows "RegisterStorage_Get P r d rid height = Inr v \<longleftrightarrow> latest_version (view d) (Key rid) height v"
  using lookupRegister_latest [OF assms(1), of d height "Key rid"] latest_version_unique assms(2)
  by (auto simp: RegisterStorage_Get_def recover_panic_def)

lemma Get_total:
  assumes "pebble_ok P view ops" "toAddress r (Owner rid) = owner r"
  shows "\<exists>v. RegisterStorage_Get P r d rid height = Inr v"
  using lookupRegister_latest [OF assms(1), of d height "Key rid"] Get_latest [OF assms] by blast

section \<open>Storing registers\<close>

lemma distinct_lookup_rev: "distinct (map fst xs) \<Longrightarrow> map_of (rev xs) = map_of xs"
  by (subst map_of_inject_set) (simp_all add: rev_map [symmetric])

lemma apply_ops_sets:
  "apply_ops (map (\<lambda>(k, v). OpSet k v) xs) m x =
     (case map_of (rev xs) x of Some v \<Rightarrow> Some v | None \<Rightarrow> m x)"
  by (induction xs arbitrary: m) (auto simp: map_add_def split: option.splits)

definition register_sets :: "RegisterEntry list \<Rightarrow> u64 \<Rightarrow> (bytes \<times> bytes) list" where
  "register_sets entries height = map (\<lambda>e. (newLookupKey height (Key (reKey e)), reValue e)) entries"

lemma Register_Store_ops:
  assumes "pebble_ok P view ops" "\<And>e. e \<in> set entries \<Longrightarrow> toAddress r (Owner (reKey e)) = owner r"
  shows "\<exists>b'. RegisterStorage_Store P r entries height b = Inr b'
    \<and> ops b' = ops b @ map (\<lambda>(k, v). OpSet k v) (register_sets entries height)"
  using assms(2)
proof (induction entries arbitrary: b)
  case Nil
  then show ?case by (simp add: RegisterStorage_Store_def register_sets_def)
next
  case (Cons e es)
  obtain b1 where "b_Set P (newLookupKey height (Key (reKey e))) (reValue e) b = Inr b1"
    "ops b1 = ops b @ [OpSet (newLookupKey height (Key (reKey e))) (reValue e)]"
    using pebble_set [OF assms(1)] by blast
  moreover from Cons.IH [of b1] Cons.prems obtain b2 where
    "RegisterStorage_Store P r es height b1 = Inr b2"
    "ops b2 = ops b1 @ map (\<lambda>(k, v). OpSet k v) (register_sets es height)" by auto
  ultimately show ?case
    using Cons.prems [of e] by (simp add: RegisterStorage_Store_def register_sets_def)
qed

text \<open>Storing at a height changes no value below it.\<close>

lemma register_sets_other:
  "h' \<noteq> h \<Longrightarrow> apply_ops (map (\<lambda>(k, v). OpSet k v) (register_sets es h)) m (newLookupKey h' k) = m (newLookupKey h' k)"
proof -
  assume "h' \<noteq> h"
  then have "map_of (rev (register_sets es h)) (newLookupKey h' k) = None"
    by (auto simp: map_of_eq_None_iff register_sets_def)
  then show ?thesis by (simp add: apply_ops_sets)
qed

lemma latest_version_cong:
  "(\<And>h. h \<le> height \<Longrightarrow> m (newLookupKey h k) = m' (newLookupKey h k)) \<Longrightarrow>
   latest_version m k height v \<longleftrightarrow> latest_version m' k height v"
  by (auto simp: latest_version_def split: option.splits)

lemma latest_version_prev:
  assumes "m (newLookupKey h k) = None" "0 < h"
  shows "latest_version m k h v \<longleftrightarrow> latest_version m k (h - 1) v"
proof -
  have "x \<le> h \<longleftrightarrow> x \<le> h - 1 \<or> x = h" for x
  proof -
    have "unat (h - 1) = unat h - 1" using assms(2) by (simp add: unat_minus_one word_gt_0)
    then show ?thesis using assms(2) by (auto simp: word_le_nat_alt word_less_nat_alt word_unat_eq_iff)
  qed
  with assms(1) show ?thesis
    by (cases v) (auto simp: latest_version_def)
qed

text \<open>
  \<^verbatim>\<open>flow.CadenceRegisterID\<close> keeps the key, and gives one identifier to the spellings of an
  owner that name the same address.
\<close>

definition registerID_ok :: "RegisterStorage \<Rightarrow> (bytes \<Rightarrow> bytes \<Rightarrow> RegisterID) \<Rightarrow> bool" where
  "registerID_ok r registerID \<longleftrightarrow>
     (\<forall>own key. Key (registerID own key) = key \<and> toAddress r (Owner (registerID own key)) = toAddress r own)
   \<and> (\<forall>own own' key. toAddress r own = toAddress r own' \<longrightarrow> registerID own key = registerID own' key)"

definition delta_ok :: "RegisterStorage \<Rightarrow> (bytes \<Rightarrow> bytes \<Rightarrow> RegisterID) \<Rightarrow> RegisterDelta \<Rightarrow> bool" where
  "delta_ok r registerID dl \<longleftrightarrow> wf_map (deltas dl)
     \<and> (\<forall>rid e. (rid, e) \<in> set (deltas dl) \<longrightarrow> (\<exists>own key. rid = registerID own key \<and> toAddress r own = owner r))"

lemma delta_ok_New: "delta_ok r registerID (NewRegisterDelta regs)"
  by (simp add: delta_ok_def NewRegisterDelta_def)

lemma delta_ok_SetValue:
  assumes "delta_ok r registerID dl" "toAddress r own = owner r"
  shows "delta_ok r registerID (SetValue registerID own key v dl)"
  using assms set_update_sub [of "registerID own key" "\<lparr>reKey = registerID own key, reValue = v\<rparr>" "deltas dl"]
  by (fastforce simp: delta_ok_def SetValue_def Let_def)

lemma registerID_eq: "registerID own key = registerID own' key"
  if "registerID_ok r registerID" "toAddress r own = toAddress r own'"
  using that unfolding registerID_ok_def by blast

lemma Key_registerID: "registerID_ok r registerID \<Longrightarrow> Key (registerID own key) = key"
  unfolding registerID_ok_def by blast

lemma delta_entry_unique:
  assumes "delta_ok r registerID dl" "registerID_ok r registerID"
    and "(rid, e) \<in> set (deltas dl)" "(rid', e') \<in> set (deltas dl)" "Key rid = Key rid'"
  shows "rid = rid'"
proof -
  obtain o1 k1 o2 k2 where "rid = registerID o1 k1" "rid' = registerID o2 k2"
    "toAddress r o1 = owner r" "toAddress r o2 = owner r"
    using assms(1,3,4) unfolding delta_ok_def by blast
  moreover from this assms(5) have "k1 = k2" using Key_registerID [OF assms(2)] by simp
  ultimately show ?thesis using registerID_eq [OF assms(2), of o1 o2] by simp
qed

text \<open>What the updates of a delta write for one register.\<close>

lemma delta_sets_lookup:
  assumes "delta_ok r registerID dl" "registerID_ok r registerID" "toAddress r own = owner r"
  shows "map_of (rev (register_sets (GetUpdates dl) h)) (newLookupKey h key) =
    map_option reValue (map_of (deltas dl) (registerID own key))"
proof -
  let ?xs = "map (\<lambda>(rid, e). (newLookupKey h (Key rid), reValue e)) (deltas dl)"
  have xs: "register_sets (GetUpdates dl) h = ?xs"
    by (auto simp: register_sets_def GetUpdates_def)
  have dist: "distinct (map fst ?xs)"
  proof -
    have "inj_on (\<lambda>p. newLookupKey h (Key (fst p))) (set (deltas dl))"
    proof (rule inj_onI)
      fix p q assume "p \<in> set (deltas dl)" "q \<in> set (deltas dl)"
        "newLookupKey h (Key (fst p)) = newLookupKey h (Key (fst q))"
      moreover have "map_of (deltas dl) (fst p) = Some (snd p)" "map_of (deltas dl) (fst q) = Some (snd q)"
        using assms(1) calculation(1,2) by (auto simp: delta_ok_def wf_map_def)
      ultimately show "p = q"
        using delta_entry_unique [OF assms(1,2), of "fst p" "snd p" "fst q" "snd q"] by (auto simp: prod_eq_iff)
    qed
    moreover have "distinct (deltas dl)" using assms(1) by (auto simp: delta_ok_def wf_map_def distinct_map)
    ultimately show ?thesis by (simp add: distinct_map split_def comp_def)
  qed
  have "map_of ?xs (newLookupKey h key) = Some v \<longleftrightarrow>
      map_option reValue (map_of (deltas dl) (registerID own key)) = Some v" for v
  proof -
    have "map_of ?xs (newLookupKey h key) = Some v \<longleftrightarrow> (\<exists>rid e. (rid, e) \<in> set (deltas dl) \<and> Key rid = key \<and> reValue e = v)"
      unfolding map_of_eq_Some_iff [OF dist] by force
    also have "\<dots> \<longleftrightarrow> (\<exists>e. (registerID own key, e) \<in> set (deltas dl) \<and> reValue e = v)"
    proof -
      have rid: "rid = registerID own key" if e: "(rid, e) \<in> set (deltas dl)" "Key rid = key" for rid e
      proof -
        obtain o1 k1 where "rid = registerID o1 k1" "toAddress r o1 = owner r"
          using assms(1) e(1) unfolding delta_ok_def by blast
        moreover from this(1) e(2) have "k1 = key" using Key_registerID [OF assms(2)] by simp
        ultimately show ?thesis using registerID_eq [OF assms(2), of o1 own key] assms(3) by simp
      qed
      have "Key (registerID own key) = key" by (rule Key_registerID [OF assms(2)])
      with rid show ?thesis by auto
    qed
    also have "\<dots> \<longleftrightarrow> map_option reValue (map_of (deltas dl) (registerID own key)) = Some v"
      using assms(1) by (auto simp: delta_ok_def in_set_iff_lookup)
    finally show ?thesis .
  qed
  then have "map_of ?xs (newLookupKey h key) = map_option reValue (map_of (deltas dl) (registerID own key))"
    by (metis not_Some_eq)
  moreover have "map_of (rev ?xs) = map_of ?xs"
    using dist by (rule distinct_lookup_rev)
  ultimately show ?thesis by (simp only: xs)
qed

section \<open>Executing a block on the registers\<close>

text \<open>The writes a block makes to its delta, in order.\<close>

definition write_all ::
    "(bytes \<Rightarrow> bytes \<Rightarrow> RegisterID) \<Rightarrow> (bytes \<times> bytes \<times> bytes) list \<Rightarrow> RegisterDelta \<Rightarrow> RegisterDelta" where
  "write_all registerID = fold (\<lambda>(own, key, v). SetValue registerID own key v)"

lemma write_all_simps [simp]:
  "write_all registerID [] dl = dl"
  "write_all registerID ((own, key, v) # ws) dl = write_all registerID ws (SetValue registerID own key v dl)"
  by (simp_all add: write_all_def)

lemma registers_write_all [simp]: "registers (write_all registerID ws dl) = registers dl"
  by (induction ws arbitrary: dl) (auto simp: SetValue_def Let_def)

lemma delta_ok_write_all:
  assumes "delta_ok r registerID dl" "\<forall>(own, key, v) \<in> set ws. toAddress r own = owner r"
  shows "delta_ok r registerID (write_all registerID ws dl)"
  using assms
proof (induction ws arbitrary: dl)
  case (Cons w ws)
  then show ?case by (cases w) (auto intro!: Cons.IH delta_ok_SetValue)
qed simp

lemma delta_updates_owner:
  assumes "delta_ok r registerID dl" "registerID_ok r registerID" "e \<in> set (GetUpdates dl)"
  shows "toAddress r (Owner (reKey e)) = owner r"
proof -
  obtain rid x where "(rid, x) \<in> set (deltas dl)" "reKey e = rid"
    using assms(3) by (auto simp: GetUpdates_def)
  with assms(1) obtain own key where "reKey e = registerID own key" "toAddress r own = owner r"
    unfolding delta_ok_def by blast
  moreover have "toAddress r (Owner (registerID own key)) = toAddress r own"
    using assms(2) unfolding registerID_ok_def by blast
  ultimately show ?thesis by simp
qed

lemma latest_version_present: "m (newLookupKey h k) = Some v \<Longrightarrow> latest_version m k h w \<longleftrightarrow> w = Some v"
proof -
  assume "m (newLookupKey h k) = Some v"
  then have "latest_version m k h (Some v)" by (auto simp: latest_version_def intro!: exI [of _ h])
  then show ?thesis using latest_version_unique by blast
qed

text \<open>The database after the updates of a delta are stored at a height.\<close>

lemma delta_commit_view:
  assumes "pebble_ok P view ops" "registerID_ok r registerID" "delta_ok r registerID dl"
    and "WithBatch P (RegisterStorage_Store P r (GetUpdates dl) h) d = (None, d')"
  shows "view d' = apply_ops (map (\<lambda>(k, v). OpSet k v) (register_sets (GetUpdates dl) h)) (view d)"
  using Register_Store_ops [OF assms(1) delta_updates_owner [OF assms(3,2)]]
  by (rule WithBatch_ops [OF assms(1,4)])

lemma Get_eqI:
  assumes "pebble_ok P view ops" "toAddress r (Owner rid) = owner r" "toAddress r (Owner rid') = owner r"
    and "\<And>v. latest_version (view d) (Key rid) h v \<longleftrightarrow> latest_version (view d') (Key rid') h' v"
  shows "RegisterStorage_Get P r d rid h = RegisterStorage_Get P r d' rid' h'"
  using Get_total [OF assms(1,3), of d' h'] assms(4) Get_latest [OF assms(1,2), of d h] Get_latest [OF assms(1,3), of d' h']
  by metis

text \<open>Reading a register at a height returns the value stored at the greatest height at or
below it, and nil if it was never stored so early; the seek always succeeds.\<close>

theorem register_reads_latest:
  assumes "pebble_ok P view ops" "toAddress r (Owner rid) = owner r"
  shows "\<exists>v. RegisterStorage_Get P r d rid height = Inr v \<and> latest_version (view d) (Key rid) height v"
  using Get_total [OF assms] Get_latest [OF assms] by blast

text \<open>C21: Executing a block and committing its registers: with a delta over the snapshot of
block \<open>h\<close> and a database that has no register at \<open>h\<close> yet, storing the updates of the delta
at \<open>h\<close> makes every read at \<open>h\<close> return what the delta returned during the execution, and
leaves every read below \<open>h\<close> as it was.\<close>

theorem register_commit:
  assumes "pebble_ok P view ops" "registerID_ok r registerID" "0 < h"
    and "\<forall>k. view d (newLookupKey h k) = None"
    and "\<forall>(own, key, v) \<in> set writes. toAddress r own = owner r"
    and "dl = write_all registerID writes (NewRegisterDelta
           (\<lambda>own key. fst (Snapshot_GetValue registerID own key (GetSnapshotAt P r d h))))"
    and "WithBatch P (RegisterStorage_Store P r (GetUpdates dl) h) d = (None, d')"
    and "toAddress r own = owner r"
  shows "RegisterStorage_Get P r d' (registerID own key) h = Delta_GetValue registerID dl own key
    \<and> (\<forall>h' < h. RegisterStorage_Get P r d' (registerID own key) h' = RegisterStorage_Get P r d (registerID own key) h')"
proof -
  let ?id = "registerID own key"
  have dl: "delta_ok r registerID dl"
    unfolding assms(6) by (rule delta_ok_write_all [OF delta_ok_New assms(5)])
  have own: "toAddress r (Owner ?id) = owner r" and key: "Key ?id = key"
    using assms(2,8) unfolding registerID_ok_def by metis+
  note view' = delta_commit_view [OF assms(1,2) dl assms(7)]
  have below: "view d' (newLookupKey h' key) = view d (newLookupKey h' key)" if "h' \<noteq> h" for h'
    using that by (simp add: view' register_sets_other)
  have at: "view d' (newLookupKey h key) = map_option reValue (map_of (deltas dl) ?id)"
    using assms(4) by (simp add: view' apply_ops_sets delta_sets_lookup [OF dl assms(2,8)] split: option.splits)
  have "RegisterStorage_Get P r d' ?id h = Delta_GetValue registerID dl own key"
  proof (cases "map_of (deltas dl) ?id")
    case None
    with at have none: "view d' (newLookupKey h key) = None" by simp
    have "unat h \<noteq> 0" "unat (h - 1) = unat h - 1" using assms(3) by (auto simp: unat_minus_one word_gt_0 unat_eq_zero)
    then have le: "x \<le> h - 1 \<Longrightarrow> x \<noteq> h" for x by (auto simp: word_le_nat_alt)
    have "RegisterStorage_Get P r d' ?id h = RegisterStorage_Get P r d ?id (h - 1)"
    proof (rule Get_eqI [OF assms(1) own own])
      fix v show "latest_version (view d') (Key ?id) h v \<longleftrightarrow> latest_version (view d) (Key ?id) (h - 1) v"
        unfolding key latest_version_prev [where m = "view d'" and k = key, OF none assms(3)]
        by (rule latest_version_cong) (simp add: below le)
    qed
    then show ?thesis
      using None assms(3) by (auto simp: Delta_GetValue_def assms(6) NewRegisterDelta_def Snapshot_GetValue_def
          GetSnapshotAt_def NewStorageSnapshot_def Let_def split: sum.splits)
  next
    case (Some e)
    with at have "latest_version (view d') (Key ?id) h (Some (reValue e))"
      by (simp add: latest_version_present key)
    with Get_latest [OF assms(1) own] Some show ?thesis by (simp add: Delta_GetValue_def)
  qed
  moreover have "RegisterStorage_Get P r d' ?id h' = RegisterStorage_Get P r d ?id h'" if "h' < h" for h'
    by (rule Get_eqI [OF assms(1) own own], unfold key, rule latest_version_cong) (use that in \<open>simp add: below\<close>)
  ultimately show ?thesis by blast
qed

section \<open>Snapshots\<close>

text \<open>Reads through one snapshot, one after the other.\<close>

fun snapshot_reads ::
    "(bytes \<Rightarrow> bytes \<Rightarrow> RegisterID) \<Rightarrow> (bytes \<times> bytes) list \<Rightarrow> StorageSnapshot \<Rightarrow> (err + bytes option) list" where
  "snapshot_reads registerID [] s = []"
| "snapshot_reads registerID ((own, key) # qs) s =
     (let (v, s') = Snapshot_GetValue registerID own key s in v # snapshot_reads registerID qs s')"

definition cache_ok :: "StorageSnapshot \<Rightarrow> bool" where
  "cache_ok s \<longleftrightarrow> (\<forall>rid v. map_of (cache s) rid = Some v \<longrightarrow> storageGet s rid (evmBlockHeight s) = Inr v)"

lemma Snapshot_GetValue_cache:
  assumes "cache_ok s" "Snapshot_GetValue registerID own key s = (v, s')"
  shows "v = storageGet s (registerID own key) (evmBlockHeight s) \<and> cache_ok s'
    \<and> storageGet s' = storageGet s \<and> evmBlockHeight s' = evmBlockHeight s"
  using assms by (auto simp: Snapshot_GetValue_def cache_ok_def Let_def update_conv' split: option.splits sum.splits if_splits)

lemma snapshot_reads_cache:
  "cache_ok s \<Longrightarrow> snapshot_reads registerID qs s =
     map (\<lambda>(own, key). storageGet s (registerID own key) (evmBlockHeight s)) qs"
proof (induction qs arbitrary: s)
  case Nil
  then show ?case by simp
next
  case (Cons q qs)
  obtain own key where q: "q = (own, key)" by (cases q)
  obtain v s' where g: "Snapshot_GetValue registerID own key s = (v, s')" by fastforce
  from Snapshot_GetValue_cache [OF Cons.prems g] Cons.IH [of s'] show ?case by (simp add: q g)
qed

text \<open>C22: A snapshot is transparent: any sequence of reads through the caching snapshot of a
block returns, read by read, what the register storage returns at the end of the block
before it, and at height zero for block zero, errors included.\<close>

theorem snapshot_transparent:
  "snapshot_reads registerID qs (GetSnapshotAt P r d height) =
     map (\<lambda>(own, key). RegisterStorage_Get P r d (registerID own key) (if height = 0 then 0 else height - 1)) qs"
proof -
  have "cache_ok (GetSnapshotAt P r d height)"
    by (simp add: cache_ok_def GetSnapshotAt_def NewStorageSnapshot_def)
  from snapshot_reads_cache [OF this] show ?thesis
    by (auto simp: GetSnapshotAt_def NewStorageSnapshot_def word_neq_0_conv)
qed

section \<open>Slab indexes\<close>

text \<open>What \<^verbatim>\<open>flow-go\<close> promises of account statuses and ledger keys.\<close>

definition slab_ok :: "(bytes \<Rightarrow> bytes \<Rightarrow> RegisterID) \<Rightarrow> ('st, 'ix) slab_api \<Rightarrow> bool" where
  "slab_ok registerID A \<longleftrightarrow>
     (\<forall>st. AccountStatusFromBytes A (AccountStatusToBytes A st) = Inr st \<and> AccountStatusToBytes A st \<noteq> [])
   \<and> (\<forall>i st. SlabIndex A (SetStorageIndex A i st) = i)
   \<and> (\<forall>own a i. registerID own (AccountStatusKey A a) \<noteq> registerID own (SlabIndexToLedgerKey A i))"

fun allocate_many ::
    "(bytes \<Rightarrow> bytes \<Rightarrow> RegisterID) \<Rightarrow> ('st, 'ix) slab_api \<Rightarrow> nat \<Rightarrow> bytes \<Rightarrow> RegisterDelta \<Rightarrow> (err + 'ix) list \<times> RegisterDelta" where
  "allocate_many registerID A 0 own dl = ([], dl)"
| "allocate_many registerID A (Suc n) own dl =
     (let (r, dl') = allocateSlabIndex registerID A own dl;
          (rs, dl'') = allocate_many registerID A n own dl' in (r # rs, dl''))"

lemma Delta_GetValue_SetValue:
  "Delta_GetValue registerID (SetValue registerID own key v dl) own' key' =
     (if registerID own' key' = registerID own key then Inr (Some v) else Delta_GetValue registerID dl own' key')"
  by (simp add: Delta_GetValue_def SetValue_def Let_def update_conv' split: option.splits)

lemma allocateSlabIndex_step:
  assumes "slab_ok registerID A"
    and "Delta_GetValue registerID dl own (AccountStatusKey A (toAddr A own)) = Inr (Some (AccountStatusToBytes A st))"
  obtains dl' where "allocateSlabIndex registerID A own dl = (Inr (SlabIndex A st), dl')"
    "Delta_GetValue registerID dl' own (AccountStatusKey A (toAddr A own)) =
       Inr (Some (AccountStatusToBytes A (SetStorageIndex A (SlabNext A (SlabIndex A st)) st)))"
    "Delta_GetValue registerID dl' own (SlabIndexToLedgerKey A (SlabIndex A st)) = Inr (Some [])"
proof -
  have laws: "AccountStatusFromBytes A (AccountStatusToBytes A st) = Inr st" "AccountStatusToBytes A st \<noteq> []"
    "registerID own (AccountStatusKey A a) \<noteq> registerID own (SlabIndexToLedgerKey A i)" for a i
    using assms(1) unfolding slab_ok_def by blast+
  let ?dl' = "SetValue registerID own (AccountStatusKey A (toAddr A own))
      (AccountStatusToBytes A (SetStorageIndex A (SlabNext A (SlabIndex A st)) st))
      (SetValue registerID own (SlabIndexToLedgerKey A (SlabIndex A st)) [] dl)"
  show thesis
    by (rule that [of ?dl'])
      (simp_all add: allocateSlabIndex_def assms(2) laws laws(3) [symmetric] Let_def Delta_GetValue_SetValue)
qed

text \<open>Allocating slab indexes one after the other returns the index in the account's status
and its successors, in order, and never fails once the account has a status.\<close>

theorem slab_indexes_successive:
  assumes "slab_ok registerID A"
    and "Delta_GetValue registerID dl own (AccountStatusKey A (toAddr A own)) = Inr (Some (AccountStatusToBytes A st))"
  shows "fst (allocate_many registerID A n own dl) =
    map (\<lambda>k. Inr ((SlabNext A ^^ k) (SlabIndex A st))) [0..<n]"
  using assms(2)
proof (induction n arbitrary: dl st)
  case 0
  then show ?case by simp
next
  case (Suc n)
  obtain dl' where dl': "allocateSlabIndex registerID A own dl = (Inr (SlabIndex A st), dl')"
    "Delta_GetValue registerID dl' own (AccountStatusKey A (toAddr A own)) =
       Inr (Some (AccountStatusToBytes A (SetStorageIndex A (SlabNext A (SlabIndex A st)) st)))"
    using allocateSlabIndex_step [OF assms(1) Suc.prems] by blast
  have "SlabIndex A (SetStorageIndex A i st) = i" for i using assms(1) by (simp add: slab_ok_def)
  with Suc.IH [OF dl'(2)] show ?case
    by (simp add: dl'(1) split_def Let_def upt_conv_Cons map_Suc_upt [symmetric] funpow_swap1 del: upt_Suc)
qed

section \<open>Witnesses\<close>

definition demo_regs :: RegisterStorage where
  "demo_regs = \<lparr>owner = 5, toAddress = (\<lambda>b. if b = [5] then 5 else 0)\<rparr>"

definition demo_registerID :: "bytes \<Rightarrow> bytes \<Rightarrow> RegisterID" where
  "demo_registerID own key = \<lparr>Owner = (if own = [5] then [5] else []), Key = key\<rparr>"

lemma demo_registerID_ok: "registerID_ok demo_regs demo_registerID"
  by (auto simp: registerID_ok_def demo_regs_def demo_registerID_def split: if_splits)

lemma register_reads_latest_witness:
  "\<exists>v. RegisterStorage_Get mem_pebble demo_regs [(newLookupKey 3 [7], [1]), (newLookupKey 9 [7], [2])]
      (demo_registerID [5] [7]) 8 = Inr v
    \<and> latest_version (map_of [(newLookupKey 3 [7], [1]), (newLookupKey 9 [7], [2])]) [7] 8 v"
  using register_reads_latest [OF mem_pebble_ok, of demo_regs "demo_registerID [5] [7]"
      "[(newLookupKey 3 [7], [1]), (newLookupKey 9 [7], [2])]" 8]
  by (simp add: demo_regs_def demo_registerID_def)

lemma register_commit_witness:
  "\<exists>d'. WithBatch mem_pebble (RegisterStorage_Store mem_pebble demo_regs
      (GetUpdates (write_all demo_registerID [([5], [7], [4])] (NewRegisterDelta
         (\<lambda>own key. fst (Snapshot_GetValue demo_registerID own key
            (GetSnapshotAt mem_pebble demo_regs [(newLookupKey 3 [7], [1])] 9)))))) 9) [(newLookupKey 3 [7], [1])] = (None, d')
    \<and> RegisterStorage_Get mem_pebble demo_regs d' (demo_registerID [5] [7]) 9 = Inr (Some [4])"
proof -
  let ?d = "[(newLookupKey 3 [7], [1])]"
  let ?dl = "write_all demo_registerID [([5], [7], [4])] (NewRegisterDelta
         (\<lambda>own key. fst (Snapshot_GetValue demo_registerID own key (GetSnapshotAt mem_pebble demo_regs ?d 9))))"
  have dl: "delta_ok demo_regs demo_registerID ?dl"
    by (rule delta_ok_write_all [OF delta_ok_New]) (simp add: demo_regs_def)
  obtain b where "RegisterStorage_Store mem_pebble demo_regs (GetUpdates ?dl) 9 [] = Inr b"
    using Register_Store_ops [OF mem_pebble_ok delta_updates_owner [OF dl demo_registerID_ok], of _ 9 "[]"] by blast
  then have d': "WithBatch mem_pebble (RegisterStorage_Store mem_pebble demo_regs (GetUpdates ?dl) 9) ?d
      = (None, fold mem_apply b ?d)" by (rule mem_WithBatch)
  have pre: "\<forall>k. map_of ?d (newLookupKey 9 k) = None" by simp
  have ws: "\<forall>(own, key, v) \<in> set [([5], [7], [4])]. toAddress demo_regs own = owner demo_regs" "toAddress demo_regs [5] = owner demo_regs"
    by (simp_all add: demo_regs_def)
  have "RegisterStorage_Get mem_pebble demo_regs (fold mem_apply b ?d) (demo_registerID [5] [7]) 9
      = Delta_GetValue demo_registerID ?dl [5] [7]"
    using register_commit [OF mem_pebble_ok demo_registerID_ok _ pre ws(1) refl d' ws(2), of "[7]"] by simp
  also have "\<dots> = Inr (Some [4])" by (simp add: Delta_GetValue_SetValue)
  finally show ?thesis using d' by blast
qed

definition demo_slabs :: "(nat, nat) slab_api" where
  "demo_slabs = \<lparr>toAddr = (\<lambda>_. 5), AccountStatusKey = (\<lambda>_. [0]),
     AccountStatusFromBytes = (\<lambda>b. Inr (unbe b)), AccountStatusToBytes = (\<lambda>n. be (Suc n) n),
     SlabIndex = (\<lambda>n. n), SlabNext = Suc, SetStorageIndex = (\<lambda>i _. i),
     SlabIndexToLedgerKey = (\<lambda>i. 1 # be i i), AccountNotFoundError = (\<lambda>_. ErrEntityNotFound)\<rparr>"

lemma demo_slabs_api:
  "AccountStatusKey demo_slabs a = [0]" "AccountStatusToBytes demo_slabs n = be (Suc n) n"
  "SlabIndex demo_slabs n = n" "SlabNext demo_slabs = Suc"
  by (simp_all add: demo_slabs_def)

lemma demo_slabs_ok: "slab_ok demo_registerID demo_slabs"
proof -
  have lt: "n < 256 ^ Suc n" for n :: nat
    by (induction n) auto
  have "unbe (be (Suc n) n) = n" for n
    by (rule unbe_be [OF lt])
  then show ?thesis
    by (auto simp: slab_ok_def demo_slabs_def demo_registerID_def simp del: unbe.simps be.simps simp flip: length_greater_0_conv)
qed

lemma slab_indexes_successive_witness:
  "fst (allocate_many demo_registerID demo_slabs 3 [5]
     (NewRegisterDelta (\<lambda>own key. Inr (Some (be 5 4))))) = map Inr [4, 5, 6]"
  using slab_indexes_successive [OF demo_slabs_ok, of "NewRegisterDelta (\<lambda>own key. Inr (Some (be 5 4)))" "[5]" 4 3]
  by (simp add: demo_slabs_api Delta_GetValue_def NewRegisterDelta_def upt_rec eval_nat_numeral del: be.simps)

end
