(* ===== verification/Events_Hash.thy ===== *)
theory Events_Hash
  imports Receipts_Index
begin

text \<open>
  The index of event hashes and of the sealed height, \<^verbatim>\<open>storage/pebble/events_hash.go\<close>, and the
  contract the sealing verifier relies on, as a locale interpreted on the index.
\<close>

section \<open>Operations\<close>

text \<open>\<open>idBytes\<close> are the bytes of a \<^verbatim>\<open>flow.Identifier\<close>.\<close>

definition idBytes :: "flow_id \<Rightarrow> bytes" where
  "idBytes h = be 32 (unat h)"

definition EventsHash_batch_Store ::
    "('db, 'batch) pebble_api \<Rightarrow> u64 \<Rightarrow> flow_id \<Rightarrow> 'batch \<Rightarrow> err + 'batch" where
  "EventsHash_batch_Store P height h batch =
     rwrap (\<lambda>e. Errorf ''failed to store events hash for block %d, with: %w'' [FNum (unat height)] [e])
       (storage_set P eventsHashKey (Some (uint64Bytes height)) (idBytes h) batch)"

definition EventsHash_Store ::
    "('db, 'batch) pebble_api \<Rightarrow> u64 \<Rightarrow> flow_id \<Rightarrow> 'db \<Rightarrow> err option \<times> 'db" where
  "EventsHash_Store P height h = WithBatch P (EventsHash_batch_Store P height h)"

definition EventsHash_GetByHeight ::
    "('db, 'batch) pebble_api \<Rightarrow> 'ev codec \<Rightarrow> 'db \<Rightarrow> u64 \<Rightarrow> err + flow_id" where
  "EventsHash_GetByHeight P c d height =
     (case storage_get P d eventsHashKey (Some (uint64Bytes height)) of
        Inl e \<Rightarrow> Inl (Errorf ''failed to get events hash for block %d, with: %w'' [FNum (unat height)] [e])
      | Inr h \<Rightarrow> Inr (BytesToID c h))"

text \<open>The comparison with the largest height guards the successor against overflow.\<close>

definition BatchRemoveAboveHeight ::
    "('db, 'batch) pebble_api \<Rightarrow> u64 \<Rightarrow> 'batch \<Rightarrow> err + 'batch" where
  "BatchRemoveAboveHeight P height batch =
     (if height = - 1 then Inr batch
      else
        let start = makePrefix eventsHashKey (Some (uint64Bytes (height + 1)));
            stop = makePrefix sealedEventsHeightKey None
        in rwrap (\<lambda>e. Errorf ''failed to remove events hashes above height %d: %w'' [FNum (unat height)] [e])
             (b_DeleteRange P start stop batch))"

definition ProcessedSealedHeight :: "('db, 'batch) pebble_api \<Rightarrow> 'db \<Rightarrow> err + u64" where
  "ProcessedSealedHeight P d = (case storage_get P d sealedEventsHeightKey None of
      Inl e \<Rightarrow> if errors_Is e ErrEntityNotFound then Inl ErrStorageNotInitialized
               else Inl (Errorf ''failed to get latest processed sealed height: %w'' [] [e])
    | Inr val \<Rightarrow> BE_Uint64 val)"

definition BatchSetProcessedSealedHeight ::
    "('db, 'batch) pebble_api \<Rightarrow> u64 \<Rightarrow> 'batch \<Rightarrow> err + 'batch" where
  "BatchSetProcessedSealedHeight P height batch =
     rwrap (\<lambda>e. Errorf ''failed to store latest processed sealed height: %d, with: %w'' [FNum (unat height)] [e])
       (storage_set P sealedEventsHeightKey None (uint64Bytes height) batch)"

definition SetProcessedSealedHeight ::
    "('db, 'batch) pebble_api \<Rightarrow> u64 \<Rightarrow> 'db \<Rightarrow> err option \<times> 'db" where
  "SetProcessedSealedHeight P height = WithBatch P (BatchSetProcessedSealedHeight P height)"

section \<open>What the index holds\<close>

definition hash_at :: "'ev codec \<Rightarrow> (bytes \<rightharpoonup> bytes) \<Rightarrow> u64 \<Rightarrow> flow_id option" where
  "hash_at c m height = map_option (BytesToID c) (m (eventsHashKey # uint64Bytes height))"

definition sealed_at :: "(bytes \<rightharpoonup> bytes) \<Rightarrow> u64 option" where
  "sealed_at m = decoded BE_Uint64 (m [sealedEventsHeightKey])"

lemma EventsHash_batch_Store_ops:
  assumes "pebble_ok P view ops"
  shows "\<exists>b'. EventsHash_batch_Store P height h b = Inr b'
    \<and> ops b' = ops b @ [OpSet (eventsHashKey # uint64Bytes height) (idBytes h)]"
  using storage_set_ops [OF assms, of eventsHashKey "Some (uint64Bytes height)" "idBytes h" b]
  by (auto simp: EventsHash_batch_Store_def)

lemma EventsHash_Store_view:
  assumes "pebble_ok P view ops" "EventsHash_Store P height h d = (None, d')"
  shows "view d' = (view d)(eventsHashKey # uint64Bytes height \<mapsto> idBytes h)"
  using WithBatch_ops [OF assms(1) assms(2) [unfolded EventsHash_Store_def] EventsHash_batch_Store_ops [OF assms(1)]]
  by simp

lemma BatchSetProcessedSealedHeight_ops:
  assumes "pebble_ok P view ops"
  shows "\<exists>b'. BatchSetProcessedSealedHeight P height b = Inr b'
    \<and> ops b' = ops b @ [OpSet [sealedEventsHeightKey] (uint64Bytes height)]"
  using storage_set_ops [OF assms, of sealedEventsHeightKey None "uint64Bytes height" b]
  by (auto simp: BatchSetProcessedSealedHeight_def)

lemma SetProcessedSealedHeight_view:
  assumes "pebble_ok P view ops" "SetProcessedSealedHeight P height d = (None, d')"
  shows "view d' = (view d)([sealedEventsHeightKey] \<mapsto> uint64Bytes height)"
  using WithBatch_ops [OF assms(1) assms(2) [unfolded SetProcessedSealedHeight_def]
      BatchSetProcessedSealedHeight_ops [OF assms(1)]]
  by simp

lemma EventsHash_GetByHeight_view:
  assumes "pebble_ok P view ops"
  shows "EventsHash_GetByHeight P c d height = (case hash_at c (view d) height of
      Some h \<Rightarrow> Inr h
    | None \<Rightarrow> Inl (Errorf ''failed to get events hash for block %d, with: %w'' [FNum (unat height)] [ErrEntityNotFound]))"
  by (auto simp: EventsHash_GetByHeight_def storage_get_view [OF assms] hash_at_def split: option.splits)

lemma ProcessedSealedHeight_view:
  assumes "pebble_ok P view ops"
  shows "ProcessedSealedHeight P d = (case view d [sealedEventsHeightKey] of
      None \<Rightarrow> Inl ErrStorageNotInitialized | Some v \<Rightarrow> BE_Uint64 v)"
  by (auto simp: ProcessedSealedHeight_def storage_get_view [OF assms] split: option.splits)

section \<open>The contract of the index\<close>

text \<open>
  A store of hashes by height with a sealed height: \<open>ok\<close> is the invariant of the database,
  \<open>hash_of\<close> and \<open>sealed_of\<close> read it.  A successful write changes only what it names, a
  failed one nothing.
\<close>

locale events_hash_index =
  fixes store :: "u64 \<Rightarrow> flow_id \<Rightarrow> 'db \<Rightarrow> err option \<times> 'db"
    and get :: "'db \<Rightarrow> u64 \<Rightarrow> err + flow_id"
    and set_sealed :: "u64 \<Rightarrow> 'db \<Rightarrow> err option \<times> 'db"
    and get_sealed :: "'db \<Rightarrow> err + u64"
    and hash_of :: "'db \<Rightarrow> u64 \<Rightarrow> flow_id option"
    and sealed_of :: "'db \<Rightarrow> u64 option"
    and ok :: bool
  assumes store_ok: "ok \<Longrightarrow> store h x d = (None, d') \<Longrightarrow> hash_of d' = (hash_of d)(h \<mapsto> x) \<and> sealed_of d' = sealed_of d"
    and store_err: "store h x d = (Some e, d') \<Longrightarrow> d' = d"
    and set_ok: "ok \<Longrightarrow> set_sealed h d = (None, d') \<Longrightarrow> hash_of d' = hash_of d \<and> sealed_of d' = Some h"
    and set_err: "set_sealed h d = (Some e, d') \<Longrightarrow> d' = d"
    and get_some: "ok \<Longrightarrow> hash_of d h = Some x \<Longrightarrow> get d h = Inr x"
    and get_none: "ok \<Longrightarrow> hash_of d h = None \<Longrightarrow> \<exists>e. get d h = Inl e \<and> errors_Is e ErrEntityNotFound"
    and get_sealed_some: "ok \<Longrightarrow> sealed_of d = Some h \<Longrightarrow> get_sealed d = Inr h"
begin

lemma store_get: "ok \<Longrightarrow> store h x d = (None, d') \<Longrightarrow> get d' h = Inr x"
  using store_ok get_some by fastforce

end

text \<open>The Pebble index has this contract, for a healthy database and a codec of identifiers.\<close>

interpretation pebble_hashes: events_hash_index
    "EventsHash_Store P" "EventsHash_GetByHeight P c" "SetProcessedSealedHeight P" "ProcessedSealedHeight P"
    "\<lambda>d. hash_at c (view d)" "\<lambda>d. sealed_at (view d)"
    "pebble_ok P view ops \<and> (\<forall>h. BytesToID c (idBytes h) = h)"
  for P :: "('db, 'batch) pebble_api" and c :: "'ev codec" and view ops
proof (unfold_locales, goal_cases)
  case (1 h x d d')
  then show ?case
    using EventsHash_Store_view [of P view ops h x d d']
    by (auto simp: hash_at_def sealed_at_def key_codes)
next
  case (2 h x d e d')
  then show ?case by (auto simp: EventsHash_Store_def dest: WithBatch_error)
next
  case (3 h d d')
  then show ?case
    using SetProcessedSealedHeight_view [of P view ops h d d']
    by (auto simp: hash_at_def sealed_at_def key_codes decoded_def)
next
  case (4 h d e d')
  then show ?case by (auto simp: SetProcessedSealedHeight_def dest: WithBatch_error)
next
  case (5 d h x)
  then show ?case using EventsHash_GetByHeight_view [of P view ops c d h] by simp
next
  case (6 d h)
  then show ?case using EventsHash_GetByHeight_view [of P view ops c d h] by simp
next
  case (7 d h)
  then show ?case
    using ProcessedSealedHeight_view [of P view ops d]
    by (auto simp: sealed_at_def decoded_def split: option.splits sum.splits)
qed

section \<open>Removing hashes\<close>

lemma remove_range_iff:
  assumes "height \<noteq> - 1"
  shows "eventsHashKey # uint64Bytes (height + 1) \<le> eventsHashKey # uint64Bytes h
      \<and> eventsHashKey # uint64Bytes h < [sealedEventsHeightKey] \<longleftrightarrow> height < h"
proof -
  have "height + 1 \<le> h \<longleftrightarrow> height < h" by (rule u64_succ_le [OF assms])
  then show ?thesis by (simp add: key_codes)
qed

text \<open>Removing the event hashes above a height and setting the sealed height in one batch:
afterwards exactly the hashes at or below the height are left, unchanged, the sealed height is
the one set, and no other key of the database has changed; at the largest height nothing is
removed.\<close>

theorem BatchRemoveAboveHeight_exact:
  assumes "pebble_ok P view ops"
    and "WithBatch P (\<lambda>b. rbind (BatchRemoveAboveHeight P height b) (BatchSetProcessedSealedHeight P sealed)) d = (None, d')"
  shows "hash_at c (view d') h = (if h \<le> height then hash_at c (view d) h else None)
    \<and> sealed_at (view d') = Some sealed
    \<and> (hd k \<noteq> eventsHashKey \<and> k \<noteq> [sealedEventsHeightKey] \<and> k \<noteq> [] \<longrightarrow> view d' k = view d k)"
proof -
  let ?rm = "if height = - 1 then [] else [OpDeleteRange (eventsHashKey # uint64Bytes (height + 1)) [sealedEventsHeightKey]]"
  have "\<exists>b'. rbind (BatchRemoveAboveHeight P height b) (BatchSetProcessedSealedHeight P sealed) = Inr b'
      \<and> ops b' = ops b @ (?rm @ [OpSet [sealedEventsHeightKey] (uint64Bytes sealed)])" for b
  proof -
    obtain b1 where "BatchRemoveAboveHeight P height b = Inr b1" "ops b1 = ops b @ ?rm"
      using pebble_delete_range [OF assms(1), of "eventsHashKey # uint64Bytes (height + 1)" "[sealedEventsHeightKey]" b]
      by (cases "height = - 1") (auto simp: BatchRemoveAboveHeight_def Let_def)
    with BatchSetProcessedSealedHeight_ops [OF assms(1), of sealed b1] show ?thesis by auto
  qed
  from WithBatch_ops [OF assms this] have view':
    "view d' = apply_ops (?rm @ [OpSet [sealedEventsHeightKey] (uint64Bytes sealed)]) (view d)" .
  have range: "eventsHashKey # uint64Bytes (height + 1) \<le> k \<and> k < [sealedEventsHeightKey] \<longrightarrow> hd k = eventsHashKey \<and> k \<noteq> []"
    by (cases k) (auto simp: key_codes word_less_nat_alt word_le_nat_alt word_unat_eq_iff)
  have "hash_at c (view d') h = (if h \<le> height then hash_at c (view d) h else None)"
    using remove_range_iff [of height h] word_order.extremum [of h]
    by (auto simp: hash_at_def view' key_codes not_less)
  moreover have "sealed_at (view d') = Some sealed"
    by (simp add: sealed_at_def decoded_def view')
  ultimately show ?thesis using range by (auto simp: view')
qed

text \<open>Round trip of the index: a stored hash is read back, a height that was never stored
answers not found, and storing a hash keeps the sealed height.\<close>

theorem events_hash_roundtrip:
  assumes "pebble_ok P view ops" "\<forall>h. BytesToID c (idBytes h) = h"
    and "EventsHash_Store P height x d = (None, d')"
  shows "EventsHash_GetByHeight P c d' height = Inr x
    \<and> (h \<noteq> height \<longrightarrow> EventsHash_GetByHeight P c d' h = EventsHash_GetByHeight P c d h)
    \<and> ProcessedSealedHeight P d' = ProcessedSealedHeight P d"
proof -
  note ok = conjI [OF assms(1,2)]
  have "EventsHash_GetByHeight P c d' height = Inr x"
    by (rule pebble_hashes.store_get [OF ok assms(3)])
  moreover have "hash_at c (view d') = (hash_at c (view d))(height \<mapsto> x)"
    using pebble_hashes.store_ok [OF ok assms(3)] by blast
  then have "h \<noteq> height \<longrightarrow> EventsHash_GetByHeight P c d' h = EventsHash_GetByHeight P c d h"
    by (simp add: EventsHash_GetByHeight_view [OF assms(1)])
  moreover have "ProcessedSealedHeight P d' = ProcessedSealedHeight P d"
    by (simp add: ProcessedSealedHeight_view [OF assms(1)] EventsHash_Store_view [OF assms(1,3)] key_codes)
  ultimately show ?thesis by blast
qed

section \<open>Witnesses\<close>

definition hash_codec :: "unit codec" where
  "hash_codec = demo_codec\<lparr>BytesToID := (\<lambda>b. of_nat (unbe b))\<rparr>"

lemma hash_codec_ok: "\<forall>h. BytesToID hash_codec (idBytes h) = h"
  using unbe_be [OF unat_hash_lt] by (simp add: hash_codec_def idBytes_def)

lemma mem_EventsHash_Store:
  "EventsHash_Store mem_pebble h x d = (None, AList.update (eventsHashKey # uint64Bytes h) (idBytes x) d)"
proof -
  have "EventsHash_batch_Store mem_pebble h x [] = Inr [OpSet (eventsHashKey # uint64Bytes h) (idBytes x)]"
    by (simp add: EventsHash_batch_Store_def mem_storage_set)
  from mem_WithBatch [where f = "EventsHash_batch_Store mem_pebble h x", OF this] show ?thesis by (simp add: EventsHash_Store_def)
qed

lemma events_hash_roundtrip_witness:
  "EventsHash_GetByHeight mem_pebble hash_codec (AList.update (eventsHashKey # uint64Bytes 4) (idBytes 77) []) 4 = Inr 77"
  using events_hash_roundtrip [OF mem_pebble_ok hash_codec_ok mem_EventsHash_Store, of 4 77 "[]"] by blast

lemma BatchRemoveAboveHeight_exact_witness:
  "\<exists>d'. WithBatch mem_pebble (\<lambda>b. rbind (BatchRemoveAboveHeight mem_pebble 3 b) (BatchSetProcessedSealedHeight mem_pebble 3))
       [(eventsHashKey # uint64Bytes 3, idBytes 1), (eventsHashKey # uint64Bytes 4, idBytes 2)] = (None, d')
     \<and> hash_at hash_codec (map_of d') 3 = Some 1 \<and> hash_at hash_codec (map_of d') 4 = None"
proof -
  let ?f = "\<lambda>b. rbind (BatchRemoveAboveHeight mem_pebble 3 b) (BatchSetProcessedSealedHeight mem_pebble 3)"
  let ?d = "[(eventsHashKey # uint64Bytes 3, idBytes 1), (eventsHashKey # uint64Bytes 4, idBytes 2)]"
  have "\<exists>b. ?f [] = Inr b"
    using pebble_delete_range [OF mem_pebble_ok] BatchSetProcessedSealedHeight_ops [OF mem_pebble_ok, of 3]
    by (fastforce simp: BatchRemoveAboveHeight_def Let_def)
  then obtain b where "?f [] = Inr b" by blast
  then have d': "WithBatch mem_pebble ?f ?d = (None, fold mem_apply b ?d)" by (rule mem_WithBatch)
  have "hash_at hash_codec (map_of ?d) 3 = Some 1" using hash_codec_ok by (simp add: hash_at_def)
  with d' BatchRemoveAboveHeight_exact [OF mem_pebble_ok d', of hash_codec 3]
    BatchRemoveAboveHeight_exact [OF mem_pebble_ok d', of hash_codec 4]
  show ?thesis by simp
qed

end
