(* ===== verification/Cadence_Events.thy ===== *)
theory Cadence_Events
  imports Receipts_Index "HOL-Library.Product_Lexorder" "HOL-Library.Multiset"
begin

text \<open>
  Decoding the events of a Flow block, \<^verbatim>\<open>models/events.go\<close>: at most one EVM block and its
  transactions, the consistency checks between them, and the values computed over the whole
  block (cumulative gas, transaction and log indexes).
\<close>

section \<open>Flow events\<close>

text \<open>
  \<^verbatim>\<open>flow.Event\<close> and \<^verbatim>\<open>flow.BlockEvents\<close> of the SDK.  \<open>evQualifiedIdentifier\<close> is the qualified
  identifier of the type of the Cadence value, \<open>None\<close> for a nil type.
\<close>

record 'ev FlowEvent =
  evType :: string
  evTransactionID :: flow_id
  evTransactionIndex :: int
  evEventIndex :: int
  evValue :: 'ev
  evQualifiedIdentifier :: "string option"
  evPayload :: bytes

record 'ev FlowBlockEvents =
  beBlockID :: flow_id
  beHeight :: u64
  beBlockTimestamp :: int
  beEvents :: "'ev FlowEvent list"

definition BlockExecutedQualifiedIdentifier :: string where
  "BlockExecutedQualifiedIdentifier = ''EVM.BlockExecuted''"

definition TransactionExecutedQualifiedIdentifier :: string where
  "TransactionExecutedQualifiedIdentifier = ''EVM.TransactionExecuted''"

definition isBlockExecutedEvent :: "'ev FlowEvent \<Rightarrow> bool" where
  "isBlockExecutedEvent event = (case evQualifiedIdentifier event of
      None \<Rightarrow> False | Some q \<Rightarrow> q = BlockExecutedQualifiedIdentifier)"

definition isTransactionExecutedEvent :: "'ev FlowEvent \<Rightarrow> bool" where
  "isTransactionExecutedEvent event = (case evQualifiedIdentifier event of
      None \<Rightarrow> False | Some q \<Rightarrow> q = TransactionExecutedQualifiedIdentifier)"

section \<open>Decoding\<close>

record 'ev CadenceEvents =
  ceEvents :: "'ev FlowBlockEvents"
  ceBlock :: "Block option"
  ceBlockEventPayload :: "BlockEventPayload option"
  ceTransactions :: "Transaction list"
  ceTxEventPayloads :: "TransactionEventPayload list"
  ceReceipts :: "Receipt list"

definition Empty :: "'ev CadenceEvents \<Rightarrow> bool" where
  "Empty c \<longleftrightarrow> ceBlock c = None"

definition CadenceHeight :: "'ev CadenceEvents \<Rightarrow> u64" where
  "CadenceHeight c = beHeight (ceEvents c)"

definition CadenceBlockID :: "'ev CadenceEvents \<Rightarrow> flow_id" where
  "CadenceBlockID c = beBlockID (ceEvents c)"

definition Length :: "'ev CadenceEvents \<Rightarrow> nat" where
  "Length c = length (beEvents (ceEvents c))"

text \<open>One iteration of the decoding loop.\<close>

definition decode_event :: "'ev codec \<Rightarrow> u64 \<Rightarrow> 'ev FlowEvent \<Rightarrow> 'ev CadenceEvents \<Rightarrow> err + 'ev CadenceEvents" where
  "decode_event c height event e =
     (if isBlockExecutedEvent event then
        (if ceBlock e \<noteq> None
         then Inl (Errorf ''EVM block was already set for Flow block: %d'' [FNum (unat height)] [])
         else rbind (DecodeBlockEvent c (evValue event)) (\<lambda>(block, blockEventPayload).
           Inr (e\<lparr>ceBlock := Some (block\<lparr>AccessListHash := Some (EmptyBlockAccessListHash c)\<rparr>),
                  ceBlockEventPayload := Some blockEventPayload\<rparr>)))
      else if isTransactionExecutedEvent event then
        rbind (DecodeTransactionEvent c (evValue event)) (\<lambda>(tx, receipt, txEventPayload).
          Inr (e\<lparr>ceTransactions := ceTransactions e @ [tx],
                 ceTxEventPayloads := ceTxEventPayloads e @ [txEventPayload],
                 ceReceipts := ceReceipts e @ [receipt]\<rparr>))
      else Inr e)"

definition decodeCadenceEvents :: "'ev codec \<Rightarrow> 'ev FlowBlockEvents \<Rightarrow> err + 'ev CadenceEvents" where
  "decodeCadenceEvents c events =
     rbind (rfold (decode_event c (beHeight events)) (beEvents events)
       \<lparr>ceEvents = events, ceBlock = None, ceBlockEventPayload = None, ceTransactions = [],
        ceTxEventPayloads = [], ceReceipts = []\<rparr>) (\<lambda>e.
     case ceBlock e of
       None \<Rightarrow>
         if length (ceTransactions e) > 0
         then Inl (Errorf ''%w EVM block nil at flow block: %d'' [FNum (unat (beHeight events))] [ErrMissingBlock])
         else Inr e
     | Some block \<Rightarrow>
         if TransactionHashRoot (evmBlock block) \<noteq> tx_RootHash c (map tx_Hash (ceTransactions e))
         then Inl (Errorf ''%w EVM block %d references missing transaction/s''
                [FNum (unat (Height (evmBlock block)))] [ErrMissingTransactions])
         else Inr e)"

text \<open>The values computed over the receipts of a block, in the order of the loop.\<close>

fun dynamic_values :: "u64 \<Rightarrow> hash \<Rightarrow> u64 \<Rightarrow> nat \<Rightarrow> u64 \<Rightarrow> Receipt list \<Rightarrow> Receipt list" where
  "dynamic_values timestamp blockHash cumulativeGasUsed i logIndex [] = []"
| "dynamic_values timestamp blockHash cumulativeGasUsed i logIndex (rcp # rcps) =
     (let gas = cumulativeGasUsed + rGasUsed rcp;
          rcp1 = rcp\<lparr>rCumulativeGasUsed := gas, rTransactionIndex := of_nat i, rBlockHash := blockHash\<rparr>;
          rcp2 = rcp1\<lparr>rLogs := fill_logs timestamp (ToGethReceipt rcp1) logIndex (rLogs rcp1)\<rparr>
      in rcp2 # dynamic_values timestamp blockHash gas (Suc i) (logIndex + of_nat (length (rLogs rcp))) rcps)"

definition NewCadenceEvents :: "'ev codec \<Rightarrow> 'ev FlowBlockEvents \<Rightarrow> err + 'ev CadenceEvents" where
  "NewCadenceEvents c events =
     rbind (decodeCadenceEvents c events) (\<lambda>e.
     case ceBlock e of
       None \<Rightarrow> Inr e
     | Some block \<Rightarrow>
         rbind (Hash c block) (\<lambda>blockHash.
         Inr (e\<lparr>ceBlock := Some (block\<lparr>TransactionHashes := TransactionHashes block @ map rTxHash (ceReceipts e)\<rparr>),
                ceReceipts := dynamic_values (Timestamp (evmBlock block)) blockHash 0 0 0 (ceReceipts e)\<rparr>)))"

text \<open>
  \<^verbatim>\<open>models.BlockEvents\<close> is a result with its error; the model is the sum.  \<^verbatim>\<open>sort.Slice\<close>
  is not stable: the model's sort is one of the orders it may produce, the only one where no
  two events agree in both indexes.
\<close>

definition sort_events :: "'ev FlowEvent list \<Rightarrow> 'ev FlowEvent list" where
  "sort_events = sort_key (\<lambda>e. (evTransactionIndex e, evEventIndex e))"

definition NewMultiBlockEvents :: "'ev codec \<Rightarrow> 'ev FlowBlockEvents \<Rightarrow> err + 'ev CadenceEvents" where
  "NewMultiBlockEvents c events = NewCadenceEvents c events"

definition NewSingleBlockEvents :: "'ev codec \<Rightarrow> 'ev FlowBlockEvents \<Rightarrow> err + 'ev CadenceEvents" where
  "NewSingleBlockEvents c events =
     NewCadenceEvents c (events\<lparr>beEvents := sort_events (beEvents events)\<rparr>)"

definition NewBlockEventsError :: "err \<Rightarrow> err + 'ev CadenceEvents" where
  "NewBlockEventsError e = Inl e"

section \<open>Invariants of decoded events\<close>

text \<open>What one block's events always satisfy while they are decoded.\<close>

definition decoding_ok :: "'ev codec \<Rightarrow> 'ev FlowBlockEvents \<Rightarrow> 'ev CadenceEvents \<Rightarrow> bool" where
  "decoding_ok c events e \<longleftrightarrow>
     ceEvents e = events
   \<and> length (ceReceipts e) = length (ceTransactions e)
   \<and> length (ceTxEventPayloads e) = length (ceTransactions e)
   \<and> (ceBlock e = None \<longleftrightarrow> ceBlockEventPayload e = None)
   \<and> (\<forall>b. ceBlock e = Some b \<longrightarrow> TransactionHashes b = [])
   \<and> map rTxHash (ceReceipts e) = map tpHash (ceTxEventPayloads e)
   \<and> map rGasUsed (ceReceipts e) = map tpGasConsumed (ceTxEventPayloads e)"

lemma DecodeTransactionEvent_receipt:
  "DecodeTransactionEvent c v = Inr (tx, receipt, p) \<Longrightarrow>
     rTxHash receipt = tpHash p \<and> rGasUsed receipt = tpGasConsumed p"
  by (auto simp: DecodeTransactionEvent_def gw_result NewReceipt_def GethReceipt.defs Receipt.defs Let_def split: if_splits)

lemma DecodeBlockEvent_hashes: "DecodeBlockEvent c v = Inr (b, p) \<Longrightarrow> TransactionHashes b = []"
  by (auto simp: DecodeBlockEvent_def gw_result)

lemma decode_event_ok:
  "decoding_ok c events e \<Longrightarrow> decode_event c h x e = Inr e' \<Longrightarrow> decoding_ok c events e'"
  by (auto simp: decoding_ok_def decode_event_def gw_result DecodeBlockEvent_hashes
      dest: DecodeTransactionEvent_receipt split: if_splits)

lemma decodeCadenceEvents_ok:
  assumes "decodeCadenceEvents c events = Inr e"
  shows "decoding_ok c events e
    \<and> (case ceBlock e of None \<Rightarrow> ceTransactions e = []
        | Some b \<Rightarrow> TransactionHashRoot (evmBlock b) = tx_RootHash c (map tx_Hash (ceTransactions e)))"
proof -
  let ?e0 = "\<lparr>ceEvents = events, ceBlock = None, ceBlockEventPayload = None, ceTransactions = [],
        ceTxEventPayloads = [], ceReceipts = []\<rparr>"
  have e: "rfold (decode_event c (beHeight events)) (beEvents events) ?e0 = Inr e"
    using assms by (auto simp: decodeCadenceEvents_def gw_result split: option.splits if_splits)
  have "decoding_ok c events e"
    by (rule rfold_invariant [OF e]) (auto simp: decoding_ok_def [of c events ?e0] intro: decode_event_ok)
  with assms e show ?thesis
    by (auto simp: decodeCadenceEvents_def gw_result split: option.splits if_splits)
qed

lemma dynamic_values_length [simp]: "length (dynamic_values ts h g i l rs) = length rs"
  by (induction rs arbitrary: g i l) (auto simp: Let_def)

text \<open>
  The receipts without the log fields, as functions of the position; filling the logs is what
  the receipt index does again when it reads them.
\<close>

definition base_receipt :: "hash \<Rightarrow> Receipt list \<Rightarrow> nat \<Rightarrow> Receipt" where
  "base_receipt h rs k = (rs ! k)\<lparr>rCumulativeGasUsed := sum_list (map rGasUsed (take (Suc k) rs)),
     rTransactionIndex := of_nat k, rBlockHash := h\<rparr>"

fun base_values :: "hash \<Rightarrow> u64 \<Rightarrow> nat \<Rightarrow> Receipt list \<Rightarrow> Receipt list" where
  "base_values h g i [] = []"
| "base_values h g i (r # rs) =
     r\<lparr>rCumulativeGasUsed := g + rGasUsed r, rTransactionIndex := of_nat i, rBlockHash := h\<rparr>
     # base_values h (g + rGasUsed r) (Suc i) rs"

lemma dynamic_values_populate: "dynamic_values ts h g i l rs = populate ts l (base_values h g i rs)"
  by (induction rs arbitrary: g i l) (auto simp: Let_def)

lemma length_base_values [simp]: "length (base_values h g i rs) = length rs"
  by (induction rs arbitrary: g i) auto

lemma base_values_nth:
  "k < length rs \<Longrightarrow> base_values h g i rs ! k =
     (rs ! k)\<lparr>rCumulativeGasUsed := g + sum_list (map rGasUsed (take (Suc k) rs)),
        rTransactionIndex := of_nat (i + k), rBlockHash := h\<rparr>"
proof (induction rs arbitrary: g i k)
  case Nil
  then show ?case by simp
next
  case (Cons r rs)
  then show ?case by (cases k) (auto simp: algebra_simps)
qed

lemma base_values_receipts: "base_values h 0 0 rs = map (base_receipt h rs) [0..<length rs]"
  by (intro nth_equalityI) (auto simp: base_values_nth base_receipt_def)

lemma base_values_logs [simp]: "map rLogs (base_values h g i rs) = map rLogs rs"
  by (induction rs arbitrary: g i) auto

text \<open>Filling the logs again changes nothing: what the index reads is what was published.\<close>

lemma fill_logs_again: "fill_logs ts r i (fill_logs ts r i ls) = fill_logs ts r i ls"
  by (induction ls arbitrary: i) (auto simp: fill_log_def)

lemma fill_logs_cong:
  "rBlockNumber r = rBlockNumber r' \<Longrightarrow> rBlockHash r = rBlockHash r' \<Longrightarrow> rTxHash r = rTxHash r' \<Longrightarrow>
   rTransactionIndex r = rTransactionIndex r' \<Longrightarrow> fill_logs ts r i ls = fill_logs ts r' i ls"
  by (induction ls arbitrary: i) (auto simp: fill_log_def)

lemma populate_again: "populate ts i (populate ts i rs) = populate ts i rs"
proof (induction rs arbitrary: i)
  case Nil
  then show ?case by simp
next
  case (Cons r rs)
  let ?r = "r\<lparr>rLogs := fill_logs ts (ToGethReceipt r) i (rLogs r)\<rparr>"
  have "fill_logs ts (ToGethReceipt ?r) i ls = fill_logs ts (ToGethReceipt r) i ls" for ls
    by (rule fill_logs_cong) (simp_all add: ToGethReceipt_def GethReceipt.defs)
  with Cons show ?case by (simp add: fill_logs_again)
qed

section \<open>Properties\<close>

text \<open>C24: Decoded events of a Flow block with an EVM block: the transactions match the root
hash of the block, the block lists the hashes of the receipts in order, the receipt at each
position has the gas of all receipts up to it as its cumulative gas, its position as its index
and the hash of the block, and the logs are numbered over the whole block without a gap.\<close>

theorem NewCadenceEvents_block:
  assumes "NewCadenceEvents c events = Inr e" "ceBlock e = Some block"
  shows "\<exists>rs. TransactionHashRoot (evmBlock block) = tx_RootHash c (map tx_Hash (ceTransactions e))
    \<and> length (ceReceipts e) = length (ceTransactions e)
    \<and> map rTxHash (ceReceipts e) = map tpHash (ceTxEventPayloads e)
    \<and> TransactionHashes block = map rTxHash (ceReceipts e)
    \<and> (\<exists>h. Hash c block = Inr h \<and> ceReceipts e = populate (Timestamp (evmBlock block)) 0 (map (base_receipt h rs) [0..<length rs]))
    \<and> map rGasUsed rs = map tpGasConsumed (ceTxEventPayloads e)
    \<and> map lIndex (concat (map rLogs (ceReceipts e))) = map of_nat [0..<length (concat (map rLogs rs))]"
proof -
  obtain e0 b0 h where e0: "decodeCadenceEvents c events = Inr e0" "ceBlock e0 = Some b0" "Hash c b0 = Inr h"
    "e = e0\<lparr>ceBlock := Some (b0\<lparr>TransactionHashes := TransactionHashes b0 @ map rTxHash (ceReceipts e0)\<rparr>),
            ceReceipts := dynamic_values (Timestamp (evmBlock b0)) h 0 0 0 (ceReceipts e0)\<rparr>"
    using assms by (auto simp: NewCadenceEvents_def gw_result split: option.splits)
  have ok: "decoding_ok c events e0" "TransactionHashRoot (evmBlock b0) = tx_RootHash c (map tx_Hash (ceTransactions e0))"
    using decodeCadenceEvents_ok [OF e0(1)] e0(2) by auto
  have block: "block = b0\<lparr>TransactionHashes := map rTxHash (ceReceipts e0)\<rparr>"
    using assms(2) e0(2,4) ok(1) by (auto simp: decoding_ok_def)
  have rs: "ceReceipts e = populate (Timestamp (evmBlock block)) 0 (base_values h 0 0 (ceReceipts e0))"
    by (simp add: e0(4) block dynamic_values_populate)
  have hashes: "map rTxHash (base_values h g i xs) = map rTxHash xs" for g i xs
    by (induction xs arbitrary: g i) auto
  have "map lIndex (concat (map rLogs (ceReceipts e))) = map of_nat [0..<length (concat (map rLogs (ceReceipts e0)))]"
    using populate_lIndex [of "Timestamp (evmBlock block)" 0 "base_values h 0 0 (ceReceipts e0)"] by (simp add: rs)
  moreover have "Hash c block = Inr h" using e0(3) by (simp add: block Hash_def split: if_splits)
  moreover have "map rTxHash (ceReceipts e) = map rTxHash (ceReceipts e0)" by (simp add: rs hashes)
  ultimately show ?thesis
    using ok by (intro exI [of _ "ceReceipts e0"])
      (simp add: decoding_ok_def e0(4) block dynamic_values_populate base_values_receipts)
qed

lemma decode_without_block:
  assumes "\<forall>x \<in> set xs. \<not> isBlockExecutedEvent x"
    and "rmap (DecodeTransactionEvent c) (map evValue (filter isTransactionExecutedEvent xs)) = Inr ts"
  shows "\<exists>e'. rfold (decode_event c h) xs e = Inr e' \<and> ceBlock e' = ceBlock e \<and> ceTransactions e' = ceTransactions e @ map fst ts"
  using assms
proof (induction xs arbitrary: ts e)
  case Nil
  then show ?case by simp
next
  case (Cons x xs)
  show ?case
  proof (cases "isTransactionExecutedEvent x")
    case True
    with Cons.prems obtain t ts' where t: "DecodeTransactionEvent c (evValue x) = Inr t" "ts = t # ts'"
      "rmap (DecodeTransactionEvent c) (map evValue (filter isTransactionExecutedEvent xs)) = Inr ts'"
      by (auto simp: gw_result)
    moreover obtain a b d where "t = (a, b, d)" by (cases t)
    ultimately show ?thesis
      using True Cons.prems(1) Cons.IH [of ts' "e\<lparr>ceTransactions := ceTransactions e @ [a],
          ceTxEventPayloads := ceTxEventPayloads e @ [d], ceReceipts := ceReceipts e @ [b]\<rparr>"]
      by (auto simp: decode_event_def)
  next
    case False
    with Cons show ?thesis by (auto simp: decode_event_def)
  qed
qed

text \<open>Transactions without an EVM block are refused with \<^verbatim>\<open>ErrMissingBlock\<close>, the error that
starts the accumulation of the following blocks; a Flow block without any EVM event is an empty
heartbeat.\<close>

theorem transactions_without_block:
  assumes "\<forall>x \<in> set (beEvents events). \<not> isBlockExecutedEvent x"
    and "rmap (DecodeTransactionEvent c) (map evValue (filter isTransactionExecutedEvent (beEvents events))) = Inr txs"
  shows "if txs = [] then \<exists>e. NewCadenceEvents c events = Inr e \<and> Empty e
    else \<exists>err. NewCadenceEvents c events = Inl err \<and> errors_Is err ErrMissingBlock"
proof -
  let ?e0 = "\<lparr>ceEvents = events, ceBlock = None, ceBlockEventPayload = None, ceTransactions = [],
        ceTxEventPayloads = [], ceReceipts = []\<rparr>"
  obtain e where "rfold (decode_event c (beHeight events)) (beEvents events) ?e0 = Inr e"
    "ceBlock e = None" "ceTransactions e = map fst txs"
    using decode_without_block [OF assms, of "beHeight events" ?e0] by auto
  then show ?thesis by (auto simp: NewCadenceEvents_def decodeCadenceEvents_def Empty_def)
qed

section \<open>Order of events\<close>

text \<open>Where no two events agree in both indexes, every sort by them gives the same list.\<close>

definition distinct_positions :: "'ev FlowEvent list \<Rightarrow> bool" where
  "distinct_positions es \<longleftrightarrow> distinct (map (\<lambda>e. (evTransactionIndex e, evEventIndex e)) es)"

lemma sort_events_unique:
  assumes "distinct_positions es" "mset ys = mset es"
    and "sorted (map (\<lambda>e. (evTransactionIndex e, evEventIndex e)) ys)"
  shows "sort_events es = ys"
proof -
  let ?k = "\<lambda>e. (evTransactionIndex e, evEventIndex e)"
  have set: "set (sort_events es) = set ys" "set ys = set es"
    using assms(2) by (auto simp: sort_events_def dest: mset_eq_setD)
  have "mset (map ?k ys) = mset (map ?k es)" "mset (map ?k (sort_events es)) = mset (map ?k es)"
    using assms(2) by (simp_all add: sort_events_def)
  then have dist: "distinct (map ?k ys)" "distinct (map ?k (sort_events es))"
    using assms(1) by (metis distinct_positions_def mset_eq_imp_distinct_iff)+
  have "inj_on ?k (set (sort_events es) \<union> set ys)"
    using dist(1) by (simp add: set distinct_map)
  from map_sorted_distinct_set_unique [OF this _ dist(2) assms(3) dist(1) set(1)] show ?thesis
    by (simp add: sort_events_def)
qed

lemma sort_events_perm:
  "distinct_positions es \<Longrightarrow> mset es' = mset es \<Longrightarrow> sort_events es' = sort_events es"
  by (rule sort_events_unique [symmetric]) (simp_all add: sort_events_def)

text \<open>The order in which an access node delivers the events of a Flow block does not matter:
for the same events, with distinct positions, decoding gives the same result.\<close>

theorem single_block_order_independent:
  assumes "distinct_positions (beEvents events)" "mset es = mset (beEvents events)"
  shows "NewSingleBlockEvents c (events\<lparr>beEvents := es\<rparr>) = NewSingleBlockEvents c events"
  using sort_events_perm [OF assms] by (simp add: NewSingleBlockEvents_def)

section \<open>Witnesses\<close>

text \<open>
  A codec for the events of two kinds, over numbers: even values are transactions with that
  hash, odd ones blocks of that height with two transactions.
\<close>

definition ev_codec :: "nat codec" where
  "ev_codec = (ref_codec [] [] [] [])
     \<lparr>DecodeBlockEventPayload := (\<lambda>n. Inr \<lparr>bpHeight = of_nat n, bpHash = 0, bpTimestamp = 100, bpTotalSupply = 0,
         bpTotalGasUsed = 0, bpParentBlockHash = 0, bpReceiptRoot = 0, bpTransactionHashRoot = 2, bpPrevRandao = 1\<rparr>),
      DecodeTransactionEventPayload := (\<lambda>n. Inr \<lparr>tpHash = of_nat n, tpIndex = 0, tpTransactionType = 255, tpPayload = [],
         tpErrorCode = 0, tpGasConsumed = 21000, tpContractAddress = [], tpLogs = [], tpBlockHeight = 7,
         tpReturnedData = [], tpPrecompiledCalls = []\<rparr>),
      DirectCallFromEncoded := (\<lambda>_. Inr \<lparr>dcHash = 5, dcSubType = 0, dcFrom = 1, dcTo = 2, dcData = [], dcNonce = 0,
         dcValue = 0, dcGasLimit = 0, dcTxType = 255, dcEmptyToField = False, dcSignature = (0, 0, 0)\<rparr>)\<rparr>"

definition demo_event :: "string \<Rightarrow> int \<Rightarrow> nat \<Rightarrow> nat FlowEvent" where
  "demo_event q i n = \<lparr>evType = q, evTransactionID = of_nat n, evTransactionIndex = i, evEventIndex = 0, evValue = n,
     evQualifiedIdentifier = Some q, evPayload = []\<rparr>"

definition demo_txs :: "nat FlowEvent list" where
  "demo_txs = [demo_event ''EVM.TransactionExecuted'' 0 2, demo_event ''EVM.TransactionExecuted'' 1 4]"

definition demo_events :: "nat FlowEvent list \<Rightarrow> nat FlowBlockEvents" where
  "demo_events es = \<lparr>beBlockID = 1, beHeight = 10, beBlockTimestamp = 100, beEvents = es\<rparr>"

lemmas demo_event_simps = demo_event_def demo_txs_def demo_events_def isBlockExecutedEvent_def
  isTransactionExecutedEvent_def BlockExecutedQualifiedIdentifier_def TransactionExecutedQualifiedIdentifier_def

lemma ev_codec_tx: "\<exists>t. DecodeTransactionEvent ev_codec n = Inr t"
  by (simp add: DecodeTransactionEvent_def ev_codec_def ref_codec_def Let_def)

lemma ev_codec_api:
  "DecodeBlockEventPayload ev_codec n = Inr \<lparr>bpHeight = of_nat n, bpHash = 0, bpTimestamp = 100, bpTotalSupply = 0,
     bpTotalGasUsed = 0, bpParentBlockHash = 0, bpReceiptRoot = 0, bpTransactionHashRoot = 2, bpPrevRandao = 1\<rparr>"
  "tx_RootHash ev_codec hs = of_nat (length hs)" "evmBlock_Hash ev_codec b = Inr (of_nat (unat (Height b) + 1))"
  by (simp_all add: ev_codec_def ref_codec_def)

lemma demo_block_decodes:
  "\<exists>e block. NewCadenceEvents ev_codec (demo_events (demo_txs @ [demo_event ''EVM.BlockExecuted'' 2 7])) = Inr e
     \<and> ceBlock e = Some block \<and> length (ceTransactions e) = 2"
proof -
  obtain t1 t2 where t: "DecodeTransactionEvent ev_codec 2 = Inr t1" "DecodeTransactionEvent ev_codec 4 = Inr t2"
    using ev_codec_tx by blast
  show ?thesis
    using t by (cases t1; cases t2)
      (auto simp: NewCadenceEvents_def decodeCadenceEvents_def decode_event_def demo_event_simps
        DecodeBlockEvent_def ev_codec_api Hash_def)
qed

lemma NewCadenceEvents_block_witness:
  "\<exists>e block. NewCadenceEvents ev_codec (demo_events (demo_txs @ [demo_event ''EVM.BlockExecuted'' 2 7])) = Inr e
     \<and> ceBlock e = Some block \<and> length (ceReceipts e) = 2 \<and> TransactionHashes block = map rTxHash (ceReceipts e)"
proof -
  obtain e block where e: "NewCadenceEvents ev_codec (demo_events (demo_txs @ [demo_event ''EVM.BlockExecuted'' 2 7])) = Inr e"
    "ceBlock e = Some block" "length (ceTransactions e) = 2" using demo_block_decodes by blast
  with NewCadenceEvents_block [OF e(1,2)] show ?thesis by auto
qed

lemma transactions_without_block_witness:
  "\<exists>err. NewCadenceEvents ev_codec (demo_events demo_txs) = Inl err \<and> errors_Is err ErrMissingBlock"
proof -
  obtain t1 t2 where "DecodeTransactionEvent ev_codec 2 = Inr t1" "DecodeTransactionEvent ev_codec 4 = Inr t2"
    using ev_codec_tx by blast
  then show ?thesis
    using transactions_without_block [of "demo_events demo_txs" ev_codec "[t1, t2]"] by (simp add: demo_event_simps)
qed

lemma single_block_order_independent_witness:
  "NewSingleBlockEvents ev_codec (demo_events (rev demo_txs)) = NewSingleBlockEvents ev_codec (demo_events demo_txs)"
  using single_block_order_independent [of "demo_events demo_txs" "rev demo_txs" ev_codec]
  by (simp add: demo_events_def distinct_positions_def demo_txs_def demo_event_def)

end
