(* ===== verification/Cross_Spork.thy ===== *)
theory Cross_Spork
  imports Cadence_Events
begin

text \<open>
  The access client over several sporks, \<^verbatim>\<open>services/requester/cross-spork_client.go\<close>: it routes
  a request to the access node that has the requested height.  The node clients of the Flow SDK
  are values of type \<open>'c\<close>, their calls the record \<open>access_api\<close>.
\<close>

section \<open>Access nodes\<close>

record NodeVersionInfo =
  SporkRootBlockHeight :: u64
  NodeRootBlockHeight :: u64

text \<open>
  \<open>isGrpc\<close> is the type assertion to the gRPC client.  A script's value and a subscription are
  of the types \<open>'v\<close> and \<open>'s\<close>.
\<close>

record ('c, 'ev, 'v, 's) access_api =
  an_GetLatestBlockHeader :: "'c \<Rightarrow> err + BlockHeader"
  an_GetNodeVersionInfo :: "'c \<Rightarrow> err + NodeVersionInfo"
  an_GetBlockHeaderByHeight :: "'c \<Rightarrow> u64 \<Rightarrow> err + BlockHeader"
  an_ExecuteScriptAtBlockHeight :: "'c \<Rightarrow> u64 \<Rightarrow> bytes \<Rightarrow> 'v list \<Rightarrow> err + 'v"
  an_SubscribeEventsByBlockHeight :: "'c \<Rightarrow> u64 \<Rightarrow> string list \<Rightarrow> err + 's"
  an_GetEventsForHeightRange :: "'c \<Rightarrow> string \<Rightarrow> u64 \<Rightarrow> u64 \<Rightarrow> err + 'ev FlowBlockEvents list"
  an_GetEventsForBlockIDs :: "'c \<Rightarrow> string \<Rightarrow> flow_id list \<Rightarrow> err + 'ev FlowBlockEvents list"
  an_isGrpc :: "'c \<Rightarrow> bool"
  an_SubscribeBlockHeadersFromStartHeight :: "'c \<Rightarrow> u64 \<Rightarrow> err + 's"
  an_Close :: "'c \<Rightarrow> err option"

section \<open>Spork clients\<close>

record 'c sporkClient =
  firstHeight :: u64
  lastHeight :: u64
  spClient :: 'c

definition contains :: "'c sporkClient \<Rightarrow> u64 \<Rightarrow> bool" where
  "contains s height \<longleftrightarrow> height \<ge> firstHeight s \<and> height \<le> lastHeight s"

text \<open>The comparison of \<open>sporkClients_add\<close>: a subtraction of signed machine integers.\<close>

definition spork_cmp :: "'c sporkClient \<Rightarrow> 'c sporkClient \<Rightarrow> int" where
  "spork_cmp a b = sint (firstHeight a - firstHeight b)"

text \<open>
  \<^verbatim>\<open>slices.SortFunc\<close> on a short slice: insertion sort, where an element moves left past
  those it is below.  The sorted prefix is kept reversed.
\<close>

fun insert_back :: "('a \<Rightarrow> 'a \<Rightarrow> int) \<Rightarrow> 'a \<Rightarrow> 'a list \<Rightarrow> 'a list" where
  "insert_back cmp x [] = [x]"
| "insert_back cmp x (y # ys) = (if cmp x y < 0 then y # insert_back cmp x ys else x # y # ys)"

definition SortFunc :: "('a \<Rightarrow> 'a \<Rightarrow> int) \<Rightarrow> 'a list \<Rightarrow> 'a list" where
  "SortFunc cmp xs = rev (fold (insert_back cmp) xs [])"

definition sporkClients_add ::
    "('c, 'ev, 'v, 's) access_api \<Rightarrow> 'c \<Rightarrow> 'c sporkClient list \<Rightarrow> err + 'c sporkClient list" where
  "sporkClients_add N client s =
     rbind (rwrap (\<lambda>e. Errorf ''could not get latest height using the spork client: %w'' [] [e])
       (an_GetLatestBlockHeader N client)) (\<lambda>header.
     rbind (rwrap (\<lambda>e. Errorf ''could not get node info using the spork client: %w'' [] [e])
       (an_GetNodeVersionInfo N client)) (\<lambda>info.
     Inr (SortFunc spork_cmp (s @ [\<lparr>firstHeight = NodeRootBlockHeight info, lastHeight = bhHeight header, spClient = client\<rparr>]))))"

fun sporkClients_get :: "'c sporkClient list \<Rightarrow> u64 \<Rightarrow> 'c option" where
  "sporkClients_get [] height = None"
| "sporkClients_get (spork # sporks) height =
     (if contains spork height then Some (spClient spork) else sporkClients_get sporks height)"

fun continuous :: "'c sporkClient list \<Rightarrow> bool" where
  "continuous (a # b # s) \<longleftrightarrow> lastHeight a + 1 = firstHeight b \<and> continuous (b # s)"
| "continuous _ \<longleftrightarrow> True"

section \<open>The client\<close>

record 'c CrossSporkClient =
  sporkClients :: "'c sporkClient list"
  currentSporkRootHeight :: u64
  csClient :: 'c

definition NewCrossSporkClient ::
    "('c, 'ev, 'v, 's) access_api \<Rightarrow> 'c \<Rightarrow> 'c list \<Rightarrow> bool \<Rightarrow> err + 'c CrossSporkClient" where
  "NewCrossSporkClient N currentSpork pastSporks isEmulator =
     rbind (if isEmulator then Inr (0, 0)
            else rbind (rwrap (\<lambda>e. Errorf ''failed to get node version info: %w'' [] [e])
                   (an_GetNodeVersionInfo N currentSpork))
                 (\<lambda>info. Inr (SporkRootBlockHeight info, NodeRootBlockHeight info)))
       (\<lambda>(sporkRootBlockHeight, nodeRootBlockHeight).
     rbind (rfold (sporkClients_add N) pastSporks []) (\<lambda>clients.
     if \<not> continuous clients
     then Inl (Errorf ''provided past-spork clients do not create a continuous range of heights'' [] [])
     else if length clients > 0 \<and> lastHeight (clients ! (length clients - 1)) + 1 \<noteq> nodeRootBlockHeight
     then Inl (Errorf ''provided past-spork clients do not end at the node root block height (%d, %d)''
            [FNum (unat (lastHeight (clients ! (length clients - 1)))), FNum (unat nodeRootBlockHeight)] [])
     else Inr \<lparr>sporkClients = clients, currentSporkRootHeight = sporkRootBlockHeight, csClient = currentSpork\<rparr>))"

definition IsPastSpork :: "'c CrossSporkClient \<Rightarrow> u64 \<Rightarrow> bool" where
  "IsPastSpork c height \<longleftrightarrow> height < currentSporkRootHeight c"

definition IsSporkRootBlockHeight :: "'c CrossSporkClient \<Rightarrow> u64 \<Rightarrow> bool" where
  "IsSporkRootBlockHeight c height \<longleftrightarrow> height = currentSporkRootHeight c"

definition getClientForHeight :: "'c CrossSporkClient \<Rightarrow> u64 \<Rightarrow> err + 'c" where
  "getClientForHeight c height =
     (if \<not> IsPastSpork c height then Inr (csClient c)
      else case sporkClients_get (sporkClients c) height of
          None \<Rightarrow> Inl (NewHeightOutOfRangeError height)
        | Some client \<Rightarrow> Inr client)"

definition GetLatestHeightForSpork ::
    "('c, 'ev, 'v, 's) access_api \<Rightarrow> 'c CrossSporkClient \<Rightarrow> u64 \<Rightarrow> err + u64" where
  "GetLatestHeightForSpork N c height =
     rbind (getClientForHeight c height) (\<lambda>client.
     rbind (an_GetLatestBlockHeader N client) (\<lambda>block. Inr (bhHeight block)))"

definition GetBlockHeaderByHeight ::
    "('c, 'ev, 'v, 's) access_api \<Rightarrow> 'c CrossSporkClient \<Rightarrow> u64 \<Rightarrow> err + BlockHeader" where
  "GetBlockHeaderByHeight N c height =
     rbind (getClientForHeight c height) (\<lambda>client. an_GetBlockHeaderByHeight N client height)"

definition ExecuteScriptAtBlockHeight ::
    "('c, 'ev, 'v, 's) access_api \<Rightarrow> 'c CrossSporkClient \<Rightarrow> u64 \<Rightarrow> bytes \<Rightarrow> 'v list \<Rightarrow> err + 'v" where
  "ExecuteScriptAtBlockHeight N c height script arguments =
     rbind (getClientForHeight c height) (\<lambda>client. an_ExecuteScriptAtBlockHeight N client height script arguments)"

definition SubscribeEventsByBlockHeight ::
    "('c, 'ev, 'v, 's) access_api \<Rightarrow> 'c CrossSporkClient \<Rightarrow> u64 \<Rightarrow> string list \<Rightarrow> err + 's" where
  "SubscribeEventsByBlockHeight N c startHeight filt =
     rbind (getClientForHeight c startHeight) (\<lambda>client. an_SubscribeEventsByBlockHeight N client startHeight filt)"

definition GetEventsForHeightRange ::
    "('c, 'ev, 'v, 's) access_api \<Rightarrow> 'c CrossSporkClient \<Rightarrow> string \<Rightarrow> u64 \<Rightarrow> u64 \<Rightarrow> err + 'ev FlowBlockEvents list" where
  "GetEventsForHeightRange N c eventType startHeight endHeight =
     rbind (getClientForHeight c startHeight) (\<lambda>client.
     rbind (getClientForHeight c endHeight) (\<lambda>endClient.
     if endClient \<noteq> client
     then Inl (Errorf ''invalid height range, end height %d is not in the same spork as start height %d''
            [FNum (unat endHeight), FNum (unat startHeight)] [])
     else an_GetEventsForHeightRange N client eventType startHeight endHeight))"

definition GetEventsForBlockHeader ::
    "('c, 'ev, 'v, 's) access_api \<Rightarrow> 'c CrossSporkClient \<Rightarrow> string \<Rightarrow> BlockHeader \<Rightarrow> err + 'ev FlowBlockEvents list" where
  "GetEventsForBlockHeader N c eventType blockHeader =
     rbind (getClientForHeight c (bhHeight blockHeader)) (\<lambda>client.
     an_GetEventsForBlockIDs N client eventType [bhID blockHeader])"

definition SubscribeBlockHeadersFromStartHeight ::
    "('c, 'ev, 'v, 's) access_api \<Rightarrow> 'c CrossSporkClient \<Rightarrow> u64 \<Rightarrow> err + 's" where
  "SubscribeBlockHeadersFromStartHeight N c startHeight =
     rbind (getClientForHeight c startHeight) (\<lambda>client.
     if \<not> an_isGrpc N client then Inl (Errorf ''unable to convert to Flow grpc.Client'' [] [])
     else an_SubscribeBlockHeadersFromStartHeight N client startHeight)"

text \<open>Closing returns all the errors, the past sporks' first.\<close>

definition Close :: "('c, 'ev, 'v, 's) access_api \<Rightarrow> 'c CrossSporkClient \<Rightarrow> err list" where
  "Close N c = List.map_filter (\<lambda>s. an_Close N (spClient s)) (sporkClients c)
     @ (case an_Close N (csClient c) of None \<Rightarrow> [] | Some e \<Rightarrow> [e])"

section \<open>Continuous ranges\<close>

text \<open>A list of clients without gaps, each with a non-empty range.\<close>

definition ranges_ok :: "'c sporkClient list \<Rightarrow> bool" where
  "ranges_ok s \<longleftrightarrow> continuous s \<and> (\<forall>a \<in> set s. firstHeight a \<le> lastHeight a \<and> lastHeight a < - 1)"

lemma ranges_ok_Cons2: "ranges_ok (a # b # s) \<longleftrightarrow>
    lastHeight a + 1 = firstHeight b \<and> firstHeight a \<le> lastHeight a \<and> lastHeight a < - 1 \<and> ranges_ok (b # s)"
  by (auto simp: ranges_ok_def)

lemma ranges_ok_last: "ranges_ok (a # s) \<Longrightarrow> lastHeight a \<le> lastHeight (last (a # s))"
proof (induction s arbitrary: a)
  case Nil
  then show ?case by simp
next
  case (Cons b s)
  from Cons.prems have ok: "lastHeight a + 1 = firstHeight b" "lastHeight a \<noteq> - 1" "ranges_ok (b # s)"
    by (auto simp: ranges_ok_Cons2)
  then have "firstHeight b \<le> lastHeight b" by (simp add: ranges_ok_def)
  with u64_succ_le [OF ok(2), of "lastHeight b"] ok(1) have "lastHeight a < lastHeight b" by simp
  with Cons.IH [OF ok(3)] show ?case by simp
qed

text \<open>In such a list every height from the first to the last is in one of the clients.\<close>

lemma sporkClients_get_covers:
  "ranges_ok (a # s) \<Longrightarrow>
   (\<exists>c. sporkClients_get (a # s) h = Some c) \<longleftrightarrow> firstHeight a \<le> h \<and> h \<le> lastHeight (last (a # s))"
proof (induction s arbitrary: a)
  case Nil
  then show ?case by (simp add: contains_def)
next
  case (Cons b s)
  from Cons have IH: "(\<exists>c. sporkClients_get (b # s) h = Some c) \<longleftrightarrow> firstHeight b \<le> h \<and> h \<le> lastHeight (last (b # s))"
    and ok: "lastHeight a + 1 = firstHeight b" "firstHeight a \<le> lastHeight a" "lastHeight a \<noteq> - 1"
    by (auto simp: ranges_ok_Cons2)
  have b: "firstHeight b \<le> h \<longleftrightarrow> lastHeight a < h" using u64_succ_le [OF ok(3), of h] ok(1) by simp
  have "lastHeight a \<le> lastHeight (last (b # s))" using ranges_ok_last [OF Cons.prems] by simp
  then show ?case using IH b ok(2) by (cases "contains a h") (auto simp: contains_def)
qed

lemma sporkClients_get_contains:
  "sporkClients_get s h = Some c \<Longrightarrow> \<exists>a \<in> set s. contains a h \<and> spClient a = c"
  by (induction s) (auto split: if_splits)

section \<open>The clients of a new cross-spork client\<close>

lemma insert_back_set [simp]: "set (insert_back cmp x ys) = insert x (set ys)"
  by (induction ys) auto

lemma fold_insert_back_set: "set (fold (insert_back cmp) xs ys) = set xs \<union> set ys"
  by (induction xs arbitrary: ys) auto

lemma SortFunc_set [simp]: "set (SortFunc cmp xs) = set xs"
  by (simp add: SortFunc_def fold_insert_back_set)

text \<open>What a past client's range is, by the node's own answers.\<close>

definition node_range :: "('c, 'ev, 'v, 's) access_api \<Rightarrow> 'c sporkClient \<Rightarrow> bool" where
  "node_range N s \<longleftrightarrow> (\<exists>header info. an_GetLatestBlockHeader N (spClient s) = Inr header
     \<and> an_GetNodeVersionInfo N (spClient s) = Inr info
     \<and> firstHeight s = NodeRootBlockHeight info \<and> lastHeight s = bhHeight header)"

lemma clients_added:
  assumes "rfold (sporkClients_add N) ps s0 = Inr s"
  shows "spClient ` set s = spClient ` set s0 \<union> set ps \<and> ((\<forall>x \<in> set s0. node_range N x) \<longrightarrow> (\<forall>x \<in> set s. node_range N x))"
  using assms
proof (induction ps arbitrary: s0)
  case Nil
  then show ?case by simp
next
  case (Cons p ps)
  then obtain s1 where s1: "sporkClients_add N p s0 = Inr s1" "rfold (sporkClients_add N) ps s1 = Inr s"
    by (auto simp: gw_result)
  then obtain x where "set s1 = insert x (set s0)" "spClient x = p" "node_range N x"
    by (auto simp: sporkClients_add_def gw_result node_range_def)
  with Cons.IH [OF s1(2)] show ?case by auto
qed

text \<open>C28: The routing of a cross-spork client that was built, outside the emulator, from at least one
past client, where no past node's range is empty.  The past clients cover the heights from the first
of them to below the node root of the current access node, without a gap.  A height below the spork
root that they cover is routed to a past client whose node has it; one they do not cover is
out of range; and a height from the spork root on goes to the current client, without asking
whether its node has the block: a height above the node's latest one, or in the gap between the
spork root and the node root, is not found there.\<close>

theorem cross_spork_routes:
  assumes "NewCrossSporkClient N currentSpork pastSporks False = Inr c" "pastSporks \<noteq> []"
    and "an_GetNodeVersionInfo N currentSpork = Inr info"
    and "\<forall>p \<in> set pastSporks. \<forall>header pinfo. an_GetLatestBlockHeader N p = Inr header \<longrightarrow>
           an_GetNodeVersionInfo N p = Inr pinfo \<longrightarrow> NodeRootBlockHeight pinfo \<le> bhHeight header \<and> bhHeight header \<noteq> - 1"
  shows "\<exists>a \<in> set (sporkClients c). node_range N a \<and> firstHeight a < NodeRootBlockHeight info \<and> (\<forall>h.
      (h < SporkRootBlockHeight info \<and> firstHeight a \<le> h \<and> h < NodeRootBlockHeight info \<longrightarrow>
         (\<exists>s \<in> set (sporkClients c). contains s h \<and> node_range N s \<and> spClient s \<in> set pastSporks
            \<and> getClientForHeight c h = Inr (spClient s)))
    \<and> (h < SporkRootBlockHeight info \<and> (h < firstHeight a \<or> NodeRootBlockHeight info \<le> h) \<longrightarrow>
         getClientForHeight c h = Inl (NewHeightOutOfRangeError h))
    \<and> (SporkRootBlockHeight info \<le> h \<longrightarrow> getClientForHeight c h = Inr currentSpork))"
proof -
  obtain cs where cs: "rfold (sporkClients_add N) pastSporks [] = Inr cs" "continuous cs"
    "cs = [] \<or> lastHeight (cs ! (length cs - 1)) + 1 = NodeRootBlockHeight info"
    and c: "c = \<lparr>sporkClients = cs, currentSporkRootHeight = SporkRootBlockHeight info, csClient = currentSpork\<rparr>"
    using assms(1,3) by (auto simp: NewCrossSporkClient_def gw_result split: if_splits)
  have added: "spClient ` set cs = set pastSporks" "\<forall>x \<in> set cs. node_range N x"
    using clients_added [OF cs(1)] by auto
  then obtain a s where as: "cs = a # s" using assms(2) by (cases cs) auto
  have pos: "firstHeight x \<le> lastHeight x \<and> lastHeight x \<noteq> - 1" if "x \<in> set cs" for x
    using added assms(4) that unfolding node_range_def by (metis imageI)
  then have ok: "ranges_ok (a # s)" using cs(2) by (auto simp: ranges_ok_def as word_order.not_eq_extremum)
  have "lastHeight (last (a # s)) + 1 = NodeRootBlockHeight info"
    using cs(3) last_conv_nth [of "a # s"] by (simp add: as del: last.simps)
  moreover have "lastHeight (last (a # s)) \<noteq> - 1" using pos [of "last (a # s)"] by (simp add: as)
  ultimately have root: "h < NodeRootBlockHeight info \<longleftrightarrow> h \<le> lastHeight (last (a # s))" for h
    using u64_succ_le [of "lastHeight (last (a # s))" h] by (auto simp: not_le [symmetric])
  have first: "firstHeight a < NodeRootBlockHeight info"
    using root pos [of a] ranges_ok_last [OF ok] by (auto simp: as intro: order.trans)
  have "getClientForHeight c h = Inl (NewHeightOutOfRangeError h)"
    if "h < SporkRootBlockHeight info" "h < firstHeight a \<or> NodeRootBlockHeight info \<le> h" for h
    using that sporkClients_get_covers [OF ok, of h] root [of h]
    by (cases "sporkClients_get (a # s) h") (auto simp: getClientForHeight_def IsPastSpork_def c as simp del: sporkClients_get.simps)
  moreover have "\<exists>s \<in> set cs. contains s h \<and> node_range N s \<and> spClient s \<in> set pastSporks
            \<and> getClientForHeight c h = Inr (spClient s)"
    if h: "h < SporkRootBlockHeight info" "firstHeight a \<le> h" "h < NodeRootBlockHeight info" for h
  proof -
    obtain x where x: "sporkClients_get cs h = Some x"
      using sporkClients_get_covers [OF ok, of h] h(2,3) root [of h] unfolding as by blast
    from sporkClients_get_contains [OF x] obtain y where y: "y \<in> set cs" "contains y h" "spClient y = x" by blast
    have "getClientForHeight c h = Inr (spClient y)"
      using x y(3) h(1) by (simp add: getClientForHeight_def IsPastSpork_def c)
    moreover have "spClient y \<in> set pastSporks" using added(1) y(1) by blast
    ultimately show ?thesis using y(1,2) added(2) by blast
  qed
  moreover have "getClientForHeight c h = Inr currentSpork" if "SporkRootBlockHeight info \<le> h" for h
    using that by (auto simp: getClientForHeight_def IsPastSpork_def c)
  ultimately show ?thesis using first added(2) by (intro bexI [of _ a]) (auto simp: as c)
qed

text \<open>A range of heights is fetched from one access node or not at all: when the heights of
a request are served by different nodes, the client refuses it and asks neither.\<close>

theorem height_range_one_spork:
  "GetEventsForHeightRange N c eventType a b =
     (case (getClientForHeight c a, getClientForHeight c b) of
        (Inl e, _) \<Rightarrow> Inl e
      | (Inr _, Inl e) \<Rightarrow> Inl e
      | (Inr x, Inr y) \<Rightarrow>
          if x = y then an_GetEventsForHeightRange N x eventType a b
          else Inl (Errorf ''invalid height range, end height %d is not in the same spork as start height %d''
                 [FNum (unat b), FNum (unat a)] []))"
  by (auto simp: GetEventsForHeightRange_def split: sum.splits)

section \<open>Witness\<close>

text \<open>Three nodes: two past sporks of the heights 10 to 19 and 20 to 29, and the current one.\<close>

definition demo_nodes :: "(nat, nat, unit, unit) access_api" where
  "demo_nodes =
     \<lparr>an_GetLatestBlockHeader = (\<lambda>n. Inr \<lparr>bhID = 0, bhParentID = 0, bhHeight = of_nat (10 * n + 9), bhTimestamp = 0\<rparr>),
      an_GetNodeVersionInfo = (\<lambda>n. Inr \<lparr>SporkRootBlockHeight = of_nat (10 * n), NodeRootBlockHeight = of_nat (10 * n)\<rparr>),
      an_GetBlockHeaderByHeight = (\<lambda>_ h. Inr \<lparr>bhID = 0, bhParentID = 0, bhHeight = h, bhTimestamp = 0\<rparr>),
      an_ExecuteScriptAtBlockHeight = (\<lambda>_ _ _ _. Inr ()), an_SubscribeEventsByBlockHeight = (\<lambda>_ _ _. Inr ()),
      an_GetEventsForHeightRange = (\<lambda>_ _ _ _. Inr []), an_GetEventsForBlockIDs = (\<lambda>_ _ _. Inr []),
      an_isGrpc = (\<lambda>_. True), an_SubscribeBlockHeadersFromStartHeight = (\<lambda>_ _. Inr ()), an_Close = (\<lambda>_. None)\<rparr>"

definition demo_client :: "nat CrossSporkClient" where
  "demo_client = \<lparr>sporkClients = [\<lparr>firstHeight = 10, lastHeight = 19, spClient = 1\<rparr>, \<lparr>firstHeight = 20, lastHeight = 29, spClient = 2\<rparr>],
     currentSporkRootHeight = 30, csClient = 3\<rparr>"

lemma demo_client_new: "NewCrossSporkClient demo_nodes 3 [2, 1] False = Inr demo_client"
  by (simp add: NewCrossSporkClient_def sporkClients_add_def demo_nodes_def SortFunc_def spork_cmp_def demo_client_def)

text \<open>A current node that was bootstrapped at height 30, five blocks after the spork root.\<close>

definition late_nodes :: "(nat, nat, unit, unit) access_api" where
  "late_nodes = demo_nodes\<lparr>an_GetNodeVersionInfo := (\<lambda>n. Inr \<lparr>SporkRootBlockHeight = (if n = 3 then 25 else of_nat (10 * n)),
     NodeRootBlockHeight = of_nat (10 * n)\<rparr>)\<rparr>"

lemma late_client_new: "NewCrossSporkClient late_nodes 3 [2, 1] False = Inr (demo_client\<lparr>currentSporkRootHeight := 25\<rparr>)"
  by (simp add: NewCrossSporkClient_def sporkClients_add_def late_nodes_def demo_nodes_def SortFunc_def spork_cmp_def demo_client_def)

lemma cross_spork_routes_witness:
  "(\<exists>s \<in> set (sporkClients demo_client). contains s 22
      \<and> getClientForHeight (demo_client\<lparr>currentSporkRootHeight := 25\<rparr>) 22 = Inr (spClient s))
   \<and> getClientForHeight (demo_client\<lparr>currentSporkRootHeight := 25\<rparr>) 5 = Inl (NewHeightOutOfRangeError 5)
   \<and> getClientForHeight (demo_client\<lparr>currentSporkRootHeight := 25\<rparr>) 27 = Inr 3"
proof -
  let ?c = "demo_client\<lparr>currentSporkRootHeight := 25\<rparr>"
  have range: "\<forall>p \<in> set [2, 1]. \<forall>header pinfo. an_GetLatestBlockHeader late_nodes p = Inr header \<longrightarrow>
      an_GetNodeVersionInfo late_nodes p = Inr pinfo \<longrightarrow> NodeRootBlockHeight pinfo \<le> bhHeight header \<and> bhHeight header \<noteq> - 1"
    and info: "an_GetNodeVersionInfo late_nodes 3 = Inr \<lparr>SporkRootBlockHeight = 25, NodeRootBlockHeight = 30\<rparr>"
    by (auto simp: late_nodes_def demo_nodes_def)
  obtain a where a: "a \<in> set (sporkClients ?c)" and r: "\<forall>h.
      (h < 25 \<and> firstHeight a \<le> h \<and> h < 30 \<longrightarrow>
         (\<exists>s \<in> set (sporkClients ?c). contains s h \<and> node_range late_nodes s \<and> spClient s \<in> set [2, 1]
            \<and> getClientForHeight ?c h = Inr (spClient s)))
      \<and> (h < 25 \<and> (h < firstHeight a \<or> 30 \<le> h) \<longrightarrow> getClientForHeight ?c h = Inl (NewHeightOutOfRangeError h))
      \<and> (25 \<le> h \<longrightarrow> getClientForHeight ?c h = Inr 3)"
    using cross_spork_routes [OF late_client_new _ info range, unfolded NodeVersionInfo.simps] by blast
  have "firstHeight a = 10 \<or> firstHeight a = 20" "sporkClients ?c = sporkClients demo_client"
    using a by (auto simp: demo_client_def)
  with r [rule_format, of 22] r [rule_format, of 5] r [rule_format, of 27] show ?thesis by auto
qed

end
