(* ===== verification/Sealing_Verifier.thy ===== *)
theory Sealing_Verifier
  imports Events_Hash Cross_Spork
begin

text \<open>
  The sealing verifier, \<^verbatim>\<open>services/ingestion/sealing_verifier.go\<close>: the hashes of the events
  indexed from finalized blocks are compared with those of the sealed blocks, in whichever order
  the two arrive.  A step takes the verifier's lock, so that interleavings of the two producers
  are sequences of steps.  \<^verbatim>\<open>flowGo.MakeID\<close> and \<^verbatim>\<open>ByteSliceToId\<close> are arguments; a fatal log
  entry ends the process and is the outcome \<open>Panics\<close>.
\<close>

section \<open>Hash of the events of a block\<close>

text \<open>\<^verbatim>\<open>flowGo.Event\<close> and \<^verbatim>\<open>flowGo.BlockEvents\<close>.\<close>

record flowGoEvent =
  fgType :: string
  fgTransactionID :: flow_id
  fgTransactionIndex :: "32 word"
  fgEventIndex :: "32 word"
  fgPayload :: bytes

record flowGoBlockEvents =
  fgBlockID :: flow_id
  fgBlockHeight :: u64
  fgBlockTimestamp :: int
  fgEvents :: "flowGoEvent list"

record id_api =
  ByteSliceToId :: "bytes \<Rightarrow> err + flow_id"
  MakeID :: "flowGoBlockEvents \<Rightarrow> flow_id"

definition convert_event :: "id_api \<Rightarrow> 'ev FlowEvent \<Rightarrow> err + flowGoEvent" where
  "convert_event I e =
     rbind (rwrap (\<lambda>x. Errorf ''failed to convert transaction ID %s: %w'' [FNum (unat (evTransactionID e))] [x])
       (ByteSliceToId I (idBytes (evTransactionID e)))) (\<lambda>txID.
     Inr \<lparr>fgType = evType e, fgTransactionID = txID, fgTransactionIndex = of_int (evTransactionIndex e),
          fgEventIndex = of_int (evEventIndex e), fgPayload = evPayload e\<rparr>)"

definition convertFlowBlockEvents :: "id_api \<Rightarrow> 'ev FlowBlockEvents \<Rightarrow> err + flowGoBlockEvents" where
  "convertFlowBlockEvents I events =
     rbind (rwrap (\<lambda>x. Errorf ''failed to convert block ID: %w'' [] [x]) (ByteSliceToId I (idBytes (beBlockID events)))) (\<lambda>blockID.
     rbind (rmap (convert_event I) (beEvents events)) (\<lambda>flowEvents.
     Inr \<lparr>fgBlockID = blockID, fgBlockHeight = beHeight events, fgBlockTimestamp = beBlockTimestamp events,
          fgEvents = sort_key (\<lambda>e. (unat (fgTransactionIndex e), unat (fgEventIndex e))) flowEvents\<rparr>))"

definition CalculateHash :: "id_api \<Rightarrow> 'ev FlowBlockEvents \<Rightarrow> err + flow_id" where
  "CalculateHash I events = rbind (convertFlowBlockEvents I events) (\<lambda>converted. Inr (MakeID I converted))"

section \<open>The verifier\<close>

record 'db SealingVerifier =
  svStartHeight :: u64
  unsealedBlocksToVerify :: "(u64, flow_id) gomap"
  sealedBlocksToVerify :: "(u64, flow_id) gomap"
  lastUnsealedHeight :: u64
  lastSealedHeight :: u64
  svDb :: 'db

definition NewSealingVerifier :: "u64 \<Rightarrow> 'db \<Rightarrow> 'db SealingVerifier" where
  "NewSealingVerifier height d =
     \<lparr>svStartHeight = height, unsealedBlocksToVerify = [], sealedBlocksToVerify = [],
      lastUnsealedHeight = (if height > 0 then height - 1 else height), lastSealedHeight = 0, svDb = d\<rparr>"

definition SetStartHeight :: "u64 \<Rightarrow> 'db SealingVerifier \<Rightarrow> 'db SealingVerifier" where
  "SetStartHeight height v = v\<lparr>svStartHeight := height\<rparr>"

definition getUnsealedEventsHash ::
    "('db, 'batch) pebble_api \<Rightarrow> 'x codec \<Rightarrow> u64 \<Rightarrow> 'db SealingVerifier \<Rightarrow> err + flow_id" where
  "getUnsealedEventsHash P c height v = (case map_of (unsealedBlocksToVerify v) height of
      Some h \<Rightarrow> Inr h
    | None \<Rightarrow> rwrap (\<lambda>e. Errorf ''failed to get events hash for block %d: %w'' [FNum (unat height)] [e])
        (EventsHash_GetByHeight P c (svDb v) height))"

text \<open>The two deferred deletions happen on every return.\<close>

definition verifyBlock ::
    "('db, 'batch) pebble_api \<Rightarrow> u64 \<Rightarrow> flow_id \<Rightarrow> flow_id \<Rightarrow> 'db SealingVerifier \<Rightarrow> err option \<times> 'db SealingVerifier" where
  "verifyBlock P height sealedHash unsealedHash v =
     (let v' = v\<lparr>unsealedBlocksToVerify := AList.delete height (unsealedBlocksToVerify v),
                 sealedBlocksToVerify := AList.delete height (sealedBlocksToVerify v)\<rparr> in
      if sealedHash \<noteq> unsealedHash
      then (Some (Errorf ''event hash mismatch: expected %s, got %s''
              [FNum (unat sealedHash), FNum (unat unsealedHash)] []), v')
      else case SetProcessedSealedHeight P height (svDb v) of
          (Some e, d) \<Rightarrow> (Some (Errorf ''failed to store processed sealed height: %w'' [] [e]), v'\<lparr>svDb := d\<rparr>)
        | (None, d) \<Rightarrow> (None, v'\<lparr>svDb := d\<rparr>))"

definition verify_or_exit ::
    "('db, 'batch) pebble_api \<Rightarrow> u64 \<Rightarrow> flow_id \<Rightarrow> flow_id \<Rightarrow> 'db SealingVerifier \<Rightarrow> (err option \<times> 'db SealingVerifier) exec" where
  "verify_or_exit P height sealedHash unsealedHash v =
     (case verifyBlock P height sealedHash unsealedHash v of
        (Some e, _) \<Rightarrow> Panics ''failed to verify block events''
      | (None, v') \<Rightarrow> Ret (None, v'))"

definition onSealedEvents ::
    "('db, 'batch) pebble_api \<Rightarrow> 'x codec \<Rightarrow> id_api \<Rightarrow> 'ev FlowBlockEvents \<Rightarrow> 'db SealingVerifier
      \<Rightarrow> (err option \<times> 'db SealingVerifier) exec" where
  "onSealedEvents P c I events v =
     (let height = beHeight events in
      if height > 0 \<and> lastSealedHeight v \<noteq> height - 1
      then Ret (Some (Errorf ''received sealed events out of order: expected %d, got %d''
             [FNum (unat (lastSealedHeight v + 1)), FNum (unat height)] []), v)
      else let v1 = (if height > 0 then v\<lparr>lastSealedHeight := height\<rparr> else v) in
      case CalculateHash I events of
        Inl e \<Rightarrow> Ret (Some (Errorf ''failed to calculate hash for sealed events for height %d: %w'' [FNum (unat height)] [e]), v1)
      | Inr sealedHash \<Rightarrow>
         (let unsealed = getUnsealedEventsHash P c height v1 in
          if (case unsealed of Inl e \<Rightarrow> errors_Is e ErrEntityNotFound | Inr _ \<Rightarrow> False) \<or> height > lastUnsealedHeight v1
          then Ret (None, v1\<lparr>sealedBlocksToVerify := AList.update height sealedHash (sealedBlocksToVerify v1)\<rparr>)
          else case unsealed of
            Inl e \<Rightarrow> Ret (Some (Errorf ''no unsealed events found for height %d: %w'' [FNum (unat height)] [e]), v1)
          | Inr unsealedHash \<Rightarrow> verify_or_exit P height sealedHash unsealedHash v1))"

definition onUnsealedEvents ::
    "('db, 'batch) pebble_api \<Rightarrow> id_api \<Rightarrow> 'ev FlowBlockEvents \<Rightarrow> 'db SealingVerifier
      \<Rightarrow> (err option \<times> 'db SealingVerifier) exec" where
  "onUnsealedEvents P I events v =
     (let height = beHeight events in
      case CalculateHash I events of
        Inl e \<Rightarrow> Ret (Some (Errorf ''failed to calculate hash for block %d: %w'' [FNum (unat height)] [e]), v)
      | Inr unsealedHash \<Rightarrow>
         (case EventsHash_Store P height unsealedHash (svDb v) of
            (Some e, d) \<Rightarrow> Ret (Some (Errorf ''failed to store events hash for block %d: %w'' [FNum (unat height)] [e]), v\<lparr>svDb := d\<rparr>)
          | (None, d) \<Rightarrow>
             (let v1 = v\<lparr>svDb := d\<rparr> in
              if height > 0 \<and> lastUnsealedHeight v1 \<noteq> height - 1
              then Ret (Some (Errorf ''received unsealed events out of order: expected %d, got %d''
                     [FNum (unat (lastUnsealedHeight v1 + 1)), FNum (unat height)] []), v1)
              else let v2 = (if height > 0 then v1\<lparr>lastUnsealedHeight := height\<rparr> else v1) in
              case map_of (sealedBlocksToVerify v2) height of
                None \<Rightarrow> Ret (None, v2\<lparr>unsealedBlocksToVerify := AList.update height unsealedHash (unsealedBlocksToVerify v2)\<rparr>)
              | Some sealedHash \<Rightarrow> verify_or_exit P height sealedHash unsealedHash v2)))"

definition AddFinalizedBlock ::
    "('db, 'batch) pebble_api \<Rightarrow> id_api \<Rightarrow> 'ev FlowBlockEvents \<Rightarrow> 'db SealingVerifier
      \<Rightarrow> (err option \<times> 'db SealingVerifier) exec" where
  "AddFinalizedBlock P I events v = onUnsealedEvents P I events v"

section \<open>Running the verifier\<close>

text \<open>The height the sealed stream starts at, from the database or from the start height.\<close>

definition Run_init ::
    "('db, 'batch) pebble_api \<Rightarrow> 'db SealingVerifier \<Rightarrow> err + (u64 \<times> 'db SealingVerifier)" where
  "Run_init P v =
     rbind (case ProcessedSealedHeight P (svDb v) of
         Inr h \<Rightarrow> Inr (h, v)
       | Inl e \<Rightarrow>
          if \<not> errors_Is e ErrStorageNotInitialized
          then Inl (Errorf ''failed to get processed sealed height: %w'' [] [e])
          else let h = (if svStartHeight v > 0 then svStartHeight v - 1 else svStartHeight v) in
               case SetProcessedSealedHeight P h (svDb v) of
                 (Some e, _) \<Rightarrow> Inl (Errorf ''failed to initialize processed sealed height: %w'' [] [e])
               | (None, d) \<Rightarrow> Inr (h, v\<lparr>svDb := d\<rparr>))
       (\<lambda>(lastVerifiedHeight, v). Inr (lastVerifiedHeight + 1, v\<lparr>lastSealedHeight := lastVerifiedHeight\<rparr>))"

definition maxRangeForGetEvents :: u64 where "maxRangeForGetEvents = 249"

text \<open>The block events of one range with the transaction events of the same index appended.\<close>

fun sealed_range ::
    "('db, 'batch) pebble_api \<Rightarrow> 'x codec \<Rightarrow> id_api \<Rightarrow> ('ev FlowBlockEvents \<times> 'ev FlowBlockEvents) list
      \<Rightarrow> 'db SealingVerifier \<Rightarrow> (err option \<times> 'db SealingVerifier) exec" where
  "sealed_range P c I [] v = Ret (None, v)"
| "sealed_range P c I ((b, t) # xs) v =
     ebind (onSealedEvents P c I (b\<lparr>beEvents := beEvents b @ beEvents t\<rparr>) v) (\<lambda>(r, v').
       case r of
         Some e \<Rightarrow> Ret (Some (Errorf ''failed to verify block events for height %d: %w'' [FNum (unat (beHeight b))] [e]), v')
       | None \<Rightarrow> sealed_range P c I xs v')"

text \<open>
  \<open>backfill\<close> with a bound on its iterations; \<open>Blocks\<close> is an exhausted bound, which
  \<open>backfill_returns\<close> excludes.
\<close>

fun backfill_loop ::
    "nat \<Rightarrow> ('db, 'batch) pebble_api \<Rightarrow> 'x codec \<Rightarrow> id_api \<Rightarrow> ('c, 'ev, 'v, 's) access_api \<Rightarrow> 'c CrossSporkClient
      \<Rightarrow> string \<Rightarrow> string \<Rightarrow> u64 \<Rightarrow> u64 \<Rightarrow> 'db SealingVerifier \<Rightarrow> (err option \<times> 'db SealingVerifier) exec" where
  "backfill_loop 0 P c I N cl blockType txType sporkRootHeight start v = Blocks"
| "backfill_loop (Suc n) P c I N cl blockType txType sporkRootHeight start v =
     (let stop = start + maxRangeForGetEvents;
          endHeight = (if stop \<ge> sporkRootHeight then sporkRootHeight - 1 else stop);
          failed = (\<lambda>e. Errorf ''failed to get events for height range %d-%d: %w''
             [FNum (unat start), FNum (unat endHeight)] [e])
      in case GetEventsForHeightRange N cl blockType start endHeight of
        Inl e \<Rightarrow> Ret (Some (failed e), v)
      | Inr blockEvents \<Rightarrow>
       (case GetEventsForHeightRange N cl txType start endHeight of
        Inl e \<Rightarrow> Ret (Some (failed e), v)
      | Inr txEvents \<Rightarrow>
         if length blockEvents \<noteq> length txEvents
         then Ret (Some (Errorf ''received unexpected number of events for height range %d-%d: %d != %d''
                [FNum (unat start), FNum (unat endHeight), FNum (length blockEvents), FNum (length txEvents)] []), v)
         else ebind (sealed_range P c I (zip blockEvents txEvents) v) (\<lambda>(r, v').
           case r of
             Some e \<Rightarrow> Ret (Some e, v')
           | None \<Rightarrow>
              let start' = endHeight + 1 in
              if start' \<ge> sporkRootHeight then Ret (None, v')
              else backfill_loop n P c I N cl blockType txType sporkRootHeight start' v')))"

definition verifier_backfill ::
    "('db, 'batch) pebble_api \<Rightarrow> 'x codec \<Rightarrow> id_api \<Rightarrow> ('c, 'ev, 'v, 's) access_api \<Rightarrow> 'c CrossSporkClient
      \<Rightarrow> string \<Rightarrow> string \<Rightarrow> u64 \<Rightarrow> 'db SealingVerifier \<Rightarrow> (err option \<times> 'db SealingVerifier) exec" where
  "verifier_backfill P c I N cl blockType txType height v =
     backfill_loop (Suc (unat (currentSporkRootHeight cl))) P c I N cl blockType txType (currentSporkRootHeight cl) height v"

text \<open>
  Subscribing, with the answers of the access node in order: while the next height is not
  sealed the call is repeated; \<open>None\<close> is a run that still waits.  \<open>errString\<close> is the text of
  an error.
\<close>

definition strings_Contains :: "string \<Rightarrow> string \<Rightarrow> bool" where
  "strings_Contains s sub \<longleftrightarrow> list_ex (\<lambda>i. take (length sub) (drop i s) = sub) [0..<Suc (length s)]"

definition not_sealed_yet :: "(err \<Rightarrow> string) \<Rightarrow> err \<Rightarrow> bool" where
  "not_sealed_yet errString e \<longleftrightarrow>
     strings_Contains (errString e) ''could not get start height''
   \<and> strings_Contains (errString e) ''higher than highest indexed height''"

fun verifier_connect :: "(err \<Rightarrow> string) \<Rightarrow> (err + 's) list \<Rightarrow> (err + 's) option" where
  "verifier_connect errString [] = None"
| "verifier_connect errString (Inl e # rs) =
     (if not_sealed_yet errString e then verifier_connect errString rs else Some (Inl e))"
| "verifier_connect errString (Inr x # rs) = Some (Inr x)"

text \<open>What the loop of \<^verbatim>\<open>Run\<close> may receive; \<open>ctxErr\<close> tells whether the context has ended.\<close>

datatype 'ev run_input =
    CtxDone | DoneSignal | EventsIn "'ev FlowBlockEvents" | EventsClosed bool | ErrIn err | ErrClosed bool

datatype 'a run_result = Continue 'a | Return "err option"

definition closed_stream :: "err option \<Rightarrow> bool \<Rightarrow> 'a run_result" where
  "closed_stream last_err ctxErr =
     (if ctxErr then Return None
      else Return (Some (Errorf ''failed to receive block events: %w'' []
             (case last_err of None \<Rightarrow> [] | Some e \<Rightarrow> [e]))))"

text \<open>
  One iteration of the loop on the state and the height to reconnect at; \<open>connect\<close> is the
  outcome of subscribing at a height, \<open>last_err\<close> the value of the outer variable \<^verbatim>\<open>err\<close>.
\<close>

definition Run_step ::
    "('db, 'batch) pebble_api \<Rightarrow> 'x codec \<Rightarrow> id_api \<Rightarrow> (u64 \<Rightarrow> err option) \<Rightarrow> err option \<Rightarrow> 'ev run_input
      \<Rightarrow> u64 \<times> 'db SealingVerifier \<Rightarrow> (u64 \<times> 'db SealingVerifier) run_result exec" where
  "Run_step P c I connect last_err inp s = (case s of (reconnectHeight, v) \<Rightarrow> (case inp of
      CtxDone \<Rightarrow> Ret (Return None)
    | DoneSignal \<Rightarrow> Ret (Return None)
    | EventsClosed ctxErr \<Rightarrow> Ret (closed_stream last_err ctxErr)
    | EventsIn sealedEvents \<Rightarrow>
        ebind (onSealedEvents P c I sealedEvents v) (\<lambda>(r, v').
          Ret (case r of
              Some e \<Rightarrow> Return (Some (Errorf ''failed to process sealed events: %w'' [] [e]))
            | None \<Rightarrow> Continue (beHeight sealedEvents + 1, v')))
    | ErrClosed ctxErr \<Rightarrow> Ret (closed_stream None ctxErr)
    | ErrIn e \<Rightarrow>
        if status_Code e \<in> {NotFound, DeadlineExceeded, Internal} then
          Ret (case connect reconnectHeight of
              Some e' \<Rightarrow> Return (Some (Errorf ''failed to resubscribe for finalized block headers on height: %d, with: %w''
                [FNum (unat reconnectHeight)] [e']))
            | None \<Rightarrow> Continue (reconnectHeight, v))
        else Ret (Return (Some (Errorf ''%w: %w'' [] [ErrDisconnected, e])))))"

section \<open>Interleavings of sealed and unsealed events\<close>

datatype 'ev vin = SealedIn "'ev FlowBlockEvents" | UnsealedIn "'ev FlowBlockEvents"

fun in_events :: "'ev vin \<Rightarrow> 'ev FlowBlockEvents" where
  "in_events (SealedIn e) = e"
| "in_events (UnsealedIn e) = e"

fun vstep ::
    "('db, 'batch) pebble_api \<Rightarrow> 'x codec \<Rightarrow> id_api \<Rightarrow> 'ev vin \<Rightarrow> 'db SealingVerifier
      \<Rightarrow> (err option \<times> 'db SealingVerifier) exec" where
  "vstep P c I (SealedIn e) v = onSealedEvents P c I e v"
| "vstep P c I (UnsealedIn e) v = AddFinalizedBlock P I e v"

text \<open>A run in which every step returned without an error.\<close>

inductive vruns ::
    "('db, 'batch) pebble_api \<Rightarrow> 'x codec \<Rightarrow> id_api \<Rightarrow> 'db SealingVerifier \<Rightarrow> 'ev vin list \<Rightarrow> 'db SealingVerifier \<Rightarrow> bool"
  for P c I v0 where
  vruns_start: "vruns P c I v0 [] v0"
| vruns_step: "vruns P c I v0 xs v \<Longrightarrow> vstep P c I x v = Ret (None, v') \<Longrightarrow> vruns P c I v0 (xs @ [x]) v'"

lemma verify_or_exit_ok:
  assumes "pebble_ok P view ops \<and> (\<forall>h. BytesToID c (idBytes h) = h)"
    and "verify_or_exit P h s u v = Ret (r, v')"
  shows "s = u \<and> r = None \<and> sealed_at (view (svDb v')) = Some h \<and> hash_at c (view (svDb v')) = hash_at c (view (svDb v))
    \<and> lastSealedHeight v' = lastSealedHeight v \<and> lastUnsealedHeight v' = lastUnsealedHeight v
    \<and> unsealedBlocksToVerify v' = AList.delete h (unsealedBlocksToVerify v)
    \<and> sealedBlocksToVerify v' = AList.delete h (sealedBlocksToVerify v)"
  using assms(2) pebble_hashes.set_ok [OF assms(1), of h "svDb v"]
  by (auto simp: verify_or_exit_def verifyBlock_def Let_def split: prod.splits option.splits if_splits)

text \<open>
  The state of the verifier after the inputs \<open>xs\<close>, started with the processed height \<open>p\<close>:
  the processed height is the lower end of the two streams, sealed hashes wait exactly for the
  heights that are not indexed yet, and every height in between has been compared.
\<close>

definition verifier_inv ::
    "'x codec \<Rightarrow> id_api \<Rightarrow> ('db \<Rightarrow> bytes \<rightharpoonup> bytes) \<Rightarrow> u64 \<Rightarrow> 'ev vin list \<Rightarrow> 'db SealingVerifier \<Rightarrow> bool" where
  "verifier_inv c I view p xs v \<longleftrightarrow>
     p \<le> lastSealedHeight v
   \<and> sealed_at (view (svDb v)) = Some (max p (min (lastSealedHeight v) (lastUnsealedHeight v)))
   \<and> (\<forall>h x. map_of (unsealedBlocksToVerify v) h = Some x \<longrightarrow> hash_at c (view (svDb v)) h = Some x)
   \<and> (\<forall>h. p < h \<and> h \<le> lastUnsealedHeight v \<longrightarrow> (\<exists>y. hash_at c (view (svDb v)) h = Some y))
   \<and> (\<forall>h x. map_of (sealedBlocksToVerify v) h = Some x \<longrightarrow>
        p < h \<and> lastUnsealedHeight v < h \<and> h \<le> lastSealedHeight v \<and> (\<exists>e. SealedIn e \<in> set xs \<and> beHeight e = h \<and> CalculateHash I e = Inr x))
   \<and> (\<forall>h. lastUnsealedHeight v < h \<and> p < h \<and> h \<le> lastSealedHeight v \<longrightarrow> (\<exists>y. map_of (sealedBlocksToVerify v) h = Some y))
   \<and> (\<forall>h. p < h \<and> h \<le> lastSealedHeight v \<and> h \<le> lastUnsealedHeight v \<longrightarrow>
        (\<exists>e x. SealedIn e \<in> set xs \<and> beHeight e = h \<and> CalculateHash I e = Inr x \<and> hash_at c (view (svDb v)) h = Some x))
   \<and> (\<forall>e. UnsealedIn e \<in> set xs \<longrightarrow> beHeight e \<le> lastUnsealedHeight v \<and> (\<exists>x. CalculateHash I e = Inr x \<and>
        hash_at c (view (svDb v)) (beHeight e) = Some x))"

lemma u64_pred: "0 < (h :: u64) \<Longrightarrow> x \<le> h - 1 \<longleftrightarrow> x < h"
proof -
  assume "0 < h"
  then have "unat (h - 1) = unat h - 1" "unat h > 0" by (simp_all add: unat_minus_one word_gt_0 unat_gt_0)
  then show ?thesis by (auto simp: word_le_nat_alt word_less_nat_alt)
qed

lemma u64_pred_less: "0 < (h :: u64) \<Longrightarrow> h - 1 < x \<longleftrightarrow> h \<le> x"
  using u64_pred [of h x] by (auto simp: not_le [symmetric])

lemma onSealedEvents_cases:
  assumes "onSealedEvents P c I e v = Ret (None, v')" "0 < beHeight e"
  obtains x where "lastSealedHeight v = beHeight e - 1" "CalculateHash I e = Inr x"
    "(\<exists>err. getUnsealedEventsHash P c (beHeight e) (v\<lparr>lastSealedHeight := beHeight e\<rparr>) = Inl err) \<or> beHeight e > lastUnsealedHeight v"
    "v' = v\<lparr>lastSealedHeight := beHeight e, sealedBlocksToVerify := AList.update (beHeight e) x (sealedBlocksToVerify v)\<rparr>"
  | x u where "lastSealedHeight v = beHeight e - 1" "CalculateHash I e = Inr x" "beHeight e \<le> lastUnsealedHeight v"
    "getUnsealedEventsHash P c (beHeight e) (v\<lparr>lastSealedHeight := beHeight e\<rparr>) = Inr u"
    "verify_or_exit P (beHeight e) x u (v\<lparr>lastSealedHeight := beHeight e\<rparr>) = Ret (None, v')"
  using assms by (auto simp: onSealedEvents_def Let_def split: if_splits sum.splits)

lemma onUnsealedEvents_cases:
  assumes "onUnsealedEvents P I e v = Ret (None, v')" "0 < beHeight e"
  obtains x d where "lastUnsealedHeight v = beHeight e - 1" "CalculateHash I e = Inr x"
    "EventsHash_Store P (beHeight e) x (svDb v) = (None, d)" "map_of (sealedBlocksToVerify v) (beHeight e) = None"
    "v' = v\<lparr>svDb := d, lastUnsealedHeight := beHeight e,
       unsealedBlocksToVerify := AList.update (beHeight e) x (unsealedBlocksToVerify v)\<rparr>"
  | x d y where "lastUnsealedHeight v = beHeight e - 1" "CalculateHash I e = Inr x"
    "EventsHash_Store P (beHeight e) x (svDb v) = (None, d)" "map_of (sealedBlocksToVerify v) (beHeight e) = Some y"
    "verify_or_exit P (beHeight e) y x (v\<lparr>svDb := d, lastUnsealedHeight := beHeight e\<rparr>) = Ret (None, v')"
  using assms by (auto simp: onUnsealedEvents_def Let_def split: if_splits sum.splits prod.splits option.splits)

lemma getUnsealedEventsHash_hash:
  assumes "pebble_ok P view ops \<and> (\<forall>h. BytesToID c (idBytes h) = h)"
    and "\<And>x. map_of (unsealedBlocksToVerify v) h = Some x \<Longrightarrow> hash_at c (view (svDb v)) h = Some x"
    and "hash_at c (view (svDb v)) h = Some y"
  shows "getUnsealedEventsHash P c h v = Inr y"
  using assms(2,3) pebble_hashes.get_some [OF assms(1), of "svDb v" h y]
  by (auto simp: getUnsealedEventsHash_def split: option.splits)

text \<open>The parts of the invariant, by name.\<close>

lemma verifier_invD:
  assumes "verifier_inv c I view p xs v"
  shows verifier_inv_p: "p \<le> lastSealedHeight v"
    and verifier_inv_processed: "sealed_at (view (svDb v)) = Some (max p (min (lastSealedHeight v) (lastUnsealedHeight v)))"
    and verifier_inv_unsealed: "map_of (unsealedBlocksToVerify v) h = Some x \<Longrightarrow> hash_at c (view (svDb v)) h = Some x"
    and verifier_inv_stored: "p < h \<Longrightarrow> h \<le> lastUnsealedHeight v \<Longrightarrow> \<exists>y. hash_at c (view (svDb v)) h = Some y"
    and verifier_inv_waiting: "map_of (sealedBlocksToVerify v) h = Some x \<Longrightarrow>
        p < h \<and> lastUnsealedHeight v < h \<and> h \<le> lastSealedHeight v \<and> (\<exists>e. SealedIn e \<in> set xs \<and> beHeight e = h \<and> CalculateHash I e = Inr x)"
    and verifier_inv_ahead: "lastUnsealedHeight v < h \<Longrightarrow> p < h \<Longrightarrow> h \<le> lastSealedHeight v \<Longrightarrow> \<exists>y. map_of (sealedBlocksToVerify v) h = Some y"
    and verifier_inv_verified: "p < h \<Longrightarrow> h \<le> lastSealedHeight v \<Longrightarrow> h \<le> lastUnsealedHeight v \<Longrightarrow>
        \<exists>e x. SealedIn e \<in> set xs \<and> beHeight e = h \<and> CalculateHash I e = Inr x \<and> hash_at c (view (svDb v)) h = Some x"
    and verifier_inv_indexed: "UnsealedIn e \<in> set xs \<Longrightarrow> beHeight e \<le> lastUnsealedHeight v \<and> (\<exists>x. CalculateHash I e = Inr x \<and>
        hash_at c (view (svDb v)) (beHeight e) = Some x)"
  using assms unfolding verifier_inv_def by blast+

lemma verifier_invI:
  assumes "p \<le> lastSealedHeight v"
    and "sealed_at (view (svDb v)) = Some (max p (min (lastSealedHeight v) (lastUnsealedHeight v)))"
    and "\<And>h x. map_of (unsealedBlocksToVerify v) h = Some x \<Longrightarrow> hash_at c (view (svDb v)) h = Some x"
    and "\<And>h. p < h \<Longrightarrow> h \<le> lastUnsealedHeight v \<Longrightarrow> \<exists>y. hash_at c (view (svDb v)) h = Some y"
    and "\<And>h x. map_of (sealedBlocksToVerify v) h = Some x \<Longrightarrow>
        p < h \<and> lastUnsealedHeight v < h \<and> h \<le> lastSealedHeight v \<and> (\<exists>e. SealedIn e \<in> set xs \<and> beHeight e = h \<and> CalculateHash I e = Inr x)"
    and "\<And>h. lastUnsealedHeight v < h \<Longrightarrow> p < h \<Longrightarrow> h \<le> lastSealedHeight v \<Longrightarrow> \<exists>y. map_of (sealedBlocksToVerify v) h = Some y"
    and "\<And>h. p < h \<Longrightarrow> h \<le> lastSealedHeight v \<Longrightarrow> h \<le> lastUnsealedHeight v \<Longrightarrow>
        \<exists>e x. SealedIn e \<in> set xs \<and> beHeight e = h \<and> CalculateHash I e = Inr x \<and> hash_at c (view (svDb v)) h = Some x"
    and "\<And>e. UnsealedIn e \<in> set xs \<Longrightarrow> beHeight e \<le> lastUnsealedHeight v \<and> (\<exists>x. CalculateHash I e = Inr x \<and>
        hash_at c (view (svDb v)) (beHeight e) = Some x)"
  shows "verifier_inv c I view p xs v"
  unfolding verifier_inv_def
  by (intro conjI allI; (elim conjE)?; (intro impI)?; (elim conjE)?; (rule assms; assumption)?)

lemma sealed_step_inv:
  assumes ok: "pebble_ok P view ops \<and> (\<forall>h. BytesToID c (idBytes h) = h)"
    and inv: "verifier_inv c I view p xs v" and pos: "0 < beHeight e"
    and step: "onSealedEvents P c I e v = Ret (None, v')"
  shows "verifier_inv c I view p (xs @ [SealedIn e]) v'"
  using step pos
proof (cases rule: onSealedEvents_cases)
  case (1 x)
  let ?h = "beHeight e"
  have p: "p < ?h" using verifier_inv_p [OF inv] pos by (simp add: 1(1) u64_pred)
  have lu: "lastUnsealedHeight v < ?h"
  proof (rule ccontr)
    assume "\<not> ?thesis"
    then obtain y where "hash_at c (view (svDb v)) ?h = Some y" using verifier_inv_stored [OF inv p] by (auto simp: not_less)
    then have "getUnsealedEventsHash P c ?h (v\<lparr>lastSealedHeight := ?h\<rparr>) = Inr y"
      using verifier_inv_unsealed [OF inv] by (intro getUnsealedEventsHash_hash [OF ok]) auto
    with 1(3) \<open>\<not> ?thesis\<close> show False by auto
  qed
  then have min: "min ?h (lastUnsealedHeight v) = min (lastSealedHeight v) (lastUnsealedHeight v)"
    using pos u64_pred [OF pos, of "lastUnsealedHeight v"] by (simp add: min_absorb2 1(1))
  show ?thesis
  proof (rule verifier_invI)
    show "sealed_at (view (svDb v')) = Some (max p (min (lastSealedHeight v') (lastUnsealedHeight v')))"
      using verifier_inv_processed [OF inv] by (simp add: 1(4) min)
    fix h show "lastUnsealedHeight v' < h \<Longrightarrow> p < h \<Longrightarrow> h \<le> lastSealedHeight v' \<Longrightarrow> \<exists>y. map_of (sealedBlocksToVerify v') h = Some y"
      using verifier_inv_ahead [OF inv, of h] u64_pred [OF pos, of h] by (cases "h = ?h") (auto simp: 1(1,4))
    show "p < h \<Longrightarrow> h \<le> lastSealedHeight v' \<Longrightarrow> h \<le> lastUnsealedHeight v' \<Longrightarrow>
        \<exists>e' x. SealedIn e' \<in> set (xs @ [SealedIn e]) \<and> beHeight e' = h \<and> CalculateHash I e' = Inr x \<and> hash_at c (view (svDb v')) h = Some x"
      using verifier_inv_verified [OF inv, of h] u64_pred [OF pos, of h] lu by (cases "h = ?h") (auto simp: 1(1,4))
  qed (use p lu pos verifier_inv_p [OF inv] in \<open>auto simp: 1(1,2,4) u64_pred split: if_splits
      dest: verifier_inv_unsealed [OF inv] verifier_inv_stored [OF inv] verifier_inv_waiting [OF inv]
        verifier_inv_indexed [OF inv]\<close>)
next
  case (2 x u)
  let ?h = "beHeight e"
  have p: "p < ?h" using verifier_inv_p [OF inv] pos by (simp add: 2(1) u64_pred)
  note v' = verify_or_exit_ok [OF ok 2(5), simplified]
  obtain y where y: "hash_at c (view (svDb v)) ?h = Some y" using verifier_inv_stored [OF inv p 2(3)] by blast
  have "getUnsealedEventsHash P c ?h (v\<lparr>lastSealedHeight := ?h\<rparr>) = Inr y"
    using verifier_inv_unsealed [OF inv] y by (intro getUnsealedEventsHash_hash [OF ok]) auto
  with 2(4) v' y have xy: "hash_at c (view (svDb v')) ?h = Some x" by simp
  have none: "map_of (sealedBlocksToVerify v) ?h = None"
    using verifier_inv_waiting [OF inv, of ?h] 2(3) by (cases "map_of (sealedBlocksToVerify v) ?h") auto
  show ?thesis
  proof (rule verifier_invI)
    show "sealed_at (view (svDb v')) = Some (max p (min (lastSealedHeight v') (lastUnsealedHeight v')))"
      using v' p 2(3) by (auto simp: max_def min_def)
    fix h show "p < h \<Longrightarrow> h \<le> lastSealedHeight v' \<Longrightarrow> h \<le> lastUnsealedHeight v' \<Longrightarrow>
        \<exists>e' x. SealedIn e' \<in> set (xs @ [SealedIn e]) \<and> beHeight e' = h \<and> CalculateHash I e' = Inr x \<and> hash_at c (view (svDb v')) h = Some x"
      using verifier_inv_verified [OF inv, of h] v' xy 2(2) u64_pred [OF pos, of h]
      by (cases "h = ?h") (auto simp: 2(1))
    show "lastUnsealedHeight v' < h \<Longrightarrow> p < h \<Longrightarrow> h \<le> lastSealedHeight v' \<Longrightarrow> \<exists>y. map_of (sealedBlocksToVerify v') h = Some y"
      using v' 2(3) by auto
    show "p < h \<Longrightarrow> h \<le> lastUnsealedHeight v' \<Longrightarrow> \<exists>y. hash_at c (view (svDb v')) h = Some y"
      using verifier_inv_stored [OF inv, of h] v' by simp
    fix z show "map_of (unsealedBlocksToVerify v') h = Some z \<Longrightarrow> hash_at c (view (svDb v')) h = Some z"
      using verifier_inv_unsealed [OF inv, of h z] v' by (auto split: if_splits)
    show "map_of (sealedBlocksToVerify v') h = Some z \<Longrightarrow> p < h \<and> lastUnsealedHeight v' < h \<and> h \<le> lastSealedHeight v'
        \<and> (\<exists>e'. SealedIn e' \<in> set (xs @ [SealedIn e]) \<and> beHeight e' = h \<and> CalculateHash I e' = Inr z)"
      using verifier_inv_waiting [OF inv, of h z] v' u64_pred [OF pos, of h] by (auto simp: 2(1) split: if_splits)
    fix e' show "UnsealedIn e' \<in> set (xs @ [SealedIn e]) \<Longrightarrow> beHeight e' \<le> lastUnsealedHeight v'
        \<and> (\<exists>x. CalculateHash I e' = Inr x \<and> hash_at c (view (svDb v')) (beHeight e') = Some x)"
      using verifier_inv_indexed [OF inv, of e'] v' by auto
  qed (use p v' in simp)
qed

lemma unsealed_step_inv:
  assumes ok: "pebble_ok P view ops \<and> (\<forall>h. BytesToID c (idBytes h) = h)"
    and inv: "verifier_inv c I view p xs v" and pos: "0 < beHeight e"
    and step: "onUnsealedEvents P I e v = Ret (None, v')"
  shows "verifier_inv c I view p (xs @ [UnsealedIn e]) v'"
  using step pos
proof (cases rule: onUnsealedEvents_cases)
  case (1 x d)
  let ?h = "beHeight e"
  note d = pebble_hashes.store_ok [OF ok 1(3)]
  have out: "\<not> (p < ?h \<and> ?h \<le> lastSealedHeight v)"
    using verifier_inv_ahead [OF inv, of ?h] 1(4) u64_pred_less [OF pos, of ?h] by (auto simp: 1(1))
  have pred: "lastUnsealedHeight v < y \<longleftrightarrow> ?h \<le> y" "y \<le> lastUnsealedHeight v \<longleftrightarrow> y < ?h" for y
    using u64_pred [OF pos, of y] u64_pred_less [OF pos, of y] by (simp_all add: 1(1))
  have min: "max p (min (lastSealedHeight v) ?h) = max p (min (lastSealedHeight v) (lastUnsealedHeight v))"
    using out pred(1) [of "lastSealedHeight v"] pred(2) [of "p"] pred(2) [of "lastSealedHeight v"] by (auto simp: max_def min_def not_le)
  show ?thesis
  proof (rule verifier_invI)
    show "sealed_at (view (svDb v')) = Some (max p (min (lastSealedHeight v') (lastUnsealedHeight v')))"
      using verifier_inv_processed [OF inv] d by (simp add: 1(5) min)
    fix h show "p < h \<Longrightarrow> h \<le> lastSealedHeight v' \<Longrightarrow> h \<le> lastUnsealedHeight v' \<Longrightarrow>
        \<exists>e' x. SealedIn e' \<in> set (xs @ [UnsealedIn e]) \<and> beHeight e' = h \<and> CalculateHash I e' = Inr x \<and> hash_at c (view (svDb v')) h = Some x"
      using verifier_inv_verified [OF inv, of h] out d pred(2) [of h] by (cases "h = ?h") (auto simp: 1(5))
    fix y show "map_of (sealedBlocksToVerify v') h = Some y \<Longrightarrow> p < h \<and> lastUnsealedHeight v' < h \<and> h \<le> lastSealedHeight v'
        \<and> (\<exists>e'. SealedIn e' \<in> set (xs @ [UnsealedIn e]) \<and> beHeight e' = h \<and> CalculateHash I e' = Inr y)"
      using verifier_inv_waiting [OF inv, of h y] 1(4) pred(1) [of h] by (cases "h = ?h") (auto simp: 1(5))
    show "map_of (unsealedBlocksToVerify v') h = Some y \<Longrightarrow> hash_at c (view (svDb v')) h = Some y"
      using verifier_inv_unsealed [OF inv, of h y] d by (cases "h = ?h") (auto simp: 1(5))
    show "p < h \<Longrightarrow> h \<le> lastUnsealedHeight v' \<Longrightarrow> \<exists>y. hash_at c (view (svDb v')) h = Some y"
      using verifier_inv_stored [OF inv, of h] d pred(2) [of h] by (cases "h = ?h") (auto simp: 1(5))
    show "lastUnsealedHeight v' < h \<Longrightarrow> p < h \<Longrightarrow> h \<le> lastSealedHeight v' \<Longrightarrow> \<exists>y. map_of (sealedBlocksToVerify v') h = Some y"
      using verifier_inv_ahead [OF inv, of h] pred(1) [of h] by (auto simp: 1(5))
    fix e' show "UnsealedIn e' \<in> set (xs @ [UnsealedIn e]) \<Longrightarrow> beHeight e' \<le> lastUnsealedHeight v'
        \<and> (\<exists>x. CalculateHash I e' = Inr x \<and> hash_at c (view (svDb v')) (beHeight e') = Some x)"
      using verifier_inv_indexed [OF inv, of e'] pred(2) [of "beHeight e'"] d 1(2) by (auto simp: 1(5))
  qed (use verifier_inv_p [OF inv] in \<open>simp add: 1(5)\<close>)
next
  case (2 x d y)
  let ?h = "beHeight e"
  note d = pebble_hashes.store_ok [OF ok 2(3)]
  note w = verify_or_exit_ok [OF ok 2(5), simplified]
  then have v': "y = x" "sealed_at (view (svDb v')) = Some ?h" "lastSealedHeight v' = lastSealedHeight v"
    "lastUnsealedHeight v' = ?h" "unsealedBlocksToVerify v' = AList.delete ?h (unsealedBlocksToVerify v)"
    "sealedBlocksToVerify v' = AList.delete ?h (sealedBlocksToVerify v)" by auto
  have pred: "lastUnsealedHeight v < z \<longleftrightarrow> ?h \<le> z" "z \<le> lastUnsealedHeight v \<longleftrightarrow> z < ?h" for z
    using u64_pred [OF pos, of z] u64_pred_less [OF pos, of z] by (simp_all add: 2(1))
  note wait = verifier_inv_waiting [OF inv 2(4)]
  have hash: "hash_at c (view (svDb v')) = (hash_at c (view (svDb v)))(?h \<mapsto> x)" using d w by simp
  show ?thesis
  proof (rule verifier_invI)
    show "sealed_at (view (svDb v')) = Some (max p (min (lastSealedHeight v') (lastUnsealedHeight v')))"
      using v' wait by (auto simp: max_def min_def)
    fix h show "p < h \<Longrightarrow> h \<le> lastSealedHeight v' \<Longrightarrow> h \<le> lastUnsealedHeight v' \<Longrightarrow>
        \<exists>e' x. SealedIn e' \<in> set (xs @ [UnsealedIn e]) \<and> beHeight e' = h \<and> CalculateHash I e' = Inr x \<and> hash_at c (view (svDb v')) h = Some x"
      using verifier_inv_verified [OF inv, of h] wait v' hash pred(2) [of h] by (cases "h = ?h") auto
    fix z show "map_of (sealedBlocksToVerify v') h = Some z \<Longrightarrow> p < h \<and> lastUnsealedHeight v' < h \<and> h \<le> lastSealedHeight v'
        \<and> (\<exists>e'. SealedIn e' \<in> set (xs @ [UnsealedIn e]) \<and> beHeight e' = h \<and> CalculateHash I e' = Inr z)"
      using verifier_inv_waiting [OF inv, of h z] v' pred(1) [of h] by (cases "h = ?h") auto
    show "map_of (unsealedBlocksToVerify v') h = Some z \<Longrightarrow> hash_at c (view (svDb v')) h = Some z"
      using verifier_inv_unsealed [OF inv, of h z] v' hash by (cases "h = ?h") auto
    show "p < h \<Longrightarrow> h \<le> lastUnsealedHeight v' \<Longrightarrow> \<exists>y. hash_at c (view (svDb v')) h = Some y"
      using verifier_inv_stored [OF inv, of h] v' hash pred(2) [of h] by (cases "h = ?h") auto
    show "lastUnsealedHeight v' < h \<Longrightarrow> p < h \<Longrightarrow> h \<le> lastSealedHeight v' \<Longrightarrow> \<exists>y. map_of (sealedBlocksToVerify v') h = Some y"
      using verifier_inv_ahead [OF inv, of h] v' pred(1) [of h] by auto
    fix e' show "UnsealedIn e' \<in> set (xs @ [UnsealedIn e]) \<Longrightarrow> beHeight e' \<le> lastUnsealedHeight v'
        \<and> (\<exists>x. CalculateHash I e' = Inr x \<and> hash_at c (view (svDb v')) (beHeight e') = Some x)"
      using verifier_inv_indexed [OF inv, of e'] pred(2) [of "beHeight e'"] v' hash 2(2) by auto
  qed (use verifier_inv_p [OF inv] v' in simp)
qed

lemma vruns_inv:
  fixes xs :: "'ev vin list"
  assumes ok: "pebble_ok P view ops \<and> (\<forall>h. BytesToID c (idBytes h) = h)"
    and "vruns P c I v0 xs v" "verifier_inv c I view p ([] :: 'ev vin list) v0" "\<forall>x \<in> set xs. 0 < beHeight (in_events x)"
  shows "verifier_inv c I view p xs v"
  using assms(2,4)
proof (induction rule: vruns.induct)
  case vruns_start
  then show ?case using assms(3) by simp
next
  case (vruns_step xs v x v')
  then show ?case
    using sealed_step_inv [OF ok] unsealed_step_inv [OF ok]
    by (cases x) (auto simp: AddFinalizedBlock_def)
qed

section \<open>Properties\<close>

text \<open>C6: Soundness and progress of the verification, in every interleaving of sealed and
finalized blocks.  The verifier starts at the processed height \<open>p\<close> of the database, with the
hashes of the finalized blocks up to \<open>u\<close> stored.  After any run without an error the processed
height is the lower one of the two streams' heights, and never below \<open>p\<close>; for every height
above \<open>p\<close> up to it a sealed block was received whose hash is the stored one, and the hash of the
finalized block given for that height is the same.\<close>

theorem sealing_verifier_sound:
  fixes xs :: "'ev vin list"
  assumes "pebble_ok P view ops" "\<forall>h. BytesToID c (idBytes h) = h"
    and "sealed_at (view d) = Some p" "\<forall>h. p < h \<and> h \<le> u \<longrightarrow> hash_at c (view d) h \<noteq> None"
    and "v0 = \<lparr>svStartHeight = s, unsealedBlocksToVerify = [], sealedBlocksToVerify = [],
          lastUnsealedHeight = u, lastSealedHeight = p, svDb = d\<rparr>"
    and "vruns P c I v0 xs v" "\<forall>x \<in> set xs. 0 < beHeight (in_events x)"
  shows "ProcessedSealedHeight P (svDb v) = Inr (max p (min (lastSealedHeight v) (lastUnsealedHeight v)))
    \<and> (\<forall>h. p < h \<and> h \<le> lastSealedHeight v \<and> h \<le> lastUnsealedHeight v \<longrightarrow>
        (\<exists>e x. SealedIn e \<in> set xs \<and> beHeight e = h \<and> CalculateHash I e = Inr x
          \<and> EventsHash_GetByHeight P c (svDb v) h = Inr x
          \<and> (\<forall>f. UnsealedIn f \<in> set xs \<and> beHeight f = h \<longrightarrow> CalculateHash I f = Inr x)))"
proof -
  note ok = conjI [OF assms(1,2)]
  have "verifier_inv c I view p ([] :: 'ev vin list) v0"
    by (rule verifier_invI) (use assms(3,4) in \<open>auto simp: assms(5) max_def min_def\<close>)
  note inv = vruns_inv [OF ok assms(6) this assms(7)]
  have "\<exists>e x. SealedIn e \<in> set xs \<and> beHeight e = h \<and> CalculateHash I e = Inr x
          \<and> EventsHash_GetByHeight P c (svDb v) h = Inr x
          \<and> (\<forall>f. UnsealedIn f \<in> set xs \<and> beHeight f = h \<longrightarrow> CalculateHash I f = Inr x)"
    if h: "p < h" "h \<le> lastSealedHeight v" "h \<le> lastUnsealedHeight v" for h
  proof -
    obtain e x where "SealedIn e \<in> set xs" "beHeight e = h" "CalculateHash I e = Inr x" "hash_at c (view (svDb v)) h = Some x"
      using verifier_inv_verified [OF inv h] by blast
    with pebble_hashes.get_some [OF ok] verifier_inv_indexed [OF inv] show ?thesis by fastforce
  qed
  moreover have "ProcessedSealedHeight P (svDb v) = Inr (max p (min (lastSealedHeight v) (lastUnsealedHeight v)))"
    by (rule pebble_hashes.get_sealed_some [OF ok verifier_inv_processed [OF inv]])
  ultimately show ?thesis by blast
qed

text \<open>After a backfill the verifier's start height is moved with \<open>SetStartHeight\<close>, which does
not move the last unsealed height: the first finalized block at the new start height is refused as
out of order, and its hash is stored all the same.\<close>

theorem moved_start_height_rejected:
  assumes "0 < s" "0 < h" "h \<noteq> s" "beHeight events = h" "CalculateHash I events = Inr x"
    and "EventsHash_Store P h x d = (None, d')"
  shows "\<exists>e v. AddFinalizedBlock P I events (SetStartHeight h (NewSealingVerifier s d)) = Ret (Some e, v) \<and> svDb v = d'"
proof -
  have "s - 1 \<noteq> h - 1" using assms(3) by auto
  with assms show ?thesis
    by (simp add: AddFinalizedBlock_def onUnsealedEvents_def SetStartHeight_def NewSealingVerifier_def)
qed

section \<open>The loops\<close>

text \<open>The verifier always resubscribes at the height after the last sealed one.\<close>

lemma Run_step_reconnect:
  assumes "Run_step P c I connect err inp (r, v) = Ret (Continue (r', v'))" "r = lastSealedHeight v + 1"
    and "\<And>e. inp = EventsIn e \<Longrightarrow> 0 < beHeight e"
  shows "r' = lastSealedHeight v' + 1"
proof (cases inp)
  case (EventsIn e)
  with assms(1) have r': "onSealedEvents P c I e v = Ret (None, v')" "r' = beHeight e + 1"
    by (auto simp: Run_step_def gw_result split: option.splits)
  from r'(1) assms(3) [OF EventsIn] have "lastSealedHeight v' = beHeight e"
    by (rule onSealedEvents_cases) (auto simp: verify_or_exit_def verifyBlock_def Let_def split: prod.splits option.splits if_splits)
  with r'(2) show ?thesis by simp
qed (use assms in \<open>auto simp: Run_step_def closed_stream_def split: if_splits option.splits\<close>)

lemma ebind_Blocks_iff: "ebind m f = Blocks \<longleftrightarrow> m = Blocks \<or> (\<exists>x. m = Ret x \<and> f x = Blocks)"
  by (cases m) auto

lemma onSealedEvents_returns: "onSealedEvents P c I e v \<noteq> Blocks"
  by (auto simp: onSealedEvents_def verify_or_exit_def Let_def split: if_splits sum.splits prod.splits option.splits)

lemma sealed_range_returns: "sealed_range P c I xs v \<noteq> Blocks"
proof (induction xs arbitrary: v)
  case Nil
  then show ?case by simp
next
  case (Cons x xs)
  obtain b t where x: "x = (b, t)" by (cases x)
  show ?case
    using Cons.IH onSealedEvents_returns [of P c I "b\<lparr>beEvents := beEvents b @ beEvents t\<rparr>" v]
    by (cases "onSealedEvents P c I (b\<lparr>beEvents := beEvents b @ beEvents t\<rparr>) v") (auto simp: x split: option.splits)
qed

text \<open>Each range starts above the one before, as long as its end does not wrap.\<close>

lemma next_range:
  fixes start root :: u64
  assumes "start < root" and b: "unat root < 2 ^ 64 - 250"
    and "endHeight = (if start + 249 \<ge> root then root - 1 else start + 249)"
  shows "start < endHeight + 1 \<and> endHeight + 1 \<le> root"
proof -
  have "unat start < unat root" using assms(1) by (simp add: word_less_nat_alt)
  then have sum: "unat (start + 249) = unat start + 249" using b by (simp add: unat_word_ariths)
  show ?thesis
  proof (cases "start + 249 \<ge> root")
    case True
    then show ?thesis using assms by simp
  next
    case False
    then have "unat (start + 249 + 1) = unat start + 250" using sum b by (simp add: unat_word_ariths word_le_nat_alt)
    with False assms(3) sum show ?thesis by (auto simp: word_le_nat_alt word_less_nat_alt)
  qed
qed

text \<open>C27: The backfill of the verifier ends: from a start height of a past spork, with the spork
root not within the last 250 heights, the loop over ranges of 250 blocks returns whatever the
access nodes answer.\<close>

theorem backfill_returns:
  assumes "start < currentSporkRootHeight cl" "unat (currentSporkRootHeight cl) < 2 ^ 64 - 250"
  shows "verifier_backfill P c I N cl blockType txType start v \<noteq> Blocks"
proof -
  have "backfill_loop n P c I N cl blockType txType root start v \<noteq> Blocks"
    if "unat root - unat start < n" "start < root" "unat root < 2 ^ 64 - 250" for n root start v
    using that
  proof (induction n arbitrary: start v)
    case 0
    then show ?case by simp
  next
    case (Suc n)
    define e where "e = (if start + 249 \<ge> root then root - 1 else start + 249)"
    have nx: "start < e + 1" "e + 1 \<le> root" using next_range [OF Suc.prems(2,3) e_def] by blast+
    then have "unat root - unat (e + 1) < n"
      using Suc.prems(1) by (auto simp: word_less_nat_alt word_le_nat_alt)
    then have IH: "\<not> root \<le> e + 1 \<Longrightarrow> backfill_loop n P c I N cl blockType txType root (e + 1) v' \<noteq> Blocks" for v'
      using Suc.IH [of "e + 1" v'] Suc.prems(3) by (simp add: not_le)
    show ?case
      unfolding backfill_loop.simps Let_def maxRangeForGetEvents_def e_def [symmetric]
      by (auto simp: ebind_Blocks_iff sealed_range_returns IH split: sum.splits option.splits if_splits)
  qed
  then show ?thesis using assms by (simp add: verifier_backfill_def del: backfill_loop.simps)
qed

section \<open>Order of events\<close>

lemma sort_key_unique:
  assumes "distinct (map k xs)" "mset ys = mset xs"
  shows "sort_key k ys = sort_key k xs"
proof -
  have "distinct (map k (sort_key k xs))" "distinct (map k (sort_key k ys))" "set (sort_key k xs) = set (sort_key k ys)"
    using assms mset_eq_imp_distinct_iff [of "map k (sort_key k xs)" "map k xs"]
      mset_eq_imp_distinct_iff [of "map k (sort_key k ys)" "map k xs"] mset_eq_setD [OF assms(2)] by auto
  moreover have "inj_on k (set (sort_key k ys) \<union> set (sort_key k xs))"
    using assms mset_eq_setD [OF assms(2)] by (simp add: distinct_map)
  ultimately show ?thesis
    by (intro map_sorted_distinct_set_unique [of k]) auto
qed

lemma unat_of_int_u32: "0 \<le> i \<Longrightarrow> i < 2 ^ 32 \<Longrightarrow> unat (of_int i :: 32 word) = nat i"
  by (simp add: unat_eq_nat_uint uint_word_of_int take_bit_int_eq_self)

text \<open>The hash of a block's events does not depend on the order in which they were received:
two lists with the same events, with distinct positions below the 32-bit limit, have the same hash.
Sealed and finalized events of a block can therefore be compared by their hashes.\<close>

theorem CalculateHash_order_independent:
  assumes "mset es = mset (beEvents events)" "distinct_positions (beEvents events)"
    and "\<forall>e \<in> set (beEvents events). 0 \<le> evTransactionIndex e \<and> evTransactionIndex e < 2 ^ 32
           \<and> 0 \<le> evEventIndex e \<and> evEventIndex e < 2 ^ 32"
    and "\<forall>b. \<exists>i. ByteSliceToId I b = Inr i"
  shows "CalculateHash I (events\<lparr>beEvents := es\<rparr>) = CalculateHash I events"
proof -
  obtain g where g: "\<And>b. ByteSliceToId I b = Inr (g b)" using assms(4) by metis
  define f :: "'a FlowEvent \<Rightarrow> flowGoEvent" where "f e =
    \<lparr>fgType = evType e, fgTransactionID = g (idBytes (evTransactionID e)), fgTransactionIndex = of_int (evTransactionIndex e),
          fgEventIndex = of_int (evEventIndex e), fgPayload = evPayload e\<rparr>" for e
  let ?k = "\<lambda>e. (unat (fgTransactionIndex e), unat (fgEventIndex e))"
  have conv: "rmap (convert_event I) xs = Inr (map f xs)" for xs
    by (rule rmap_total) (simp add: convert_event_def g f_def)
  have key: "?k (f e) = (nat (evTransactionIndex e), nat (evEventIndex e))" if "e \<in> set (beEvents events)" for e
    using assms(3) that by (auto simp: f_def unat_of_int_u32)
  have "inj_on (?k \<circ> f) (set (beEvents events))"
    using assms(2,3) by (auto simp: distinct_positions_def distinct_map inj_on_def key eq_nat_nat_iff)
  then have inj: "inj_on ?k (set (map f (beEvents events)))" by (auto dest: inj_on_imageI)
  have "distinct (map (?k \<circ> f) (beEvents events))"
    using \<open>inj_on (?k \<circ> f) _\<close> assms(2) by (auto simp: distinct_positions_def distinct_map)
  then have dist: "distinct (map ?k (map f (beEvents events)))" by simp
  have "sort_key ?k (map f es) = sort_key ?k (map f (beEvents events))"
    using assms(1) by (intro sort_key_unique [OF dist]) simp
  then show ?thesis by (simp add: CalculateHash_def convertFlowBlockEvents_def conv)
qed

section \<open>Witnesses\<close>

definition demo_ids :: id_api where
  "demo_ids = \<lparr>ByteSliceToId = (\<lambda>b. Inr (of_nat (unbe b))), MakeID = (\<lambda>e. of_nat (length (fgEvents e)) + 1)\<rparr>"

lemma demo_hash: "CalculateHash demo_ids (demo_events es) = Inr (of_nat (length es) + 1)"
proof -
  have "rmap (convert_event demo_ids) es = Inr (map (\<lambda>e. \<lparr>fgType = evType e,
      fgTransactionID = of_nat (unbe (idBytes (evTransactionID e))), fgTransactionIndex = of_int (evTransactionIndex e),
      fgEventIndex = of_int (evEventIndex e), fgPayload = evPayload e\<rparr>) es)"
    by (rule rmap_total) (simp add: convert_event_def demo_ids_def)
  then show ?thesis
    by (simp add: CalculateHash_def convertFlowBlockEvents_def) (simp add: demo_ids_def demo_events_def)
qed

lemma mem_SetProcessedSealedHeight:
  "SetProcessedSealedHeight mem_pebble h d = (None, AList.update [sealedEventsHeightKey] (uint64Bytes h) d)"
proof -
  have "BatchSetProcessedSealedHeight mem_pebble h [] = Inr [OpSet [sealedEventsHeightKey] (uint64Bytes h)]"
    by (simp add: BatchSetProcessedSealedHeight_def mem_storage_set)
  from mem_WithBatch [where f = "BatchSetProcessedSealedHeight mem_pebble h", OF this] show ?thesis
    by (simp add: SetProcessedSealedHeight_def)
qed

definition demo_verifier :: "(bytes \<times> bytes) list SealingVerifier" where
  "demo_verifier = \<lparr>svStartHeight = 10, unsealedBlocksToVerify = [], sealedBlocksToVerify = [],
     lastUnsealedHeight = 9, lastSealedHeight = 9, svDb = [([sealedEventsHeightKey], uint64Bytes 9)]\<rparr>"

lemma demo_run: "\<exists>v. vruns mem_pebble hash_codec demo_ids demo_verifier
    [SealedIn (demo_events demo_txs), UnsealedIn (demo_events (rev demo_txs))] v \<and> lastSealedHeight v = 10 \<and> lastUnsealedHeight v = 10"
proof -
  let ?e = "demo_events demo_txs" and ?f = "demo_events (rev demo_txs)"
  let ?v1 = "demo_verifier\<lparr>lastSealedHeight := 10, sealedBlocksToVerify := [(10, of_nat (length demo_txs) + 1)]\<rparr>"
  have h: "beHeight ?e = 10" "beHeight ?f = 10" by (simp_all add: demo_events_def)
  have "vstep mem_pebble hash_codec demo_ids (SealedIn ?e) demo_verifier = Ret (None, ?v1)"
    by (simp add: onSealedEvents_def h demo_hash demo_verifier_def Let_def)
  from vruns_step [OF vruns_start this]
  have r: "vruns mem_pebble hash_codec demo_ids demo_verifier [SealedIn ?e] ?v1" by simp
  obtain v where v: "vstep mem_pebble hash_codec demo_ids (UnsealedIn ?f) ?v1 = Ret (None, v)"
      "lastSealedHeight v = 10" "lastUnsealedHeight v = 10"
    by (simp add: AddFinalizedBlock_def onUnsealedEvents_def h demo_hash demo_verifier_def Let_def
        mem_EventsHash_Store verify_or_exit_def verifyBlock_def mem_SetProcessedSealedHeight)
  from vruns_step [OF r this(1)] this(2,3) show ?thesis by auto
qed

lemma sealing_verifier_sound_witness:
  "\<exists>v. vruns mem_pebble hash_codec demo_ids demo_verifier
      [SealedIn (demo_events demo_txs), UnsealedIn (demo_events (rev demo_txs))] v
    \<and> ProcessedSealedHeight mem_pebble (svDb v) = Inr 10"
proof -
  obtain v where v: "vruns mem_pebble hash_codec demo_ids demo_verifier
      [SealedIn (demo_events demo_txs), UnsealedIn (demo_events (rev demo_txs))] v"
    "lastSealedHeight v = 10" "lastUnsealedHeight v = 10" using demo_run by blast
  have "sealed_at (map_of [([sealedEventsHeightKey], uint64Bytes 9)]) = Some 9" by (simp add: sealed_at_def decoded_def)
  from sealing_verifier_sound [OF mem_pebble_ok hash_codec_ok this _ demo_verifier_def v(1)] v
  have "ProcessedSealedHeight mem_pebble (svDb v) = Inr 10"
    by (simp add: demo_events_def) (metis leD)
  with v(1) show ?thesis by blast
qed

lemma moved_start_height_rejected_witness:
  "\<exists>e v. AddFinalizedBlock mem_pebble demo_ids (demo_events demo_txs) (SetStartHeight 10 (NewSealingVerifier 4 [])) = Ret (Some e, v)"
  using moved_start_height_rejected [of 4 10 "demo_events demo_txs" demo_ids, OF _ _ _ _ demo_hash mem_EventsHash_Store]
  by (simp add: demo_events_def) blast

lemma backfill_returns_witness:
  "verifier_backfill mem_pebble hash_codec demo_ids demo_nodes demo_client [] [] 15 demo_verifier \<noteq> Blocks"
  by (rule backfill_returns) (simp_all add: demo_client_def)

lemma CalculateHash_order_independent_witness:
  "CalculateHash demo_ids (demo_events (rev demo_txs)) = CalculateHash demo_ids (demo_events demo_txs)"
proof -
  have "\<forall>b. \<exists>i. ByteSliceToId demo_ids b = Inr i" by (simp add: demo_ids_def)
  from CalculateHash_order_independent [OF _ _ _ this, of "rev demo_txs" "demo_events demo_txs"] show ?thesis
    by (simp add: demo_events_def distinct_positions_def demo_txs_def demo_event_def)
qed

end
