(* ===== verification/Event_Subscriber.thy ===== *)
theory Event_Subscriber
  imports Sealing_Verifier
begin

text \<open>
  The subscriber to EVM events, \<^verbatim>\<open>services/ingestion/event_subscriber.go\<close>: the backfill of past
  sporks, the live stream with its reconnections, and the recovery from blocks whose events are
  incomplete.  What a goroutine sends on its channel is a list of outputs, the calls of the key
  store's lock a list of notifications.
\<close>

section \<open>State\<close>

text \<open>\<open>client\<close>, \<open>chain\<close> and the decoder are the environment of a subscriber.\<close>

record ('c, 'ev, 'v, 's) sub_env =
  seNodes :: "('c, 'ev, 'v, 's) access_api"
  seClient :: "'c CrossSporkClient"
  seCodec :: "'ev codec"
  blockExecutedEvent :: string
  transactionExecutedEvent :: string

record 'ev RPCEventSubscriber =
  rsHeight :: u64
  recovery :: bool
  recoveredEvents :: "'ev FlowEvent list"

definition NewRPCEventSubscriber :: "u64 \<Rightarrow> 'ev RPCEventSubscriber" where
  "NewRPCEventSubscriber startHeight = \<lparr>rsHeight = startHeight, recovery = False, recoveredEvents = []\<rparr>"

datatype notification = NotifiedTransaction flow_id | NotifiedBlock BlockHeader

definition blocksFilter :: "('c, 'ev, 'v, 's) sub_env \<Rightarrow> string list" where
  "blocksFilter E = [blockExecutedEvent E, transactionExecutedEvent E]"

abbreviation is_err :: "err + 'a \<Rightarrow> bool" where
  "is_err r \<equiv> isl r"

definition misses :: "err \<Rightarrow> err + 'a \<Rightarrow> bool" where
  "misses t r \<longleftrightarrow> (case r of Inl e \<Rightarrow> errors_Is e t | Inr _ \<Rightarrow> False)"

section \<open>Recovery\<close>

definition accumulateEventsMissingBlock ::
    "'ev codec \<Rightarrow> 'ev FlowBlockEvents \<Rightarrow> 'ev RPCEventSubscriber \<Rightarrow> (err + 'ev CadenceEvents) \<times> 'ev RPCEventSubscriber" where
  "accumulateEventsMissingBlock c events r =
     (let all_events = recoveredEvents r @ sort_events (beEvents events);
          recovered = NewMultiBlockEvents c (events\<lparr>beEvents := all_events\<rparr>);
          rec = is_err recovered
      in (recovered, r\<lparr>recovery := rec, recoveredEvents := (if rec then all_events else [])\<rparr>))"

fun fetch_types ::
    "('c, 'ev, 'v, 's) sub_env \<Rightarrow> u64 \<Rightarrow> string list \<Rightarrow> 'ev FlowEvent list \<Rightarrow> err + 'ev FlowEvent list" where
  "fetch_types E height [] evs = Inr evs"
| "fetch_types E height (t # ts) evs =
     rbind (GetEventsForHeightRange (seNodes E) (seClient E) t height height) (\<lambda>recovered.
     case recovered of
       [b] \<Rightarrow> fetch_types E height ts (evs @ beEvents b)
     | _ \<Rightarrow> Inl (Errorf ''received %d but expected 1 event for height %d''
              [FNum (length recovered), FNum (unat height)] []))"

definition fetchMissingData ::
    "('c, 'ev, 'v, 's) sub_env \<Rightarrow> 'ev FlowBlockEvents \<Rightarrow> err + 'ev CadenceEvents" where
  "fetchMissingData E blockEvents =
     (case fetch_types E (beHeight blockEvents) (blocksFilter E) [] of
        Inl e \<Rightarrow> NewBlockEventsError e
      | Inr evs \<Rightarrow> NewSingleBlockEvents (seCodec E) (blockEvents\<lparr>beEvents := evs\<rparr>))"

text \<open>
  \<open>err\<close> is \<open>None\<close> for a nil error, which the callers pass only in recovery mode, so that the
  last case, an event with neither error nor content, does not arise.
\<close>

definition recover ::
    "('c, 'ev, 'v, 's) sub_env \<Rightarrow> 'ev FlowBlockEvents \<Rightarrow> err option \<Rightarrow> 'ev RPCEventSubscriber
      \<Rightarrow> (err + 'ev CadenceEvents) \<times> 'ev RPCEventSubscriber" where
  "recover E events err r =
     (if (\<exists>e. err = Some e \<and> errors_Is e ErrMissingBlock) \<or> recovery r
      then accumulateEventsMissingBlock (seCodec E) events r
      else case err of
        Some e \<Rightarrow> if errors_Is e ErrMissingTransactions then (fetchMissingData E events, r)
                  else (NewBlockEventsError e, r)
      | None \<Rightarrow> (Inl (New_err ''nil''), r))"

section \<open>Live stream\<close>

text \<open>
  The state of the loop is the last received height and the subscriber.  \<open>NewSingleBlockEvents\<close>
  sorts the events of the block in place, so that the later steps see them sorted.
\<close>

definition stream_closed :: "bool \<Rightarrow> err + 'ev CadenceEvents" where
  "stream_closed ctxErr = NewBlockEventsError (if ctxErr then ContextCanceled else ErrDisconnected)"

definition subscribe_event ::
    "('c, 'ev, 'v, 's) sub_env \<Rightarrow> 'ev FlowBlockEvents \<Rightarrow> 'ev RPCEventSubscriber
      \<Rightarrow> (err + 'ev CadenceEvents) list \<times> notification list \<times> 'ev RPCEventSubscriber" where
  "subscribe_event E b r =
     (let blockEvents = b\<lparr>beEvents := sort_events (beEvents b)\<rparr>;
          evmEvents = NewSingleBlockEvents (seCodec E) b;
          notes = map (\<lambda>evt. NotifiedTransaction (evTransactionID evt)) (beEvents blockEvents)
            @ [NotifiedBlock \<lparr>bhID = beBlockID b, bhParentID = 0, bhHeight = beHeight b, bhTimestamp = 0\<rparr>]
      in if is_err evmEvents \<or> recovery r then
           (let (recovered, r') = recover E blockEvents (case evmEvents of Inl e \<Rightarrow> Some e | Inr _ \<Rightarrow> None) r in
            if recovery r' then ([], [], r') else ([recovered], notes, r'))
         else ([evmEvents], notes, r))"

definition subscribe_step ::
    "('c, 'ev, 'v, 's) sub_env \<Rightarrow> (u64 \<Rightarrow> err option) \<Rightarrow> 'ev run_input \<Rightarrow> u64 \<times> 'ev RPCEventSubscriber
      \<Rightarrow> (err + 'ev CadenceEvents) list \<times> notification list \<times> (u64 \<times> 'ev RPCEventSubscriber) run_result" where
  "subscribe_step E connect inp s = (case s of (lastReceivedHeight, r) \<Rightarrow> (case inp of
      CtxDone \<Rightarrow> ([], [], Return None)
    | DoneSignal \<Rightarrow> ([], [], Continue s)
    | EventsClosed ctxErr \<Rightarrow> ([stream_closed ctxErr], [], Return None)
    | EventsIn b \<Rightarrow>
        (let (outs, notes, r') = subscribe_event E b r in (outs, notes, Continue (beHeight b, r')))
    | ErrClosed ctxErr \<Rightarrow> ([stream_closed ctxErr], [], Return None)
    | ErrIn e \<Rightarrow>
        if status_Code e \<in> {NotFound, DeadlineExceeded, Internal} then
          (case connect (lastReceivedHeight + 1) of
             Some e' \<Rightarrow> ([NewBlockEventsError (Errorf ''failed to resubscribe for events on height: %d, with: %w''
               [FNum (unat (lastReceivedHeight + 1))] [e'])], [], Return None)
           | None \<Rightarrow> ([], [], Continue s))
        else ([NewBlockEventsError (Errorf ''%w: %w'' [] [ErrDisconnected, e])], [], Return None)))"

text \<open>The beginning of \<^verbatim>\<open>subscribe\<close>: the height must exist and the first connection succeed.\<close>

definition subscribe_start ::
    "('c, 'ev, 'v, 's) sub_env \<Rightarrow> u64 \<Rightarrow> err + unit" where
  "subscribe_start E height =
     rbind (rwrap (\<lambda>e. Errorf ''failed to subscribe for events, the block height %d does not exist: %w'' [FNum (unat height)] [e])
       (GetBlockHeaderByHeight (seNodes E) (seClient E) height)) (\<lambda>_.
     rbind (rwrap (\<lambda>e. Errorf ''failed to subscribe to events by block height: %d, with: %w'' [FNum (unat height)] [e])
       (SubscribeEventsByBlockHeight (seNodes E) (seClient E) height (blocksFilter E))) (\<lambda>_. Inr ()))"

section \<open>Backfill\<close>

text \<open>
  One pass of \<open>accumulateBlockEvents\<close> over the blocks of a range: the decoded events so far,
  the transaction events collected and the next height; \<open>True\<close> if the call returns.
\<close>

fun accumulate_pass ::
    "'ev codec \<Rightarrow> ('ev FlowBlockEvents \<times> 'ev FlowBlockEvents) list
      \<Rightarrow> (err + 'ev CadenceEvents) \<times> 'ev FlowEvent list \<times> u64
      \<Rightarrow> err + (bool \<times> (err + 'ev CadenceEvents) \<times> 'ev FlowEvent list \<times> u64)" where
  "accumulate_pass c [] s = Inr (False, s)"
| "accumulate_pass c ((b, t) # xs) (evmEvents, transactionEvents, currentHeight) =
     (if beHeight t \<noteq> beHeight b then Inl (Errorf ''transactions and blocks have different height'' [] [])
      else if beEvents b = [] then
        accumulate_pass c xs (evmEvents, transactionEvents @ sort_events (beEvents t), beHeight b + 1)
      else
        (let evmEvents' = NewMultiBlockEvents c (b\<lparr>beEvents := beEvents b @ transactionEvents\<rparr>) in
         if \<not> is_err evmEvents' then Inr (True, evmEvents', transactionEvents, currentHeight)
         else accumulate_pass c xs (evmEvents', transactionEvents, beHeight b + 1)))"

definition get_both ::
    "('c, 'ev, 'v, 's) sub_env \<Rightarrow> u64 \<Rightarrow> u64 \<Rightarrow> err + ('ev FlowBlockEvents \<times> 'ev FlowBlockEvents) list" where
  "get_both E start stop =
     rbind (rwrap (\<lambda>e. Errorf ''failed to get block events: %w'' [] [e])
       (GetEventsForHeightRange (seNodes E) (seClient E) (blockExecutedEvent E) start stop)) (\<lambda>blocks.
     rbind (rwrap (\<lambda>e. Errorf ''failed to get block events: %w'' [] [e])
       (GetEventsForHeightRange (seNodes E) (seClient E) (transactionExecutedEvent E) start stop)) (\<lambda>transactions.
     if length transactions \<noteq> length blocks
     then Inl (Errorf ''transactions and blocks have different length'' [] [])
     else Inr (zip (sort_key beHeight blocks) (sort_key beHeight transactions))))"

text \<open>The loop with a bound; \<open>Blocks\<close> is an exhausted bound.\<close>

fun accumulate_loop ::
    "nat \<Rightarrow> ('c, 'ev, 'v, 's) sub_env \<Rightarrow> (err + 'ev CadenceEvents) \<times> 'ev FlowEvent list \<times> u64
      \<Rightarrow> (err + (err + 'ev CadenceEvents)) exec" where
  "accumulate_loop 0 E s = Blocks"
| "accumulate_loop (Suc n) E (evmEvents, transactionEvents, currentHeight) =
     (if \<not> misses ErrMissingBlock evmEvents then Ret (Inr evmEvents)
      else case get_both E currentHeight (currentHeight + maxRangeForGetEvents) of
        Inl e \<Rightarrow> Ret (Inl e)
      | Inr pairs \<Rightarrow>
         (case accumulate_pass (seCodec E) pairs (evmEvents, transactionEvents, currentHeight) of
            Inl e \<Rightarrow> Ret (Inl e)
          | Inr (True, evmEvents', _) \<Rightarrow> Ret (Inr evmEvents')
          | Inr (False, s') \<Rightarrow> accumulate_loop n E s'))"

definition accumulateBlockEvents ::
    "nat \<Rightarrow> ('c, 'ev, 'v, 's) sub_env \<Rightarrow> 'ev FlowBlockEvents \<Rightarrow> (err + (err + 'ev CadenceEvents)) exec" where
  "accumulateBlockEvents fuel E block =
     accumulate_loop fuel E (NewSingleBlockEvents (seCodec E) block, [], beHeight block)"

text \<open>\<^verbatim>\<open>evmEvents.Events.CadenceHeight()\<close> dereferences a nil pointer when decoding has failed.\<close>

definition next_height :: "err + 'ev CadenceEvents \<Rightarrow> u64 exec" where
  "next_height evmEvents = (case evmEvents of
      Inl _ \<Rightarrow> Panics ''nil pointer dereference''
    | Inr e \<Rightarrow> Ret (CadenceHeight e + 1))"

text \<open>
  The blocks of a range: what is sent, and the next height or an error.  A missing EVM block
  ends the range after the accumulated block.
\<close>

fun backfill_blocks ::
    "nat \<Rightarrow> ('c, 'ev, 'v, 's) sub_env \<Rightarrow> ('ev FlowBlockEvents \<times> 'ev FlowBlockEvents) list \<Rightarrow> u64
      \<Rightarrow> (err + 'ev CadenceEvents) list \<times> (err + u64) exec" where
  "backfill_blocks fuel E [] h = ([], Ret (Inr h))"
| "backfill_blocks fuel E ((b, t) # xs) h =
     (if beHeight t \<noteq> beHeight b then ([], Ret (Inl (Errorf ''transactions and blocks have different height'' [] [])))
      else
        let block = b\<lparr>beEvents := beEvents b @ beEvents t\<rparr>;
            evmEvents = NewSingleBlockEvents (seCodec E) block
        in if misses ErrMissingBlock evmEvents then
             (case accumulateBlockEvents fuel E (block\<lparr>beEvents := sort_events (beEvents block)\<rparr>) of
                Ret (Inl e) \<Rightarrow> ([], Ret (Inl e))
              | Ret (Inr evm) \<Rightarrow> ([evm], ebind (next_height evm) (\<lambda>h'. Ret (Inr h')))
              | Panics m \<Rightarrow> ([], Panics m)
              | Blocks \<Rightarrow> ([], Blocks))
           else (case next_height evmEvents of
               Ret h' \<Rightarrow> (let (outs, r) = backfill_blocks fuel E xs h' in (evmEvents # outs, r))
             | Panics m \<Rightarrow> ([evmEvents], Panics m)
             | Blocks \<Rightarrow> ([evmEvents], Blocks)))"

fun backfill_range ::
    "nat \<Rightarrow> ('c, 'ev, 'v, 's) sub_env \<Rightarrow> u64 \<Rightarrow> u64 \<Rightarrow> (err + 'ev CadenceEvents) list \<times> (err + u64) exec" where
  "backfill_range 0 E fromCadenceHeight latest = ([], Blocks)"
| "backfill_range (Suc n) E fromCadenceHeight latest =
     (if fromCadenceHeight \<le> latest then
        (case get_both E fromCadenceHeight (min (fromCadenceHeight + maxRangeForGetEvents) latest) of
           Inl e \<Rightarrow> ([], Ret (Inl e))
         | Inr pairs \<Rightarrow>
            (case backfill_blocks n E pairs fromCadenceHeight of
               (outs, Ret (Inr h)) \<Rightarrow> (let (outs', r) = backfill_range n E h latest in (outs @ outs', r))
             | (outs, r) \<Rightarrow> (outs, r)))
      else ([], Ret (Inr fromCadenceHeight)))"

definition backfillSporkFromHeight ::
    "nat \<Rightarrow> ('c, 'ev, 'v, 's) sub_env \<Rightarrow> u64 \<Rightarrow> (err + 'ev CadenceEvents) list \<times> (err + u64) exec" where
  "backfillSporkFromHeight fuel E fromCadenceHeight =
     (case GetLatestHeightForSpork (seNodes E) (seClient E) fromCadenceHeight of
        Inl e \<Rightarrow> ([NewBlockEventsError e], Ret (Inl e))
      | Inr latest \<Rightarrow> backfill_range fuel E fromCadenceHeight latest)"

fun backfill ::
    "nat \<Rightarrow> ('c, 'ev, 'v, 's) sub_env \<Rightarrow> u64 \<Rightarrow> (err + 'ev CadenceEvents) list \<times> unit exec" where
  "backfill 0 E fromCadenceHeight = ([], Blocks)"
| "backfill (Suc n) E fromCadenceHeight =
     (if \<not> IsPastSpork (seClient E) fromCadenceHeight then ([], Ret ())
      else case backfillSporkFromHeight n E fromCadenceHeight of
          (outs, Ret (Inr h)) \<Rightarrow> (let (outs', r) = backfill n E h in (outs @ outs', r))
        | (outs, Ret (Inl e)) \<Rightarrow> (outs @ [NewBlockEventsError e], Ret ())
        | (outs, Panics m) \<Rightarrow> (outs, Panics m)
        | (outs, Blocks) \<Rightarrow> (outs, Blocks))"

text \<open>
  The first part of \<^verbatim>\<open>Subscribe\<close>: the backfilled events are forwarded up to the first error,
  which ends the subscription; otherwise the height after the last one is where the live stream
  starts.
\<close>

fun forward :: "(err + 'ev CadenceEvents) list \<Rightarrow> u64 \<Rightarrow> (err + 'ev CadenceEvents) list \<times> u64 option" where
  "forward [] height = ([], Some height)"
| "forward (Inl e # evs) height = ([Inl e], None)"
| "forward (Inr ev # evs) height =
     (let (outs, h) = forward evs (CadenceHeight ev) in (Inr ev # outs, h))"

definition Subscribe_backfill ::
    "nat \<Rightarrow> ('c, 'ev, 'v, 's) sub_env \<Rightarrow> 'ev RPCEventSubscriber
      \<Rightarrow> (err + 'ev CadenceEvents) list \<times> u64 option exec" where
  "Subscribe_backfill fuel E r =
     (if IsPastSpork (seClient E) (rsHeight r) then
        (case backfill fuel E (rsHeight r) of
           (outs, Ret _) \<Rightarrow>
             (let (fwd, h) = forward outs (rsHeight r) in (fwd, Ret (map_option (\<lambda>h. h + 1) h)))
         | (outs, Panics m) \<Rightarrow> (outs, Panics m)
         | (outs, Blocks) \<Rightarrow> (outs, Blocks))
      else ([], Ret (Some (rsHeight r))))"

section \<open>Backfill of complete blocks\<close>

lemma NewSingleBlockEvents_height:
  assumes "NewSingleBlockEvents c b = Inr e" shows "CadenceHeight e = beHeight b"
proof -
  obtain e0 where "decodeCadenceEvents c (b\<lparr>beEvents := sort_events (beEvents b)\<rparr>) = Inr e0" "ceEvents e = ceEvents e0"
    using assms by (auto simp: NewSingleBlockEvents_def NewCadenceEvents_def gw_result split: option.splits)
  with decodeCadenceEvents_ok show ?thesis by (fastforce simp: decoding_ok_def CadenceHeight_def)
qed

text \<open>
  A source of past heights: from \<open>start\<close> up to the spork root, each height belongs to a spork
  with a latest height \<open>L h\<close>; a range within a spork is answered with one entry per height, the
  block events \<open>B h\<close> and the transaction events \<open>T h\<close>, which decode to \<open>D h\<close>.
\<close>

definition past_source ::
    "('c, 'ev, 'v, 's) sub_env \<Rightarrow> u64 \<Rightarrow> (u64 \<Rightarrow> u64) \<Rightarrow> (u64 \<Rightarrow> 'ev FlowBlockEvents) \<Rightarrow> (u64 \<Rightarrow> 'ev FlowBlockEvents)
      \<Rightarrow> (u64 \<Rightarrow> 'ev CadenceEvents) \<Rightarrow> bool" where
  "past_source E start L B T D \<longleftrightarrow>
     (\<forall>h. start \<le> h \<and> IsPastSpork (seClient E) h \<longrightarrow>
        GetLatestHeightForSpork (seNodes E) (seClient E) h = Inr (L h) \<and> h \<le> L h \<and> IsPastSpork (seClient E) (L h)
      \<and> beHeight (B h) = h \<and> beHeight (T h) = h
      \<and> NewSingleBlockEvents (seCodec E) ((B h)\<lparr>beEvents := beEvents (B h) @ beEvents (T h)\<rparr>) = Inr (D h))
   \<and> (\<forall>a b. start \<le> a \<and> a \<le> b \<and> IsPastSpork (seClient E) a \<and> b \<le> L a \<longrightarrow>
        GetEventsForHeightRange (seNodes E) (seClient E) (blockExecutedEvent E) a b = Inr (map B (heights a (b + 1)))
      \<and> GetEventsForHeightRange (seNodes E) (seClient E) (transactionExecutedEvent E) a b = Inr (map T (heights a (b + 1)))
      \<and> L b = L a)"

lemma past_sourceD:
  assumes "past_source E start L B T D" "start \<le> h" "IsPastSpork (seClient E) h"
  shows "GetLatestHeightForSpork (seNodes E) (seClient E) h = Inr (L h)" "h \<le> L h" "IsPastSpork (seClient E) (L h)"
    "beHeight (B h) = h" "beHeight (T h) = h"
    "NewSingleBlockEvents (seCodec E) ((B h)\<lparr>beEvents := beEvents (B h) @ beEvents (T h)\<rparr>) = Inr (D h)"
    "CadenceHeight (D h) = h"
proof -
  show "GetLatestHeightForSpork (seNodes E) (seClient E) h = Inr (L h)" "h \<le> L h" "IsPastSpork (seClient E) (L h)"
    "beHeight (B h) = h" "beHeight (T h) = h"
    and *: "NewSingleBlockEvents (seCodec E) ((B h)\<lparr>beEvents := beEvents (B h) @ beEvents (T h)\<rparr>) = Inr (D h)"
    using assms unfolding past_source_def by blast+
  show "CadenceHeight (D h) = h" using NewSingleBlockEvents_height [OF *] \<open>beHeight (B h) = h\<close> by simp
qed

lemma past_source_same_spork:
  "past_source E start L B T D \<Longrightarrow> start \<le> a \<Longrightarrow> a \<le> b \<Longrightarrow> IsPastSpork (seClient E) a \<Longrightarrow> b \<le> L a \<Longrightarrow> L b = L a"
  unfolding past_source_def by blast

lemma IsPastSpork_mono: "IsPastSpork cl b \<Longrightarrow> a \<le> b \<Longrightarrow> IsPastSpork cl a"
  by (simp add: IsPastSpork_def)

lemma succ_past: "IsPastSpork cl b \<Longrightarrow> b \<noteq> - 1 \<and> b < b + 1"
proof -
  assume "IsPastSpork cl b"
  then have "b \<noteq> - 1" using word_order.extremum [of "currentSporkRootHeight cl"] by (auto simp: IsPastSpork_def)
  with u64_succ_le [OF this, of "b + 1"] show ?thesis by simp
qed

lemma get_both_source:
  assumes "past_source E start L B T D" "start \<le> a" "a \<le> b" "IsPastSpork (seClient E) a" "b \<le> L a"
  shows "get_both E a b = Inr (map (\<lambda>h. (B h, T h)) (heights a (b + 1)))"
proof -
  have past: "IsPastSpork (seClient E) b"
    using past_sourceD(3) [OF assms(1,2,4)] assms(5) by (rule IsPastSpork_mono)
  have h: "start \<le> h \<and> IsPastSpork (seClient E) h" if "h \<in> set (heights a (b + 1))" for h
    using that assms(2) past succ_past [OF past] u64_succ_le [of b h] by (auto simp: in_heights not_le [symmetric] intro: IsPastSpork_mono)
  have "map (beHeight \<circ> B) (heights a (b + 1)) = heights a (b + 1)" "map (beHeight \<circ> T) (heights a (b + 1)) = heights a (b + 1)"
    using h past_sourceD(4,5) [OF assms(1)] by (auto intro!: map_idI)
  then have "sort_key beHeight (map B (heights a (b + 1))) = map B (heights a (b + 1))"
    "sort_key beHeight (map T (heights a (b + 1))) = map T (heights a (b + 1))"
    by (auto intro!: sort_key_id_if_sorted simp: sorted_heights)
  moreover have "GetEventsForHeightRange (seNodes E) (seClient E) (blockExecutedEvent E) a b = Inr (map B (heights a (b + 1)))"
    "GetEventsForHeightRange (seNodes E) (seClient E) (transactionExecutedEvent E) a b = Inr (map T (heights a (b + 1)))"
    using assms unfolding past_source_def by blast+
  ultimately show ?thesis by (simp add: get_both_def zip_map_map zip_same_conv_map)
qed

lemma backfill_blocks_source:
  assumes "past_source E start L B T D" "\<forall>h \<in> set hs. start \<le> h \<and> IsPastSpork (seClient E) h"
  shows "backfill_blocks fuel E (map (\<lambda>h. (B h, T h)) hs) h0 =
    (map (\<lambda>h. Inr (D h)) hs, Ret (Inr (if hs = [] then h0 else last hs + 1)))"
  using assms(2)
proof (induction hs arbitrary: h0)
  case Nil
  then show ?case by simp
next
  case (Cons h hs)
  note D = past_sourceD [OF assms(1), of h]
  from Cons show ?case by (simp add: D misses_def next_height_def Let_def)
qed

lemma heights_snoc: "a \<le> b \<Longrightarrow> b < b + 1 \<Longrightarrow> heights a (b + 1) = heights a b @ [b]"
  using heights_append [of a b "b + 1"] heights_Cons [of b "b + 1"] by simp

lemma min_step:
  fixes a L :: u64
  assumes "a \<le> L" "unat L < 2 ^ 64 - 250"
  shows "a \<le> min (a + maxRangeForGetEvents) L" "min (a + maxRangeForGetEvents) L \<le> L"
proof -
  have "unat (a + 249) = unat a + 249"
    using assms by (simp add: unat_word_ariths word_le_nat_alt)
  then show "a \<le> min (a + maxRangeForGetEvents) L"
    using assms(1) by (simp add: maxRangeForGetEvents_def word_le_nat_alt min_def)
qed simp

lemma backfill_range_source:
  assumes src: "past_source E start L B T D" and "start \<le> a" "a \<le> latest + 1" "IsPastSpork (seClient E) latest"
    and "\<And>h. a \<le> h \<Longrightarrow> h \<le> latest \<Longrightarrow> L h = latest" "unat latest < 2 ^ 64 - 250" "unat latest + 1 - unat a < n"
  shows "backfill_range n E a latest = (map (\<lambda>h. Inr (D h)) (heights a (latest + 1)), Ret (Inr (latest + 1)))"
  using assms(2-)
proof (induction n arbitrary: a)
  case 0
  then show ?case by simp
next
  case (Suc n)
  note s = succ_past [OF Suc.prems(3)]
  show ?case
  proof (cases "a \<le> latest")
    case False
    then have "a = latest + 1" using Suc.prems(2) u64_succ_le [of latest a] s by auto
    with False show ?thesis by simp
  next
    case True
    define b where "b = min (a + maxRangeForGetEvents) latest"
    note b = min_step [OF True Suc.prems(5), folded b_def]
    have past: "IsPastSpork (seClient E) b" "IsPastSpork (seClient E) a"
      using Suc.prems(3) b True by (auto intro: IsPastSpork_mono)
    note sb = succ_past [OF past(1)]
    have get: "get_both E a b = Inr (map (\<lambda>h. (B h, T h)) (heights a (b + 1)))"
      using get_both_source [OF src Suc.prems(1) b(1) past(2)] Suc.prems(4) [OF order.refl True] b(2) by simp
    have in_r: "\<forall>h \<in> set (heights a (b + 1)). start \<le> h \<and> IsPastSpork (seClient E) h"
    proof
      fix h assume h: "h \<in> set (heights a (b + 1))"
      then have "a \<le> h" "h \<le> b" using sb u64_succ_le [of b h] by (simp_all add: in_heights not_le [symmetric])
      with Suc.prems(1) IsPastSpork_mono [OF past(1)] show "start \<le> h \<and> IsPastSpork (seClient E) h" by simp
    qed
    have blocks: "backfill_blocks n E (map (\<lambda>h. (B h, T h)) (heights a (b + 1))) a =
        (map (\<lambda>h. Inr (D h)) (heights a (b + 1)), Ret (Inr (b + 1)))"
      using backfill_blocks_source [OF src in_r, of n a] heights_snoc [OF b(1)] sb by simp
    have le: "b + 1 \<le> latest + 1" "a \<le> b + 1" "unat (b + 1) = unat b + 1"
      using u64_succ_le [of b "latest + 1"] sb s b u64_unat_succ [of b]
      by (auto intro: order.trans le_less_trans)
    have rest: "backfill_range n E (b + 1) latest =
        (map (\<lambda>h. Inr (D h)) (heights (b + 1) (latest + 1)), Ret (Inr (latest + 1)))"
    proof (rule Suc.IH)
      show "unat latest + 1 - unat (b + 1) < n"
        using Suc.prems(6) le(3) b by (simp add: word_le_nat_alt)
      fix h show "b + 1 \<le> h \<Longrightarrow> h \<le> latest \<Longrightarrow> L h = latest" using Suc.prems(4) [of h] le(2) by (meson order.trans)
    qed (use Suc.prems le in auto)
    show ?thesis
      using True rest heights_append [OF le(2,1)] by (simp add: get blocks b_def [symmetric] flip: map_append)
  qed
qed

lemma heights_mono: "a \<le> b \<Longrightarrow> b < c \<Longrightarrow> heights a c = heights a b @ heights b c"
  using heights_append [of a b c] by simp

lemma backfill_source:
  assumes src: "past_source E start L B T D" and "start \<le> a" "a \<le> currentSporkRootHeight (seClient E)"
    and "unat (currentSporkRootHeight (seClient E)) < 2 ^ 64 - 250"
    and "unat (currentSporkRootHeight (seClient E)) - unat a + 2 \<le> n"
  shows "backfill n E a = (map (\<lambda>h. Inr (D h)) (heights a (currentSporkRootHeight (seClient E))), Ret ())"
  using assms(2-)
proof (induction n arbitrary: a)
  case 0
  then show ?case by simp
next
  case (Suc n)
  let ?root = "currentSporkRootHeight (seClient E)"
  show ?case
  proof (cases "IsPastSpork (seClient E) a")
    case False
    with Suc.prems(2) show ?thesis by (simp add: IsPastSpork_def)
  next
    case True
    note D = past_sourceD [OF src Suc.prems(1) True]
    note s = succ_past [OF D(3)]
    have root: "L a < ?root" using D(3) by (simp add: IsPastSpork_def)
    have next_le: "L a + 1 \<le> ?root" "a \<le> L a + 1" "unat (L a + 1) = unat (L a) + 1"
      using u64_succ_le [of "L a" ?root] root s D(2) u64_unat_succ [of "L a"] by auto
    have L: "L h = L a" if "a \<le> h" "h \<le> L a" for h
      using past_source_same_spork [OF src Suc.prems(1) that(1) True that(2)] .
    have range: "backfill_range n E a (L a) = (map (\<lambda>h. Inr (D h)) (heights a (L a + 1)), Ret (Inr (L a + 1)))"
    proof (rule backfill_range_source [OF src Suc.prems(1) next_le(2) D(3)])
      show "unat (L a) < 2 ^ 64 - 250" using root Suc.prems(3) by (simp add: word_less_nat_alt)
      show "unat (L a) + 1 - unat a < n" using root Suc.prems(4) by (simp add: word_less_nat_alt)
    qed (rule L)
    have rest: "backfill n E (L a + 1) = (map (\<lambda>h. Inr (D h)) (heights (L a + 1) ?root), Ret ())"
    proof (rule Suc.IH)
      show "start \<le> L a + 1" using Suc.prems(1) next_le(2) by (rule order.trans)
      show "unat ?root - unat (L a + 1) + 2 \<le> n"
        using Suc.prems(4) next_le(3) D(2) root by (simp add: word_le_nat_alt word_less_nat_alt)
    qed (use Suc.prems next_le in auto)
    show ?thesis
      using True rest heights_append [OF next_le(2,1)]
      by (simp add: backfillSporkFromHeight_def D(1) range flip: map_append)
  qed
qed

lemma forward_ok: "forward (map (\<lambda>h. Inr (f h)) hs) h0 =
    (map (\<lambda>h. Inr (f h)) hs, Some (if hs = [] then h0 else CadenceHeight (f (last hs))))"
  by (induction hs arbitrary: h0) auto

section \<open>Properties\<close>

text \<open>C25: Starting in a past spork, with access nodes that answer every range with one entry per
height, and where the events of every height decode on their own (no Flow block lacks the EVM block
of its transactions; what happens there is below), the subscriber delivers the events of every height from its start
height to the end of the past sporks, exactly once and in order, crossing the spork boundaries,
and then subscribes to the live stream at the root height of the current spork.  Bounded by the
number of heights, so in particular the backfill ends.\<close>

theorem backfill_complete:
  assumes "past_source E (rsHeight r) L B T D" "IsPastSpork (seClient E) (rsHeight r)"
    and "unat (currentSporkRootHeight (seClient E)) < 2 ^ 64 - 250"
    and "unat (currentSporkRootHeight (seClient E)) - unat (rsHeight r) + 2 \<le> n"
  shows "Subscribe_backfill n E r =
    (map (\<lambda>h. Inr (D h)) (heights (rsHeight r) (currentSporkRootHeight (seClient E))),
     Ret (Some (currentSporkRootHeight (seClient E))))"
proof -
  let ?root = "currentSporkRootHeight (seClient E)"
  have lt: "rsHeight r < ?root" using assms(2) by (simp add: IsPastSpork_def)
  have bf: "backfill n E (rsHeight r) = (map (\<lambda>h. Inr (D h)) (heights (rsHeight r) ?root), Ret ())"
    by (rule backfill_source [OF assms(1)]) (use assms(3,4) lt in auto)
  have pos: "0 < ?root" using le_less_trans [OF word_zero_le lt] .
  have root: "?root - 1 + 1 = ?root" "rsHeight r \<le> ?root - 1" "?root - 1 < ?root"
    using lt u64_pred [OF pos, of "rsHeight r"] u64_pred_less [OF pos, of ?root] by auto
  from this have "heights (rsHeight r) ?root = heights (rsHeight r) (?root - 1) @ [?root - 1]"
    using heights_snoc [of "rsHeight r" "?root - 1"] by simp
  moreover have "CadenceHeight (D (?root - 1)) = ?root - 1"
    using root by (intro past_sourceD(7) [OF assms(1)]) (simp_all add: IsPastSpork_def)
  ultimately have "forward (map (\<lambda>h. Inr (D h)) (heights (rsHeight r) ?root)) (rsHeight r) =
      (map (\<lambda>h. Inr (D h)) (heights (rsHeight r) ?root), Some (?root - 1))" by (simp add: forward_ok del: map_append)
  with bf assms(2) show ?thesis by (simp add: Subscribe_backfill_def)
qed

section \<open>Recovery from a missing block\<close>

text \<open>Several blocks of the live stream, one after the other.\<close>

fun subscribe_events ::
    "('c, 'ev, 'v, 's) sub_env \<Rightarrow> 'ev FlowBlockEvents list \<Rightarrow> 'ev RPCEventSubscriber
      \<Rightarrow> (err + 'ev CadenceEvents) list \<times> notification list \<times> 'ev RPCEventSubscriber" where
  "subscribe_events E [] r = ([], [], r)"
| "subscribe_events E (b # bs) r =
     (let (outs, notes, r') = subscribe_event E b r; (outs', notes', r'') = subscribe_events E bs r'
      in (outs @ outs', notes @ notes', r''))"

lemma subscribe_events_snoc:
  "subscribe_events E (bs @ [b]) r =
     (let (outs, notes, r') = subscribe_events E bs r; (outs', notes', r'') = subscribe_event E b r'
      in (outs @ outs', notes @ notes', r''))"
  by (induction bs arbitrary: r) (auto simp: Let_def split: prod.splits)

lemma sort_events_idem [simp]: "sort_events (sort_events es) = sort_events es"
  by (simp add: sort_events_def sort_key_id_if_sorted)

definition gathered :: "'ev FlowBlockEvents list \<Rightarrow> 'ev FlowEvent list" where
  "gathered bs = concat (map (\<lambda>b. sort_events (beEvents b)) bs)"

lemma subscribe_event_recovering:
  assumes "recovery r \<or> misses ErrMissingBlock (NewSingleBlockEvents (seCodec E) b)"
    and "NewMultiBlockEvents (seCodec E) (b\<lparr>beEvents := recoveredEvents r @ sort_events (beEvents b)\<rparr>) = res"
  shows "subscribe_event E b r = (case res of
      Inl _ \<Rightarrow> ([], [], r\<lparr>recovery := True, recoveredEvents := recoveredEvents r @ sort_events (beEvents b)\<rparr>)
    | Inr e \<Rightarrow> ([Inr e], map (\<lambda>evt. NotifiedTransaction (evTransactionID evt)) (sort_events (beEvents b))
        @ [NotifiedBlock \<lparr>bhID = beBlockID b, bhParentID = 0, bhHeight = beHeight b, bhTimestamp = 0\<rparr>],
        r\<lparr>recovery := False, recoveredEvents := []\<rparr>))"
  using assms by (auto simp: subscribe_event_def recover_def accumulateEventsMissingBlock_def misses_def Let_def split: sum.splits)

lemma subscribe_events_recovering:
  assumes "\<not> recovery r" "recoveredEvents r = []" "bs \<noteq> []"
    and "misses ErrMissingBlock (NewSingleBlockEvents (seCodec E) (hd bs))"
    and "\<forall>k < length bs. is_err (NewMultiBlockEvents (seCodec E) ((bs ! k)\<lparr>beEvents := gathered (take (Suc k) bs)\<rparr>))"
  shows "subscribe_events E bs r = ([], [], r\<lparr>recovery := True, recoveredEvents := gathered bs\<rparr>)"
  using assms(3-)
proof (induction bs rule: rev_induct)
  case Nil
  then show ?case by simp
next
  case (snoc b bs)
  have err: "is_err (NewMultiBlockEvents (seCodec E) (b\<lparr>beEvents := gathered bs @ sort_events (beEvents b)\<rparr>))"
    using snoc.prems(3) [rule_format, of "length bs"] by (simp add: gathered_def)
  show ?case
  proof (cases "bs = []")
    case True
    with snoc.prems(2) err subscribe_event_recovering [of r E b] assms(1,2) show ?thesis
      by (auto simp: gathered_def split: sum.splits)
  next
    case False
    have "\<forall>k < length bs. is_err (NewMultiBlockEvents (seCodec E) ((bs ! k)\<lparr>beEvents := gathered (take (Suc k) bs)\<rparr>))"
    proof (intro allI impI)
      fix k assume "k < length bs"
      with snoc.prems(3) [rule_format, of k] show "is_err (NewMultiBlockEvents (seCodec E) ((bs ! k)\<lparr>beEvents := gathered (take (Suc k) bs)\<rparr>))"
        by (simp add: nth_append)
    qed
    with snoc False have IH: "subscribe_events E bs r = ([], [], r\<lparr>recovery := True, recoveredEvents := gathered bs\<rparr>)" by simp
    show ?thesis
      using err subscribe_event_recovering [of "r\<lparr>recovery := True, recoveredEvents := gathered bs\<rparr>" E b]
      by (auto simp: subscribe_events_snoc IH gathered_def split: sum.splits)
  qed
qed

text \<open>C26: Recovery from missing EVM blocks in the live stream.  Where the events of a first Flow
block lack their EVM block and those gathered so far do not decode at the following blocks either,
nothing is delivered; at the first block where all gathered events decode together, exactly the
decoded block is delivered, the block is notified to the key store, and the subscriber is back to
where it was, out of recovery mode with nothing left over.\<close>

theorem recovery_accumulates:
  assumes "\<not> recovery r" "recoveredEvents r = []" "bs \<noteq> []"
    and "misses ErrMissingBlock (NewSingleBlockEvents (seCodec E) (hd bs))"
    and "\<forall>k < length bs. is_err (NewMultiBlockEvents (seCodec E) ((bs ! k)\<lparr>beEvents := gathered (take (Suc k) bs)\<rparr>))"
    and "NewMultiBlockEvents (seCodec E) (b\<lparr>beEvents := gathered (bs @ [b])\<rparr>) = Inr e"
  shows "subscribe_events E (bs @ [b]) r = ([Inr e],
      map (\<lambda>evt. NotifiedTransaction (evTransactionID evt)) (sort_events (beEvents b))
        @ [NotifiedBlock \<lparr>bhID = beBlockID b, bhParentID = 0, bhHeight = beHeight b, bhTimestamp = 0\<rparr>], r)"
proof -
  have r: "r\<lparr>recovery := False, recoveredEvents := []\<rparr> = r" using assms(1,2) by (cases r) simp
  have "NewMultiBlockEvents (seCodec E) (b\<lparr>beEvents := gathered bs @ sort_events (beEvents b)\<rparr>) = Inr e"
    using assms(6) by (simp add: gathered_def)
  with subscribe_event_recovering [of "r\<lparr>recovery := True, recoveredEvents := gathered bs\<rparr>" E b] r show ?thesis
    by (simp add: subscribe_events_snoc subscribe_events_recovering [OF assms(1-5)])
qed

section \<open>Backfill of incomplete blocks\<close>

text \<open>A missing EVM block near the end of a past spork cannot be recovered by the backfill:
the range it asks for to collect the following blocks always ends 249 heights later, and when that
height is served by another node the request is refused and the backfill fails.\<close>

theorem accumulate_near_spork_end:
  assumes "misses ErrMissingBlock (NewSingleBlockEvents (seCodec E) block)"
    and "getClientForHeight (seClient E) (beHeight block) = Inr x"
    and "getClientForHeight (seClient E) (beHeight block + 249) = Inr y" "x \<noteq> y"
  shows "\<exists>e. accumulateBlockEvents (Suc n) E block = Ret (Inl e)"
  using assms by (auto simp: accumulateBlockEvents_def get_both_def GetEventsForHeightRange_def maxRangeForGetEvents_def)

text \<open>A block of the backfill that fails to decode for another reason ends the process.\<close>

lemma backfill_decode_error_panics:
  assumes "beHeight t = beHeight b"
    and "NewSingleBlockEvents (seCodec E) (b\<lparr>beEvents := beEvents b @ beEvents t\<rparr>) = Inl e" "\<not> errors_Is e ErrMissingBlock"
  shows "backfill_blocks fuel E ((b, t) # xs) h = ([Inl e], Panics ''nil pointer dereference'')"
  using assms by (simp add: misses_def next_height_def)

section \<open>A block that cannot be accumulated\<close>

text \<open>
  Two Flow blocks of a past spork with one transaction each: the first has no EVM block, the
  EVM block of the second contains both transactions.
\<close>

definition flow_block :: "u64 \<Rightarrow> nat FlowEvent list \<Rightarrow> nat FlowBlockEvents" where
  "flow_block h es = \<lparr>beBlockID = 0, beHeight = h, beBlockTimestamp = 0, beEvents = es\<rparr>"

definition late_tx :: "nat \<Rightarrow> nat FlowEvent" where
  "late_tx n = demo_event ''EVM.TransactionExecuted'' 0 n"

definition late_block :: "nat FlowEvent" where
  "late_block = demo_event ''EVM.BlockExecuted'' 1 7"

definition late_env :: "(nat, nat, unit, unit) sub_env" where
  "late_env =
     \<lparr>seNodes = demo_nodes\<lparr>an_GetLatestBlockHeader := (\<lambda>_. Inr \<lparr>bhID = 0, bhParentID = 0, bhHeight = 299, bhTimestamp = 0\<rparr>),
        an_GetEventsForHeightRange := (\<lambda>_ t _ _. Inr (if t = ''B''
          then [flow_block 10 [], flow_block 11 [late_block]] else [flow_block 10 [late_tx 2], flow_block 11 [late_tx 4]]))\<rparr>,
      seClient = \<lparr>sporkClients = [\<lparr>firstHeight = 10, lastHeight = 299, spClient = 1\<rparr>], currentSporkRootHeight = 300, csClient = 3\<rparr>,
      seCodec = ev_codec, blockExecutedEvent = ''B'', transactionExecutedEvent = ''T''\<rparr>"

lemma tx_decoded: "\<exists>p. DecodeTransactionEvent ev_codec n = Inr p"
  by (rule ev_codec_tx)

lemma late_tx_kind: "\<not> isBlockExecutedEvent (late_tx n)" "isTransactionExecutedEvent (late_tx n)" "evValue (late_tx n) = n"
  and late_block_kind: "isBlockExecutedEvent late_block" "evValue late_block = 7"
  by (simp_all add: late_tx_def late_block_def demo_event_simps)

lemma late_missing: "misses ErrMissingBlock (NewSingleBlockEvents ev_codec (flow_block h [late_tx n]))"
proof -
  obtain p where "DecodeTransactionEvent ev_codec n = Inr p" using tx_decoded by blast
  then show ?thesis
    using transactions_without_block [of "flow_block h [late_tx n]" ev_codec "[p]"]
    by (auto simp: NewSingleBlockEvents_def flow_block_def sort_events_def late_tx_kind misses_def)
qed

lemma late_incomplete:
  "\<exists>e. NewMultiBlockEvents ev_codec (flow_block 11 [late_block, late_tx n]) = Inl e \<and> \<not> errors_Is e ErrMissingBlock"
proof -
  obtain a b d where "DecodeTransactionEvent ev_codec n = Inr (a, b, d)" using tx_decoded [of n] by auto
  then show ?thesis
    by (simp add: NewMultiBlockEvents_def NewCadenceEvents_def decodeCadenceEvents_def decode_event_def flow_block_def
        late_tx_kind late_block_kind DecodeBlockEvent_def ev_codec_api)
qed

lemma late_env_api:
  "seCodec late_env = ev_codec" "IsPastSpork (seClient late_env) h \<longleftrightarrow> h < 300"
  "10 \<le> h \<Longrightarrow> h < 300 \<Longrightarrow> GetLatestHeightForSpork (seNodes late_env) (seClient late_env) h = Inr 299"
proof -
  show "10 \<le> h \<Longrightarrow> h < 300 \<Longrightarrow> GetLatestHeightForSpork (seNodes late_env) (seClient late_env) h = Inr 299"
    by (simp add: late_env_def GetLatestHeightForSpork_def getClientForHeight_def IsPastSpork_def contains_def
        word_le_nat_alt word_less_nat_alt)
qed (simp_all add: late_env_def IsPastSpork_def)

lemma late_both:
  assumes "a \<ge> 10" "a < 300" "b \<ge> 10" "b < 300"
  shows "get_both late_env a b =
    Inr [(flow_block 10 [], flow_block 10 [late_tx 2]), (flow_block 11 [late_block], flow_block 11 [late_tx 4])]"
  using assms by (simp add: get_both_def GetEventsForHeightRange_def getClientForHeight_def IsPastSpork_def late_env_def
      contains_def flow_block_def word_le_nat_alt word_less_nat_alt)

lemma flow_block_simps [simp]:
  "beHeight (flow_block h es) = h" "beEvents (flow_block h es) = es" "(flow_block h es)\<lparr>beEvents := fs\<rparr> = flow_block h fs"
  by (simp_all add: flow_block_def)

lemma sort_events_single [simp]: "sort_events [x] = [x]"
  by (simp add: sort_events_def)

lemma late_accumulate:
  assumes "NewMultiBlockEvents ev_codec (flow_block 11 [late_block, late_tx 2]) = Inl e" "\<not> errors_Is e ErrMissingBlock"
  shows "accumulateBlockEvents (Suc (Suc n)) late_env (flow_block 10 [late_tx 2]) = Ret (Inr (Inl e))"
  using late_both [of 10 259] late_missing [of 10 2] assms
  by (simp add: accumulateBlockEvents_def maxRangeForGetEvents_def misses_def late_env_api(1) Let_def)

text \<open>The backfill cannot assemble an EVM block whose own Flow block has transactions: it
gathers the transactions of the Flow blocks before it but leaves out those of the Flow block
itself, the root hash does not match, and the failed decoding is dereferenced.  The live stream's
recovery takes all events and decodes the same two blocks.\<close>

theorem backfill_drops_transactions:
  "(\<exists>e. Subscribe_backfill (Suc (Suc (Suc (Suc n)))) late_env (NewRPCEventSubscriber 10) = ([Inl e], Panics ''nil pointer dereference''))
   \<and> (\<exists>ev. accumulateEventsMissingBlock ev_codec (flow_block 11 [late_tx 4, late_block])
        \<lparr>rsHeight = 10, recovery = True, recoveredEvents = [late_tx 2]\<rparr> = (Inr ev, NewRPCEventSubscriber 10))"
proof
  obtain e where e: "NewMultiBlockEvents ev_codec (flow_block 11 [late_block, late_tx 2]) = Inl e" "\<not> errors_Is e ErrMissingBlock"
    using late_incomplete by blast
  have blocks: "backfill_blocks (Suc (Suc m)) late_env
     [(flow_block 10 [], flow_block 10 [late_tx 2]), (flow_block 11 [late_block], flow_block 11 [late_tx 4])] 10 =
     ([Inl e], Panics ''nil pointer dereference'')" for m
    using late_accumulate [OF e] late_missing by (simp add: next_height_def late_env_api(1) Let_def)
  have "backfill_range (Suc (Suc (Suc n))) late_env 10 299 = ([Inl e], Panics ''nil pointer dereference'')"
    using late_both [of 10 259] blocks [of n] by (simp add: maxRangeForGetEvents_def)
  then show "\<exists>e. Subscribe_backfill (Suc (Suc (Suc (Suc n)))) late_env (NewRPCEventSubscriber 10) =
      ([Inl e], Panics ''nil pointer dereference'')"
    by (simp add: Subscribe_backfill_def NewRPCEventSubscriber_def backfillSporkFromHeight_def late_env_api
        del: backfill_range.simps)
  obtain a b d a' b' d' where dec: "DecodeTransactionEvent ev_codec 2 = Inr (a, b, d)" "DecodeTransactionEvent ev_codec 4 = Inr (a', b', d')"
    using tx_decoded [of 2] tx_decoded [of 4] by auto
  have sorted: "sort_events [late_tx 4, late_block] = [late_tx 4, late_block]"
    by (simp add: sort_events_def late_tx_def late_block_def demo_event_def)
  have "\<exists>ev. NewMultiBlockEvents ev_codec (flow_block 11 [late_tx 2, late_tx 4, late_block]) = Inr ev"
    using dec by (simp add: NewMultiBlockEvents_def NewCadenceEvents_def decodeCadenceEvents_def decode_event_def
        late_tx_kind late_block_kind DecodeBlockEvent_def ev_codec_api Hash_def)
  then show "\<exists>ev. accumulateEventsMissingBlock ev_codec (flow_block 11 [late_tx 4, late_block])
        \<lparr>rsHeight = 10, recovery = True, recoveredEvents = [late_tx 2]\<rparr> = (Inr ev, NewRPCEventSubscriber 10)"
    by (auto simp: accumulateEventsMissingBlock_def sorted NewRPCEventSubscriber_def)
qed

section \<open>Witnesses\<close>

lemma recovery_accumulates_witness:
  "\<exists>ev notes. subscribe_events late_env [flow_block 10 [late_tx 2], flow_block 11 [late_tx 4, late_block]] (NewRPCEventSubscriber 10)
     = ([Inr ev], notes, NewRPCEventSubscriber 10)"
proof -
  have sorted: "sort_events [late_tx 4, late_block] = [late_tx 4, late_block]"
    by (simp add: sort_events_def late_tx_def late_block_def demo_event_def)
  obtain a b d a' b' d' where "DecodeTransactionEvent ev_codec 2 = Inr (a, b, d)" "DecodeTransactionEvent ev_codec 4 = Inr (a', b', d')"
    using tx_decoded [of 2] tx_decoded [of 4] by auto
  then obtain ev where "NewMultiBlockEvents ev_codec (flow_block 11 [late_tx 2, late_tx 4, late_block]) = Inr ev"
    by (simp add: NewMultiBlockEvents_def NewCadenceEvents_def decodeCadenceEvents_def decode_event_def
        late_tx_kind late_block_kind DecodeBlockEvent_def ev_codec_api Hash_def)
  then show ?thesis
    using recovery_accumulates [of "NewRPCEventSubscriber 10" "[flow_block 10 [late_tx 2]]" late_env
        "flow_block 11 [late_tx 4, late_block]" ev] late_missing [of 10 2]
    by (auto simp: NewRPCEventSubscriber_def late_env_api(1) gathered_def sorted NewSingleBlockEvents_def NewMultiBlockEvents_def
        misses_def split: sum.splits)
qed

text \<open>Empty Flow blocks over the two past sporks of the demonstration client.\<close>

definition quiet_env :: "(nat, nat, unit, unit) sub_env" where
  "quiet_env =
     \<lparr>seNodes = demo_nodes\<lparr>an_GetEventsForHeightRange := (\<lambda>_ _ a b. Inr (map (\<lambda>h. flow_block h []) (heights a (b + 1))))\<rparr>,
      seClient = demo_client, seCodec = ev_codec, blockExecutedEvent = ''B'', transactionExecutedEvent = ''T''\<rparr>"

text \<open>The same sporks with an EVM block of two transactions at height 18.\<close>

definition busy_blocks :: "u64 \<Rightarrow> nat FlowBlockEvents" where
  "busy_blocks h = flow_block h (if h = 18 then [demo_event ''EVM.BlockExecuted'' 2 7] else [])"

definition busy_txs :: "u64 \<Rightarrow> nat FlowBlockEvents" where
  "busy_txs h = flow_block h (if h = 18 then demo_txs else [])"

definition busy_events :: "u64 \<Rightarrow> nat CadenceEvents" where
  "busy_events h = projr (NewSingleBlockEvents ev_codec (flow_block h (beEvents (busy_blocks h) @ beEvents (busy_txs h))))"

definition busy_env :: "(nat, nat, unit, unit) sub_env" where
  "busy_env = quiet_env\<lparr>seNodes := demo_nodes\<lparr>an_GetEventsForHeightRange :=
     (\<lambda>_ t a b. Inr (map (if t = ''B'' then busy_blocks else busy_txs) (heights a (b + 1))))\<rparr>\<rparr>"

lemma busy_decodes:
  "\<exists>e. NewSingleBlockEvents ev_codec (flow_block h (beEvents (busy_blocks h) @ beEvents (busy_txs h))) = Inr e
     \<and> (h = 18 \<longrightarrow> (\<exists>block. ceBlock e = Some block) \<and> length (ceTransactions e) = 2)"
proof -
  obtain t1 t2 where t: "DecodeTransactionEvent ev_codec 2 = Inr t1" "DecodeTransactionEvent ev_codec 4 = Inr t2"
    using ev_codec_tx by blast
  show ?thesis
    using t by (cases t1, cases t2)
      (auto simp: NewSingleBlockEvents_def NewCadenceEvents_def decodeCadenceEvents_def decode_event_def sort_events_def
        busy_blocks_def busy_txs_def demo_event_simps DecodeBlockEvent_def ev_codec_api Hash_def)
qed

lemma busy_source: "past_source busy_env 15 (\<lambda>h. if h < 20 then 19 else 29) busy_blocks busy_txs busy_events"
proof -
  have client: "getClientForHeight demo_client h = Inr (if h < 20 then 1 else 2)" if "15 \<le> h" "h < 30" for h
    using that by (auto simp: getClientForHeight_def IsPastSpork_def demo_client_def contains_def word_le_nat_alt word_less_nat_alt)
  have past: "IsPastSpork demo_client h \<longleftrightarrow> h < 30" for h by (simp add: IsPastSpork_def demo_client_def)
  have sc: "seClient busy_env = demo_client" "seCodec busy_env = ev_codec" "blockExecutedEvent busy_env = ''B''"
    "transactionExecutedEvent busy_env = ''T''" by (simp_all add: busy_env_def quiet_env_def)
  have dec: "NewSingleBlockEvents ev_codec ((busy_blocks h)\<lparr>beEvents := beEvents (busy_blocks h) @ beEvents (busy_txs h)\<rparr>) = Inr (busy_events h)" for h
  proof -
    have "(busy_blocks h)\<lparr>beEvents := es\<rparr> = flow_block h es" for es by (simp add: busy_blocks_def)
    with busy_decodes [of h] show ?thesis by (auto simp: busy_events_def)
  qed
  have hs: "beHeight (busy_blocks h) = h" "beHeight (busy_txs h) = h" for h by (simp_all add: busy_blocks_def busy_txs_def)
  have a: "GetLatestHeightForSpork (seNodes busy_env) demo_client h = Inr (if h < 20 then 19 else 29)" if "15 \<le> h" "h < 30" for h
    using client [OF that] by (auto simp: GetLatestHeightForSpork_def busy_env_def demo_nodes_def)
  have b: "GetEventsForHeightRange (seNodes busy_env) demo_client t x y = Inr (map (if t = ''B'' then busy_blocks else busy_txs) (heights x (y + 1)))"
    if "15 \<le> x" "x \<le> y" "x < 30" "y \<le> (if x < 20 then 19 else 29)" for t x y
  proof -
    have y: "15 \<le> y" "y < 30" "x < 20 \<longleftrightarrow> y < 20" using that by (auto simp: word_le_nat_alt word_less_nat_alt split: if_splits)
    with client [OF that(1,3)] client [OF y(1,2)] show ?thesis
      by (simp add: GetEventsForHeightRange_def busy_env_def)
  qed
  show ?thesis
    unfolding past_source_def sc past
    by (auto simp: a b dec hs word_le_nat_alt word_less_nat_alt)
qed

lemma backfill_complete_witness:
  "Subscribe_backfill 20 busy_env (NewRPCEventSubscriber 15) = (map (\<lambda>h. Inr (busy_events h)) (heights 15 30), Ret (Some 30))
   \<and> 18 \<in> set (heights 15 30) \<and> (\<exists>block. ceBlock (busy_events 18) = Some block) \<and> length (ceTransactions (busy_events 18)) = 2"
proof -
  have sc: "seClient busy_env = demo_client" "currentSporkRootHeight demo_client = 30"
    by (simp_all add: busy_env_def quiet_env_def demo_client_def)
  have "18 \<in> set (heights 15 30)" by code_simp
  moreover have "(\<exists>block. ceBlock (busy_events 18) = Some block) \<and> length (ceTransactions (busy_events 18)) = 2"
    using busy_decodes [of 18] by (auto simp: busy_events_def)
  ultimately show ?thesis
    using backfill_complete [of busy_env "NewRPCEventSubscriber 15" _ _ _ busy_events 20] busy_source
    by (simp add: sc NewRPCEventSubscriber_def IsPastSpork_def)
qed

lemma accumulate_near_spork_end_witness:
  "\<exists>e. accumulateBlockEvents 5 quiet_env (flow_block 12 [late_tx 2]) = Ret (Inl e)"
proof -
  have sc: "seClient quiet_env = demo_client" "seCodec quiet_env = ev_codec" by (simp_all add: quiet_env_def)
  show ?thesis
    using accumulate_near_spork_end [of quiet_env "flow_block 12 [late_tx 2]" 1 3 4] late_missing [of 12 2]
    by (simp add: sc getClientForHeight_def IsPastSpork_def demo_client_def contains_def)
qed

end
