(* ===== verification/Block_Tracking.thy ===== *)
theory Block_Tracking
  imports Event_Subscriber
begin

text \<open>
  The subscriber that follows finalized blocks, \<^verbatim>\<open>services/ingestion/block_tracking_subscriber.go\<close>:
  for each finalized header the events are fetched from the access node, given to the sealing
  verifier, decoded and delivered; the key store learns of a block fifteen blocks later.
\<close>

section \<open>Fetching the events of a block\<close>

definition ErrSystemTransactionFailed :: err where
  "ErrSystemTransactionFailed = New_err ''system transaction failed''"

definition ErrSporkRootBlockHasNoEVMBlocks :: err where
  "ErrSporkRootBlockHasNoEVMBlocks = New_err ''spork root block has no EVM blocks''"

text \<open>
  The answers of the access node to one request and its repetitions, in order; \<open>None\<close> is a
  request that is still repeated.
\<close>

fun retry_events :: "(err + 'ev FlowBlockEvents list) list \<Rightarrow> (err + 'ev FlowBlockEvents list) option" where
  "retry_events [] = None"
| "retry_events (Inl e # answers) =
     (if status_Code e = NotFound \<or> status_Code e = ResourceExhausted then retry_events answers
      else Some (Inl (Errorf ''failed to get events from access node: %w'' [] [e])))"
| "retry_events (Inr evts # answers) = Some (Inr evts)"

text \<open>
  \<open>sysTx\<close> is the answer to \<^verbatim>\<open>GetSystemTransactionResult\<close>: the error of the transaction, if any.
  \<^verbatim>\<open>errors.Join\<close> wraps both errors.
\<close>

definition getEventsByType ::
    "('c, 'ev, 'v, 's) sub_env \<Rightarrow> BlockHeader \<Rightarrow> string \<Rightarrow> (err + 'ev FlowBlockEvents list) list \<Rightarrow> err + err option
      \<Rightarrow> (err + 'ev FlowBlockEvents) option" where
  "getEventsByType E blockHeader eventType answers sysTx = (case retry_events answers of
      None \<Rightarrow> None
    | Some (Inl e) \<Rightarrow> Some (Inl e)
    | Some (Inr evts) \<Rightarrow> Some (case evts of
        [event] \<Rightarrow>
          if strings_Contains eventType BlockExecutedQualifiedIdentifier \<and> length (beEvents event) \<noteq> 1 then
            (if IsSporkRootBlockHeight (seClient E) (bhHeight blockHeader) then Inl ErrSporkRootBlockHasNoEVMBlocks
             else let missingEventsErr = Errorf ''received unexpected number of EVM events in block: got: %d, expected: 1''
                        [FNum (length (beEvents event))] [] in
               case sysTx of
                 Inl e \<Rightarrow> Inl (Errorf ''join'' [] [missingEventsErr,
                     Errorf ''failed to lookup system transaction result: %w'' [] [e]])
               | Inr None \<Rightarrow> Inl missingEventsErr
               | Inr (Some _) \<Rightarrow> Inl ErrSystemTransactionFailed)
          else Inr event
      | _ \<Rightarrow> Inl (Errorf ''received unexpected number of BlockEvents from access node: got: %d, expected: 1''
               [FNum (length evts)] [])))"

text \<open>\<open>EmptyTxsHash\<close> is go-ethereum's.  The first event exists when the type is that of blocks.\<close>

definition evmEventsForBlock ::
    "('c, 'ev, 'v, 's) sub_env \<Rightarrow> hash \<Rightarrow> BlockHeader \<Rightarrow> (err + 'ev FlowBlockEvents list) list
      \<Rightarrow> (err + 'ev FlowBlockEvents list) list \<Rightarrow> err + err option \<Rightarrow> (err + 'ev FlowBlockEvents) option" where
  "evmEventsForBlock E EmptyTxsHash blockHeader blockAnswers txAnswers sysTx =
     (case getEventsByType E blockHeader (blockExecutedEvent E) blockAnswers sysTx of
        None \<Rightarrow> None
      | Some r \<Rightarrow>
         (let with_txs = (\<lambda>blockEvents.
            case getEventsByType E blockHeader (transactionExecutedEvent E) txAnswers sysTx of
              None \<Rightarrow> None
            | Some (Inl e) \<Rightarrow> Some (Inl (Errorf ''failed to get EVM transaction events for cadence block %d: %w''
                 [FNum (unat (bhHeight blockHeader))] [e]))
            | Some (Inr txEvents) \<Rightarrow> Some (Inr (blockEvents\<lparr>beEvents := beEvents blockEvents @ beEvents txEvents\<rparr>)))
          in case r of
            Inr blockEvents \<Rightarrow>
              (case beEvents blockEvents of
                 [] \<Rightarrow> Some (Inl (RuntimePanic ''index out of range [0] with length 0''))
               | ev # _ \<Rightarrow>
                  (case DecodeBlockEventPayload (seCodec E) (evValue ev) of
                     Inl e \<Rightarrow> Some (Inl (Errorf ''failed to decode block event payload: %w'' [] [e]))
                   | Inr payload \<Rightarrow>
                      if bpTransactionHashRoot payload = EmptyTxsHash then Some (Inr blockEvents)
                      else with_txs blockEvents))
          | Inl e \<Rightarrow>
              if errors_Is e ErrSystemTransactionFailed
              then with_txs \<lparr>beBlockID = bhID blockHeader, beHeight = bhHeight blockHeader,
                     beBlockTimestamp = bhTimestamp blockHeader, beEvents = []\<rparr>
              else Some (Inl (Errorf ''failed to get EVM block event for cadence block %d: %w''
                     [FNum (unat (bhHeight blockHeader))] [e]))))"

section \<open>Following finalized blocks\<close>

record ('ev, 'db) TrackState =
  tsSub :: "'ev RPCEventSubscriber"
  tsQueue :: "BlockHeader list"
  tsVerifier :: "'db SealingVerifier option"
  tsLast :: u64

definition zero_events :: "'ev FlowBlockEvents" where
  "zero_events = \<lparr>beBlockID = 0, beHeight = 0, beBlockTimestamp = 0, beEvents = []\<rparr>"

text \<open>The verifier's part of a step, where there is one.\<close>

definition verifier_add ::
    "('db, 'batch) pebble_api \<Rightarrow> id_api \<Rightarrow> 'ev FlowBlockEvents \<Rightarrow> 'db SealingVerifier option
      \<Rightarrow> (err option \<times> 'db SealingVerifier option) exec" where
  "verifier_add P I events v = (case v of
      None \<Rightarrow> Ret (None, None)
    | Some v \<Rightarrow> ebind (AddFinalizedBlock P I events v) (\<lambda>(r, v'). Ret (r, Some v')))"

text \<open>The delay of block notifications: a queue of at most fifteen headers.\<close>

definition push_header :: "BlockHeader \<Rightarrow> BlockHeader list \<Rightarrow> notification list \<times> BlockHeader list" where
  "push_header h q =
     (let q' = q @ [h] in
      case q' of
        [] \<Rightarrow> ([], [])
      | earliest # rest \<Rightarrow> if length q' > 15 then ([NotifiedBlock earliest], rest) else ([], q'))"

text \<open>
  One finalized header with the outcome of fetching its events: what is sent, the
  notifications, and the next state, or the end of the subscription.
\<close>

definition tracking_event ::
    "('c, 'ev, 'v, 's) sub_env \<Rightarrow> ('db, 'batch) pebble_api \<Rightarrow> id_api \<Rightarrow> BlockHeader \<Rightarrow> err + 'ev FlowBlockEvents
      \<Rightarrow> ('ev, 'db) TrackState
      \<Rightarrow> ((err + 'ev CadenceEvents) list \<times> notification list \<times> ('ev, 'db) TrackState run_result) exec" where
  "tracking_event E P I blockHeader fetched s =
     (case (case fetched of
          Inr b \<Rightarrow> Inr b
        | Inl e \<Rightarrow> if errors_Is e ErrSporkRootBlockHasNoEVMBlocks then Inr zero_events else Inl e) of
        Inl e \<Rightarrow> Ret ([NewBlockEventsError e], [], Return None)
      | Inr blockEvents \<Rightarrow>
        ebind (verifier_add P I blockEvents (tsVerifier s)) (\<lambda>(r, v').
        case r of
          Some e \<Rightarrow> Ret ([NewBlockEventsError e], [], Return None)
        | None \<Rightarrow>
            let s1 = s\<lparr>tsVerifier := v', tsLast := bhHeight blockHeader\<rparr> in
            if beEvents blockEvents = [] then Ret ([], [], Continue s1)
            else
              let sorted = blockEvents\<lparr>beEvents := sort_events (beEvents blockEvents)\<rparr>;
                  evmEvents = NewSingleBlockEvents (seCodec E) blockEvents;
                  (evm, sub') = (if is_err evmEvents \<or> recovery (tsSub s)
                    then recover E sorted (case evmEvents of Inl e \<Rightarrow> Some e | Inr _ \<Rightarrow> None) (tsSub s)
                    else (evmEvents, tsSub s))
              in if (is_err evmEvents \<or> recovery (tsSub s)) \<and> recovery sub' then Ret ([], [], Continue (s1\<lparr>tsSub := sub'\<rparr>))
                 else
                   let (notes, q') = push_header blockHeader (tsQueue s) in
                   Ret ([evm], map (\<lambda>evt. NotifiedTransaction (evTransactionID evt)) (beEvents sorted) @ notes,
                        Continue (s1\<lparr>tsSub := sub', tsQueue := q'\<rparr>))))"

datatype track_input = TCtxDone | THeadersClosed bool | TErrIn err | TErrClosed bool

text \<open>The other inputs of the loop.\<close>

definition tracking_step ::
    "(u64 \<Rightarrow> err option) \<Rightarrow> track_input \<Rightarrow> ('ev, 'db) TrackState
      \<Rightarrow> (err + 'ev CadenceEvents) list \<times> ('ev, 'db) TrackState run_result" where
  "tracking_step connect inp s = (case inp of
      TCtxDone \<Rightarrow> ([], Return None)
    | THeadersClosed ctxErr \<Rightarrow> ([stream_closed ctxErr], Return None)
    | TErrClosed ctxErr \<Rightarrow> ([stream_closed ctxErr], Return None)
    | TErrIn e \<Rightarrow>
        if status_Code e \<in> {NotFound, DeadlineExceeded, Internal} then
          (case connect (tsLast s + 1) of
             Some e' \<Rightarrow> ([NewBlockEventsError (Errorf ''failed to resubscribe for finalized block headers on height: %d, with: %w''
               [FNum (unat (tsLast s + 1))] [e'])], Return None)
           | None \<Rightarrow> ([], Continue s))
        else ([NewBlockEventsError (Errorf ''%w: %w'' [] [ErrDisconnected, e])], Return None))"

text \<open>
  The start of the subscription, after the backfill: the verifier's start height is set and the
  headers are subscribed to.
\<close>

definition tracking_start ::
    "('c, 'ev, 'v, 's) sub_env \<Rightarrow> 'ev RPCEventSubscriber \<Rightarrow> u64 \<Rightarrow> 'db SealingVerifier option
      \<Rightarrow> err + ('ev, 'db) TrackState" where
  "tracking_start E r height v =
     rbind (rwrap (\<lambda>e. Errorf ''failed to subscribe for finalized block headers on height: %d, with: %w'' [FNum (unat height)] [e])
       (SubscribeBlockHeadersFromStartHeight (seNodes E) (seClient E) height)) (\<lambda>_.
     Inr \<lparr>tsSub = r\<lparr>rsHeight := height\<rparr>, tsQueue = [], tsVerifier = map_option (SetStartHeight height) v, tsLast = height\<rparr>)"

text \<open>The subscriber is the event subscriber with a verifier beside it.\<close>

definition NewRPCBlockTrackingSubscriber ::
    "u64 \<Rightarrow> 'db SealingVerifier option \<Rightarrow> 'ev RPCEventSubscriber \<times> 'db SealingVerifier option" where
  "NewRPCBlockTrackingSubscriber startHeight verifier = (NewRPCEventSubscriber startHeight, verifier)"

text \<open>
  Subscribing: what the backfill delivers, then the subscription from the height after it.  The
  inner \<open>None\<close> is a backfill that ended with an error, already delivered.
\<close>

definition Tracking_Subscribe ::
    "nat \<Rightarrow> ('c, 'ev, 'v, 's) sub_env \<Rightarrow> 'ev RPCEventSubscriber \<times> 'db SealingVerifier option
      \<Rightarrow> (err + 'ev CadenceEvents) list \<times> ('ev, 'db) TrackState option exec" where
  "Tracking_Subscribe fuel E rv = (case rv of (r, v) \<Rightarrow>
     (case Subscribe_backfill fuel E r of
        (outs, Ret None) \<Rightarrow> (outs, Ret None)
      | (outs, Ret (Some height)) \<Rightarrow>
          (case tracking_start E r height v of
             Inl e \<Rightarrow> (outs @ [NewBlockEventsError e], Ret None)
           | Inr s \<Rightarrow> (outs, Ret (Some s)))
      | (outs, Panics m) \<Rightarrow> (outs, Panics m)
      | (outs, Blocks) \<Rightarrow> (outs, Blocks)))"

section \<open>Properties\<close>

lemma push_header_short: "length q < 15 \<Longrightarrow> push_header h q = ([], q @ [h])"
  by (cases q) (auto simp: push_header_def)

lemma push_header_full: "length q = 15 \<Longrightarrow> push_header h q = ([NotifiedBlock (hd q)], tl q @ [h])"
  by (cases q) (auto simp: push_header_def)

fun push_headers :: "BlockHeader list \<Rightarrow> BlockHeader list \<Rightarrow> notification list \<times> BlockHeader list" where
  "push_headers [] q = ([], q)"
| "push_headers (h # hs) q = (let (n, q') = push_header h q; (ns, q'') = push_headers hs q' in (n @ ns, q''))"

lemma push_headers_general:
  "length q \<le> 15 \<Longrightarrow> push_headers hs q =
     (map NotifiedBlock (take (length q + length hs - 15) (q @ hs)), drop (length q + length hs - 15) (q @ hs))"
proof (induction hs arbitrary: q)
  case Nil
  then show ?case by simp
next
  case (Cons h hs)
  show ?case
  proof (cases "length q = 15")
    case True
    then obtain x xs where q: "q = x # xs" by (cases q) auto
    have "length (xs @ [h]) \<le> 15" using True q by simp
    from Cons.IH [OF this] True q show ?thesis by (simp add: push_header_full)
  next
    case False
    with Cons.prems have "length q < 15" by simp
    with Cons.IH [of "q @ [h]"] show ?thesis by (simp add: push_header_short)
  qed
qed

text \<open>The key store is notified of finalized blocks in order, each exactly once, and always
fifteen blocks late: after any number of delivered headers, all but the last fifteen have been
notified and those fifteen wait.\<close>

theorem notified_fifteen_late:
  "push_headers hs [] = (map NotifiedBlock (take (length hs - 15) hs), drop (length hs - 15) hs)"
  using push_headers_general [of "[]" hs] by simp

lemma ex_ids: "\<exists>ids. map (\<lambda>evt. NotifiedTransaction (evTransactionID evt)) xs = map NotifiedTransaction ids"
  by (rule exI [of _ "map evTransactionID xs"]) simp

text \<open>A delivered block pushes its header; everything else leaves the queue as it is.\<close>

lemma tracking_event_queue:
  assumes "tracking_event E P I hdr fetched s = Ret (outs, notes, Continue s')"
  shows "tsLast s' = bhHeight hdr \<and>
    (if outs = [] then notes = [] \<and> tsQueue s' = tsQueue s
     else \<exists>evm txs. outs = [evm] \<and> notes = map NotifiedTransaction txs @ fst (push_header hdr (tsQueue s))
       \<and> tsQueue s' = snd (push_header hdr (tsQueue s)))"
  using assms
  by (auto simp: tracking_event_def gw_result Let_def ex_ids split: sum.splits option.splits if_splits prod.splits)

text \<open>At the root block of a spork, which has no EVM events, the verifier is given an empty
block of height zero in place of the block: its last unsealed height stays behind, and the next
finalized block is refused as out of order.\<close>

theorem spork_root_stalls_verifier:
  assumes "errors_Is e ErrSporkRootBlockHasNoEVMBlocks" "tsVerifier s = Some v" "lastUnsealedHeight v = bhHeight hdr - 1"
    and "0 < bhHeight hdr" "bhHeight hdr \<noteq> - 1" "map_of (sealedBlocksToVerify v) 0 = None"
    and "CalculateHash I (zero_events :: 'ev FlowBlockEvents) = Inr z" "EventsHash_Store P 0 z (svDb v) = (None, d)"
    and "beHeight events = bhHeight hdr + 1" "CalculateHash I events = Inr x" "EventsHash_Store P (bhHeight hdr + 1) x d = (None, d')"
  shows "\<exists>s' v'. tracking_event E P I hdr (Inl e :: err + 'ev FlowBlockEvents) s = Ret ([], [], Continue s')
    \<and> tsVerifier s' = Some v' \<and> lastUnsealedHeight v' = bhHeight hdr - 1
    \<and> (\<exists>err v''. AddFinalizedBlock P I events v' = Ret (Some err, v''))"
proof -
  let ?v' = "v\<lparr>svDb := d, unsealedBlocksToVerify := AList.update 0 z (unsealedBlocksToVerify v)\<rparr>"
  have zero: "beHeight (zero_events :: 'ev FlowBlockEvents) = 0" "beEvents (zero_events :: 'ev FlowBlockEvents) = []"
    by (simp_all add: zero_events_def)
  have add: "AddFinalizedBlock P I (zero_events :: 'ev FlowBlockEvents) v = Ret (None, ?v')"
    using assms(6-8) by (simp add: AddFinalizedBlock_def onUnsealedEvents_def zero)
  have "bhHeight hdr + 1 \<noteq> 0" using assms(5) by (simp add: add_eq_0_iff2)
  then have "\<exists>err v''. AddFinalizedBlock P I events ?v' = Ret (Some err, v'')"
    using assms(3,9-11) by (simp add: AddFinalizedBlock_def onUnsealedEvents_def word_gt_0)
  with assms(1,2,3) add zero show ?thesis
    by (simp add: tracking_event_def verifier_add_def)
qed

text \<open>
  For a block with its EVM block and transactions the events of both answers are delivered
  together, at the height and with the identifier of the block's answer.
\<close>

lemma evmEventsForBlock_both:
  assumes "strings_Contains (blockExecutedEvent E) BlockExecutedQualifiedIdentifier"
    and "\<not> strings_Contains (transactionExecutedEvent E) BlockExecutedQualifiedIdentifier"
    and "beEvents b = [ev]" "DecodeBlockEventPayload (seCodec E) (evValue ev) = Inr payload"
    and "\<forall>e \<in> set es1 \<union> set es2. status_Code e = NotFound \<or> status_Code e = ResourceExhausted"
  shows "evmEventsForBlock E eh hdr (map Inl es1 @ [Inr [b]]) (map Inl es2 @ [Inr [t]]) sysTx =
    Some (Inr (if bpTransactionHashRoot payload = eh then b else b\<lparr>beEvents := beEvents b @ beEvents t\<rparr>))"
proof -
  have "retry_events (map Inl es @ [Inr x]) = Some (Inr x)"
    if "\<forall>e \<in> set es. status_Code e = NotFound \<or> status_Code e = ResourceExhausted" for es and x :: "'b FlowBlockEvents list"
    using that by (induction es) auto
  with assms show ?thesis by (simp add: evmEventsForBlock_def getEventsByType_def)
qed

section \<open>Witness\<close>

lemma spork_root_stalls_verifier_witness:
  "\<exists>s' v'. tracking_event quiet_env mem_pebble demo_ids \<lparr>bhID = 0, bhParentID = 0, bhHeight = 10, bhTimestamp = 0\<rparr>
       (Inl ErrSporkRootBlockHasNoEVMBlocks) \<lparr>tsSub = NewRPCEventSubscriber 10, tsQueue = [], tsVerifier = Some demo_verifier, tsLast = 10\<rparr>
       = Ret ([], [], Continue s')
    \<and> tsVerifier s' = Some v' \<and> (\<exists>err v''. AddFinalizedBlock mem_pebble demo_ids (flow_block 11 []) v' = Ret (Some err, v''))"
proof -
  have hash: "\<exists>x. CalculateHash demo_ids (b :: nat FlowBlockEvents) = Inr x" for b
  proof -
    have "\<exists>ys. rmap (convert_event demo_ids) es = Inr ys" for es :: "nat FlowEvent list"
      by (induction es) (auto simp: convert_event_def demo_ids_def)
    then obtain ys where "rmap (convert_event demo_ids) (beEvents b) = Inr ys" by blast
    then show ?thesis by (simp add: CalculateHash_def convertFlowBlockEvents_def) (simp add: demo_ids_def)
  qed
  obtain z x where "CalculateHash demo_ids (zero_events :: nat FlowBlockEvents) = Inr z"
    "CalculateHash demo_ids (flow_block 11 []) = Inr x" using hash by metis
  then show ?thesis
    using spork_root_stalls_verifier [of ErrSporkRootBlockHasNoEVMBlocks
        "\<lparr>tsSub = NewRPCEventSubscriber 10, tsQueue = [], tsVerifier = Some demo_verifier, tsLast = 10\<rparr>" demo_verifier
        "\<lparr>bhID = 0, bhParentID = 0, bhHeight = 10, bhTimestamp = 0\<rparr>" demo_ids z mem_pebble _ "flow_block 11 []" x _ quiet_env,
        OF _ _ _ _ _ _ _ mem_EventsHash_Store _ _ mem_EventsHash_Store]
    by (fastforce simp: demo_verifier_def)
qed

end
