(* ===== verification/Blocks_Provider.thy ===== *)
theory Blocks_Provider
  imports Receipts_Index
begin

text \<open>
  The two providers of block snapshots for the EVM: the sequential one of the ingestion,
  \<^verbatim>\<open>services/replayer/blocks_provider.go\<close>, and the one with overrides of the calls,
  \<^verbatim>\<open>services/requester/overridable_blocks_provider.go\<close>.  flow-go's \<^verbatim>\<open>NewBlockContext\<close> is an
  argument, as is the reader of the block index.
\<close>

section \<open>Block contexts\<close>

text \<open>\<^verbatim>\<open>evmTypes.BlockContext\<close>, with the fields the gateway reads or overrides.\<close>

record BlockContext =
  bcBlockNumber :: u64
  bcBlockTimestamp :: u64
  bcGetHashFunc :: "u64 \<Rightarrow> hash"
  bcRandom :: hash
  bcGasFeeCollector :: address

type_synonym new_context = "u64 \<Rightarrow> u64 \<Rightarrow> (u64 \<Rightarrow> hash) \<Rightarrow> hash \<Rightarrow> err + BlockContext"

text \<open>The hash of a height for the EVM: zero when the block is not known.\<close>

definition hash_of_height :: "'ev codec \<Rightarrow> (u64 \<Rightarrow> err + Block) \<Rightarrow> u64 \<Rightarrow> hash" where
  "hash_of_height c getByHeight n = (case getByHeight n of
      Inl _ \<Rightarrow> 0
    | Inr block \<Rightarrow> (case Hash c block of Inl _ \<Rightarrow> 0 | Inr blockHash \<Rightarrow> blockHash))"

definition BlockContext_of ::
    "new_context \<Rightarrow> 'ev codec \<Rightarrow> (u64 \<Rightarrow> err + Block) \<Rightarrow> Block \<Rightarrow> err + BlockContext" where
  "BlockContext_of mk c getByHeight block =
     mk (Height (evmBlock block)) (Timestamp (evmBlock block)) (hash_of_height c getByHeight) (PrevRandao (evmBlock block))"

section \<open>Provider of the ingestion\<close>

record BlocksProvider =
  latestBlock :: "Block option"

definition NewBlocksProvider :: BlocksProvider where
  "NewBlocksProvider = \<lparr>latestBlock = None\<rparr>"

definition OnBlockReceived :: "'ev codec \<Rightarrow> Block \<Rightarrow> BlocksProvider \<Rightarrow> err + BlocksProvider" where
  "OnBlockReceived c block bp = (case latestBlock bp of
      None \<Rightarrow> Inr (bp\<lparr>latestBlock := Some block\<rparr>)
    | Some latest \<Rightarrow>
       if Height (evmBlock latest) \<noteq> Height (evmBlock block) - 1
       then Inl (Errorf ''%w: received new block: %d, non-sequential of latest block: %d''
              [FNum (unat (Height (evmBlock block))), FNum (unat (Height (evmBlock latest)))] [ErrInvalidHeight])
       else rbind (rwrap (\<lambda>e. Errorf ''failed to compute hash of latest block %d: %w''
                [FNum (unat (Height (evmBlock latest)))] [e]) (Hash c latest)) (\<lambda>latestHash.
         if ParentBlockHash (evmBlock block) \<noteq> latestHash
         then Inl (Errorf ''%w: block %d has parent hash %s, but parent block %d has hash %s''
                [FNum (unat (Height (evmBlock block))), FNum (unat (ParentBlockHash (evmBlock block))),
                 FNum (unat (Height (evmBlock latest))), FNum (unat latestHash)] [ErrInvalidParentHash])
         else Inr (bp\<lparr>latestBlock := Some block\<rparr>)))"

definition Provider_GetSnapshotAt :: "(u64 \<Rightarrow> err + Block) \<Rightarrow> u64 \<Rightarrow> BlocksProvider \<Rightarrow> err + Block" where
  "Provider_GetSnapshotAt getByHeight height bp = (case latestBlock bp of
      Some latest \<Rightarrow> if Height (evmBlock latest) = height then Inr latest else getByHeight height
    | None \<Rightarrow> getByHeight height)"

section \<open>Provider with overrides\<close>

text \<open>The header fields a call may override; withdrawals are kept in their encoding.\<close>

record BlockOverrides =
  boNumber :: "int option"
  boDifficulty :: "int option"
  boTime :: "u64 option"
  boGasLimit :: "u64 option"
  boFeeRecipient :: "address option"
  boPrevRandao :: "hash option"
  boBaseFeePerGas :: "int option"
  boBlobBaseFee :: "int option"
  boBeaconRoot :: "hash option"
  boWithdrawals :: "bytes list option"

record OverridableBlocksProvider =
  blockOverrides :: "BlockOverrides option"

definition NewOverridableBlocksProvider :: OverridableBlocksProvider where
  "NewOverridableBlocksProvider = \<lparr>blockOverrides = None\<rparr>"

definition WithBlockOverrides :: "BlockOverrides option \<Rightarrow> OverridableBlocksProvider \<Rightarrow> OverridableBlocksProvider" where
  "WithBlockOverrides ov bp = bp\<lparr>blockOverrides := ov\<rparr>"

definition Overridable_GetSnapshotAt :: "(u64 \<Rightarrow> err + Block) \<Rightarrow> u64 \<Rightarrow> err + Block" where
  "Overridable_GetSnapshotAt getByHeight height = getByHeight height"

definition Overridable_BlockContext ::
    "new_context \<Rightarrow> 'ev codec \<Rightarrow> (u64 \<Rightarrow> err + Block) \<Rightarrow> Block \<Rightarrow> OverridableBlocksProvider \<Rightarrow> err + BlockContext" where
  "Overridable_BlockContext mk c getByHeight block bp =
     rbind (BlockContext_of mk c getByHeight block) (\<lambda>ctx.
     case blockOverrides bp of
       None \<Rightarrow> Inr ctx
     | Some ov \<Rightarrow>
        (let ctx1 = (case boNumber ov of None \<Rightarrow> ctx | Some n \<Rightarrow> ctx\<lparr>bcBlockNumber := big_Uint64 n\<rparr>);
             ctx2 = (case boTime ov of None \<Rightarrow> ctx1 | Some t \<Rightarrow> ctx1\<lparr>bcBlockTimestamp := t\<rparr>);
             ctx3 = (case boPrevRandao ov of None \<Rightarrow> ctx2 | Some r \<Rightarrow> ctx2\<lparr>bcRandom := r\<rparr>);
             ctx4 = (case boFeeRecipient ov of None \<Rightarrow> ctx3 | Some a \<Rightarrow> ctx3\<lparr>bcGasFeeCollector := a\<rparr>)
         in Inr ctx4))"

section \<open>Chains of blocks\<close>

text \<open>Each block follows the one before it by height and by parent hash.\<close>

fun linked :: "'ev codec \<Rightarrow> Block list \<Rightarrow> bool" where
  "linked c (a # b # bs) \<longleftrightarrow>
     Height (evmBlock a) = Height (evmBlock b) - 1 \<and> Hash c a = Inr (ParentBlockHash (evmBlock b)) \<and> linked c (b # bs)"
| "linked c _ \<longleftrightarrow> True"

lemma linked_snoc: "linked c (bs @ [a]) \<Longrightarrow> Height (evmBlock a) = Height (evmBlock b) - 1 \<Longrightarrow>
    Hash c a = Inr (ParentBlockHash (evmBlock b)) \<Longrightarrow> linked c (bs @ [a, b])"
  by (induction bs rule: linked.induct) auto

lemma OnBlockReceived_linked:
  assumes "OnBlockReceived c b bp = Inr bp'" "linked c bs" "bs \<noteq> [] \<Longrightarrow> latestBlock bp = Some (last bs)"
  shows "linked c (bs @ [b]) \<and> latestBlock bp' = Some b"
proof (cases bs rule: rev_cases)
  case Nil
  with assms(1) show ?thesis by (auto simp: OnBlockReceived_def gw_result split: option.splits if_splits)
next
  case (snoc xs a)
  with assms(3) have "latestBlock bp = Some a" by simp
  with assms(1) have "Height (evmBlock a) = Height (evmBlock b) - 1" "Hash c a = Inr (ParentBlockHash (evmBlock b))"
    "latestBlock bp' = Some b" by (auto simp: OnBlockReceived_def gw_result split: if_splits)
  with linked_snoc [of c xs a b] assms(2) snoc show ?thesis by simp
qed

text \<open>The blocks given to the provider, in order.\<close>

definition receive_all :: "'ev codec \<Rightarrow> Block list \<Rightarrow> BlocksProvider \<Rightarrow> err + BlocksProvider" where
  "receive_all c = rfold (OnBlockReceived c)"

lemma receive_all_linked:
  assumes "receive_all c bs bp = Inr bp'" "linked c pre" "pre \<noteq> [] \<Longrightarrow> latestBlock bp = Some (last pre)"
  shows "linked c (pre @ bs)"
  using assms
proof (induction bs arbitrary: bp pre)
  case Nil
  then show ?case by simp
next
  case (Cons b bs)
  then obtain bp1 where b1: "OnBlockReceived c b bp = Inr bp1" "receive_all c bs bp1 = Inr bp'"
    by (auto simp: receive_all_def gw_result)
  with OnBlockReceived_linked [OF b1(1) Cons.prems(2)] Cons.prems(3) Cons.IH [of bp1 "pre @ [b]"] show ?case by auto
qed

text \<open>Conversely a linked list of blocks is accepted.\<close>

lemma linked_received:
  "linked c (a # bs) \<Longrightarrow> \<exists>bp'. receive_all c bs \<lparr>latestBlock = Some a\<rparr> = Inr bp'"
proof (induction bs arbitrary: a)
  case Nil
  then show ?case by (simp add: receive_all_def)
next
  case (Cons b bs)
  then show ?case by (auto simp: receive_all_def OnBlockReceived_def)
qed

text \<open>C23: The provider of the ingestion accepts exactly the chains: a sequence of blocks given to a
new provider is accepted as a whole if and only if each block has the height after its
predecessor's and the predecessor's hash as parent hash.\<close>

theorem provider_accepts_chains:
  "(\<exists>bp. receive_all c bs NewBlocksProvider = Inr bp) \<longleftrightarrow> linked c bs"
proof
  assume "\<exists>bp. receive_all c bs NewBlocksProvider = Inr bp"
  then show "linked c bs" using receive_all_linked [of c bs NewBlocksProvider _ "[]"] by auto
next
  assume "linked c bs"
  then show "\<exists>bp. receive_all c bs NewBlocksProvider = Inr bp"
    using linked_received
    by (cases bs) (auto simp: receive_all_def OnBlockReceived_def NewBlocksProvider_def)
qed

text \<open>Overrides replace exactly the fields they name.\<close>

lemma Overridable_BlockContext_fields:
  assumes "BlockContext_of mk c g block = Inr ctx" "blockOverrides bp = Some ov"
  shows "Overridable_BlockContext mk c g block bp = Inr (ctx
    \<lparr>bcBlockNumber := (case boNumber ov of None \<Rightarrow> bcBlockNumber ctx | Some n \<Rightarrow> big_Uint64 n),
     bcBlockTimestamp := (case boTime ov of None \<Rightarrow> bcBlockTimestamp ctx | Some t \<Rightarrow> t),
     bcRandom := (case boPrevRandao ov of None \<Rightarrow> bcRandom ctx | Some r \<Rightarrow> r),
     bcGasFeeCollector := (case boFeeRecipient ov of None \<Rightarrow> bcGasFeeCollector ctx | Some a \<Rightarrow> a)\<rparr>)"
  using assms by (auto simp: Overridable_BlockContext_def Let_def split: option.splits)

end
