(* ===== verification/Ingestion_Engine.thy ===== *)
theory Ingestion_Engine
  imports Blocks_Provider Register_Index Cadence_Events Sync_Models
begin

text \<open>
  The ingestion engine, \<^verbatim>\<open>services/ingestion/engine.go\<close>: the events of a Flow block are replayed
  and indexed in one batch, and published only once the batch is committed.  The replayer of
  flow-go, the fork rules and the access-list hashes of go-ethereum are fields of the
  environment.  Logging and metrics are not modelled.
\<close>

section \<open>The engine\<close>

text \<open>
  \<open>ReplayBlockEvents\<close> runs on the registers of the database and the blocks provider, and
  returns the register updates and the access lists of the transactions, where they have one.
\<close>

record ('db, 'batch, 'ev, 'al) engine_env =
  enPebble :: "('db, 'batch) pebble_api"
  enCodec :: "'ev codec"
  enRegisters :: RegisterStorage
  ReplayBlockEvents :: "'db \<Rightarrow> BlocksProvider \<Rightarrow> TransactionEventPayload list \<Rightarrow> BlockEventPayload
    \<Rightarrow> err + ((RegisterID, bytes) gomap \<times> 'al option list)"
  IsAmsterdam :: "u64 \<Rightarrow> u64 \<Rightarrow> bool"
  accessList_Hash :: "'al list \<Rightarrow> hash"

record 'db Engine =
  enDb :: 'db
  blocksProvider :: BlocksProvider
  evmLastHeight :: "u64 option"
  blocksPublisher :: "Block Publisher"
  logsPublisher :: "Log list Publisher"

definition NewEventIngestionEngine ::
    "'db \<Rightarrow> BlocksProvider \<Rightarrow> Block Publisher \<Rightarrow> Log list Publisher \<Rightarrow> 'db Engine" where
  "NewEventIngestionEngine d bp blocksPub logsPub =
     \<lparr>enDb = d, blocksProvider = bp, evmLastHeight = None, blocksPublisher = blocksPub, logsPublisher = logsPub\<rparr>"

definition registerEntriesFromKeyValue :: "(RegisterID, bytes) gomap \<Rightarrow> RegisterEntry list" where
  "registerEntriesFromKeyValue keyValue = map (\<lambda>(k, v). \<lparr>reKey = k, reValue = v\<rparr>) keyValue"

text \<open>The last height is initialised with the first block; the result is the new last height.  The
guard against a nil block is left out: the caller has dereferenced the block before.\<close>

definition indexBlock ::
    "('db, 'batch, 'ev, 'al) engine_env \<Rightarrow> u64 \<Rightarrow> flow_id \<Rightarrow> Block \<Rightarrow> 'batch \<Rightarrow> u64 option \<Rightarrow> (err + 'batch) \<times> u64 option" where
  "indexBlock E cadenceHeight cadenceID block batch lastHeight =
     (let height = Height (evmBlock block);
          current = (case lastHeight of None \<Rightarrow> height | Some h \<Rightarrow> h)
      in case Increment height current of
        Inl e \<Rightarrow> (Inl (Errorf ''invalid block height, expected %d, got %d: %w'' [FNum (unat current), FNum (unat height)] [e]), Some current)
      | Inr h \<Rightarrow> (Blocks_Store (enPebble E) (enCodec E) cadenceHeight cadenceID block batch, Some h))"

definition indexTransaction ::
    "('db, 'batch, 'ev, 'al) engine_env \<Rightarrow> Transaction \<Rightarrow> 'batch \<Rightarrow> err + 'batch" where
  "indexTransaction E tx batch =
     rwrap (\<lambda>e. Errorf ''failed to store tx: %s, with: %w'' [FNum (unat (tx_Hash tx))] [e])
       (Transactions_Store (enPebble E) (enCodec E) tx batch)"

text \<open>A nil slice of receipts, that of a block without transactions, is not stored.\<close>

definition indexReceipts ::
    "('db, 'batch, 'ev, 'al) engine_env \<Rightarrow> Receipt list \<Rightarrow> 'batch \<Rightarrow> err + 'batch" where
  "indexReceipts E receipts batch =
     (if receipts = [] then Inr batch
      else rwrap (\<lambda>e. Errorf ''failed to store receipt: %w'' [] [e])
        (Receipts_Store (enPebble E) (enCodec E) receipts batch))"

text \<open>
  The access-list hash of the block, from the Amsterdam fork on.  The block is a pointer the
  provider shares, so that the provider's latest block is updated with it.
\<close>

definition with_access_list ::
    "('db, 'batch, 'ev, 'al) engine_env \<Rightarrow> 'al option list \<Rightarrow> Block \<Rightarrow> Block" where
  "with_access_list E txResults block =
     (if IsAmsterdam E (Height (evmBlock block)) (Timestamp (evmBlock block))
      then block\<lparr>AccessListHash := Some (accessList_Hash E (List.map_filter (\<lambda>x. x) txResults))\<rparr>
      else block)"

text \<open>
  Indexing: the batch or an error, the events with the final block, and the engine with its
  provider and last height, which are updated even when a later step fails.
\<close>

definition indexEvents ::
    "('db, 'batch, 'ev, 'al) engine_env \<Rightarrow> 'ev CadenceEvents \<Rightarrow> 'db Engine \<Rightarrow> 'batch
      \<Rightarrow> (err + 'batch) \<times> 'ev CadenceEvents \<times> 'db Engine" where
  "indexEvents E events en batch = (case (ceBlock events, ceBlockEventPayload events) of
      (Some block, Some blockEvents) \<Rightarrow>
        (case OnBlockReceived (enCodec E) block (blocksProvider en) of
           Inl e \<Rightarrow> (Inl e, events, en)
         | Inr bp \<Rightarrow>
            (case ReplayBlockEvents E (enDb en) bp (ceTxEventPayloads events) blockEvents of
               Inl e \<Rightarrow> (Inl (Errorf ''failed to replay block on height: %d, with: %w''
                   [FNum (unat (Height (evmBlock block)))] [e]), events, en\<lparr>blocksProvider := bp\<rparr>)
             | Inr (updates, txResults) \<Rightarrow>
                (let block' = with_access_list E txResults block;
                     events' = events\<lparr>ceBlock := Some block'\<rparr>;
                     en1 = en\<lparr>blocksProvider := bp\<lparr>latestBlock := Some block'\<rparr>\<rparr>
                 in case RegisterStorage_Store (enPebble E) (enRegisters E) (registerEntriesFromKeyValue updates)
                     (bpHeight blockEvents) batch of
                   Inl e \<Rightarrow> (Inl (Errorf ''failed to store state changes on block: %d'' [FNum (unat (Height (evmBlock block)))] []), events', en1)
                 | Inr batch1 \<Rightarrow>
                    (case indexBlock E (CadenceHeight events) (CadenceBlockID events) block' batch1 (evmLastHeight en) of
                       (Inl e, lh) \<Rightarrow> (Inl (Errorf ''failed to index block %d event: %w'' [FNum (unat (Height (evmBlock block)))] [e]),
                           events', en1\<lparr>evmLastHeight := lh\<rparr>)
                     | (Inr batch2, lh) \<Rightarrow>
                        (rbind (rfold (\<lambda>tx b. rwrap (\<lambda>e. Errorf ''failed to index transaction %s event: %w'' [FNum (unat (tx_Hash tx))] [e])
                             (indexTransaction E tx b)) (ceTransactions events) batch2) (\<lambda>batch3.
                         rwrap (\<lambda>e. Errorf ''failed to index receipts for block %d event: %w'' [FNum (unat (Height (evmBlock block)))] [e])
                           (indexReceipts E (ceReceipts events) batch3)),
                         events', en1\<lparr>evmLastHeight := lh\<rparr>)))))
    | (Some _, None) \<Rightarrow> (Inl (RuntimePanic ''nil pointer dereference''), events, en)
    | (None, _) \<Rightarrow>
        (rwrap (\<lambda>e. Errorf ''failed to update to latest cadence height: %d, during events ingestion: %w''
             [FNum (unat (CadenceHeight events))] [e])
           (SetLatestCadenceHeight (enPebble E) (CadenceHeight events) batch), events, en))"

definition processEvents ::
    "('db, 'batch, 'ev, 'al) engine_env \<Rightarrow> 'ev CadenceEvents \<Rightarrow> 'db Engine \<Rightarrow> err option \<times> 'db Engine" where
  "processEvents E events en =
     (let (_, events', en1) = indexEvents E events en (NewBatch (enPebble E) (enDb en));
          (err, d) = WithBatch (enPebble E) (\<lambda>batch. fst (indexEvents E events en batch)) (enDb en);
          en2 = en1\<lparr>enDb := d\<rparr>
      in case err of
        Some e \<Rightarrow> (Some (Errorf ''failed to index events for cadence block %d: %w'' [FNum (unat (CadenceHeight events))] [e]), en2)
      | None \<Rightarrow>
         (case ceBlock events' of
            None \<Rightarrow> (None, en2)
          | Some block \<Rightarrow>
             (None, en2\<lparr>blocksPublisher := Publish block (blocksPublisher en2),
                        logsPublisher := fold Publish (filter (\<lambda>ls. length ls > 0) (map rLogs (ceReceipts events'))) (logsPublisher en2)\<rparr>)))"

text \<open>
  The loop of \<^verbatim>\<open>Run\<close> over what the subscription delivers until it is closed or the engine is
  stopped; the events after that are not read.
\<close>

fun Engine_Run ::
    "('db, 'batch, 'ev, 'al) engine_env \<Rightarrow> (err + 'ev CadenceEvents) list \<Rightarrow> 'db Engine \<Rightarrow> err option \<times> 'db Engine" where
  "Engine_Run E [] en = (None, en)"
| "Engine_Run E (Inl e # evs) en = (Some (Errorf ''failure in event subscription with: %w'' [] [e]), en)"
| "Engine_Run E (Inr events # evs) en =
     (case processEvents E events en of
        (Some e, en') \<Rightarrow> (Some e, en')
      | (None, en') \<Rightarrow> Engine_Run E evs en')"

section \<open>Operations a batch collects\<close>

definition sets_only :: "byte set \<Rightarrow> batch_op list \<Rightarrow> bool" where
  "sets_only S xs \<longleftrightarrow> (\<forall>x \<in> set xs. \<exists>c k v. x = OpSet (c # k) v \<and> c \<in> S)"

lemma sets_only_simps [simp]: "sets_only S []" "sets_only S (OpSet (c # k) v # xs) \<longleftrightarrow> c \<in> S \<and> sets_only S xs"
  "sets_only S (xs @ ys) \<longleftrightarrow> sets_only S xs \<and> sets_only S ys"
  by (auto simp: sets_only_def)

lemma sets_only_other: "sets_only S xs \<Longrightarrow> c \<notin> S \<Longrightarrow> apply_ops xs m (c # k) = m (c # k)"
proof (induction xs arbitrary: m)
  case (Cons x xs)
  then obtain d j v where x: "x = OpSet (d # j) v" "d \<in> S" by (auto simp: sets_only_def)
  with Cons show ?case by (auto simp: sets_only_def)
qed simp

lemma sets_only_index:
  "sets_only S xs \<Longrightarrow> S \<inter> {blockHeightKey, blockIDToHeightKey, evmHeightToCadenceHeightKey, evmHeightToCadenceIDKey,
      latestEVMHeightKey, latestCadenceHeightKey} = {} \<Longrightarrow> index_of c (apply_ops xs m) = index_of c m"
  by (simp add: index_of_def sets_only_other)

lemma storage_set_Inr:
  assumes "pebble_ok P view ops" "storage_set P code (Some k) v b = Inr b'"
  shows "ops b' = ops b @ [OpSet (code # k) v]"
  using storage_set_ops [OF assms(1), of code "Some k" v b] assms(2) by simp

lemma Blocks_Store_Inr:
  assumes "pebble_ok P view ops" "Blocks_Store P c ch cid block b = Inr b'"
  shows "\<exists>val h. ToBytes c block = Inr val \<and> Hash c block = Inr h
    \<and> ops b' = ops b @ block_ops ch cid (Height (evmBlock block)) val h"
proof -
  obtain val h where "ToBytes c block = Inr val" "Hash c block = Inr h"
    using assms(2) by (auto simp: Blocks_Store_def gw_result Let_def)
  with Blocks_Store_ops [OF assms(1) this, of ch cid b] assms(2) show ?thesis by auto
qed

lemma Receipts_step_Inr:
  assumes "pebble_ok P view ops" "rfold (Receipts_Store_step P) rs (h0, bl, b) = Inr (h, bl', b')"
  shows "\<exists>xs. ops b' = ops b @ xs \<and> sets_only {receiptTxIDToHeightKey} xs"
  using assms(2)
proof (induction rs arbitrary: h0 bl b)
  case Nil
  then show ?case by (auto intro: exI [of _ "[]"])
next
  case (Cons r rs)
  then obtain h1 bl1 b1 where s: "Receipts_Store_step P r (h0, bl, b) = Inr (h1, bl1, b1)"
    "rfold (Receipts_Store_step P) rs (h1, bl1, b1) = Inr (h, bl', b')" by (auto simp: gw_result)
  then have "\<exists>k v. storage_set P receiptTxIDToHeightKey (Some k) v b = Inr b1"
    by (auto simp: Receipts_Store_step_def gw_result Let_def split: if_splits)
  then obtain k v where "ops b1 = ops b @ [OpSet (receiptTxIDToHeightKey # k) v]"
    using storage_set_Inr [OF assms(1)] by blast
  with Cons.IH [OF s(2)] show ?case by auto
qed

lemma Receipts_Store_Inr:
  assumes "pebble_ok P view ops" "Receipts_Store P c rs b = Inr b'"
  shows "\<exists>xs. ops b' = ops b @ xs \<and> sets_only {receiptTxIDToHeightKey, receiptHeightKey, bloomHeightKey} xs"
proof -
  obtain h bl b1 k1 v1 b2 k2 v2 where "rfold (Receipts_Store_step P) rs (0, [], b) = Inr (h, bl, b1)"
    "storage_set P receiptHeightKey (Some k1) v1 b1 = Inr b2" "storage_set P bloomHeightKey (Some k2) v2 b2 = Inr b'"
    using assms(2) by (auto simp: Receipts_Store_def gw_result)
  with Receipts_step_Inr [OF assms(1) this(1)] storage_set_Inr [OF assms(1)] show ?thesis
    by (fastforce simp: sets_only_def)
qed

lemma Transactions_Inr:
  assumes "pebble_ok (enPebble E) view ops"
    and "rfold (\<lambda>tx b. rwrap (w tx) (indexTransaction E tx b)) txs b = Inr b'"
  shows "\<exists>xs. ops b' = ops b @ xs \<and> sets_only {txIDKey} xs"
  using assms(2)
proof (induction txs arbitrary: b)
  case Nil
  then show ?case by (auto intro: exI [of _ "[]"])
next
  case (Cons tx txs)
  then obtain b1 v where b1: "storage_set (enPebble E) txIDKey (Some (hashBytes (tx_Hash tx))) v b = Inr b1"
    "rfold (\<lambda>tx b. rwrap (w tx) (indexTransaction E tx b)) txs b1 = Inr b'"
    by (auto simp: gw_result indexTransaction_def Transactions_Store_def)
  with Cons.IH [OF b1(2)] storage_set_Inr [OF assms(1) b1(1)] show ?case by auto
qed

lemma Register_Store_Inr:
  assumes "pebble_ok P view ops" "RegisterStorage_Store P r es h b = Inr b'"
  shows "\<exists>xs. ops b' = ops b @ xs \<and> sets_only {registerKeyMarker} xs"
  using assms(2)
proof (induction es arbitrary: b)
  case Nil
  then show ?case by (auto simp: RegisterStorage_Store_def intro: exI [of _ "[]"])
next
  case (Cons e es)
  then obtain b1 where b1: "b_Set P (newLookupKey h (Key (reKey e))) (reValue e) b = Inr b1"
    "RegisterStorage_Store P r es h b1 = Inr b'"
    by (auto simp: RegisterStorage_Store_def gw_result split: if_splits)
  with Cons.IH [OF b1(2)] pebble_set [OF assms(1), of "newLookupKey h (Key (reKey e))" "reValue e" b] show ?case
    by (auto simp: newLookupKey_def)
qed

section \<open>Indexing a block\<close>

lemma with_access_list_simps [simp]:
  "evmBlock (with_access_list E al b) = evmBlock b" "Hash c (with_access_list E al b) = Hash c b"
  by (simp_all add: with_access_list_def Hash_def)

lemma indexEvents_block:
  assumes ok: "pebble_ok (enPebble E) view ops" and "indexEvents E ev en b = (Inr b', ev', en')" "ceBlock ev = Some block"
  shows "\<exists>al val h xs ys bp. OnBlockReceived (enCodec E) block (blocksProvider en) = Inr bp
    \<and> ceBlock ev' = Some (with_access_list E al block) \<and> ceReceipts ev' = ceReceipts ev
    \<and> latestBlock (blocksProvider en') = Some (with_access_list E al block)
    \<and> ToBytes (enCodec E) (with_access_list E al block) = Inr val \<and> Hash (enCodec E) block = Inr h
    \<and> ops b' = ops b @ xs @ block_ops (CadenceHeight ev) (CadenceBlockID ev) (Height (evmBlock block)) val h @ ys
    \<and> sets_only {registerKeyMarker} xs \<and> sets_only {txIDKey, receiptTxIDToHeightKey, receiptHeightKey, bloomHeightKey} ys"
proof -
  let ?ib = "\<lambda>al b1. indexBlock E (CadenceHeight ev) (CadenceBlockID ev) (with_access_list E al block) b1 (evmLastHeight en)"
  obtain payload where p: "ceBlockEventPayload ev = Some payload"
    using assms(2,3) by (cases "ceBlockEventPayload ev") (auto simp: indexEvents_def)
  note start = assms(2) [unfolded indexEvents_def assms(3) p, simplified]
  from start obtain bp where s1: "OnBlockReceived (enCodec E) block (blocksProvider en) = Inr bp"
    by (cases "OnBlockReceived (enCodec E) block (blocksProvider en)") auto
  from start s1 obtain updates al where s2: "ReplayBlockEvents E (enDb en) bp (ceTxEventPayloads ev) payload = Inr (updates, al)"
    by (cases "ReplayBlockEvents E (enDb en) bp (ceTxEventPayloads ev) payload") auto
  from start s1 s2 obtain b1 where s3: "RegisterStorage_Store (enPebble E) (enRegisters E) (registerEntriesFromKeyValue updates) (bpHeight payload) b = Inr b1"
    by (cases "RegisterStorage_Store (enPebble E) (enRegisters E) (registerEntriesFromKeyValue updates) (bpHeight payload) b")
      (auto simp: Let_def)
  obtain r lh where ib: "?ib al b1 = (r, lh)" by fastforce
  from start s1 s2 s3 ib obtain b2 where r: "r = Inr b2" by (cases r) (auto simp: Let_def)
  have rest: "rbind (rfold (\<lambda>tx b. rwrap (\<lambda>e. Errorf ''failed to index transaction %s event: %w'' [FNum (unat (tx_Hash tx))] [e])
         (indexTransaction E tx b)) (ceTransactions ev) b2) (\<lambda>batch3.
       rwrap (\<lambda>e. Errorf ''failed to index receipts for block %d event: %w'' [FNum (unat (Height (evmBlock block)))] [e])
         (indexReceipts E (ceReceipts ev) batch3)) = Inr b'"
    and ev': "ev' = ev\<lparr>ceBlock := Some (with_access_list E al block)\<rparr>"
      "en' = en\<lparr>blocksProvider := bp\<lparr>latestBlock := Some (with_access_list E al block)\<rparr>, evmLastHeight := lh\<rparr>"
    using start s1 s2 s3 ib r by (simp_all add: Let_def)
  obtain xs where xs: "ops b1 = ops b @ xs" "sets_only {registerKeyMarker} xs"
    using Register_Store_Inr [OF ok s3] by blast
  have "Blocks_Store (enPebble E) (enCodec E) (CadenceHeight ev) (CadenceBlockID ev) (with_access_list E al block) b1 = Inr b2"
    using ib r by (auto simp: indexBlock_def Let_def split: sum.splits)
  from Blocks_Store_Inr [OF ok this] obtain val h where bl: "ToBytes (enCodec E) (with_access_list E al block) = Inr val"
    "Hash (enCodec E) block = Inr h"
    "ops b2 = ops b1 @ block_ops (CadenceHeight ev) (CadenceBlockID ev) (Height (evmBlock block)) val h" by auto
  obtain b3 where b3: "rfold (\<lambda>tx b. rwrap (\<lambda>e. Errorf ''failed to index transaction %s event: %w'' [FNum (unat (tx_Hash tx))] [e])
         (indexTransaction E tx b)) (ceTransactions ev) b2 = Inr b3" "indexReceipts E (ceReceipts ev) b3 = Inr b'"
    using rest by (auto simp: gw_result)
  obtain ys where ys: "ops b3 = ops b2 @ ys" "sets_only {txIDKey} ys" using Transactions_Inr [OF ok b3(1)] by blast
  obtain zs where zs: "ops b' = ops b3 @ zs" "sets_only {receiptTxIDToHeightKey, receiptHeightKey, bloomHeightKey} zs"
    using b3(2)
    by (cases "ceReceipts ev = []") (auto simp: indexReceipts_def gw_result dest!: Receipts_Store_Inr [OF ok])
  have "sets_only {txIDKey, receiptTxIDToHeightKey, receiptHeightKey, bloomHeightKey} (ys @ zs)"
    using ys(2) zs(2) by (auto simp: sets_only_def)
  with s1 ev' bl xs ys(1) zs(1) show ?thesis by (intro exI [of _ al] exI [of _ val] exI [of _ h] exI [of _ xs] exI [of _ "ys @ zs"] exI [of _ bp]) simp
qed

lemma index_of_indexed:
  assumes "codec_ok c" "ToBytes c block = Inr val" "sets_only {registerKeyMarker} xs"
    "sets_only {txIDKey, receiptTxIDToHeightKey, receiptHeightKey, bloomHeightKey} ys"
  shows "index_of c (apply_ops (xs @ block_ops ch cid (Height (evmBlock block)) val h @ ys) m) =
    index_store ch cid block h (index_of c m)"
proof -
  have "index_of c (apply_ops ys m') = index_of c m'" for m'
    by (rule sets_only_index [OF assms(4)]) (simp add: key_codes)
  moreover have "index_of c (apply_ops xs m) = index_of c m"
    by (rule sets_only_index [OF assms(3)]) (simp add: key_codes)
  ultimately show ?thesis using index_of_block_ops [OF assms(1,2)] by simp
qed

lemma processEvents_block:
  assumes ok: "pebble_ok (enPebble E) view ops" and c: "codec_ok (enCodec E)"
    and p: "processEvents E ev en = (None, en')" and b: "ceBlock ev = Some block"
  shows "\<exists>al h bp. OnBlockReceived (enCodec E) block (blocksProvider en) = Inr bp
    \<and> latestBlock (blocksProvider en') = Some (with_access_list E al block) \<and> Hash (enCodec E) block = Inr h
    \<and> index_of (enCodec E) (view (enDb en')) =
        index_store (CadenceHeight ev) (CadenceBlockID ev) (with_access_list E al block) h (index_of (enCodec E) (view (enDb en)))
    \<and> blocksPublisher en' = Publish (with_access_list E al block) (blocksPublisher en)
    \<and> logsPublisher en' = fold Publish (filter (\<lambda>ls. length ls > 0) (map rLogs (ceReceipts ev))) (logsPublisher en)"
proof -
  let ?P = "enPebble E" and ?b0 = "NewBatch (enPebble E) (enDb en)"
  obtain r ev1 en1 where ix: "indexEvents E ev en ?b0 = (r, ev1, en1)" by (cases "indexEvents E ev en ?b0") auto
  obtain d where d: "WithBatch ?P (\<lambda>batch. fst (indexEvents E ev en batch)) (enDb en) = (None, d)"
    using p ix by (cases "WithBatch ?P (\<lambda>batch. fst (indexEvents E ev en batch)) (enDb en)")
      (auto simp: processEvents_def Let_def split: option.splits)
  obtain b' where r: "r = Inr b'" and view: "view d = apply_ops (ops b') (view (enDb en))"
    using WithBatch_view [OF ok d] ix by auto
  have "indexEvents E ev en ?b0 = (Inr b', ev1, en1)" using ix r by simp
  from indexEvents_block [OF ok this b] obtain al val h xs ys bp where s:
    "OnBlockReceived (enCodec E) block (blocksProvider en) = Inr bp" "ceBlock ev1 = Some (with_access_list E al block)"
    "ceReceipts ev1 = ceReceipts ev" "latestBlock (blocksProvider en1) = Some (with_access_list E al block)"
    "ToBytes (enCodec E) (with_access_list E al block) = Inr val" "Hash (enCodec E) block = Inr h"
    "ops b' = ops ?b0 @ xs @ block_ops (CadenceHeight ev) (CadenceBlockID ev) (Height (evmBlock block)) val h @ ys"
    "sets_only {registerKeyMarker} xs" "sets_only {txIDKey, receiptTxIDToHeightKey, receiptHeightKey, bloomHeightKey} ys"
    by blast
  have "ops ?b0 = []" using ok by (simp add: pebble_ok_def NewBatch_def)
  with view s(7) index_of_indexed [OF c s(5,8,9)] have "index_of (enCodec E) (view d) =
      index_store (CadenceHeight ev) (CadenceBlockID ev) (with_access_list E al block) h (index_of (enCodec E) (view (enDb en)))"
    by simp
  with p ix d s have "index_of (enCodec E) (view (enDb en')) =
      index_store (CadenceHeight ev) (CadenceBlockID ev) (with_access_list E al block) h (index_of (enCodec E) (view (enDb en)))"
    by (auto simp: processEvents_def Let_def)
  moreover have "blocksPublisher en1 = blocksPublisher en" "logsPublisher en1 = logsPublisher en"
    using ix by (auto simp: indexEvents_def Let_def split: option.splits sum.splits prod.splits)
  ultimately show ?thesis
    using p ix d s by (intro exI [of _ al] exI [of _ h] exI [of _ bp]) (auto simp: processEvents_def Let_def)
qed

lemma processEvents_heartbeat:
  assumes ok: "pebble_ok (enPebble E) view ops" and p: "processEvents E ev en = (None, en')" and b: "ceBlock ev = None"
  shows "index_of (enCodec E) (view (enDb en')) = (index_of (enCodec E) (view (enDb en)))\<lparr>ixLatestCadence := Some (CadenceHeight ev)\<rparr>
    \<and> blocksProvider en' = blocksProvider en"
proof -
  let ?P = "enPebble E" and ?h = "CadenceHeight ev"
  have ix: "indexEvents E ev en b = (rwrap (\<lambda>e. Errorf ''failed to update to latest cadence height: %d, during events ingestion: %w''
      [FNum (unat ?h)] [e]) (SetLatestCadenceHeight ?P ?h b), ev, en)" for b
    using b by (simp add: indexEvents_def)
  obtain d where d: "WithBatch ?P (\<lambda>batch. fst (indexEvents E ev en batch)) (enDb en) = (None, d)" "en' = en\<lparr>enDb := d\<rparr>"
    using p ix b by (cases "WithBatch ?P (\<lambda>batch. fst (indexEvents E ev en batch)) (enDb en)")
      (auto simp: processEvents_def Let_def split: option.splits)
  have "\<exists>b'. fst (indexEvents E ev en (NewBatch ?P (enDb en))) = Inr b'
      \<and> ops b' = ops (NewBatch ?P (enDb en)) @ [OpSet [latestCadenceHeightKey] (uint64Bytes ?h)]"
    using storage_set_ops [OF ok, of latestCadenceHeightKey None "uint64Bytes ?h"] ix
    by (auto simp: SetLatestCadenceHeight_def) (metis rwrap.simps(2))
  from WithBatch_ops [OF ok d(1) this] show ?thesis
    by (simp add: d(2) index_of_def key_codes)
qed

section \<open>Properties\<close>

text \<open>C2: Ingesting the events of a Flow block with an EVM block: when it succeeds, the block had the
height and parent hash that follow the provider's latest block, the index of the committed database
is the old one with exactly this block added, at its Cadence height and with its access-list hash
filled in from the Amsterdam fork on, and the block and the logs of each of its transactions that
has any have been published, in order.  (That a failure, the commit's included, publishes nothing is
the atomicity property that follows.)\<close>

theorem ingested_block_committed:
  assumes "pebble_ok (enPebble E) view ops" "codec_ok (enCodec E)"
    and "processEvents E ev en = (None, en')" "ceBlock ev = Some block"
  shows "\<exists>block' al h bp. block' = with_access_list E al block \<and> Hash (enCodec E) block' = Inr h
    \<and> OnBlockReceived (enCodec E) block (blocksProvider en) = Inr bp
    \<and> index_of (enCodec E) (view (enDb en')) =
        index_store (CadenceHeight ev) (CadenceBlockID ev) block' h (index_of (enCodec E) (view (enDb en)))
    \<and> blocksPublisher en' = Publish block' (blocksPublisher en)
    \<and> logsPublisher en' = fold Publish (filter (\<lambda>ls. length ls > 0) (map rLogs (ceReceipts ev))) (logsPublisher en)"
proof -
  obtain al h bp where s: "OnBlockReceived (enCodec E) block (blocksProvider en) = Inr bp" "Hash (enCodec E) block = Inr h"
    "index_of (enCodec E) (view (enDb en')) =
        index_store (CadenceHeight ev) (CadenceBlockID ev) (with_access_list E al block) h (index_of (enCodec E) (view (enDb en)))"
    "blocksPublisher en' = Publish (with_access_list E al block) (blocksPublisher en)"
    "logsPublisher en' = fold Publish (filter (\<lambda>ls. length ls > 0) (map rLogs (ceReceipts ev))) (logsPublisher en)"
    using processEvents_block [OF assms] by blast
  then show ?thesis
    by (intro exI [of _ "with_access_list E al block"] exI [of _ al] exI [of _ h] exI [of _ bp]) simp
qed

text \<open>C7: Ingestion is atomic: when anything fails, the replay, a check or the commit, the database
is unchanged and nothing is published.\<close>

theorem ingestion_atomic:
  assumes "processEvents E ev en = (Some e, en')"
  shows "enDb en' = enDb en \<and> blocksPublisher en' = blocksPublisher en \<and> logsPublisher en' = logsPublisher en"
proof -
  let ?P = "enPebble E"
  obtain r ev1 en1 where ix: "indexEvents E ev en (NewBatch ?P (enDb en)) = (r, ev1, en1)"
    by (cases "indexEvents E ev en (NewBatch ?P (enDb en))") auto
  obtain e0 d where d: "WithBatch ?P (\<lambda>batch. fst (indexEvents E ev en batch)) (enDb en) = (Some e0, d)" "en' = en1\<lparr>enDb := d\<rparr>"
    using assms ix by (cases "WithBatch ?P (\<lambda>batch. fst (indexEvents E ev en batch)) (enDb en)")
      (auto simp: processEvents_def Let_def split: option.splits)
  have "blocksPublisher en1 = blocksPublisher en" "logsPublisher en1 = logsPublisher en"
    using ix by (auto simp: indexEvents_def Let_def split: option.splits sum.splits prod.splits)
  with d WithBatch_error [OF d(1)] show ?thesis by simp
qed

definition event_blocks :: "(err + 'ev CadenceEvents) list \<Rightarrow> Block list" where
  "event_blocks evs = List.map_filter (\<lambda>r. case r of Inl _ \<Rightarrow> None | Inr ev \<Rightarrow> ceBlock ev) evs"

lemma event_blocks_simps [simp]:
  "event_blocks [] = []"
  "event_blocks (Inr ev # evs) = (case ceBlock ev of None \<Rightarrow> event_blocks evs | Some b \<Rightarrow> b # event_blocks evs)"
  by (simp_all add: event_blocks_def map_filter_simps split: option.splits)

lemma OnBlockReceived_access_list:
  "latestBlock bp = Some (with_access_list E al a) \<Longrightarrow> OnBlockReceived c b bp = Inr bp' \<Longrightarrow>
   Height (evmBlock a) = Height (evmBlock b) - 1 \<and> Hash c a = Inr (ParentBlockHash (evmBlock b))"
  by (auto simp: OnBlockReceived_def gw_result split: if_splits)

lemma Engine_Run_linked:
  assumes "pebble_ok (enPebble E) view ops" "codec_ok (enCodec E)"
    and "Engine_Run E evs en = (None, en')" "linked (enCodec E) pre"
    and "pre \<noteq> [] \<Longrightarrow> \<exists>al. latestBlock (blocksProvider en) = Some (with_access_list E al (last pre))"
    and "pre \<noteq> [] \<Longrightarrow> ixLatest (index_of (enCodec E) (view (enDb en))) = Some (Height (evmBlock (last pre)))"
  shows "linked (enCodec E) (pre @ event_blocks evs)
    \<and> (pre @ event_blocks evs \<noteq> [] \<longrightarrow> ixLatest (index_of (enCodec E) (view (enDb en'))) = Some (Height (evmBlock (last (pre @ event_blocks evs)))))"
  using assms(3-)
proof (induction evs arbitrary: en pre)
  case Nil
  then show ?case by simp
next
  case (Cons x evs)
  obtain ev where x: "x = Inr ev" using Cons.prems(1) by (cases x) auto
  obtain en1 where en1: "processEvents E ev en = (None, en1)" "Engine_Run E evs en1 = (None, en')"
    using Cons.prems(1) x by (auto split: prod.splits option.splits)
  show ?case
  proof (cases "ceBlock ev")
    case None
    from processEvents_heartbeat [OF assms(1) en1(1) None] Cons.IH [OF en1(2) Cons.prems(2)] Cons.prems(3,4) None
    show ?thesis by (simp add: x)
  next
    case (Some b)
    from processEvents_block [OF assms(1,2) en1(1) Some] obtain al h bp where s:
      "OnBlockReceived (enCodec E) b (blocksProvider en) = Inr bp"
      "latestBlock (blocksProvider en1) = Some (with_access_list E al b)"
      "index_of (enCodec E) (view (enDb en1)) =
        index_store (CadenceHeight ev) (CadenceBlockID ev) (with_access_list E al b) h (index_of (enCodec E) (view (enDb en)))"
      by blast
    have "linked (enCodec E) (pre @ [b])"
    proof (cases pre rule: rev_cases)
      case (snoc ys a)
      with Cons.prems(3) OnBlockReceived_access_list [OF _ s(1)] have
        "Height (evmBlock a) = Height (evmBlock b) - 1" "Hash (enCodec E) a = Inr (ParentBlockHash (evmBlock b))" by fastforce+
      with linked_snoc [of "enCodec E" ys a b] Cons.prems(2) snoc show ?thesis by simp
    qed simp
    moreover have "\<exists>al. latestBlock (blocksProvider en1) = Some (with_access_list E al (last (pre @ [b])))" using s(2) by auto
    moreover have "ixLatest (index_of (enCodec E) (view (enDb en1))) = Some (Height (evmBlock (last (pre @ [b]))))"
      by (simp add: s(3) index_store_def)
    ultimately show ?thesis using Cons.IH [OF en1(2), of "pre @ [b]"] Some by (simp add: x)
  qed
qed

text \<open>The heights of a chain count up from its first block, so that no two blocks of a chain that
does not run through all the heights share one.\<close>

lemma linked_heights: "linked c bs \<Longrightarrow> i < length bs \<Longrightarrow> Height (evmBlock (bs ! i)) = Height (evmBlock (bs ! 0)) + of_nat i"
proof (induction bs arbitrary: i rule: linked.induct)
  case (1 c a b bs)
  show ?case
  proof (cases i)
    case (Suc j)
    with 1(1) [of j] 1(2,3) show ?thesis by (simp add: algebra_simps)
  qed simp
qed auto

lemma linked_distinct:
  assumes "linked c bs" "length bs \<le> 2 ^ 64"
  shows "distinct (map (\<lambda>b. Height (evmBlock b)) bs)"
proof -
  have "i = j" if "i < length bs" "j < length bs" "(of_nat i :: u64) = of_nat j" for i j
  proof -
    have "i < 2 ^ 64" "j < 2 ^ 64" using that assms(2) by linarith+
    with that(3) show ?thesis by (simp add: word_of_nat_eq_iff take_bit_nat_eq_self)
  qed
  then show ?thesis
    by (auto simp: distinct_conv_nth linked_heights [OF assms(1)])
qed

text \<open>What the index has of a block and of its place in the Flow chain.\<close>

definition index_entry :: "index \<Rightarrow> u64 \<Rightarrow> Block option \<times> u64 option \<times> flow_id option" where
  "index_entry ix h = (ixBlock ix h, ixCadence ix h, ixCadenceID ix h)"

lemma index_entry_store:
  "index_entry (index_store ch cid b i ix) h =
     (if h = Height (evmBlock b) then (Some b, Some ch, Some cid) else index_entry ix h)"
  "index_entry (ix\<lparr>ixLatestCadence := x\<rparr>) h = index_entry ix h"
  by (simp_all add: index_entry_def index_store_def)

lemma Engine_Run_index:
  assumes "pebble_ok (enPebble E) view ops" "codec_ok (enCodec E)" "Engine_Run E evs en = (None, en')"
  shows "h \<notin> (\<lambda>b. Height (evmBlock b)) ` set (event_blocks evs) \<Longrightarrow>
      index_entry (index_of (enCodec E) (view (enDb en'))) h = index_entry (index_of (enCodec E) (view (enDb en))) h"
    and "distinct (map (\<lambda>b. Height (evmBlock b)) (event_blocks evs)) \<Longrightarrow> Inr ev \<in> set evs \<Longrightarrow> ceBlock ev = Some b \<Longrightarrow>
      \<exists>al. index_entry (index_of (enCodec E) (view (enDb en'))) (Height (evmBlock b)) =
        (Some (with_access_list E al b), Some (CadenceHeight ev), Some (CadenceBlockID ev))"
  using assms(3)
proof (induction evs arbitrary: en h and en)
  case (Cons x evs)
  let ?ix = "\<lambda>e. index_entry (index_of (enCodec E) (view (enDb e)))"
  {
    case 1
    then obtain ev1 en1 where x: "x = Inr ev1" and en1: "processEvents E ev1 en = (None, en1)" "Engine_Run E evs en1 = (None, en')"
      by (cases x) (auto split: prod.splits option.splits)
    have "?ix en1 h = ?ix en h"
    proof (cases "ceBlock ev1")
      case None
      with processEvents_heartbeat [OF assms(1) en1(1)] show ?thesis by (simp add: index_entry_store)
    next
      case (Some b1)
      with 1(1) x processEvents_block [OF assms(1,2) en1(1) Some] show ?thesis by (auto simp: index_entry_store)
    qed
    moreover have "?ix en' h = ?ix en1 h" using 1(1) x Cons.IH(1) [OF _ en1(2)] by (auto split: option.splits)
    ultimately show ?case by simp
  next
    case 2
    then obtain ev1 en1 where x: "x = Inr ev1" and en1: "processEvents E ev1 en = (None, en1)" "Engine_Run E evs en1 = (None, en')"
      by (cases x) (auto split: prod.splits option.splits)
    show ?case
    proof (cases "Inr ev \<in> set evs")
      case True
      have "distinct (map (\<lambda>b. Height (evmBlock b)) (event_blocks evs))" using 2(1) x by (auto split: option.splits)
      from Cons.IH(2) [OF this True 2(3) en1(2)] show ?thesis .
    next
      case False
      with 2(2) x have ev: "ev1 = ev" by simp
      have notin: "Height (evmBlock b) \<notin> (\<lambda>b. Height (evmBlock b)) ` set (event_blocks evs)" using 2(1,3) x ev by simp
      obtain al where "?ix en1 (Height (evmBlock b)) = (Some (with_access_list E al b), Some (CadenceHeight ev), Some (CadenceBlockID ev))"
        using processEvents_block [OF assms(1,2) en1(1)] 2(3) ev by (auto simp: index_entry_store)
      with Cons.IH(1) [OF notin en1(2)] show ?thesis by auto
    qed
  }
qed simp_all

text \<open>C1: A run of the ingestion that ends without an error has indexed a chain: the EVM blocks of
its events follow each other by height and by parent hash, none is skipped or repeated.  As long as
there are at most $2^{64}$ of them, so that no height comes twice, the database holds every one of
them at its height, with its access-list hash filled in from the Amsterdam fork on, and with the
height and the identifier of the Flow block it came with; at the heights of no event block the index
is what it was; and the latest EVM height of the database is that of the last block.\<close>

theorem ingestion_chain:
  assumes "pebble_ok (enPebble E) view ops" "codec_ok (enCodec E)"
    and "Engine_Run E evs (NewEventIngestionEngine d NewBlocksProvider bpub lpub) = (None, en)"
    and "length (event_blocks evs) \<le> 2 ^ 64"
  shows "linked (enCodec E) (event_blocks evs)
    \<and> (\<forall>ev b. Inr ev \<in> set evs \<and> ceBlock ev = Some b \<longrightarrow>
        (\<exists>al. index_entry (index_of (enCodec E) (view (enDb en))) (Height (evmBlock b)) =
           (Some (with_access_list E al b), Some (CadenceHeight ev), Some (CadenceBlockID ev))))
    \<and> (\<forall>h. h \<notin> (\<lambda>b. Height (evmBlock b)) ` set (event_blocks evs) \<longrightarrow>
        index_entry (index_of (enCodec E) (view (enDb en))) h = index_entry (index_of (enCodec E) (view d)) h)
    \<and> (event_blocks evs \<noteq> [] \<longrightarrow> LatestEVMHeight (enPebble E) (enDb en) = Inr (Height (evmBlock (last (event_blocks evs)))))"
proof -
  note run = Engine_Run_linked [OF assms(1-3), of "[]", simplified]
  have d: "enDb (NewEventIngestionEngine d NewBlocksProvider bpub lpub) = d" by (simp add: NewEventIngestionEngine_def)
  have "distinct (map (\<lambda>b. Height (evmBlock b)) (event_blocks evs))" using linked_distinct run assms(4) by blast
  with run Engine_Run_index [OF assms(1-3)] LatestEVMHeight_index [OF assms(1)] show ?thesis unfolding d by blast
qed

section \<open>Witnesses\<close>

text \<open>Two linked blocks without transactions, after the codec of the reference encoder.\<close>

definition chain_block :: "u64 \<Rightarrow> Block" where
  "chain_block h = \<lparr>evmBlock = \<lparr>ParentBlockHash = of_nat (unat (h - 1) + 1), Height = h, Timestamp = 0, TotalSupply = 0,
     ReceiptRoot = 0, TransactionHashRoot = 0, TotalGasUsed = 0, PrevRandao = 1\<rparr>, FixedHash = 0, TransactionHashes = [], AccessListHash = None\<rparr>"

definition chain_events :: "u64 \<Rightarrow> unit CadenceEvents" where
  "chain_events h = \<lparr>ceEvents = \<lparr>beBlockID = 0, beHeight = h + 100, beBlockTimestamp = 0, beEvents = []\<rparr>,
     ceBlock = Some (chain_block h), ceBlockEventPayload = Some \<lparr>bpHeight = h, bpHash = 0, bpTimestamp = 0, bpTotalSupply = 0,
        bpTotalGasUsed = 0, bpParentBlockHash = 0, bpReceiptRoot = 0, bpTransactionHashRoot = 0, bpPrevRandao = 1\<rparr>,
     ceTransactions = [], ceTxEventPayloads = [], ceReceipts = []\<rparr>"

definition chain_env :: "((bytes \<times> bytes) list, batch_op list, unit, unit) engine_env" where
  "chain_env = \<lparr>enPebble = mem_pebble, enCodec = ref_codec [chain_block 1, chain_block 2] [] [] [], enRegisters = demo_regs,
     ReplayBlockEvents = (\<lambda>_ _ _ _. Inr ([], [])), IsAmsterdam = (\<lambda>_ _. False), accessList_Hash = (\<lambda>_. 0)\<rparr>"

lemma chain_env_api: "enPebble chain_env = mem_pebble" "enCodec chain_env = ref_codec [chain_block 1, chain_block 2] [] [] []"
  "with_access_list chain_env al b = b" "ReplayBlockEvents chain_env = (\<lambda>_ _ _ _. Inr ([], []))"
  by (simp_all add: chain_env_def with_access_list_def)

lemma chain_codec:
  assumes "h = 1 \<or> h = 2"
  shows "\<exists>val. ToBytes (enCodec chain_env) (chain_block h) = Inr val"
    and "Hash (enCodec chain_env) (chain_block h) = Inr (of_nat (unat h + 1))"
  using assms by (auto simp: ToBytes_def chain_env_api ref_codec_def encode_in_def Let_def Hash_def chain_block_def)

lemma chain_step:
  assumes "h = 1 \<or> h = 2" "OnBlockReceived (enCodec chain_env) (chain_block h) (blocksProvider en) = Inr bp"
    and "evmLastHeight en = None \<or> evmLastHeight en = Some (h - 1)"
  shows "\<exists>en'. processEvents chain_env (chain_events h) en = (None, en') \<and> latestBlock (blocksProvider en') = Some (chain_block h)
    \<and> evmLastHeight en' = Some h"
proof -
  have cb: "Height (evmBlock (chain_block h)) = h" by (simp add: chain_block_def)
  have inc: "Increment h (case evmLastHeight en of None \<Rightarrow> h | Some x \<Rightarrow> x) = Inr h"
    using assms(1,3) by (auto simp: Increment_def Increment_guard_def)
  obtain b' where "Blocks_Store mem_pebble (enCodec chain_env) (h + 100) 0 (chain_block h) [] = Inr b'"
    using Blocks_Store_ops [OF mem_pebble_ok, of "enCodec chain_env" "chain_block h" _ _ "h + 100" 0 "[]"] chain_codec [OF assms(1)] by blast
  then have ix: "indexEvents chain_env (chain_events h) en [] =
      (Inr b', chain_events h, en\<lparr>blocksProvider := bp\<lparr>latestBlock := Some (chain_block h)\<rparr>, evmLastHeight := Some h\<rparr>)"
    using assms(2) inc cb
    by (simp add: indexEvents_def chain_events_def chain_env_api(1,3,4) RegisterStorage_Store_def registerEntriesFromKeyValue_def
        indexBlock_def CadenceHeight_def CadenceBlockID_def indexReceipts_def Let_def)
  then have "WithBatch mem_pebble (\<lambda>batch. fst (indexEvents chain_env (chain_events h) en batch)) (enDb en) = (None, fold mem_apply b' (enDb en))"
    by (intro mem_WithBatch) simp
  moreover have "NewBatch mem_pebble d = []" for d by (simp add: NewBatch_def mem_pebble_def)
  ultimately show ?thesis
    using ix by (simp add: processEvents_def chain_env_api(1) Let_def) (simp add: chain_events_def)
qed

lemma chain_run:
  "\<exists>en. Engine_Run chain_env [Inr (chain_events 1), Inr (chain_events 2)] (NewEventIngestionEngine [] NewBlocksProvider [] []) = (None, en)"
proof -
  obtain en1 where en1: "processEvents chain_env (chain_events 1) (NewEventIngestionEngine [] NewBlocksProvider [] []) = (None, en1)"
    "latestBlock (blocksProvider en1) = Some (chain_block 1)" "evmLastHeight en1 = Some 1"
    using chain_step [of 1 "NewEventIngestionEngine [] NewBlocksProvider [] []"]
    by (auto simp: NewEventIngestionEngine_def NewBlocksProvider_def OnBlockReceived_def)
  have "OnBlockReceived (enCodec chain_env) (chain_block 2) (blocksProvider en1) = Inr (blocksProvider en1\<lparr>latestBlock := Some (chain_block 2)\<rparr>)"
    using en1(2) chain_codec(2) [of 1] by (simp add: OnBlockReceived_def) (simp add: chain_block_def)
  then obtain en2 where "processEvents chain_env (chain_events 2) en1 = (None, en2)"
    using chain_step [of 2 en1] en1(3) by auto
  with en1(1) show ?thesis by simp
qed

lemma ingestion_chain_witness:
  "\<exists>en. Engine_Run chain_env [Inr (chain_events 1), Inr (chain_events 2)] (NewEventIngestionEngine [] NewBlocksProvider [] []) = (None, en)
     \<and> LatestEVMHeight mem_pebble (enDb en) = Inr 2
     \<and> ixBlock (index_of (enCodec chain_env) (map_of (enDb en))) 1 = Some (chain_block 1)
     \<and> ixCadence (index_of (enCodec chain_env) (map_of (enDb en))) 1 = Some 101"
proof -
  let ?evs = "[Inr (chain_events 1), Inr (chain_events 2)]"
  have ok: "pebble_ok (enPebble chain_env) map_of (\<lambda>b. b)" "codec_ok (enCodec chain_env)"
    using mem_pebble_ok ref_codec_ok by (simp_all add: chain_env_api)
  obtain en where en: "Engine_Run chain_env ?evs (NewEventIngestionEngine [] NewBlocksProvider [] []) = (None, en)"
    using chain_run by blast
  have bs: "event_blocks ?evs = [chain_block 1, chain_block 2]" by (simp add: chain_events_def)
  then have len: "length (event_blocks ?evs) \<le> 2 ^ 64" by simp
  note run = ingestion_chain [OF ok en len]
  have "LatestEVMHeight mem_pebble (enDb en) = Inr 2"
    using run [unfolded bs] by (simp add: chain_env_api(1)) (simp add: chain_block_def)
  moreover have "ceBlock (chain_events 1) = Some (chain_block 1)" "CadenceHeight (chain_events 1) = 101"
    "Height (evmBlock (chain_block 1)) = 1"
    by (simp_all add: chain_events_def CadenceHeight_def chain_block_def)
  then have "ixBlock (index_of (enCodec chain_env) (map_of (enDb en))) 1 = Some (chain_block 1)
      \<and> ixCadence (index_of (enCodec chain_env) (map_of (enDb en))) 1 = Some 101"
    using conjunct1 [OF conjunct2 [OF run], THEN spec [of _ "chain_events 1"], THEN spec [of _ "chain_block 1"]]
    by (simp add: index_entry_def chain_env_api(3))
  ultimately show ?thesis using en by blast
qed

lemma ingested_block_committed_witness:
  "\<exists>en'. processEvents chain_env (chain_events 1) (NewEventIngestionEngine [] NewBlocksProvider [] []) = (None, en')
     \<and> ixLatest (index_of (enCodec chain_env) (map_of (enDb en'))) = Some 1"
proof -
  have ok: "pebble_ok (enPebble chain_env) map_of (\<lambda>b. b)" "codec_ok (enCodec chain_env)"
    using mem_pebble_ok ref_codec_ok by (simp_all add: chain_env_api)
  obtain en1 where en1: "processEvents chain_env (chain_events 1) (NewEventIngestionEngine [] NewBlocksProvider [] []) = (None, en1)"
    using chain_step [of 1 "NewEventIngestionEngine [] NewBlocksProvider [] []"]
    by (auto simp: NewEventIngestionEngine_def NewBlocksProvider_def OnBlockReceived_def)
  have "ceBlock (chain_events 1) = Some (chain_block 1)" by (simp add: chain_events_def)
  from ingested_block_committed [OF ok en1 this] en1 show ?thesis
    by (auto simp: index_store_def chain_block_def)
qed

lemma ingestion_atomic_witness:
  "\<exists>e en'. processEvents chain_env (chain_events 2) (NewEventIngestionEngine [([7], [8])] \<lparr>latestBlock = Some (chain_block 2)\<rparr> [] []) = (Some e, en')
     \<and> enDb en' = [([7], [8])]"
proof -
  let ?en = "NewEventIngestionEngine [([7 :: byte], [8 :: byte])] \<lparr>latestBlock = Some (chain_block 2)\<rparr> [] []"
  have "\<exists>e. \<forall>b. indexEvents chain_env (chain_events 2) ?en b = (Inl e, chain_events 2, ?en)"
    by (simp add: indexEvents_def chain_events_def OnBlockReceived_def NewEventIngestionEngine_def)
  then obtain e where "\<forall>b. indexEvents chain_env (chain_events 2) ?en b = (Inl e, chain_events 2, ?en)" by blast
  then obtain e' en' where "processEvents chain_env (chain_events 2) ?en = (Some e', en')"
    by (simp add: processEvents_def WithBatch_def)
  with ingestion_atomic [OF this] show ?thesis by (simp add: NewEventIngestionEngine_def)
qed

end
