(* ===== verification/Logs_Filter.thy ===== *)
theory Logs_Filter
  imports Receipts_Index
begin

text \<open>
  The log filters of \<^verbatim>\<open>services/logs/filter.go\<close>: matching a range of heights, where the bloom
  filters of the receipts choose the heights that are read, and matching one block.  The index of
  receipts is the interface \<open>bloom_index\<close>, interpreted on the database.
\<close>

section \<open>Criteria\<close>

text \<open>go-ethereum's \<^verbatim>\<open>filters.FilterCriteria\<close>.\<close>

record FilterCriteria =
  fcBlockHash :: "hash option"
  fcFromBlock :: "int option"
  fcToBlock :: "int option"
  fcAddresses :: "address list"
  fcTopics :: "hash list list"

definition LogQueryLimit :: nat where
  "LogQueryLimit = 1000"

definition ValidCriteriaLimits :: "FilterCriteria \<Rightarrow> bool" where
  "ValidCriteriaLimits criteria \<longleftrightarrow>
     \<not> length (fcAddresses criteria) > LogQueryLimit
     \<and> (\<forall>topics \<in> set (fcTopics criteria). \<not> length topics > LogQueryLimit)"

text \<open>The loop over the criteria's topics, the \<open>i\<close>-th against the log's \<open>i\<close>-th.\<close>

fun topics_match :: "hash list list \<Rightarrow> hash list \<Rightarrow> bool" where
  "topics_match [] ts \<longleftrightarrow> True"
| "topics_match (sub # subs) [] \<longleftrightarrow> False"
| "topics_match (sub # subs) (t # ts) \<longleftrightarrow> (sub = [] \<or> t \<in> set sub) \<and> topics_match subs ts"

definition ExactMatch :: "Log \<Rightarrow> FilterCriteria \<Rightarrow> bool" where
  "ExactMatch l criteria \<longleftrightarrow>
     (if length (fcTopics criteria) > length (lTopics l) then False
      else if \<not> topics_match (fcTopics criteria) (lTopics l) then False
      else if fcAddresses criteria = [] then True
      else lAddress l \<in> set (fcAddresses criteria))"

text \<open>
  \<open>BloomLookup\<close> is go-ethereum's test of a bloom filter for the bytes of an address or of a topic.
\<close>

definition addressBytes :: "address \<Rightarrow> bytes" where
  "addressBytes a = be 20 (unat a)"

definition bloomMatch :: "(bloom \<Rightarrow> bytes \<Rightarrow> bool) \<Rightarrow> bloom \<Rightarrow> FilterCriteria \<Rightarrow> bool" where
  "bloomMatch BloomLookup b criteria \<longleftrightarrow>
     (if length (fcAddresses criteria) > 0 \<and> \<not> (\<exists>addr \<in> set (fcAddresses criteria). BloomLookup b (addressBytes addr))
      then False
      else (\<forall>sub \<in> set (fcTopics criteria). sub = [] \<or> (\<exists>topic \<in> set sub. BloomLookup b (hashBytes topic))))"

section \<open>Filters\<close>

record RangeFilter =
  rfStart :: u64
  rfEnd :: u64
  rfCriteria :: FilterCriteria

definition NewRangeFilter :: "u64 \<Rightarrow> u64 \<Rightarrow> FilterCriteria \<Rightarrow> err + RangeFilter" where
  "NewRangeFilter start end criteria =
     (if \<not> ValidCriteriaLimits criteria then Inl ErrExceedLogQueryLimit
      else if start > end then
        Inl (Errorf ''%w: start block number (%d) must be smaller or equal to end block number (%d)''
               [FNum (unat start), FNum (unat end)] [ErrInvalid])
      else Inr \<lparr>rfStart = start, rfEnd = end, rfCriteria = criteria\<rparr>)"

text \<open>The logs of a block's receipts that match, in their order.\<close>

definition matching_logs :: "FilterCriteria \<Rightarrow> Receipt list \<Rightarrow> Log list" where
  "matching_logs criteria receipts =
     concat (map (\<lambda>receipt. filter (\<lambda>l. ExactMatch l criteria) (rLogs receipt)) receipts)"

text \<open>\<open>blooms\<close> and \<open>receipts\<close> are the methods of the receipt indexer.\<close>

definition RangeFilter_Match ::
    "(u64 \<Rightarrow> u64 \<Rightarrow> err + BloomsHeight list) \<Rightarrow> (u64 \<Rightarrow> err + Receipt list) \<Rightarrow> (bloom \<Rightarrow> bytes \<Rightarrow> bool)
      \<Rightarrow> RangeFilter \<Rightarrow> err + Log list" where
  "RangeFilter_Match blooms receipts BloomLookup r =
     rbind (blooms (rfStart r) (rfEnd r)) (\<lambda>bloomsHeight.
     let bloomHeightMatches = map bhBloomHeight
           (filter (\<lambda>bloomHeight. \<exists>b \<in> set (bhBlooms bloomHeight). bloomMatch BloomLookup b (rfCriteria r)) bloomsHeight)
     in rbind (rmap receipts bloomHeightMatches) (\<lambda>rss.
        Inr (concat (map (matching_logs (rfCriteria r)) rss))))"

record IDFilter =
  ifId :: hash
  ifCriteria :: FilterCriteria

definition NewIDFilter :: "FilterCriteria \<Rightarrow> err + IDFilter" where
  "NewIDFilter criteria =
     (if \<not> ValidCriteriaLimits criteria then Inl ErrExceedLogQueryLimit
      else case fcBlockHash criteria of
        None \<Rightarrow> Inl (New_err ''filter criteria should have a non-nil block hash'')
      | Some h \<Rightarrow> Inr \<lparr>ifId = h, ifCriteria = criteria\<rparr>)"

definition IDFilter_Match ::
    "(hash \<Rightarrow> err + Block) \<Rightarrow> (u64 \<Rightarrow> err + Receipt list) \<Rightarrow> IDFilter \<Rightarrow> err + Log list" where
  "IDFilter_Match getByID receipts f =
     rbind (getByID (ifId f)) (\<lambda>blk.
     rbind (receipts (Height (evmBlock blk))) (\<lambda>rs.
     Inr (matching_logs (ifCriteria f) rs)))"

section \<open>Matching\<close>

text \<open>The declarative reading of the criteria: every topic position given and not a wildcard.\<close>

lemma topics_match_nth:
  "topics_match subs ts \<longleftrightarrow> length subs \<le> length ts \<and> (\<forall>i < length subs. subs ! i = [] \<or> ts ! i \<in> set (subs ! i))"
proof (induction subs ts rule: topics_match.induct)
  case (3 sub subs t ts)
  then show ?case by (auto simp: less_Suc_eq_0_disj)
qed auto

lemma ExactMatch_iff:
  "ExactMatch l criteria \<longleftrightarrow> topics_match (fcTopics criteria) (lTopics l)
     \<and> (fcAddresses criteria = [] \<or> lAddress l \<in> set (fcAddresses criteria))"
  by (auto simp: ExactMatch_def topics_match_nth)

text \<open>A bloom filter that has the address and the topics of a log.\<close>

definition bloom_has :: "(bloom \<Rightarrow> bytes \<Rightarrow> bool) \<Rightarrow> bloom \<Rightarrow> Log \<Rightarrow> bool" where
  "bloom_has lookup b l \<longleftrightarrow> lookup b (addressBytes (lAddress l)) \<and> (\<forall>t \<in> set (lTopics l). lookup b (hashBytes t))"

lemma bloomMatch_complete:
  assumes "bloom_has lookup b l" "ExactMatch l criteria"
  shows "bloomMatch lookup b criteria"
proof -
  have "sub = [] \<or> (\<exists>topic \<in> set sub. lookup b (hashBytes topic))" if "sub \<in> set (fcTopics criteria)" for sub
  proof -
    from that obtain i where i: "i < length (fcTopics criteria)" "sub = fcTopics criteria ! i" by (auto simp: in_set_conv_nth)
    with assms(2) have "sub = [] \<or> lTopics l ! i \<in> set sub" "i < length (lTopics l)"
      by (auto simp: ExactMatch_iff topics_match_nth)
    with assms(1) show ?thesis by (auto simp: bloom_has_def)
  qed
  with assms show ?thesis by (auto simp: bloomMatch_def bloom_has_def ExactMatch_iff)
qed

text \<open>The receipts a read gives, none when it fails.\<close>

definition read_or_nil :: "err + 'a list \<Rightarrow> 'a list" where
  "read_or_nil m = (case m of Inr xs \<Rightarrow> xs | Inl _ \<Rightarrow> [])"

section \<open>The index a filter reads\<close>

text \<open>
  What the filters rely on: the blooms of a range are those of its heights, in ascending order, and a
  height with a log has a bloom filter that has it.
\<close>

locale bloom_index =
  fixes blooms :: "'db \<Rightarrow> u64 \<Rightarrow> u64 \<Rightarrow> err + BloomsHeight list"
    and receipts :: "'db \<Rightarrow> u64 \<Rightarrow> err + Receipt list"
    and lookup :: "bloom \<Rightarrow> bytes \<Rightarrow> bool"
    and indexed :: "'db \<Rightarrow> u64 \<Rightarrow> bool"
  assumes receipts_read: "indexed d latest \<Longrightarrow> h \<le> latest \<Longrightarrow> \<exists>rs. receipts d h = Inr rs"
    and blooms_sorted: "indexed d latest \<Longrightarrow> start \<le> end \<Longrightarrow> end \<le> latest \<Longrightarrow>
      \<exists>bhs. blooms d start end = Inr bhs \<and> sorted_wrt (<) (map bhBloomHeight bhs)
        \<and> (\<forall>bh \<in> set bhs. start \<le> bhBloomHeight bh \<and> bhBloomHeight bh \<le> end)"
    and blooms_cover: "indexed d latest \<Longrightarrow> start \<le> h \<Longrightarrow> h \<le> end \<Longrightarrow> end \<le> latest \<Longrightarrow>
      blooms d start end = Inr bhs \<Longrightarrow> receipts d h = Inr rs \<Longrightarrow> r \<in> set rs \<Longrightarrow> l \<in> set (rLogs r) \<Longrightarrow>
      \<exists>bh \<in> set bhs. bhBloomHeight bh = h \<and> (\<exists>b \<in> set (bhBlooms bh). bloom_has lookup b l)"
begin

lemma match_exact:
  assumes ix: "indexed d latest" and r: "rfStart r \<le> rfEnd r" "rfEnd r \<le> latest" "rfEnd r \<noteq> - 1"
  shows "RangeFilter_Match (blooms d) (receipts d) lookup r =
    Inr (concat (map (\<lambda>h. matching_logs (rfCriteria r) (read_or_nil (receipts d h))) (heights (rfStart r) (rfEnd r + 1))))"
proof -
  obtain bhs where bhs: "blooms d (rfStart r) (rfEnd r) = Inr bhs" "sorted_wrt (<) (map bhBloomHeight bhs)"
    "\<And>bh. bh \<in> set bhs \<Longrightarrow> rfStart r \<le> bhBloomHeight bh \<and> bhBloomHeight bh \<le> rfEnd r"
    using blooms_sorted [OF ix r(1,2)] by blast
  define hit where "hit bh \<longleftrightarrow> (\<exists>b \<in> set (bhBlooms bh). bloomMatch lookup b (rfCriteria r))" for bh :: BloomsHeight
  define hs where "hs = map bhBloomHeight (filter hit bhs)"
  have range: "h \<in> set (heights (rfStart r) (rfEnd r + 1)) \<longleftrightarrow> rfStart r \<le> h \<and> h \<le> rfEnd r" for h
    using u64_unat_succ [OF r(3)] by (auto simp: in_heights word_le_nat_alt word_less_nat_alt)
  have in_range: "h \<in> set hs \<Longrightarrow> rfStart r \<le> h \<and> h \<le> rfEnd r" for h
    using bhs(3) by (auto simp: hs_def)
  have read: "receipts d h = Inr (read_or_nil (receipts d h))" if "h \<le> rfEnd r" for h
    using receipts_read [OF ix order_trans [OF that r(2)]] by (auto simp: read_or_nil_def)
  then have "rmap (receipts d) hs = Inr (map (\<lambda>h. read_or_nil (receipts d h)) hs)"
    using in_range by (intro rmap_total) blast
  moreover have "concat (map (\<lambda>h. matching_logs (rfCriteria r) (read_or_nil (receipts d h))) hs)
      = concat (map (\<lambda>h. matching_logs (rfCriteria r) (read_or_nil (receipts d h))) (heights (rfStart r) (rfEnd r + 1)))"
  proof (rule concat_map_subset)
    show "sorted_wrt (<) hs" using bhs(2) by (simp add: hs_def sorted_wrt_map sorted_wrt_filter)
    show "set hs \<subseteq> set (heights (rfStart r) (rfEnd r + 1))" using in_range range by blast
    fix h assume h: "h \<in> set (heights (rfStart r) (rfEnd r + 1))" "h \<notin> set hs"
    have "\<not> ExactMatch l (rfCriteria r)" if l: "rc \<in> set (read_or_nil (receipts d h))" "l \<in> set (rLogs rc)" for rc l
    proof
      assume "ExactMatch l (rfCriteria r)"
      moreover obtain bh b where "bh \<in> set bhs" "bhBloomHeight bh = h" "b \<in> set (bhBlooms bh)" "bloom_has lookup b l"
        using blooms_cover [OF ix _ _ r(2) bhs(1) read l] h(1) range by blast
      ultimately have "hit bh" "bh \<in> set bhs" "h = bhBloomHeight bh"
        using bloomMatch_complete unfolding hit_def by blast+
      then have "h \<in> set hs" by (auto simp: hs_def)
      with h(2) show False by simp
    qed
    then show "matching_logs (rfCriteria r) (read_or_nil (receipts d h)) = []" by (auto simp: matching_logs_def filter_empty_conv)
  qed (rule strict_heights)
  moreover have "RangeFilter_Match (blooms d) (receipts d) lookup r =
      rbind (rmap (receipts d) hs) (\<lambda>rss. Inr (concat (map (matching_logs (rfCriteria r)) rss)))"
    using bhs(1) by (simp add: RangeFilter_Match_def hs_def hit_def [abs_def])
  ultimately show ?thesis by (simp add: comp_def)
qed

end

section \<open>The index of the database\<close>

text \<open>
  The receipts of every height can be read, and where there are any, their blooms are stored and
  have every log.
\<close>

definition receipts_covered ::
    "('db, 'batch) pebble_api \<Rightarrow> 'ev codec \<Rightarrow> ('db \<Rightarrow> bytes \<rightharpoonup> bytes) \<Rightarrow> (bloom \<Rightarrow> bytes \<Rightarrow> bool) \<Rightarrow> 'db \<Rightarrow> u64 \<Rightarrow> bool" where
  "receipts_covered P c view lookup d h \<longleftrightarrow>
     (\<exists>rs. GetByBlockHeight P c d h = Inr rs \<and>
       (rs = [] \<or> (\<exists>bs. blooms_at c (view d) h = Some bs \<and>
          (\<forall>r \<in> set rs. \<forall>l \<in> set (rLogs r). \<exists>b \<in> set bs. bloom_has lookup b l))))"

definition log_index_ok ::
    "('db, 'batch) pebble_api \<Rightarrow> 'ev codec \<Rightarrow> ('db \<Rightarrow> bytes \<rightharpoonup> bytes) \<Rightarrow> (bloom \<Rightarrow> bytes \<Rightarrow> bool) \<Rightarrow> 'db \<Rightarrow> bool" where
  "log_index_ok P c view lookup d \<longleftrightarrow> blooms_ok c (view d) \<and> (\<forall>h. receipts_covered P c view lookup d h)"

interpretation pebble_logs: bloom_index
    "BloomsForBlockRange P c" "GetByBlockHeight P c" lookup
    "\<lambda>d latest. pebble_ok P view ops \<and> log_index_ok P c view lookup d \<and> LatestEVMHeight P d = Inr latest \<and> latest < - 1"
  for P :: "('db, 'batch) pebble_api" and c :: "'ev codec" and lookup view ops
proof (unfold_locales, goal_cases)
  case (1 d latest h)
  then show ?case by (auto simp: log_index_ok_def receipts_covered_def)
next
  case (2 d latest start ub)
  then have "ub < - 1" by (meson le_less_trans)
  with 2 obtain bhs where bhs: "BloomsForBlockRange P c d start ub = Inr bhs" "sorted_wrt (<) (map bhBloomHeight bhs)"
    "\<And>h bs. \<lparr>bhBlooms = bs, bhBloomHeight = h\<rparr> \<in> set bhs \<longleftrightarrow> start \<le> h \<and> h \<le> ub \<and> blooms_at c (view d) h = Some bs"
    using BloomsForBlockRange_exact [of P view ops c d latest start ub] by (auto simp: log_index_ok_def)
  have "start \<le> bhBloomHeight bh \<and> bhBloomHeight bh \<le> ub" if "bh \<in> set bhs" for bh :: BloomsHeight
  proof -
    have "\<lparr>bhBlooms = bhBlooms bh, bhBloomHeight = bhBloomHeight bh\<rparr> = bh" by (cases bh) simp
    with that bhs(3) show ?thesis by metis
  qed
  with bhs(1,2) show ?case by blast
next
  case (3 d latest start h ub bhs rs r l)
  then have e: "ub < - 1" by (meson le_less_trans)
  have ok: "pebble_ok P view ops" "blooms_ok c (view d)" "LatestEVMHeight P d = Inr latest"
    using 3(1) by (auto simp: log_index_ok_def)
  have "receipts_covered P c view lookup d h" using 3(1) by (simp add: log_index_ok_def)
  with 3(6-8) obtain bs where bs: "blooms_at c (view d) h = Some bs" "\<exists>b \<in> set bs. bloom_has lookup b l"
    by (auto simp: receipts_covered_def)
  have "\<lparr>bhBlooms = bs, bhBloomHeight = h\<rparr> \<in> set bhs"
    using BloomsForBlockRange_exact [OF ok order_trans [OF 3(2,3)] 3(4) e] 3(2,3,5) bs(1) by auto
  with bs(2) show ?case by force
qed

lemma fill_logs_set:
  "l \<in> set (fill_logs ts rcp i ls) \<Longrightarrow> \<exists>l0 \<in> set ls. lAddress l = lAddress l0 \<and> lTopics l = lTopics l0"
  by (induction ls arbitrary: i) (auto simp: fill_log_def)

lemma bloom_has_populate:
  assumes "\<And>r l. r \<in> set rs \<Longrightarrow> l \<in> set (rLogs r) \<Longrightarrow> bloom_has lookup (rBloom r) l"
    and "r \<in> set (populate ts i rs)" "l \<in> set (rLogs r)"
  shows "\<exists>b \<in> set (map rBloom rs). bloom_has lookup b l"
  using assms
proof (induction rs arbitrary: i)
  case (Cons r0 rs)
  show ?case
  proof (cases "r \<in> set (populate ts (i + of_nat (length (rLogs r0))) rs)")
    case True
    with Cons show ?thesis by (metis (no_types, lifting) list.set_intros(2) list.simps(9))
  next
    case False
    with Cons.prems(2,3) obtain l0 where "l0 \<in> set (rLogs r0)" "lAddress l = lAddress l0" "lTopics l = lTopics l0"
      using fill_logs_set by fastforce
    with Cons.prems(1) [of r0 l0] show ?thesis by (auto simp: bloom_has_def)
  qed
qed simp

lemma receipts_covered_cong:
  assumes "pebble_ok P view ops" "\<And>code. code \<in> {receiptHeightKey, blockHeightKey, bloomHeightKey} \<Longrightarrow>
      view d' (code # uint64Bytes h) = view d (code # uint64Bytes h)"
  shows "receipts_covered P c view lookup d' h \<longleftrightarrow> receipts_covered P c view lookup d h"
proof -
  have "storage_get P d' code (Some (uint64Bytes h)) = storage_get P d code (Some (uint64Bytes h))"
    if "code \<in> {receiptHeightKey, blockHeightKey}" for code
    using that assms(2) [of code] by (auto simp: storage_get_view [OF assms(1)])
  then have "storage_get P d' receiptHeightKey (Some (uint64Bytes h)) = storage_get P d receiptHeightKey (Some (uint64Bytes h))"
    "storage_get P d' blockHeightKey (Some (uint64Bytes h)) = storage_get P d blockHeightKey (Some (uint64Bytes h))" by auto
  then have "GetByBlockHeight P c d' h = GetByBlockHeight P c d h"
    unfolding GetByBlockHeight_def getByBlockHeight_def by (simp only:)
  then show ?thesis using assms(2) by (simp add: receipts_covered_def blooms_at_def)
qed

section \<open>Properties\<close>

text \<open>C30: The log index is kept by storing receipts: committing the receipts of a stored block, each
  with a bloom filter that has its logs, leaves the receipts of every height readable and every log
  of every height in one of its blooms.\<close>

theorem Receipts_Store_log_index:
  assumes "pebble_ok P view ops" and "codec_ok c" and "log_index_ok P c view lookup d" and "rs \<noteq> []"
    and "\<forall>r \<in> set rs. big_Uint64 (rBlockNumber r) = h"
    and "\<forall>r \<in> set rs. \<forall>l \<in> set (rLogs r). bloom_has lookup (rBloom r) l"
    and "rlp_receipts_enc c rs = Inr rb" and "rlp_blooms_enc c (map rBloom rs) = Inr bb"
    and "ixBlock (index_of c (view d)) h = Some block"
    and "WithBatch P (Receipts_Store P c rs) d = (None, d')"
  shows "log_index_ok P c view lookup d'"
proof -
  have v: "view d' = apply_ops (receipt_ops h rs rb bb) (view d)"
    using Receipts_Store_ops [OF assms(1) _ assms(4,7,8)] assms(5)
    by (intro WithBatch_ops [OF assms(1,10)]) blast
  have dec: "rlp_blooms_dec c bb = Inr (map rBloom rs)" using assms(2,8) by (simp add: codec_ok_def)
  have "blooms_ok c (view d')"
    using assms(3) dec by (auto simp: log_index_ok_def blooms_ok_def v receipt_ops_view key_codes split: if_splits)
  moreover have "receipts_covered P c view lookup d' h'" for h'
  proof (cases "h' = h")
    case True
    obtain bv where bv: "view d (blockHeightKey # uint64Bytes h) = Some bv" "NewBlockFromBytes c bv = Inr block"
      using assms(9) by (auto simp: index_of_def decoded_def split: option.splits sum.splits)
    have look: "view d' (receiptHeightKey # uint64Bytes h) = Some rb" "view d' (blockHeightKey # uint64Bytes h) = Some bv"
      "view d' (bloomHeightKey # uint64Bytes h) = Some bb"
      using bv(1) by (auto simp: v receipt_ops_view key_codes)
    have "GetByBlockHeight P c d' h = Inr (map with_blob_price (populate (Timestamp (evmBlock block)) 0 rs))"
      using look(1,2) bv(2) ReceiptsFromBytes_enc [OF assms(2,7)]
      by (simp add: GetByBlockHeight_def getByBlockHeight_def storage_get_view [OF assms(1)] populate_stored)
    moreover have "blooms_at c (view d') h = Some (map rBloom rs)"
      using look(3) dec by (simp add: blooms_at_def decoded_def)
    ultimately show ?thesis
      using bloom_has_populate [of rs lookup] assms(6) True by (fastforce simp: receipts_covered_def)
  next
    case False
    have "view d' (code # uint64Bytes h') = view d (code # uint64Bytes h')"
      if "code \<in> {receiptHeightKey, blockHeightKey, bloomHeightKey}" for code
      using that False by (auto simp: v receipt_ops_view key_codes)
    then have "receipts_covered P c view lookup d' h' \<longleftrightarrow> receipts_covered P c view lookup d h'"
      by (rule receipts_covered_cong [OF assms(1)])
    with assms(3) show ?thesis by (simp add: log_index_ok_def)
  qed
  ultimately show ?thesis by (simp add: log_index_ok_def)
qed

text \<open>C11: A range filter is exact: over an indexed range it returns the logs that match the criteria
  of all receipts of all heights of the range, both ends included, in the order of the chain, although
  it reads only the heights chosen by the bloom filters.\<close>

theorem RangeFilter_exact:
  assumes "pebble_ok P view ops" and "log_index_ok P c view lookup d" and "LatestEVMHeight P d = Inr latest" and "latest < - 1"
    and "NewRangeFilter start ub criteria = Inr r" and "ub \<le> latest"
  shows "RangeFilter_Match (BloomsForBlockRange P c d) (GetByBlockHeight P c d) lookup r =
    Inr (concat (map (\<lambda>h. matching_logs criteria (read_or_nil (GetByBlockHeight P c d h))) (heights start (ub + 1))))"
proof -
  have r: "r = \<lparr>rfStart = start, rfEnd = ub, rfCriteria = criteria\<rparr>" "start \<le> ub"
    using assms(5) by (auto simp: NewRangeFilter_def split: if_splits)
  moreover have "ub \<noteq> - 1" using assms(4,6) by (meson leD)
  ultimately show ?thesis
    using pebble_logs.match_exact [where d = d and latest = latest and r = r and P = P and view = view and ops = ops and c = c and lookup = lookup]
      assms(1-4,6) by simp
qed

section \<open>Witnesses\<close>

definition log_lookup :: "bloom \<Rightarrow> bytes \<Rightarrow> bool" where
  "log_lookup b x \<longleftrightarrow> b = 3"

definition log_db :: "(bytes \<times> bytes) list" where
  "log_db = [([latestEVMHeightKey], uint64Bytes 2), (blockHeightKey # uint64Bytes 2, [0]),
     (receiptHeightKey # uint64Bytes 2, [0]), (bloomHeightKey # uint64Bytes 2, [0])]"

definition log_criteria :: FilterCriteria where
  "log_criteria = \<lparr>fcBlockHash = None, fcFromBlock = None, fcToBlock = None, fcAddresses = [7], fcTopics = [[11, 12]]\<rparr>"

lemma log_reads:
  "GetByBlockHeight mem_pebble receipts_codec log_db h =
     (if h = 2 then Inr (map with_blob_price (populate 100 0 [demo_receipt 17, demo_receipt 18])) else Inr [])"
  using ReceiptsFromBytes_enc [OF receipts_codec_ok receipts_codec_dec(3)] receipts_codec_dec(1)
    populate_stored [of 100 0 "[demo_receipt 17, demo_receipt 18]"]
  by (auto simp: GetByBlockHeight_def getByBlockHeight_def storage_get_view [OF mem_pebble_ok] log_db_def key_codes demo_block_def
      simp del: populate.simps)

lemma log_db_ok: "log_index_ok mem_pebble receipts_codec map_of log_lookup log_db"
proof -
  have "blooms_ok receipts_codec (map_of log_db)"
    by (auto simp: blooms_ok_def log_db_def key_codes receipts_codec_dec split: if_splits)
  moreover have "blooms_at receipts_codec (map_of log_db) 2 = Some [3, 3]"
    by (simp add: blooms_at_def log_db_def key_codes receipts_codec_dec)
  then have "receipts_covered mem_pebble receipts_codec map_of log_lookup log_db h" for h
    by (simp add: receipts_covered_def log_reads bloom_has_def log_lookup_def)
  ultimately show ?thesis by (simp add: log_index_ok_def)
qed

lemma RangeFilter_exact_witness:
  "\<exists>r logs. NewRangeFilter 1 2 log_criteria = Inr r
     \<and> RangeFilter_Match (BloomsForBlockRange mem_pebble receipts_codec log_db) (GetByBlockHeight mem_pebble receipts_codec log_db)
          log_lookup r = Inr logs
     \<and> map lIndex logs = [0, 1, 2, 3]"
proof -
  have r: "NewRangeFilter 1 2 log_criteria = Inr \<lparr>rfStart = 1, rfEnd = 2, rfCriteria = log_criteria\<rparr>"
    by (simp add: NewRangeFilter_def ValidCriteriaLimits_def log_criteria_def LogQueryLimit_def)
  have latest: "LatestEVMHeight mem_pebble log_db = Inr 2"
    by (simp add: LatestEVMHeight_def latestEVMHeight_def storage_get_view [OF mem_pebble_ok] log_db_def)
  have hs: "heights 1 (2 + 1) = [1, 2]" by (simp add: heights_Cons)
  from RangeFilter_exact [OF mem_pebble_ok log_db_ok latest _ r] show ?thesis
    unfolding hs by (intro exI conjI) (rule r, simp,
      simp add: log_reads read_or_nil_def matching_logs_def demo_receipt_def demo_log_def fill_log_def ExactMatch_iff log_criteria_def)
qed

lemma Receipts_Store_log_index_witness:
  "\<exists>d'. WithBatch mem_pebble (Receipts_Store mem_pebble receipts_codec [demo_receipt 17, demo_receipt 18]) log_db = (None, d')
     \<and> log_index_ok mem_pebble receipts_codec map_of log_lookup d'"
proof -
  let ?rs = "[demo_receipt 17, demo_receipt 18]"
  have num: "\<forall>r \<in> set ?rs. big_Uint64 (rBlockNumber r) = 2"
    by (simp add: demo_receipt_def big_Uint64_def)
  obtain b' where "Receipts_Store mem_pebble receipts_codec ?rs [] = Inr b'"
    using Receipts_Store_ops [OF mem_pebble_ok, of ?rs 2 receipts_codec "[0]" "[0]" "[]"] num receipts_codec_dec by auto
  then obtain d' where d': "WithBatch mem_pebble (Receipts_Store mem_pebble receipts_codec ?rs) log_db = (None, d')"
    using mem_WithBatch by blast
  have blk: "ixBlock (index_of receipts_codec (map_of log_db)) 2 = Some (demo_block 2)"
    by (simp add: index_of_def log_db_def key_codes receipts_codec_dec)
  have has: "\<forall>r \<in> set ?rs. \<forall>l \<in> set (rLogs r). bloom_has log_lookup (rBloom r) l"
    by (simp add: demo_receipt_def bloom_has_def log_lookup_def)
  from Receipts_Store_log_index [OF mem_pebble_ok receipts_codec_ok log_db_ok _ num has receipts_codec_dec(3,4) blk d'] d'
  show ?thesis by simp
qed

end
