(* ===== verification/Eth_Types.thy ===== *)
theory Eth_Types
  imports Receipts_Index
begin

text \<open>
  The types of the JSON-RPC interface, \<^verbatim>\<open>eth/types/types.go\<close>: the arguments of a call and their
  conversion to a transaction, and the results made of transactions and receipts.
\<close>

section \<open>Transaction arguments\<close>

text \<open>go-ethereum's access lists and set-code authorizations.\<close>

type_synonym u256 = "256 word"
type_synonym AccessList = "(address \<times> hash list) list"

record SetCodeAuthorization =
  saChainID :: u256
  saAddress :: address
  saNonce :: u64
  saV :: byte
  saR :: u256
  saS :: u256

text \<open>A pointer or a slice is \<open>None\<close> when it is \<^verbatim>\<open>nil\<close>; blobs, commitments and proofs are byte strings.\<close>

record TransactionArgs =
  taFrom :: "address option"
  taTo :: "address option"
  taGas :: "u64 option"
  taGasPrice :: "int option"
  taMaxFeePerGas :: "int option"
  taMaxPriorityFeePerGas :: "int option"
  taValue :: "int option"
  taNonce :: "u64 option"
  taData :: "bytes option"
  taInput :: "bytes option"
  taAccessList :: "AccessList option"
  taChainID :: "int option"
  taBlobFeeCap :: "int option"
  taBlobHashes :: "hash list option"
  taBlobs :: "bytes list option"
  taCommitments :: "bytes list option"
  taProofs :: "bytes list option"
  taAuthorizationList :: "SetCodeAuthorization list option"

text \<open>Input is preferred to data.\<close>

definition args_data :: "TransactionArgs \<Rightarrow> bytes" where
  "args_data txArgs = (case taInput txArgs of
      Some d \<Rightarrow> d
    | None \<Rightarrow> (case taData txArgs of Some d \<Rightarrow> d | None \<Rightarrow> []))"

definition Validate :: "TransactionArgs \<Rightarrow> err option" where
  "Validate txArgs =
     (if taData txArgs \<noteq> None \<and> taInput txArgs \<noteq> None \<and> taData txArgs \<noteq> taInput txArgs then
        Some (NewInvalidTransactionError (New_err ''ambiguous request: both data and input are set and are not identical''))
      else
        let data1 = (case taInput txArgs of Some d \<Rightarrow> Some d | None \<Rightarrow> taData txArgs);
            data = (case data1 of Some d \<Rightarrow> d | None \<Rightarrow> [])
        in if taTo txArgs = None \<and> length data = 0 then
             (if (case taValue txArgs of Some v \<Rightarrow> v > 0 | None \<Rightarrow> False)
              then Some (NewInvalidTransactionError (New_err ''transaction will create a contract with value but empty code''))
              else Some (NewInvalidTransactionError (New_err ''transaction will create a contract with empty code'')))
           else if taTo txArgs = Some 0
           then Some (NewInvalidTransactionError (New_err ''transaction recipient is the zero address''))
           else None)"

section \<open>Conversion to a transaction\<close>

definition LegacyTxType :: nat where "LegacyTxType = 0"
definition AccessListTxType :: nat where "AccessListTxType = 1"
definition DynamicFeeTxType :: nat where "DynamicFeeTxType = 2"
definition BlobTxType :: nat where "BlobTxType = 3"
definition SetCodeTxType :: nat where "SetCodeTxType = 4"

lemmas tx_types = LegacyTxType_def AccessListTxType_def DynamicFeeTxType_def BlobTxType_def SetCodeTxType_def

text \<open>The transaction data of go-ethereum, one constructor per type.\<close>

record BlobTxSidecar =
  scBlobs :: "bytes list"
  scCommitments :: "bytes list option"
  scProofs :: "bytes list option"

datatype TxData =
    LegacyTx "address option" u64 u64 "int option" "int option" bytes
  | AccessListTx "address option" "int option" u64 u64 "int option" "int option" bytes AccessList
  | DynamicFeeTx "address option" "int option" u64 u64 "int option" "int option" "int option" bytes AccessList
  | BlobTx address "u256 option" u64 u64 "u256 option" "u256 option" "u256 option" bytes AccessList
      "hash list option" "u256 option" "BlobTxSidecar option"
  | SetCodeTx address "u256 option" u64 u64 "u256 option" "u256 option" "u256 option" bytes AccessList
      "SetCodeAuthorization list"

definition used_type :: "TransactionArgs \<Rightarrow> nat \<Rightarrow> nat" where
  "used_type txArgs defaultType =
     (let usedType =
        (if taAuthorizationList txArgs \<noteq> None \<or> defaultType = SetCodeTxType then SetCodeTxType
         else if taBlobHashes txArgs \<noteq> None \<or> defaultType = BlobTxType then BlobTxType
         else if taMaxFeePerGas txArgs \<noteq> None \<or> defaultType = DynamicFeeTxType then DynamicFeeTxType
         else if taAccessList txArgs \<noteq> None \<or> defaultType = AccessListTxType then AccessListTxType
         else LegacyTxType)
      in if taGasPrice txArgs \<noteq> None then LegacyTxType else usedType)"

text \<open>\<^verbatim>\<open>*txArgs.To\<close> panics on a nil pointer.\<close>

definition deref :: "'a option \<Rightarrow> 'a exec" where
  "deref x = (case x of Some y \<Rightarrow> Ret y | None \<Rightarrow> Panics ''invalid memory address or nil pointer dereference'')"

text \<open>\<open>MustFromBig\<close> is the conversion of the library \<^verbatim>\<open>uint256\<close>, which panics on an overflow and keeps nil.\<close>

definition ToTransaction :: "(int option \<Rightarrow> u256 option exec) \<Rightarrow> TransactionArgs \<Rightarrow> nat \<Rightarrow> u64 \<Rightarrow> TxData exec" where
  "ToTransaction MustFromBig txArgs defaultType defaultGas =
     (let nonce = (case taNonce txArgs of Some n \<Rightarrow> n | None \<Rightarrow> 0);
          gas = (case taGas txArgs of Some g \<Rightarrow> g | None \<Rightarrow> defaultGas);
          al = (case taAccessList txArgs of Some l \<Rightarrow> l | None \<Rightarrow> []);
          usedType = used_type txArgs defaultType
      in
      if usedType = SetCodeTxType then
        (let authList = (case taAuthorizationList txArgs of Some l \<Rightarrow> l | None \<Rightarrow> []) in
         ebind (deref (taTo txArgs)) (\<lambda>to.
         ebind (MustFromBig (taChainID txArgs)) (\<lambda>chainID.
         ebind (MustFromBig (taMaxFeePerGas txArgs)) (\<lambda>feeCap.
         ebind (MustFromBig (taMaxPriorityFeePerGas txArgs)) (\<lambda>tipCap.
         ebind (MustFromBig (taValue txArgs)) (\<lambda>val.
         Ret (SetCodeTx to chainID nonce gas feeCap tipCap val (args_data txArgs) al authList)))))))
      else if usedType = BlobTxType then
        ebind (deref (taTo txArgs)) (\<lambda>to.
        ebind (MustFromBig (taChainID txArgs)) (\<lambda>chainID.
        ebind (MustFromBig (taMaxFeePerGas txArgs)) (\<lambda>feeCap.
        ebind (MustFromBig (taMaxPriorityFeePerGas txArgs)) (\<lambda>tipCap.
        ebind (MustFromBig (taValue txArgs)) (\<lambda>val.
        ebind (MustFromBig (taBlobFeeCap txArgs)) (\<lambda>blobFeeCap.
        Ret (BlobTx to chainID nonce gas feeCap tipCap val (args_data txArgs) al (taBlobHashes txArgs) blobFeeCap
          (case taBlobs txArgs of None \<Rightarrow> None
           | Some blobs \<Rightarrow> Some \<lparr>scBlobs = blobs, scCommitments = taCommitments txArgs, scProofs = taProofs txArgs\<rparr>))))))))
      else if usedType = DynamicFeeTxType then
        Ret (DynamicFeeTx (taTo txArgs) (taChainID txArgs) nonce gas (taMaxFeePerGas txArgs) (taMaxPriorityFeePerGas txArgs)
               (taValue txArgs) (args_data txArgs) al)
      else if usedType = AccessListTxType then
        Ret (AccessListTx (taTo txArgs) (taChainID txArgs) nonce gas (taGasPrice txArgs) (taValue txArgs) (args_data txArgs) al)
      else Ret (LegacyTx (taTo txArgs) nonce gas (taGasPrice txArgs) (taValue txArgs) (args_data txArgs)))"

text \<open>The accessors of a go-ethereum transaction that dry runs read; a missing value is zero.\<close>

fun td_To :: "TxData \<Rightarrow> address option" where
  "td_To (LegacyTx to _ _ _ _ _) = to"
| "td_To (AccessListTx to _ _ _ _ _ _ _) = to"
| "td_To (DynamicFeeTx to _ _ _ _ _ _ _ _) = to"
| "td_To (BlobTx to _ _ _ _ _ _ _ _ _ _ _) = Some to"
| "td_To (SetCodeTx to _ _ _ _ _ _ _ _ _) = Some to"

fun td_Data :: "TxData \<Rightarrow> bytes" where
  "td_Data (LegacyTx _ _ _ _ _ d) = d"
| "td_Data (AccessListTx _ _ _ _ _ _ d _) = d"
| "td_Data (DynamicFeeTx _ _ _ _ _ _ _ d _) = d"
| "td_Data (BlobTx _ _ _ _ _ _ _ d _ _ _ _) = d"
| "td_Data (SetCodeTx _ _ _ _ _ _ _ d _ _) = d"

fun td_Gas :: "TxData \<Rightarrow> u64" where
  "td_Gas (LegacyTx _ _ g _ _ _) = g"
| "td_Gas (AccessListTx _ _ _ g _ _ _ _) = g"
| "td_Gas (DynamicFeeTx _ _ _ g _ _ _ _ _) = g"
| "td_Gas (BlobTx _ _ _ g _ _ _ _ _ _ _ _) = g"
| "td_Gas (SetCodeTx _ _ _ g _ _ _ _ _ _) = g"

fun td_Value :: "TxData \<Rightarrow> int" where
  "td_Value (LegacyTx _ _ _ _ v _) = (case v of Some x \<Rightarrow> x | None \<Rightarrow> 0)"
| "td_Value (AccessListTx _ _ _ _ _ v _ _) = (case v of Some x \<Rightarrow> x | None \<Rightarrow> 0)"
| "td_Value (DynamicFeeTx _ _ _ _ _ _ v _ _) = (case v of Some x \<Rightarrow> x | None \<Rightarrow> 0)"
| "td_Value (BlobTx _ _ _ _ _ _ v _ _ _ _ _) = (case v of Some x \<Rightarrow> uint x | None \<Rightarrow> 0)"
| "td_Value (SetCodeTx _ _ _ _ _ _ v _ _ _) = (case v of Some x \<Rightarrow> uint x | None \<Rightarrow> 0)"

fun td_SetCodeAuthorizations :: "TxData \<Rightarrow> SetCodeAuthorization list" where
  "td_SetCodeAuthorizations (SetCodeTx _ _ _ _ _ _ _ _ _ auths) = auths"
| "td_SetCodeAuthorizations _ = []"

section \<open>Overrides\<close>

record OverrideAccount =
  oaNonce :: "u64 option"
  oaCode :: "bytes option"
  oaBalance :: "int option"
  oaState :: "(hash, hash) gomap option"
  oaStateDiff :: "(hash, hash) gomap option"
  oaMovePrecompileTo :: "address option"

type_synonym StateOverride = "(address, OverrideAccount) gomap"

section \<open>Transactions and receipts as results\<close>

text \<open>The accessors of a go-ethereum transaction that only results show.\<close>

record geth_ext =
  gxAccessList :: "gethTx \<Rightarrow> AccessList"
  gxBlobGasFeeCap :: "gethTx \<Rightarrow> int option"
  gxBlobHashes :: "gethTx \<Rightarrow> hash list"
  gxSetCodeAuthorizations :: "gethTx \<Rightarrow> SetCodeAuthorization list"
  gxSize :: "gethTx \<Rightarrow> u64"

fun ChainId :: "Transaction \<Rightarrow> int" where
  "ChainId (DirectCall dc) = 0"
| "ChainId (TransactionCall tc) = gtChainId tc"

fun tx_AccessList :: "geth_ext \<Rightarrow> Transaction \<Rightarrow> AccessList" where
  "tx_AccessList X (DirectCall dc) = []"
| "tx_AccessList X (TransactionCall tc) = gxAccessList X tc"

fun BlobGasFeeCap :: "geth_ext \<Rightarrow> Transaction \<Rightarrow> int option" where
  "BlobGasFeeCap X (DirectCall dc) = Some 0"
| "BlobGasFeeCap X (TransactionCall tc) = gxBlobGasFeeCap X tc"

fun tx_BlobHashes :: "geth_ext \<Rightarrow> Transaction \<Rightarrow> hash list" where
  "tx_BlobHashes X (DirectCall dc) = []"
| "tx_BlobHashes X (TransactionCall tc) = gxBlobHashes X tc"

fun SetCodeAuthorizations :: "geth_ext \<Rightarrow> Transaction \<Rightarrow> SetCodeAuthorization list" where
  "SetCodeAuthorizations X (DirectCall dc) = []"
| "SetCodeAuthorizations X (TransactionCall tc) = gxSetCodeAuthorizations X tc"

fun tx_Size :: "'ev codec \<Rightarrow> geth_ext \<Rightarrow> Transaction \<Rightarrow> u64" where
  "tx_Size c X (DirectCall dc) = DirectCall_Size c dc"
| "tx_Size c X (TransactionCall tc) = gxSize X tc"

text \<open>\<^verbatim>\<open>Transaction\<close> of the package.\<close>

record eth_Transaction =
  etBlockHash :: "hash option"
  etBlockNumber :: "int option"
  etFrom :: address
  etGas :: u64
  etGasPrice :: int
  etGasFeeCap :: "int option"
  etGasTipCap :: "int option"
  etMaxFeePerBlobGas :: "int option"
  etHash :: hash
  etInput :: bytes
  etNonce :: u64
  etTo :: "address option"
  etTransactionIndex :: "u64 option"
  etValue :: int
  etType :: u64
  etAccesses :: "AccessList option"
  etChainID :: "int option"
  etBlobVersionedHashes :: "hash list"
  etAuthorizationList :: "SetCodeAuthorization list"
  etV :: int
  etR :: int
  etS :: int
  etYParity :: "u64 option"
  etSize :: u64

definition NewTransaction :: "'ev codec \<Rightarrow> geth_ext \<Rightarrow> Transaction \<Rightarrow> err + eth_Transaction" where
  "NewTransaction c X tx =
     rbind (rwrap (\<lambda>e. Errorf ''failed to get from address for tx: %s, with: %w'' [FNum (unat (tx_Hash tx))] [e])
       (From c tx)) (\<lambda>from_address.
     case RawSignatureValues tx of (v, r, s) \<Rightarrow>
     let result = \<lparr>etBlockHash = None, etBlockNumber = None, etFrom = from_address, etGas = Gas tx, etGasPrice = GasPrice tx,
           etGasFeeCap = None, etGasTipCap = None, etMaxFeePerBlobGas = None, etHash = tx_Hash tx, etInput = Data tx,
           etNonce = Nonce tx, etTo = To c tx, etTransactionIndex = None, etValue = Value tx, etType = ucast (Type tx),
           etAccesses = None, etChainID = (if ChainId tx \<noteq> 0 then Some (ChainId tx) else None),
           etBlobVersionedHashes = [], etAuthorizationList = [], etV = v, etR = r, etS = s, etYParity = None,
           etSize = tx_Size c X tx\<rparr>;
         result1 = (if unat (Type tx) > LegacyTxType
           then result\<lparr>etAccesses := Some (tx_AccessList X tx), etYParity := Some (word_of_int (sgn v)), etChainID := Some (ChainId tx)\<rparr>
           else result);
         result2 = (if unat (Type tx) > AccessListTxType
           then result1\<lparr>etGasFeeCap := Some (GasFeeCap tx), etGasTipCap := Some (GasTipCap tx), etGasPrice := GasFeeCap tx,
                  etChainID := Some (ChainId tx)\<rparr>
           else result1);
         result3 = (if unat (Type tx) > DynamicFeeTxType
           then result2\<lparr>etMaxFeePerBlobGas := BlobGasFeeCap X tx, etBlobVersionedHashes := tx_BlobHashes X tx,
                  etChainID := Some (ChainId tx)\<rparr>
           else result2);
         result4 = (if unat (Type tx) > BlobTxType
           then result3\<lparr>etAuthorizationList := SetCodeAuthorizations X tx, etChainID := Some (ChainId tx)\<rparr>
           else result3)
     in Inr result4)"

definition NewTransactionResult :: "'ev codec \<Rightarrow> geth_ext \<Rightarrow> Transaction \<Rightarrow> Receipt \<Rightarrow> err + eth_Transaction" where
  "NewTransactionResult c X tx receipt =
     rbind (NewTransaction c X tx) (\<lambda>res.
     Inr (res\<lparr>etTransactionIndex := Some (rTransactionIndex receipt), etBlockHash := Some (rBlockHash receipt),
               etBlockNumber := Some (rBlockNumber receipt)\<rparr>))"

text \<open>The values of a marshalled receipt.\<close>

datatype rpc_value = RNull | RHash hash | RAddress address | RUint u64 | RBig int | RBytes bytes | RLogs "Log list" | RBloom bloom

text \<open>A receipt without logs has an empty list here, so the fallback for \<^verbatim>\<open>nil\<close> logs is the same value.\<close>

definition MarshalReceipt :: "'ev codec \<Rightarrow> Receipt \<Rightarrow> Transaction \<Rightarrow> err + (string, rpc_value) gomap" where
  "MarshalReceipt c receipt tx =
     rbind (From c tx) (\<lambda>from_address.
     let fields =
           [(''blockHash'', RHash (rBlockHash receipt)), (''blockNumber'', RUint (big_Uint64 (rBlockNumber receipt))),
            (''transactionHash'', RHash (tx_Hash tx)), (''transactionIndex'', RUint (rTransactionIndex receipt)),
            (''from'', RAddress from_address), (''to'', RNull), (''gasUsed'', RUint (rGasUsed receipt)),
            (''cumulativeGasUsed'', RUint (rCumulativeGasUsed receipt)), (''contractAddress'', RNull),
            (''logs'', RLogs (rLogs receipt)), (''logsBloom'', RBloom (rBloom receipt)), (''type'', RUint (ucast (Type tx))),
            (''effectiveGasPrice'', RBig (rEffectiveGasPrice receipt))];
         fields1 = (if rEffectiveGasPrice receipt = 0 then AList.update ''effectiveGasPrice'' (RBig BaseFeePerGas) fields else fields);
         fields2 = (case To c tx of Some a \<Rightarrow> AList.update ''to'' (RAddress a) fields1 | None \<Rightarrow> fields1);
         fields3 = AList.update ''status'' (RUint (rStatus receipt)) fields2;
         fields4 = (if unat (Type tx) = BlobTxType
           then AList.update ''blobGasPrice'' (case rBlobGasPrice receipt of Some p \<Rightarrow> RBig p | None \<Rightarrow> RNull)
                  (AList.update ''blobGasUsed'' (RUint (rBlobGasUsed receipt)) fields3)
           else fields3);
         fields5 = (if rContractAddress receipt \<noteq> 0
           then AList.update ''contractAddress'' (RAddress (rContractAddress receipt)) fields4 else fields4);
         fields6 = (if length (rRevertReason receipt) > 0
           then AList.update ''revertReason'' (RBytes (rRevertReason receipt)) fields5 else fields5)
     in Inr fields6)"

section \<open>Properties\<close>

text \<open>The documented behaviour of \<^verbatim>\<open>uint256.MustFromBig\<close>: nil stays nil, a number whose magnitude needs
  more than 256 bits panics, and a negative one is taken in two's complement.\<close>

definition must_from_big_ok :: "(int option \<Rightarrow> u256 option exec) \<Rightarrow> bool" where
  "must_from_big_ok MustFromBig \<longleftrightarrow> MustFromBig None = Ret None \<and>
     (\<forall>v. if \<bar>v\<bar> < 2 ^ 256 then MustFromBig (Some v) = Ret (Some (word_of_int v)) else (\<exists>m. MustFromBig (Some v) = Panics m))"

definition fits :: "int option \<Rightarrow> bool" where
  "fits x \<longleftrightarrow> (case x of None \<Rightarrow> True | Some v \<Rightarrow> \<bar>v\<bar> < 2 ^ 256)"

text \<open>The value of a 256-bit field after the conversion.\<close>

definition converted :: "int option \<Rightarrow> u256 option \<Rightarrow> bool" where
  "converted x w \<longleftrightarrow> (case x of None \<Rightarrow> w = None | Some v \<Rightarrow> w = Some (word_of_int v))"

lemma converted_value: "converted x w \<Longrightarrow> fits x \<Longrightarrow> (case x of Some v \<Rightarrow> 0 \<le> v | None \<Rightarrow> True) \<Longrightarrow>
    (case w of Some y \<Rightarrow> uint y | None \<Rightarrow> 0) = (case x of Some v \<Rightarrow> v | None \<Rightarrow> 0)"
  by (auto simp: converted_def fits_def uint_word_of_int split: option.splits)

text \<open>What the conversion needs of the arguments when the transaction has fixed-width fields.\<close>

definition convertible :: "TransactionArgs \<Rightarrow> nat \<Rightarrow> bool" where
  "convertible a t \<longleftrightarrow> (t \<in> {BlobTxType, SetCodeTxType} \<longrightarrow>
     taTo a \<noteq> None \<and> fits (taChainID a) \<and> fits (taMaxFeePerGas a) \<and> fits (taMaxPriorityFeePerGas a) \<and> fits (taValue a)
     \<and> (t = BlobTxType \<longrightarrow> fits (taBlobFeeCap a)))"

lemma must_from_big_panics: "must_from_big_ok M \<Longrightarrow> \<not> fits x \<Longrightarrow> \<exists>m. M x = Panics m"
  by (cases x) (auto simp: must_from_big_ok_def fits_def)

lemma must_from_big_ret: "must_from_big_ok M \<Longrightarrow> fits x \<Longrightarrow> \<exists>w. M x = Ret w \<and> converted x w"
  by (cases x) (auto simp: must_from_big_ok_def fits_def converted_def)

lemma used_type_cases: "used_type a t \<in> {LegacyTxType, AccessListTxType, DynamicFeeTxType, BlobTxType, SetCodeTxType}"
  by (simp add: used_type_def Let_def)

text \<open>The conversions of a transaction with fixed-width fields, up to the constructor.\<close>

definition fixed_width ::
    "(int option \<Rightarrow> u256 option exec) \<Rightarrow> TransactionArgs
      \<Rightarrow> (address \<Rightarrow> u256 option \<Rightarrow> u256 option \<Rightarrow> u256 option \<Rightarrow> u256 option \<Rightarrow> TxData exec) \<Rightarrow> TxData exec" where
  "fixed_width M a k =
     ebind (deref (taTo a)) (\<lambda>to.
     ebind (M (taChainID a)) (\<lambda>chainID.
     ebind (M (taMaxFeePerGas a)) (\<lambda>feeCap.
     ebind (M (taMaxPriorityFeePerGas a)) (\<lambda>tipCap.
     ebind (M (taValue a)) (\<lambda>val. k to chainID feeCap tipCap val)))))"

lemma fixed_width_outcome:
  assumes M: "must_from_big_ok M"
  shows "if taTo a \<noteq> None \<and> fits (taChainID a) \<and> fits (taMaxFeePerGas a) \<and> fits (taMaxPriorityFeePerGas a) \<and> fits (taValue a)
    then \<exists>to c f t v. taTo a = Some to \<and> fixed_width M a k = k to c f t v
      \<and> converted (taValue a) v
    else \<exists>m. fixed_width M a k = Panics m"
proof -
  note ret = must_from_big_ret [OF M] and pan = must_from_big_panics [OF M]
  have step: "(\<exists>m. ebind (M x) f = Panics m) \<or> (fits x \<and> (\<exists>w. M x = Ret w))" for x and f :: "u256 option \<Rightarrow> TxData exec"
    using ret [of x] pan [of x] by (cases "fits x") auto
  show ?thesis
  proof (cases "taTo a \<noteq> None \<and> fits (taChainID a) \<and> fits (taMaxFeePerGas a) \<and> fits (taMaxPriorityFeePerGas a) \<and> fits (taValue a)")
    case True
    then show ?thesis
      using ret [of "taChainID a"] ret [of "taMaxFeePerGas a"] ret [of "taMaxPriorityFeePerGas a"] ret [of "taValue a"]
      by (fastforce simp: fixed_width_def deref_def)
  next
    case False
    then have "\<exists>m. fixed_width M a k = Panics m"
      using step [of "taChainID a"] step [of "taMaxFeePerGas a"] step [of "taMaxPriorityFeePerGas a"] step [of "taValue a"]
      by (cases "taTo a") (fastforce simp: fixed_width_def deref_def)+
    with False show ?thesis by auto
  qed
qed

lemma ToTransaction_fixed:
  "used_type a t = SetCodeTxType \<Longrightarrow> ToTransaction M a t g = fixed_width M a (\<lambda>to c f p v.
     Ret (SetCodeTx to c (case taNonce a of Some n \<Rightarrow> n | None \<Rightarrow> 0) (case taGas a of Some x \<Rightarrow> x | None \<Rightarrow> g) f p v (args_data a)
       (case taAccessList a of Some l \<Rightarrow> l | None \<Rightarrow> []) (case taAuthorizationList a of Some l \<Rightarrow> l | None \<Rightarrow> [])))"
  "used_type a t = BlobTxType \<Longrightarrow> ToTransaction M a t g = fixed_width M a (\<lambda>to c f p v.
     ebind (M (taBlobFeeCap a)) (\<lambda>bf.
     Ret (BlobTx to c (case taNonce a of Some n \<Rightarrow> n | None \<Rightarrow> 0) (case taGas a of Some x \<Rightarrow> x | None \<Rightarrow> g) f p v (args_data a)
       (case taAccessList a of Some l \<Rightarrow> l | None \<Rightarrow> []) (taBlobHashes a) bf
       (case taBlobs a of None \<Rightarrow> None
        | Some blobs \<Rightarrow> Some \<lparr>scBlobs = blobs, scCommitments = taCommitments a, scProofs = taProofs a\<rparr>))))"
  by (simp_all add: ToTransaction_def fixed_width_def tx_types Let_def)

lemma ToTransaction_spec:
  assumes "must_from_big_ok M"
  shows "if convertible a (used_type a t)
    then \<exists>tx. ToTransaction M a t g = Ret tx \<and> td_To tx = taTo a \<and> td_Data tx = args_data a
      \<and> td_Gas tx = (case taGas a of Some x \<Rightarrow> x | None \<Rightarrow> g) 
      \<and> ((case taValue a of Some v \<Rightarrow> 0 \<le> v | None \<Rightarrow> True) \<longrightarrow> td_Value tx = (case taValue a of Some v \<Rightarrow> v | None \<Rightarrow> 0))
    else \<exists>m. ToTransaction M a t g = Panics m"
proof -
  note fw = fixed_width_outcome [OF assms, of a]
  consider (set) "used_type a t = SetCodeTxType" | (blob) "used_type a t = BlobTxType"
    | (other) "used_type a t \<in> {LegacyTxType, AccessListTxType, DynamicFeeTxType}"
    using used_type_cases [of a t] by blast
  then show ?thesis
  proof cases
    case set
    then show ?thesis
      unfolding ToTransaction_fixed(1) [OF set]
      using fw by (fastforce simp: convertible_def tx_types converted_value split: if_splits)
  next
    case blob
    show ?thesis
    proof (cases "fits (taBlobFeeCap a)")
      case True
      with must_from_big_ret [OF assms] obtain bf where "M (taBlobFeeCap a) = Ret bf" by blast
      with True blob show ?thesis
        unfolding ToTransaction_fixed(2) [OF blob]
        using fw by (fastforce simp: convertible_def tx_types converted_value split: if_splits)
    next
      case False
      with must_from_big_panics [OF assms] obtain m where "M (taBlobFeeCap a) = Panics m" by blast
      with False blob show ?thesis
        unfolding ToTransaction_fixed(2) [OF blob]
        using fw by (fastforce simp: convertible_def tx_types split: if_splits)
    qed
  next
    case other
    then show ?thesis by (auto simp: convertible_def ToTransaction_def tx_types Let_def)
  qed
qed

text \<open>Converting the arguments of a call gives a transaction with the recipient, the data, the gas
  limit or the default one, and the value of the arguments where that is not negative; it panics exactly
  for a blob or set-code transaction without a recipient or with a number that does not fit 256 bits.\<close>

theorem ToTransaction_outcome:
  assumes "must_from_big_ok M"
  shows "if convertible a (used_type a t)
    then \<exists>tx. ToTransaction M a t g = Ret tx \<and> td_To tx = taTo a \<and> td_Data tx = args_data a
      \<and> td_Gas tx = (case taGas a of Some x \<Rightarrow> x | None \<Rightarrow> g) 
      \<and> ((case taValue a of Some v \<Rightarrow> 0 \<le> v | None \<Rightarrow> True) \<longrightarrow> td_Value tx = (case taValue a of Some v \<Rightarrow> v | None \<Rightarrow> 0))
    else \<exists>m. ToTransaction M a t g = Panics m"
  by (rule ToTransaction_spec [OF assms])

text \<open>Arguments with an authorization list and data but without a recipient pass the validation, and
  their conversion to a transaction dereferences the missing recipient.\<close>

theorem authorization_without_recipient_panics:
  assumes "taAuthorizationList a = Some auths" and "taGasPrice a = None" and "taTo a = None"
    and "taInput a = Some d" and "d \<noteq> []" and "taData a = None"
  shows "Validate a = None \<and> (\<exists>m. ToTransaction M a LegacyTxType g = Panics m)"
proof
  show "Validate a = None" using assms by (simp add: Validate_def)
  have "used_type a LegacyTxType = SetCodeTxType" using assms by (simp add: used_type_def)
  then show "\<exists>m. ToTransaction M a LegacyTxType g = Panics m"
    using assms(3) by (simp add: ToTransaction_fixed(1) fixed_width_def deref_def)
qed

text \<open>A marshalled receipt always has the fields of the specification, and a positive price for a stored zero.\<close>

lemma MarshalReceipt_fields:
  assumes "MarshalReceipt c receipt tx = Inr fs"
  shows "map_of fs ''transactionHash'' = Some (RHash (tx_Hash tx))"
    "map_of fs ''status'' = Some (RUint (rStatus receipt))"
    "map_of fs ''to'' = Some (case To c tx of Some a \<Rightarrow> RAddress a | None \<Rightarrow> RNull)"
    "map_of fs ''contractAddress'' = Some (if rContractAddress receipt = 0 then RNull else RAddress (rContractAddress receipt))"
    "map_of fs ''effectiveGasPrice'' =
       Some (RBig (if rEffectiveGasPrice receipt = 0 then BaseFeePerGas else rEffectiveGasPrice receipt))"
    "map_of fs ''revertReason'' = (if rRevertReason receipt = [] then None else Some (RBytes (rRevertReason receipt)))"
proof -
  have opt: "map_of (case x of Some a \<Rightarrow> AList.update k (g a) m | None \<Rightarrow> m) k' =
      (case x of Some a \<Rightarrow> if k' = k then Some (g a) else map_of m k' | None \<Rightarrow> map_of m k')" for x k k' and g :: "address \<Rightarrow> rpc_value" and m
    by (cases x) simp_all
  have cond: "map_of (if b then AList.update k v m else m) k' = (if b \<and> k' = k then Some v else map_of m k')" for b k v k' and m :: "(string, rpc_value) gomap"
    by simp
  have cond2: "map_of (if b then AList.update k v (AList.update l w m) else m) k' =
      (if b \<and> k' = k then Some v else if b \<and> k' = l then Some w else map_of m k')" for b k v l w k' and m :: "(string, rpc_value) gomap"
    by simp
  obtain from_address where "From c tx = Inr from_address" using assms by (auto simp: MarshalReceipt_def gw_result)
  note eq = assms [unfolded MarshalReceipt_def this rbind.simps Let_def sum.inject, symmetric]
  show "map_of fs ''transactionHash'' = Some (RHash (tx_Hash tx))"
    "map_of fs ''status'' = Some (RUint (rStatus receipt))"
    "map_of fs ''to'' = Some (case To c tx of Some a \<Rightarrow> RAddress a | None \<Rightarrow> RNull)"
    "map_of fs ''contractAddress'' = Some (if rContractAddress receipt = 0 then RNull else RAddress (rContractAddress receipt))"
    "map_of fs ''effectiveGasPrice'' =
       Some (RBig (if rEffectiveGasPrice receipt = 0 then BaseFeePerGas else rEffectiveGasPrice receipt))"
    "map_of fs ''revertReason'' = (if rRevertReason receipt = [] then None else Some (RBytes (rRevertReason receipt)))"
    unfolding eq cond cond2 opt lookup_update by (simp_all split: option.split)
qed

section \<open>Witnesses\<close>

definition big256 :: "int option \<Rightarrow> u256 option exec" where
  "big256 x = (case x of None \<Rightarrow> Ret None
    | Some v \<Rightarrow> if \<bar>v\<bar> < 2 ^ 256 then Ret (Some (word_of_int v)) else Panics ''overflow'')"

lemma big256_ok: "must_from_big_ok big256"
  by (simp add: must_from_big_ok_def big256_def)

definition no_args :: TransactionArgs where
  "no_args = \<lparr>taFrom = None, taTo = None, taGas = None, taGasPrice = None, taMaxFeePerGas = None,
     taMaxPriorityFeePerGas = None, taValue = None, taNonce = None, taData = None, taInput = None, taAccessList = None,
     taChainID = None, taBlobFeeCap = None, taBlobHashes = None, taBlobs = None, taCommitments = None, taProofs = None,
     taAuthorizationList = None\<rparr>"

lemma ToTransaction_outcome_witness:
  "\<exists>tx. ToTransaction big256 (no_args\<lparr>taTo := Some 5, taAuthorizationList := Some [], taValue := Some 9, taInput := Some [1]\<rparr>)
     LegacyTxType 120000000 = Ret tx \<and> td_To tx = Some 5 \<and> td_Gas tx = 120000000 \<and> td_Value tx = 9"
proof -
  let ?a = "no_args\<lparr>taTo := Some 5, taAuthorizationList := Some [], taValue := Some 9, taInput := Some [1]\<rparr>"
  have "convertible ?a (used_type ?a LegacyTxType)"
    by (simp add: convertible_def fits_def no_args_def)
  with ToTransaction_outcome [OF big256_ok, of ?a LegacyTxType 120000000] show ?thesis
    by (auto simp: no_args_def)
qed

lemma authorization_without_recipient_panics_witness:
  "\<exists>m. ToTransaction big256 (no_args\<lparr>taAuthorizationList := Some [], taInput := Some [1]\<rparr>) LegacyTxType 120000000 = Panics m"
  using authorization_without_recipient_panics
    [of "no_args\<lparr>taAuthorizationList := Some [], taInput := Some [1]\<rparr>" "[]" "[1]" big256 120000000]
  by (simp add: no_args_def)

end
