(* ===== verification/Evm_Requester.thy ===== *)
theory Evm_Requester
  imports Eth_Types Blocks_Provider Cross_Spork Single_Tx_Pool
begin

text \<open>
  The requester of \<^verbatim>\<open>services/requester/requester.go\<close>: sending raw transactions, reading state,
  dry runs and the estimation of gas; with the nonces of \<^verbatim>\<open>nonce_provider.go\<close> and the remote
  Cadence precompile of \<^verbatim>\<open>remote_cadence_arch.go\<close>.  flow-go's views of the EVM state are the record
  \<open>view_api\<close>, the rate limiter and the transaction pool are arguments.
\<close>

section \<open>Views of the state\<close>

text \<open>flow-go's results of an EVM execution.\<close>

record ResultSummary =
  rsErrorCode :: nat
  rsErrorMessage :: string
  rsReturnedData :: bytes
  rsGasConsumed :: u64

record Result =
  resGasConsumed :: u64
  resMaxGasConsumed :: u64
  resReturnedData :: bytes
  resSummary :: ResultSummary
  Successful :: bool

text \<open>The options of a dry call; the extra precompile is that of the Cadence height.\<close>

datatype dry_option =
    WithExtraPrecompiledContracts u64
  | WithStateOverrideNonce address u64
  | WithStateOverrideCode address bytes
  | WithStateOverrideBalance address int
  | WithStateOverrideState address "(hash, hash) gomap"
  | WithStateOverrideStateDiff address "(hash, hash) gomap"

text \<open>\<open>va_GetBlockView\<close> is the view provider's, for the block provider it was built with.\<close>

record 'v view_api =
  va_GetBlockView :: "OverridableBlocksProvider \<Rightarrow> u64 \<Rightarrow> err + 'v"
  va_GetBalance :: "'v \<Rightarrow> address \<Rightarrow> err + int"
  va_GetNonce :: "'v \<Rightarrow> address \<Rightarrow> err + u64"
  va_GetSlab :: "'v \<Rightarrow> address \<Rightarrow> hash \<Rightarrow> err + hash"
  va_GetCode :: "'v \<Rightarrow> address \<Rightarrow> err + bytes"
  va_DryCall :: "'v \<Rightarrow> address \<Rightarrow> address \<Rightarrow> bytes \<Rightarrow> SetCodeAuthorization list \<Rightarrow> int \<Rightarrow> u64 \<Rightarrow> dry_option list \<Rightarrow> err + Result"

record rq_config =
  cfIndexOnly :: bool
  cfTxRequestLimit :: u64
  cfGasPrice :: int
  cfEnforceGasPrice :: bool
  cfLocalIndexValidation :: bool

text \<open>
  What the requester is built with: the configuration, the views, the block index, the forks of the
  chain configuration, the conversion of big integers, and the helpers of the reverted error.
\<close>

record 'v EVM =
  evConfig :: rq_config
  evViews :: "'v view_api"
  evGetByHeight :: "u64 \<Rightarrow> err + Block"
  evLatestEVMHeight :: "err + u64"
  evGetCadenceHeight :: "u64 \<Rightarrow> err + u64"
  evIsOsaka :: "int \<Rightarrow> u64 \<Rightarrow> bool"
  evIsAmsterdam :: "int \<Rightarrow> u64 \<Rightarrow> bool"
  evMustFromBig :: "int option \<Rightarrow> u256 option exec"
  evUnpackRevert :: "bytes \<Rightarrow> string option"
  evHexEncode :: "bytes \<Rightarrow> string"
  evCost :: "gethTx \<Rightarrow> int"

definition minFlowBalance :: u64 where "minFlowBalance = 2"
definition blockGasLimit :: u64 where "blockGasLimit = 120000000"

definition gethErrNonceTooLow :: err where "gethErrNonceTooLow = New_err ''nonce too low''"
definition gethErrInsufficientFunds :: err where "gethErrInsufficientFunds = New_err ''insufficient funds for gas * price + value''"

text \<open>
  Building the requester: \<open>accBalance\<close> is the answer for the balance of the operator's account and
  \<open>limiter\<close> the outcome of creating the rate limiter.
\<close>

definition NewEVM :: "rq_config \<Rightarrow> err + u64 \<Rightarrow> err option \<Rightarrow> 'v EVM \<Rightarrow> err + 'v EVM" where
  "NewEVM cfg accBalance limiter ev =
     rbind (if cfIndexOnly cfg then Inr ()
            else rbind (rwrapf ''could not fetch the configured COA account: %s make sure it exists: %w'' [] accBalance) (\<lambda>bal.
              if bal < minFlowBalance
              then Inl (Errorf ''COA account must be funded with at least %d Flow, but has balance of: %d''
                     [FNum (unat minFlowBalance), FNum (unat bal)] [])
              else Inr ())) (\<lambda>_.
     case limiter of
       Some e \<Rightarrow> Inl (Errorf ''failed to create TX rate limiter: %w'' [] [e])
     | None \<Rightarrow> Inr (ev\<lparr>evConfig := cfg\<rparr>))"

definition getBlockView :: "'v EVM \<Rightarrow> u64 \<Rightarrow> BlockOverrides option \<Rightarrow> err + 'v" where
  "getBlockView ev height bov =
     (let blocksProvider = NewOverridableBlocksProvider;
          blocksProvider' = (case bov of
              None \<Rightarrow> blocksProvider
            | Some _ \<Rightarrow> WithBlockOverrides bov blocksProvider)
      in va_GetBlockView (evViews ev) blocksProvider' height)"

definition EVM_GetBalance :: "'v EVM \<Rightarrow> address \<Rightarrow> u64 \<Rightarrow> err + int" where
  "EVM_GetBalance ev addr height = rbind (getBlockView ev height None) (\<lambda>view. va_GetBalance (evViews ev) view addr)"

definition EVM_GetNonce :: "'v EVM \<Rightarrow> address \<Rightarrow> u64 \<Rightarrow> err + u64" where
  "EVM_GetNonce ev addr height = rbind (getBlockView ev height None) (\<lambda>view. va_GetNonce (evViews ev) view addr)"

definition EVM_GetStorageAt :: "'v EVM \<Rightarrow> address \<Rightarrow> hash \<Rightarrow> u64 \<Rightarrow> err + hash" where
  "EVM_GetStorageAt ev addr hsh height = rbind (getBlockView ev height None) (\<lambda>view. va_GetSlab (evViews ev) view addr hsh)"

definition EVM_GetCode :: "'v EVM \<Rightarrow> address \<Rightarrow> u64 \<Rightarrow> err + bytes" where
  "EVM_GetCode ev addr height = rbind (getBlockView ev height None) (\<lambda>view. va_GetCode (evViews ev) view addr)"

text \<open>The script value is \<open>Some\<close> when it is a Cadence \<^verbatim>\<open>UInt64\<close>.\<close>

definition GetLatestEVMHeight :: "('val \<Rightarrow> u64 option) \<Rightarrow> err + 'val \<Rightarrow> err + u64" where
  "GetLatestEVMHeight as_UInt64 scriptResult =
     rbind scriptResult (\<lambda>val.
     case as_UInt64 val of
       None \<Rightarrow> Inl (New_err ''failed to convert height to UInt64'')
     | Some height \<Rightarrow> Inr height)"

definition evmToCadenceHeight :: "'v EVM \<Rightarrow> u64 \<Rightarrow> err + u64" where
  "evmToCadenceHeight ev height =
     rwrap (\<lambda>e. Errorf ''failed to map evm height: %d to cadence height: %w'' [FNum (unat height)] [e])
       (evGetCadenceHeight ev height)"

section \<open>Dry runs\<close>

text \<open>The options of one overridden account, in the order they are appended.\<close>

definition account_options :: "address \<Rightarrow> OverrideAccount \<Rightarrow> err + dry_option list" where
  "account_options addr account =
     (let opts = (case oaNonce account of Some n \<Rightarrow> [WithStateOverrideNonce addr n] | None \<Rightarrow> [])
            @ (case oaCode account of Some code \<Rightarrow> [WithStateOverrideCode addr code] | None \<Rightarrow> [])
            @ (case oaBalance account of Some b \<Rightarrow> [WithStateOverrideBalance addr b] | None \<Rightarrow> [])
      in if oaState account \<noteq> None \<and> oaStateDiff account \<noteq> None
         then Inl (Errorf ''account %s has both state and stateDiff'' [FNum (unat addr)] [])
         else Inr (opts
            @ (case oaState account of Some st \<Rightarrow> [WithStateOverrideState addr st] | None \<Rightarrow> [])
            @ (case oaStateDiff account of Some st \<Rightarrow> [WithStateOverrideStateDiff addr st] | None \<Rightarrow> [])))"

definition dryRunTx ::
    "'v EVM \<Rightarrow> TxData \<Rightarrow> address \<Rightarrow> u64 \<Rightarrow> StateOverride option \<Rightarrow> BlockOverrides option \<Rightarrow> err + Result" where
  "dryRunTx ev tx sender height sov bov =
     rbind (getBlockView ev height bov) (\<lambda>view.
     let to = (case td_To tx of Some a \<Rightarrow> a | None \<Rightarrow> 0) in
     rbind (evmToCadenceHeight ev height) (\<lambda>cdcHeight.
     rbind (rmap (\<lambda>(addr, account). account_options addr account) (case sov of Some m \<Rightarrow> m | None \<Rightarrow> [])) (\<lambda>opts.
     va_DryCall (evViews ev) view sender to (td_Data tx) (td_SetCodeAuthorizations tx) (td_Value tx) (td_Gas tx)
       (WithExtraPrecompiledContracts cdcHeight # concat opts))))"

text \<open>The error of a run that did not succeed.\<close>

definition run_error :: "'ev codec \<Rightarrow> 'v EVM \<Rightarrow> ResultSummary \<Rightarrow> err" where
  "run_error c ev s =
     (if rsErrorCode s = ExecutionErrCodeExecutionReverted c
      then NewRevertError (evUnpackRevert ev) (evHexEncode ev) (rsReturnedData s)
      else NewFailedTransactionError (rsErrorMessage s))"

definition EVM_Call ::
    "'ev codec \<Rightarrow> 'v EVM \<Rightarrow> TransactionArgs \<Rightarrow> address \<Rightarrow> u64 \<Rightarrow> StateOverride option \<Rightarrow> BlockOverrides option \<Rightarrow> (err + bytes) exec" where
  "EVM_Call c ev txArgs sender height sov bov =
     ebind (ToTransaction (evMustFromBig ev) txArgs LegacyTxType blockGasLimit) (\<lambda>tx.
     Ret (rbind (dryRunTx ev tx sender height sov bov) (\<lambda>result.
       if rsErrorCode (resSummary result) \<noteq> 0 then Inl (run_error c ev (resSummary result))
       else Inr (resReturnedData result))))"

section \<open>Estimating gas\<close>

definition TxGas :: u64 where "TxGas = 21000"
definition MaxTxGas :: u64 where "MaxTxGas = 16777216"
definition CallStipend :: u64 where "CallStipend = 2300"

text \<open>
  \<^verbatim>\<open>float64(passing-failing)/float64(passing) < 0.015\<close>: the limits are integers below \<open>2 ^ 53\<close>, and a
  quotient with a denominator of at most the block gas limit is either \<open>0.015\<close> itself, which rounds to
  the constant, or further from it than the rounding, so that the comparison is that of the fractions.
\<close>

definition close_enough :: "u64 \<Rightarrow> u64 \<Rightarrow> bool" where
  "close_enough failing passing \<longleftrightarrow> 200 * unat (passing - failing) < 3 * unat passing"

definition search_done :: "u64 \<Rightarrow> u64 \<Rightarrow> bool" where
  "search_done failing passing \<longleftrightarrow> \<not> (failing + 1 < passing) \<or> close_enough failing passing"

definition search_mid :: "u64 \<Rightarrow> u64 \<Rightarrow> u64" where
  "search_mid failing passing = min ((passing + failing) div 2) (failing * 2)"

text \<open>The binary search; the first argument bounds the number of dry runs.\<close>

fun estimate_loop :: "nat \<Rightarrow> (u64 \<Rightarrow> (err + Result) exec) \<Rightarrow> u64 \<Rightarrow> u64 \<Rightarrow> (err + u64) exec" where
  "estimate_loop 0 dryRun failing passing = (if search_done failing passing then Ret (Inr passing) else Blocks)"
| "estimate_loop (Suc n) dryRun failing passing =
     (if search_done failing passing then Ret (Inr passing)
      else let mid = search_mid failing passing in
       ebind (dryRun mid) (\<lambda>r. case r of
         Inl e \<Rightarrow> Ret (Inl e)
       | Inr result \<Rightarrow>
           if Successful result then estimate_loop n dryRun failing mid
           else estimate_loop n dryRun mid passing))"

text \<open>The highest gas limit of the search.\<close>

definition highest_limit :: "'v EVM \<Rightarrow> TransactionArgs \<Rightarrow> u64 \<Rightarrow> BlockOverrides option \<Rightarrow> err + u64" where
  "highest_limit ev txArgs height bov =
     (let passing = (case taGas txArgs of Some g \<Rightarrow> if g \<ge> TxGas then g else blockGasLimit | None \<Rightarrow> blockGasLimit) in
      if passing > MaxTxGas then
        rbind (evGetByHeight ev height) (\<lambda>targetBlock.
        let number = (case bov of Some ov \<Rightarrow> (case boNumber ov of Some n \<Rightarrow> n | None \<Rightarrow> uint (Height (evmBlock targetBlock)))
              | None \<Rightarrow> uint (Height (evmBlock targetBlock)));
            time = (case bov of Some ov \<Rightarrow> (case boTime ov of Some t \<Rightarrow> t | None \<Rightarrow> Timestamp (evmBlock targetBlock))
              | None \<Rightarrow> Timestamp (evmBlock targetBlock))
        in Inr (if evIsOsaka ev number time \<and> \<not> evIsAmsterdam ev number time then MaxTxGas else passing))
      else Inr passing)"

text \<open>\<open>dryRun\<close> of the source: the arguments with another gas limit.\<close>

definition dry_run ::
    "'v EVM \<Rightarrow> TransactionArgs \<Rightarrow> address \<Rightarrow> u64 \<Rightarrow> StateOverride option \<Rightarrow> BlockOverrides option \<Rightarrow> u64 \<Rightarrow> (err + Result) exec" where
  "dry_run ev txArgs sender height sov bov gasLimit =
     ebind (ToTransaction (evMustFromBig ev) (txArgs\<lparr>taGas := Some gasLimit\<rparr>) LegacyTxType blockGasLimit) (\<lambda>tx.
     Ret (dryRunTx ev tx sender height sov bov))"

text \<open>The search after the first execution succeeded: the optimistic limit, then the loop.\<close>

definition estimate_search :: "nat \<Rightarrow> (u64 \<Rightarrow> (err + Result) exec) \<Rightarrow> Result \<Rightarrow> u64 \<Rightarrow> (err + u64) exec" where
  "estimate_search fuel dryRun result passing =
     (let failing = resGasConsumed result - 1;
          optimistic = (resMaxGasConsumed result + CallStipend) * 64 div 63
      in if optimistic < passing then
           ebind (dryRun optimistic) (\<lambda>r. case r of
             Inl e \<Rightarrow> Ret (Inl e)
           | Inr res \<Rightarrow>
               if Successful res then estimate_loop fuel dryRun failing optimistic
               else estimate_loop fuel dryRun optimistic passing)
         else estimate_loop fuel dryRun failing passing)"

definition EVM_EstimateGas ::
    "nat \<Rightarrow> 'ev codec \<Rightarrow> 'v EVM \<Rightarrow> TransactionArgs \<Rightarrow> address \<Rightarrow> u64 \<Rightarrow> StateOverride option \<Rightarrow> BlockOverrides option \<Rightarrow> (err + u64) exec" where
  "EVM_EstimateGas fuel c ev txArgs sender height sov bov =
     (case highest_limit ev txArgs height bov of
        Inl e \<Rightarrow> Ret (Inl e)
      | Inr passing \<Rightarrow>
         (let dryRun = dry_run ev txArgs sender height sov bov in
          ebind (dryRun passing) (\<lambda>r. case r of
            Inl e \<Rightarrow> Ret (Inl e)
          | Inr result \<Rightarrow>
              if rsErrorCode (resSummary result) \<noteq> 0 then Ret (Inl (run_error c ev (resSummary result)))
              else estimate_search fuel dryRun result passing)))"

section \<open>Sending transactions\<close>

definition validateTransactionWithState :: "'v EVM \<Rightarrow> gethTx \<Rightarrow> address \<Rightarrow> err option" where
  "validateTransactionWithState ev tx sender =
     (case rbind (evLatestEVMHeight ev) (\<lambda>height.
           rbind (getBlockView ev height None) (\<lambda>view.
           rbind (va_GetNonce (evViews ev) view sender) (\<lambda>nonce.
           if gtNonce tx < nonce
           then Inl (Errorf ''%w: address %s, tx: %v, state: %v''
                  [FNum (unat sender), FNum (unat (gtNonce tx)), FNum (unat nonce)] [gethErrNonceTooLow])
           else rbind (va_GetBalance (evViews ev) view sender) (\<lambda>balance.
             if balance < evCost ev tx
             then Inl (Errorf ''%w: balance %v, tx cost %v, overshot %v''
                    [FNum (nat balance), FNum (nat (evCost ev tx)), FNum (nat (evCost ev tx - balance))] [gethErrInsufficientFunds])
             else Inr ())))) of
        Inl e \<Rightarrow> Some e
      | Inr _ \<Rightarrow> None)"

text \<open>
  \<open>takeToken\<close> asks the rate limiter for a token of the sender and \<open>addTx\<close> gives the transaction to the pool;
  both states are threaded through.
\<close>

definition SendRawTransaction ::
    "'ev codec \<Rightarrow> 'v EVM \<Rightarrow> (address \<Rightarrow> 'l \<Rightarrow> (err + bool) \<times> 'l) \<Rightarrow> (gethTx \<Rightarrow> 'p \<Rightarrow> err option \<times> 'p) \<Rightarrow> bytes
      \<Rightarrow> 'l \<times> 'p \<Rightarrow> (err + hash) \<times> 'l \<times> 'p" where
  "SendRawTransaction c ev takeToken addTx data st = (case st of (lim, pool) \<Rightarrow>
     (case rbind (geth_UnmarshalBinary c data) (\<lambda>tx.
           case ValidateTransaction c tx of
             Some e \<Rightarrow> Inl e
           | None \<Rightarrow> rbind (DeriveTxSender c tx) (\<lambda>sender. Inr (tx, sender))) of
        Inl e \<Rightarrow> (Inl e, lim, pool)
      | Inr (tx, sender) \<Rightarrow>
         (case (if cfTxRequestLimit (evConfig ev) > 0 then takeToken sender lim else (Inr True, lim)) of
            (Inl e, lim') \<Rightarrow> (Inl (Errorf ''failed to check rate limit: %w'' [] [e]), lim', pool)
          | (Inr False, lim') \<Rightarrow> (Inl ErrRateLimit, lim', pool)
          | (Inr True, lim') \<Rightarrow>
              if gtGasPrice tx < cfGasPrice (evConfig ev) \<and> cfEnforceGasPrice (evConfig ev)
              then (Inl (NewTxGasPriceTooLowError (nat (cfGasPrice (evConfig ev)))), lim', pool)
              else case (if cfLocalIndexValidation (evConfig ev) then validateTransactionWithState ev tx sender else None) of
                Some e \<Rightarrow> (Inl e, lim', pool)
              | None \<Rightarrow>
                 (case addTx tx pool of
                    (Some e, pool') \<Rightarrow> (Inl e, lim', pool')
                  | (None, pool') \<Rightarrow> (Inr (gtHash tx), lim', pool')))))"

section \<open>Nonces\<close>

text \<open>
  The provider of \<^verbatim>\<open>nonce_provider.go\<close>.  \<open>build\<close> makes the view of a height and \<open>latest\<close> is the
  latest indexed height at the time of the call; a call is one critical section after the other, and a
  concurrent miss only builds the same view twice.
\<close>

record 'v LocalNonceProvider =
  cachedView :: "'v option"
  cachedHeight :: u64

definition NewLocalNonceProvider :: "'v LocalNonceProvider" where
  "NewLocalNonceProvider = \<lparr>cachedView = None, cachedHeight = 0\<rparr>"

definition Nonce_GetBlockView ::
    "(u64 \<Rightarrow> err + 'v) \<Rightarrow> err + u64 \<Rightarrow> 'v LocalNonceProvider \<Rightarrow> (err + 'v) \<times> 'v LocalNonceProvider" where
  "Nonce_GetBlockView build latest p = (case latest of
      Inl e \<Rightarrow> (Inl e, p)
    | Inr height \<Rightarrow>
       (case cachedView p of
          Some view \<Rightarrow>
            if cachedHeight p = height then (Inr view, p)
            else (case build height of Inl e \<Rightarrow> (Inl e, p) | Inr v \<Rightarrow> (Inr v, p\<lparr>cachedView := Some v, cachedHeight := height\<rparr>))
        | None \<Rightarrow> (case build height of Inl e \<Rightarrow> (Inl e, p) | Inr v \<Rightarrow> (Inr v, p\<lparr>cachedView := Some v, cachedHeight := height\<rparr>))))"

definition GetNextNonce ::
    "'v view_api \<Rightarrow> (u64 \<Rightarrow> err + 'v) \<Rightarrow> err + u64 \<Rightarrow> address \<Rightarrow> 'v LocalNonceProvider \<Rightarrow> (err + u64) \<times> 'v LocalNonceProvider" where
  "GetNextNonce V build latest addr p =
     (case Nonce_GetBlockView build latest p of
        (Inl e, p') \<Rightarrow> (Inl e, p')
      | (Inr view, p') \<Rightarrow> (va_GetNonce V view addr, p'))"

section \<open>Remote Cadence precompile\<close>

definition cadenceArchCallGasLimit :: u64 where "cadenceArchCallGasLimit = 155000"
definition cadenceArchAddress :: address where "cadenceArchAddress = 0x10000000000000001"

text \<open>
  What the precompile uses of go-ethereum, Cadence and flow-go: the encoding of a transaction, Cadence
  strings, the decoding of a result, the hash of the input, and hexadecimal strings.
\<close>

record 'val arch_api =
  aaMarshalBinary :: "TxData \<Rightarrow> err + bytes"
  aaNewString :: "string \<Rightarrow> err + 'val"
  aaResultSummary :: "'val \<Rightarrow> err + ResultSummary"
  aaKeccak256 :: "bytes \<Rightarrow> bytes"
  aaHex :: "bytes \<Rightarrow> string"
  aaCoinbase :: string
  aaScript :: bytes

record RemoteCadenceArch =
  rcaHeight :: u64
  cachedCalls :: "(string, bytes) gomap"

definition NewRemoteCadenceArch :: "u64 \<Rightarrow> RemoteCadenceArch" where
  "NewRemoteCadenceArch height = \<lparr>rcaHeight = height, cachedCalls = []\<rparr>"

definition parseResult :: "'ev codec \<Rightarrow> 'v EVM \<Rightarrow> 'val arch_api \<Rightarrow> 'val \<Rightarrow> err + ResultSummary" where
  "parseResult c ev A res =
     rbind (rwrapf ''failed to decode EVM result of type: %s, with: %w'' [] (aaResultSummary A res)) (\<lambda>result.
     if rsErrorCode result \<noteq> 0 then Inl (run_error c ev result) else Inr result)"

definition runCall ::
    "'ev codec \<Rightarrow> 'v EVM \<Rightarrow> 'val arch_api \<Rightarrow> ('c, 'fe, 'val, 's) access_api \<Rightarrow> 'c CrossSporkClient \<Rightarrow> bytes
      \<Rightarrow> RemoteCadenceArch \<Rightarrow> (err + ResultSummary) \<times> RemoteCadenceArch" where
  "runCall c ev A N client input rca =
     (case rbind (aaMarshalBinary A (LegacyTx (Some cadenceArchAddress) 0 cadenceArchCallGasLimit (Some 0) (Some 0) input)) (\<lambda>encodedTx.
           rbind (aaNewString A (aaHex A encodedTx)) (\<lambda>hexEncodedTx.
           rbind (aaNewString A (aaCoinbase A)) (\<lambda>hexEncodedAddress.
           rbind (ExecuteScriptAtBlockHeight N client (rcaHeight rca) (aaScript A) [hexEncodedTx, hexEncodedAddress]) (\<lambda>scriptResult.
           parseResult c ev A scriptResult)))) of
        Inl e \<Rightarrow> (Inl e, rca)
      | Inr evmResult \<Rightarrow>
          (Inr evmResult, rca\<lparr>cachedCalls := AList.update (aaHex A (aaKeccak256 A input)) (rsReturnedData evmResult) (cachedCalls rca)\<rparr>))"

definition RequiredGas ::
    "'ev codec \<Rightarrow> 'v EVM \<Rightarrow> 'val arch_api \<Rightarrow> ('c, 'fe, 'val, 's) access_api \<Rightarrow> 'c CrossSporkClient \<Rightarrow> bytes
      \<Rightarrow> RemoteCadenceArch \<Rightarrow> u64 \<times> RemoteCadenceArch" where
  "RequiredGas c ev A N client input rca =
     (case runCall c ev A N client input rca of
        (Inl e, rca') \<Rightarrow> (0, rca')
      | (Inr evmResult, rca') \<Rightarrow> (rsGasConsumed evmResult, rca'))"

definition Arch_Run ::
    "'ev codec \<Rightarrow> 'v EVM \<Rightarrow> 'val arch_api \<Rightarrow> ('c, 'fe, 'val, 's) access_api \<Rightarrow> 'c CrossSporkClient \<Rightarrow> bytes
      \<Rightarrow> RemoteCadenceArch \<Rightarrow> (err + bytes) \<times> RemoteCadenceArch" where
  "Arch_Run c ev A N client input rca =
     (case map_of (cachedCalls rca) (aaHex A (aaKeccak256 A input)) of
        Some result \<Rightarrow> (Inr result, rca)
      | None \<Rightarrow>
         (case runCall c ev A N client input rca of
            (Inl e, rca') \<Rightarrow> (Inl e, rca')
          | (Inr evmResult, rca') \<Rightarrow> (Inr (rsReturnedData evmResult), rca')))"

section \<open>The search for a gas limit\<close>

text \<open>Gas limits that were executed, with success or without.\<close>

definition good_limit :: "(u64 \<Rightarrow> (err + Result) exec) \<Rightarrow> u64 \<Rightarrow> bool" where
  "good_limit run g \<longleftrightarrow> (\<exists>res. run g = Ret (Inr res) \<and> Successful res)"

definition bad_limit :: "(u64 \<Rightarrow> (err + Result) exec) \<Rightarrow> u64 \<Rightarrow> bool" where
  "bad_limit run g \<longleftrightarrow> (\<exists>res. run g = Ret (Inr res) \<and> \<not> Successful res)"

text \<open>The limits of the loop: no addition of the search overflows.\<close>

definition limits_ok :: "u64 \<Rightarrow> u64 \<Rightarrow> bool" where
  "limits_ok failing passing \<longleftrightarrow> 0 < unat failing \<and> unat failing < unat passing \<and> unat passing \<le> 120000000"

lemma search_mid_value:
  assumes "limits_ok f p"
  shows "unat (search_mid f p) = min ((unat p + unat f) div 2) (2 * unat f)"
proof -
  have "unat (p + f) = unat p + unat f" "unat (f * 2) = 2 * unat f"
    using assms by (auto simp: limits_ok_def unat_word_ariths)
  then show ?thesis by (simp add: search_mid_def min_def word_le_nat_alt unat_div)
qed

lemma not_done_gap:
  assumes "limits_ok f p" "\<not> search_done f p"
  shows "unat f + 1 < unat p"
  using assms by (auto simp: search_done_def limits_ok_def word_less_nat_alt unat_word_ariths)

lemma search_mid_between:
  assumes "limits_ok f p" "\<not> search_done f p"
  shows "unat f < unat (search_mid f p)" "unat (search_mid f p) < unat p"
  using not_done_gap [OF assms] assms(1) by (auto simp: search_mid_value limits_ok_def min_def)

lemma limits_ok_mid:
  assumes "limits_ok f p" "\<not> search_done f p"
  shows "limits_ok f (search_mid f p)" "limits_ok (search_mid f p) p"
  using search_mid_between [OF assms] assms(1) by (auto simp: limits_ok_def)

text \<open>
  The number of steps: each step halves the gap, or doubles the lower limit, or brings the upper one
  to the double of the lower.
\<close>

lemma estimate_loop_ends:
  assumes "limits_ok f p" "unat p \<le> 2 ^ k * unat f" "unat p - unat f \<le> 2 ^ m" "k + m \<le> n"
    and run: "\<And>g. run g \<noteq> Blocks"
  shows "estimate_loop n run f p \<noteq> Blocks"
  using assms(1-4)
proof (induction n arbitrary: f p k m)
  case 0
  then have "unat p - unat f \<le> 1" by simp
  with not_done_gap [OF 0(1)] have "search_done f p" by linarith
  then show ?case by simp
next
  case (Suc n)
  show ?case
  proof (cases "search_done f p")
    case False
    define mid where "mid = search_mid f p"
    note lim = limits_ok_mid [OF Suc.prems(1) False, folded mid_def]
    note gap = not_done_gap [OF Suc.prems(1) False]
    have val: "unat mid = min ((unat p + unat f) div 2) (2 * unat f)"
      using search_mid_value [OF Suc.prems(1)] by (simp add: mid_def)
    obtain m' where m: "m = Suc m'" using Suc.prems(3) gap by (cases m) auto
    obtain k' where k: "k = Suc k'" using Suc.prems(2) gap by (cases k) auto
    have low: "estimate_loop n run f mid \<noteq> Blocks"
    proof (cases "(unat p + unat f) div 2 \<le> 2 * unat f")
      case True
      have "unat mid - unat f \<le> 2 ^ m'" using val True Suc.prems(3) m by simp
      moreover have "unat mid \<le> 2 ^ k * unat f" using lim(2) Suc.prems(2) by (simp add: limits_ok_def)
      ultimately show ?thesis using Suc.IH [OF lim(1)] Suc.prems(4) m by (metis add_Suc_right le_SucE Suc_le_mono)
    next
      case far: False
      have "k \<noteq> 1" using Suc.prems(2) far by auto
      then have "1 + m \<le> n" using Suc.prems(4) k by simp
      moreover have "unat mid \<le> 2 ^ 1 * unat f" using val far by simp
      moreover have "unat mid - unat f \<le> 2 ^ m" using lim(2) Suc.prems(3) unfolding limits_ok_def by linarith
      ultimately show ?thesis using Suc.IH [OF lim(1)] by blast
    qed
    have high: "estimate_loop n run mid p \<noteq> Blocks"
    proof (cases "(unat p + unat f) div 2 \<le> 2 * unat f")
      case True
      have "unat p - unat mid \<le> 2 ^ m'" using val True Suc.prems(3) m by simp
      moreover have "unat p \<le> 2 ^ k * unat mid"
        using Suc.prems(2) lim(1) by (meson limits_ok_def less_imp_le mult_le_mono2 order_trans)
      ultimately show ?thesis using Suc.IH [OF lim(2)] Suc.prems(4) m by (metis add_Suc_right le_SucE Suc_le_mono)
    next
      case far: False
      have "unat p \<le> 2 ^ k' * unat mid" using val far Suc.prems(2) k by simp
      moreover have "unat p - unat mid \<le> 2 ^ m" using lim(1) Suc.prems(3) unfolding limits_ok_def by linarith
      ultimately show ?thesis using Suc.IH [OF lim(2)] Suc.prems(4) k by (metis add_Suc Suc_le_mono)
    qed
    from False low high run [of mid] show ?thesis
      by (cases "run mid") (auto simp: mid_def Let_def split: sum.splits)
  qed simp
qed

lemma estimate_loop_result:
  assumes "estimate_loop n run f p = Ret (Inr g)" "limits_ok f p" "good_limit run p" "f = f0 \<or> bad_limit run f"
  shows "good_limit run g \<and> (\<exists>f'. (f' = f0 \<or> bad_limit run f') \<and> limits_ok f' g \<and> search_done f' g)"
  using assms
proof (induction n arbitrary: f p)
  case 0
  then show ?case by (auto split: if_splits)
next
  case (Suc n)
  show ?case
  proof (cases "search_done f p")
    case True
    with Suc.prems show ?thesis by auto
  next
    case False
    note lim = limits_ok_mid [OF Suc.prems(2) False]
    from Suc.prems(1) False obtain res where res: "run (search_mid f p) = Ret (Inr res)"
      "(if Successful res then estimate_loop n run f (search_mid f p) else estimate_loop n run (search_mid f p) p) = Ret (Inr g)"
      by (cases "run (search_mid f p)") (auto simp: Let_def split: sum.splits)
    show ?thesis
    proof (cases "Successful res")
      case True
      with res Suc.IH [OF _ lim(1) _ Suc.prems(4)] show ?thesis by (auto simp: good_limit_def)
    next
      case notok: False
      with res Suc.IH [OF _ lim(2) Suc.prems(3)] show ?thesis by (auto simp: bad_limit_def)
    qed
  qed
qed

text \<open>
  The documented behaviour of a dry call: a limit above that of the view provider is refused, success
  is the absence of an error code, and a successful run consumes at least the intrinsic gas and at
  most its limit.
\<close>

definition result_ok :: "u64 \<Rightarrow> Result \<Rightarrow> bool" where
  "result_ok g res \<longleftrightarrow> g \<le> blockGasLimit \<and> (Successful res \<longleftrightarrow> rsErrorCode (resSummary res) = 0) \<and>
     (Successful res \<longrightarrow> TxGas \<le> resGasConsumed res \<and> resGasConsumed res \<le> resMaxGasConsumed res \<and> resMaxGasConsumed res \<le> g)"

definition dry_call_ok :: "'v view_api \<Rightarrow> bool" where
  "dry_call_ok V \<longleftrightarrow> (\<forall>view sender to data auths val g opts res.
     va_DryCall V view sender to data auths val g opts = Inr res \<longrightarrow> result_ok g res)"

lemma dry_run_cases:
  assumes "must_from_big_ok (evMustFromBig ev)" "dry_call_ok (evViews ev)"
  shows "dry_run ev a sender h sov bov g \<noteq> Blocks"
    and "dry_run ev a sender h sov bov g = Ret (Inr res) \<Longrightarrow> result_ok g res"
proof -
  let ?a = "a\<lparr>taGas := Some g\<rparr>"
  have "(\<exists>m. ToTransaction (evMustFromBig ev) ?a LegacyTxType blockGasLimit = Panics m)
      \<or> (\<exists>tx. ToTransaction (evMustFromBig ev) ?a LegacyTxType blockGasLimit = Ret tx \<and> td_Gas tx = g)"
    using ToTransaction_spec [OF assms(1), of ?a LegacyTxType blockGasLimit] by (auto split: if_splits)
  then show "dry_run ev a sender h sov bov g \<noteq> Blocks" "dry_run ev a sender h sov bov g = Ret (Inr res) \<Longrightarrow> result_ok g res"
    using assms(2) by (auto simp: dry_run_def dryRunTx_def dry_call_ok_def gw_result)
qed

lemma optimistic_arith:
  assumes "(a :: nat) \<le> b" "21000 \<le> a"
  shows "a - 1 < (b + 2300) * 64 div 63"
proof -
  have "(b + 2300) * 63 div 63 \<le> (b + 2300) * 64 div 63" by (rule div_le_mono) simp
  then have "b + 2300 \<le> (b + 2300) * 64 div 63" by simp
  with assms show ?thesis by linarith
qed

text \<open>The optimistic limit of a run: more than it consumed, without overflow.\<close>

lemma optimistic_limit:
  assumes "result_ok g res" "Successful res"
  defines "opt \<equiv> (resMaxGasConsumed res + CallStipend) * 64 div 63"
  shows "unat (resGasConsumed res - 1) = unat (resGasConsumed res) - 1" "20999 \<le> unat (resGasConsumed res - 1)"
    "unat (resGasConsumed res - 1) < unat opt" "unat (resGasConsumed res - 1) < unat g" "unat g \<le> 120000000"
proof -
  have g: "unat g \<le> 120000000" "21000 \<le> unat (resGasConsumed res)" "unat (resGasConsumed res) \<le> unat (resMaxGasConsumed res)"
    "unat (resMaxGasConsumed res) \<le> unat g"
    using assms(1,2) by (auto simp: result_ok_def word_le_nat_alt blockGasLimit_def TxGas_def)
  have "unat (resMaxGasConsumed res + 2300) = unat (resMaxGasConsumed res) + 2300"
    using g by (simp add: unat_word_ariths)
  moreover from this have "unat ((resMaxGasConsumed res + 2300) * 64) = (unat (resMaxGasConsumed res) + 2300) * 64"
    using g by (simp add: unat_word_ariths)
  ultimately have opt: "unat opt = (unat (resMaxGasConsumed res) + 2300) * 64 div 63"
    by (simp add: opt_def CallStipend_def unat_div)
  show pred: "unat (resGasConsumed res - 1) = unat (resGasConsumed res) - 1"
    using g(2) by (simp add: unat_sub_if')
  show "20999 \<le> unat (resGasConsumed res - 1)" using g(2) pred by simp
  show "unat (resGasConsumed res - 1) < unat opt" unfolding opt pred by (rule optimistic_arith [OF g(3,2)])
  show "unat (resGasConsumed res - 1) < unat g" unfolding pred using g(2-4) by linarith
  show "unat g \<le> 120000000" by (rule g(1))
qed

lemma estimate_loop_forty:
  assumes "limits_ok f p" "20999 \<le> unat f" "40 \<le> fuel" "\<And>g. run g \<noteq> Blocks"
  shows "estimate_loop fuel run f p \<noteq> Blocks"
proof (rule estimate_loop_ends [OF assms(1) _ _ _ assms(4)])
  show "unat p \<le> 2 ^ 13 * unat f" "unat p - unat f \<le> 2 ^ 27" using assms(1,2) by (auto simp: limits_ok_def)
qed (use assms(3) in simp)

lemma estimate_search_spec:
  assumes run: "\<And>g. run g \<noteq> Blocks" "\<And>g res. run g = Ret (Inr res) \<Longrightarrow> result_ok g res"
    and first: "run passing = Ret (Inr result)" "Successful result" and fuel: "40 \<le> fuel"
  shows "estimate_search fuel run result passing \<noteq> Blocks"
    and "estimate_search fuel run result passing = Ret (Inr g) \<Longrightarrow>
      good_limit run g \<and> (\<exists>f. (f = resGasConsumed result - 1 \<or> bad_limit run f) \<and> limits_ok f g \<and> search_done f g)"
proof -
  define failing where "failing = resGasConsumed result - 1"
  define opt where "opt = (resMaxGasConsumed result + CallStipend) * 64 div 63"
  note lim = optimistic_limit [OF run(2) [OF first(1)] first(2), folded failing_def opt_def]
  have es: "estimate_search fuel run result passing =
    (if opt < passing then ebind (run opt) (\<lambda>r. case r of Inl e \<Rightarrow> Ret (Inl e)
       | Inr res \<Rightarrow> if Successful res then estimate_loop fuel run failing opt else estimate_loop fuel run opt passing)
     else estimate_loop fuel run failing passing)"
    by (simp only: estimate_search_def failing_def opt_def Let_def)
  have wide: "limits_ok failing passing" using lim by (auto simp: limits_ok_def)
  have opts: "limits_ok failing opt \<and> limits_ok opt passing \<and> 20999 \<le> unat opt" if "opt < passing"
    using that lim by (auto simp: limits_ok_def word_less_nat_alt)
  note forty = estimate_loop_forty [where run = run, OF _ _ fuel run(1)]
  have good: "good_limit run passing" using first by (simp add: good_limit_def)
  show "estimate_search fuel run result passing \<noteq> Blocks"
  proof (cases "opt < passing")
    case True
    have "estimate_loop fuel run failing opt \<noteq> Blocks" by (rule forty) (use opts [OF True] lim(2) in simp_all)
    moreover have "estimate_loop fuel run opt passing \<noteq> Blocks" by (rule forty) (use opts [OF True] in simp_all)
    moreover note True
    ultimately show ?thesis unfolding es using run(1) [of opt] by (cases "run opt") (auto split: sum.splits)
  next
    case False
    with forty [OF wide lim(2)] show ?thesis unfolding es by simp
  qed
  assume res: "estimate_search fuel run result passing = Ret (Inr g)"
  show "good_limit run g \<and> (\<exists>f. (f = resGasConsumed result - 1 \<or> bad_limit run f) \<and> limits_ok f g \<and> search_done f g)"
  proof (cases "opt < passing")
    case True
    with res obtain r where r: "run opt = Ret (Inr r)"
      "(if Successful r then estimate_loop fuel run failing opt else estimate_loop fuel run opt passing) = Ret (Inr g)"
      unfolding es by (cases "run opt") (auto split: sum.splits)
    show ?thesis
    proof (cases "Successful r")
      case ok: True
      with r have "good_limit run opt" "estimate_loop fuel run failing opt = Ret (Inr g)" by (auto simp: good_limit_def)
      with opts [OF True] estimate_loop_result show ?thesis unfolding failing_def by blast
    next
      case False
      with r have "bad_limit run opt" "estimate_loop fuel run opt passing = Ret (Inr g)" by (auto simp: bad_limit_def)
      with opts [OF True] good estimate_loop_result show ?thesis by blast
    qed
  next
    case False
    with res wide good estimate_loop_result [of fuel run failing passing g failing] show ?thesis
      unfolding es failing_def by auto
  qed
qed

lemma estimate_loop_done: "search_done f p \<Longrightarrow> estimate_loop n run f p = Ret (Inr p)"
  by (cases n) simp_all

lemma search_done_tight:
  assumes "limits_ok f g" "search_done f g"
  shows "g = f + 1 \<or> 200 * unat (g - f) < 3 * unat g"
proof (cases "f + 1 < g")
  case True
  with assms(2) show ?thesis by (simp add: search_done_def close_enough_def)
next
  case False
  have "unat (f + 1) = unat f + 1" using assms(1) by (simp add: limits_ok_def unat_word_ariths)
  with False assms(1) have "unat g = unat (f + 1)" by (simp add: limits_ok_def word_less_nat_alt)
  then have "g = f + 1" by (simp only: word_unat_eq_iff)
  then show ?thesis by blast
qed

section \<open>Properties\<close>

lemma EstimateGas_passing:
  assumes "highest_limit ev a h bov = Inr passing"
  shows "EVM_EstimateGas fuel c ev a sender h sov bov =
    ebind (dry_run ev a sender h sov bov passing) (\<lambda>r. case r of
        Inl e \<Rightarrow> Ret (Inl e)
      | Inr result \<Rightarrow>
          if rsErrorCode (resSummary result) \<noteq> 0 then Ret (Inl (run_error c ev (resSummary result)))
          else estimate_search fuel (dry_run ev a sender h sov bov) result passing)"
  by (simp only: EVM_EstimateGas_def assms sum.case Let_def)

text \<open>C10: The estimation of gas always returns, after at most 42 dry runs, and an estimate is a limit
  with which the transaction was executed successfully.  It is tight: just above a limit with which
  the execution failed, or that is below the gas the first execution consumed, or within 1.5 percent
  of such a limit.\<close>

theorem EstimateGas_correct:
  assumes "must_from_big_ok (evMustFromBig ev)" and "dry_call_ok (evViews ev)" and "40 \<le> fuel"
  shows "EVM_EstimateGas fuel c ev a sender h sov bov \<noteq> Blocks
    \<and> (\<forall>g. EVM_EstimateGas fuel c ev a sender h sov bov = Ret (Inr g) \<longrightarrow>
        good_limit (dry_run ev a sender h sov bov) g
        \<and> (\<exists>f < g. (bad_limit (dry_run ev a sender h sov bov) f
              \<or> (\<exists>top res. dry_run ev a sender h sov bov top = Ret (Inr res) \<and> f = resGasConsumed res - 1))
            \<and> (g = f + 1 \<or> 200 * unat (g - f) < 3 * unat g)))"
proof -
  let ?run = "dry_run ev a sender h sov bov"
  note run = dry_run_cases [OF assms(1,2), of a sender h sov bov]
  note search = estimate_search_spec [where run = ?run, OF run(1) _ _ _ assms(3)]
  have ends: "EVM_EstimateGas fuel c ev a sender h sov bov \<noteq> Blocks"
  proof (cases "highest_limit ev a h bov")
    case (Inr passing)
    have "estimate_search fuel ?run result passing \<noteq> Blocks"
      if "?run passing = Ret (Inr result)" "rsErrorCode (resSummary result) = 0" for result
    proof -
      have "Successful result" using run(2) [OF that(1)] that(2) by (simp add: result_ok_def)
      show ?thesis
      proof (rule estimate_search_spec(1) [where run = ?run])
        show "?run g \<noteq> Blocks" for g by (rule run(1))
        show "?run g = Ret (Inr res) \<Longrightarrow> result_ok g res" for g res by (rule run(2))
      qed (fact that(1), fact \<open>Successful result\<close>, fact assms(3))
    qed
    with run(1) [of passing] show ?thesis
      unfolding EstimateGas_passing [OF Inr] by (cases "?run passing") (simp_all split: sum.split)
  qed (simp add: EVM_EstimateGas_def)
  have "good_limit ?run g \<and> (\<exists>f < g. (bad_limit ?run f \<or> (\<exists>top res. ?run top = Ret (Inr res) \<and> f = resGasConsumed res - 1))
      \<and> (g = f + 1 \<or> 200 * unat (g - f) < 3 * unat g))"
    if eg: "EVM_EstimateGas fuel c ev a sender h sov bov = Ret (Inr g)" for g
  proof -
    obtain passing where hl: "highest_limit ev a h bov = Inr passing"
      using eg by (cases "highest_limit ev a h bov") (auto simp: EVM_EstimateGas_def)
    note eg' = eg [unfolded EstimateGas_passing [OF hl]]
    obtain r where r: "?run passing = Ret r" using eg' by (cases "?run passing") simp_all
    obtain result where res: "r = Inr result" using eg' [unfolded r] by (cases r) simp_all
    have p: "?run passing = Ret (Inr result)" "rsErrorCode (resSummary result) = 0"
      "estimate_search fuel ?run result passing = Ret (Inr g)"
      using eg' r res by (simp_all split: if_splits)
    then have "Successful result" using run(2) [OF p(1)] by (simp add: result_ok_def)
    with p(1,3) run(2) search(2) obtain f where f: "good_limit ?run g" "f = resGasConsumed result - 1 \<or> bad_limit ?run f"
      "limits_ok f g" "search_done f g" by blast
    have "f < g" using f(3) by (simp add: limits_ok_def word_less_nat_alt)
    moreover have "g = f + 1 \<or> 200 * unat (g - f) < 3 * unat g"
      using search_done_tight [OF f(3,4)] .
    ultimately show ?thesis using f(1,2) p(1) by blast
  qed
  with ends show ?thesis by blast
qed

text \<open>What a transaction needs to be given to the pool.\<close>

definition admissible :: "'ev codec \<Rightarrow> 'v EVM \<Rightarrow> gethTx \<Rightarrow> address \<Rightarrow> bool" where
  "admissible c ev tx sender \<longleftrightarrow>
     ValidateTransaction c tx = None \<and> DeriveTxSender c tx = Inr sender
     \<and> (cfEnforceGasPrice (evConfig ev) \<longrightarrow> cfGasPrice (evConfig ev) \<le> gtGasPrice tx)
     \<and> (cfLocalIndexValidation (evConfig ev) \<longrightarrow>
          (\<exists>height view nonce balance. evLatestEVMHeight ev = Inr height \<and> getBlockView ev height None = Inr view
             \<and> va_GetNonce (evViews ev) view sender = Inr nonce \<and> nonce \<le> gtNonce tx
             \<and> va_GetBalance (evViews ev) view sender = Inr balance \<and> evCost ev tx \<le> balance))"

lemma validateTransactionWithState_None:
  "validateTransactionWithState ev tx sender = None \<longleftrightarrow>
     (\<exists>height view nonce balance. evLatestEVMHeight ev = Inr height \<and> getBlockView ev height None = Inr view
        \<and> va_GetNonce (evViews ev) view sender = Inr nonce \<and> nonce \<le> gtNonce tx
        \<and> va_GetBalance (evViews ev) view sender = Inr balance \<and> evCost ev tx \<le> balance)"
  (is "?l \<longleftrightarrow> ?r")
proof
  assume ?l
  then obtain u where "rbind (evLatestEVMHeight ev) (\<lambda>height.
           rbind (getBlockView ev height None) (\<lambda>view.
           rbind (va_GetNonce (evViews ev) view sender) (\<lambda>nonce.
           if gtNonce tx < nonce
           then Inl (Errorf ''%w: address %s, tx: %v, state: %v''
                  [FNum (unat sender), FNum (unat (gtNonce tx)), FNum (unat nonce)] [gethErrNonceTooLow])
           else rbind (va_GetBalance (evViews ev) view sender) (\<lambda>balance.
             if balance < evCost ev tx
             then Inl (Errorf ''%w: balance %v, tx cost %v, overshot %v''
                    [FNum (nat balance), FNum (nat (evCost ev tx)), FNum (nat (evCost ev tx - balance))] [gethErrInsufficientFunds])
             else Inr ())))) = Inr u"
    by (auto simp: validateTransactionWithState_def split: sum.splits)
  then show ?r by (auto simp: gw_result not_less split: if_splits)
next
  assume ?r
  then show ?l by (auto simp: validateTransactionWithState_def not_less [symmetric])
qed

text \<open>The outcome for a decoded transaction, by the token of its sender and the check against the state.\<close>

lemma SendRawTransaction_decoded:
  assumes "geth_UnmarshalBinary c data = Inr tx" "ValidateTransaction c tx = None" "DeriveTxSender c tx = Inr sender"
  shows "SendRawTransaction c ev takeToken addTx data (lim, pool) =
    (case (if cfTxRequestLimit (evConfig ev) > 0 then takeToken sender lim else (Inr True, lim)) of
      (Inl e, l) \<Rightarrow> (Inl (Errorf ''failed to check rate limit: %w'' [] [e]), l, pool)
    | (Inr False, l) \<Rightarrow> (Inl ErrRateLimit, l, pool)
    | (Inr True, l) \<Rightarrow>
        if gtGasPrice tx < cfGasPrice (evConfig ev) \<and> cfEnforceGasPrice (evConfig ev)
        then (Inl (NewTxGasPriceTooLowError (nat (cfGasPrice (evConfig ev)))), l, pool)
        else case (if cfLocalIndexValidation (evConfig ev) then validateTransactionWithState ev tx sender else None) of
          Some e \<Rightarrow> (Inl e, l, pool)
        | None \<Rightarrow> (case addTx tx pool of (Some e, p) \<Rightarrow> (Inl e, l, p) | (None, p) \<Rightarrow> (Inr (gtHash tx), l, p)))"
proof -
  have "rbind (geth_UnmarshalBinary c data) (\<lambda>tx. case ValidateTransaction c tx of
      Some e \<Rightarrow> Inl e | None \<Rightarrow> rbind (DeriveTxSender c tx) (\<lambda>sender. Inr (tx, sender))) = Inr (tx, sender)"
    using assms by simp
  then show ?thesis by (simp only: SendRawTransaction_def prod.case sum.case)
qed

text \<open>C9: A raw transaction reaches the pool exactly when it decodes, is valid, its sender is known and within
  its rate, pays the enforced price, and, under local validation, has a nonce not below that of the
  state and a balance that covers its cost; then it is added exactly once, and its hash is returned
  unless the pool refuses it.  In every other case the pool is unchanged and an error is returned.\<close>

theorem SendRawTransaction_admission:
  assumes "SendRawTransaction c ev takeToken addTx data (lim, pool) = (r, lim', pool')"
  shows "(\<exists>tx sender. geth_UnmarshalBinary c data = Inr tx \<and> admissible c ev tx sender
        \<and> (cfTxRequestLimit (evConfig ev) > 0 \<longrightarrow> takeToken sender lim = (Inr True, lim'))
        \<and> (r = Inr (gtHash tx) \<and> addTx tx pool = (None, pool') \<or> (\<exists>e. r = Inl e \<and> addTx tx pool = (Some e, pool'))))
    \<or> (pool' = pool \<and> (\<exists>e. r = Inl e)
        \<and> \<not> (\<exists>tx sender. geth_UnmarshalBinary c data = Inr tx \<and> admissible c ev tx sender
              \<and> (cfTxRequestLimit (evConfig ev) > 0 \<longrightarrow> takeToken sender lim = (Inr True, lim'))))"
proof (cases "rbind (geth_UnmarshalBinary c data) (\<lambda>tx. case ValidateTransaction c tx of
             Some e \<Rightarrow> Inl e | None \<Rightarrow> rbind (DeriveTxSender c tx) (\<lambda>sender. Inr (tx, sender)))")
  case (Inl e)
  then have "\<not> (\<exists>tx sender. geth_UnmarshalBinary c data = Inr tx \<and> admissible c ev tx sender)"
    by (auto simp: admissible_def)
  with Inl assms show ?thesis by (auto simp: SendRawTransaction_def)
next
  case (Inr ts)
  obtain tx sender where ts: "ts = (tx, sender)" by (cases ts)
  with Inr have tx: "geth_UnmarshalBinary c data = Inr tx" "ValidateTransaction c tx = None" "DeriveTxSender c tx = Inr sender"
    by (auto simp: gw_result split: option.splits)
  define tok where "tok = (if cfTxRequestLimit (evConfig ev) > 0 then takeToken sender lim else (Inr True, lim))"
  define st where "st = (if cfLocalIndexValidation (evConfig ev) then validateTransactionWithState ev tx sender else None)"
  note run = assms [unfolded SendRawTransaction_decoded [OF tx], folded tok_def st_def]
  show ?thesis
  proof (cases "fst tok = Inr True \<and> \<not> (gtGasPrice tx < cfGasPrice (evConfig ev) \<and> cfEnforceGasPrice (evConfig ev)) \<and> st = None")
    case True
    then obtain l where l: "tok = (Inr True, l)" by (cases tok) auto
    have adm: "admissible c ev tx sender"
      using True tx validateTransactionWithState_None [of ev tx sender] by (auto simp: admissible_def st_def split: if_splits)
    have "l = lim' \<and> (r = Inr (gtHash tx) \<and> addTx tx pool = (None, pool') \<or> (\<exists>e. r = Inl e \<and> addTx tx pool = (Some e, pool')))"
      using run True l by (cases "addTx tx pool"; cases "fst (addTx tx pool)") auto
    moreover from this l have "cfTxRequestLimit (evConfig ev) > 0 \<longrightarrow> takeToken sender lim = (Inr True, lim')"
      by (auto simp: tok_def)
    ultimately show ?thesis using tx(1) adm by blast
  next
    case False
    obtain o' l where tok: "tok = (o', l)" by (cases tok)
    have "\<not> (\<exists>tx sender. geth_UnmarshalBinary c data = Inr tx \<and> admissible c ev tx sender
              \<and> (cfTxRequestLimit (evConfig ev) > 0 \<longrightarrow> takeToken sender lim = (Inr True, lim')))"
      using False tx validateTransactionWithState_None [of ev tx sender]
      by (auto simp: admissible_def tok_def st_def not_less split: if_splits)
    moreover have "pool' = pool \<and> (\<exists>e. r = Inl e)"
      using run False tok by (auto split: sum.splits bool.splits if_splits option.splits prod.splits)
    ultimately show ?thesis by blast
  qed
qed

text \<open>A cached view is the one built at its height.\<close>

definition cache_ok :: "(u64 \<Rightarrow> err + 'v) \<Rightarrow> 'v LocalNonceProvider \<Rightarrow> bool" where
  "cache_ok build p \<longleftrightarrow> (\<forall>v. cachedView p = Some v \<longrightarrow> build (cachedHeight p) = Inr v)"

lemma Nonce_GetBlockView_spec:
  assumes "cache_ok build p"
  shows "fst (Nonce_GetBlockView build latest p) = rbind latest build \<and> cache_ok build (snd (Nonce_GetBlockView build latest p))"
  using assms by (auto simp: Nonce_GetBlockView_def cache_ok_def split: sum.splits option.splits)

lemma GetNextNonce_spec:
  assumes "cache_ok build p"
  shows "fst (GetNextNonce V build latest addr p) = rbind latest (\<lambda>h. rbind (build h) (\<lambda>view. va_GetNonce V view addr))
    \<and> cache_ok build (snd (GetNextNonce V build latest addr p))"
  using Nonce_GetBlockView_spec [OF assms, of latest]
  by (cases "Nonce_GetBlockView build latest p"; cases "fst (Nonce_GetBlockView build latest p)")
     (auto simp: GetNextNonce_def simp flip: rbind_assoc)

text \<open>A sequence of calls, each with the height that was the latest then.\<close>

definition next_nonces ::
    "'v view_api \<Rightarrow> (u64 \<Rightarrow> err + 'v) \<Rightarrow> ((err + u64) \<times> address) list \<Rightarrow> 'v LocalNonceProvider \<Rightarrow> 'v LocalNonceProvider" where
  "next_nonces V build calls p = fold (\<lambda>(latest, addr) p. snd (GetNextNonce V build latest addr p)) calls p"

text \<open>The cached view is transparent: whatever heights the calls before asked for, the next nonce is
  the one of the view built at the latest indexed height.\<close>

theorem nonce_cache_transparent:
  "fst (GetNextNonce V build latest addr (next_nonces V build calls NewLocalNonceProvider)) =
     rbind latest (\<lambda>h. rbind (build h) (\<lambda>view. va_GetNonce V view addr))"
proof -
  have "cache_ok build p \<Longrightarrow> cache_ok build (next_nonces V build calls p)" for p
    by (induction calls arbitrary: p) (auto simp: next_nonces_def GetNextNonce_spec)
  then have "cache_ok build (next_nonces V build calls NewLocalNonceProvider)"
    by (simp add: cache_ok_def NewLocalNonceProvider_def)
  then show ?thesis by (simp add: GetNextNonce_spec)
qed

text \<open>The precompile runs a script once per input: what \<open>RequiredGas\<close> executed, \<open>Arch_Run\<close> returns from the cache.\<close>

lemma Arch_Run_cached:
  assumes "runCall c ev A N client input rca = (Inr res, rca')"
  shows "RequiredGas c ev A N client input rca = (rsGasConsumed res, rca')"
    "Arch_Run c ev A N client input rca' = (Inr (rsReturnedData res), rca')"
  using assms by (auto simp: RequiredGas_def Arch_Run_def runCall_def split: sum.splits)

section \<open>Witnesses\<close>

definition run_result :: "u64 \<Rightarrow> Result" where
  "run_result g = \<lparr>resGasConsumed = 40000, resMaxGasConsumed = 45000, resReturnedData = [],
     resSummary = \<lparr>rsErrorCode = (if g \<ge> 50000 then 0 else 306), rsErrorMessage = [], rsReturnedData = [], rsGasConsumed = 40000\<rparr>,
     Successful = (g \<ge> 50000)\<rparr>"

definition demo_views :: "unit view_api" where
  "demo_views = \<lparr>va_GetBlockView = (\<lambda>_ _. Inr ()), va_GetBalance = (\<lambda>_ _. Inr 100000), va_GetNonce = (\<lambda>_ _. Inr 1),
     va_GetSlab = (\<lambda>_ _ _. Inr 0), va_GetCode = (\<lambda>_ _. Inr []),
     va_DryCall = (\<lambda>_ _ _ _ _ _ g _. if g \<le> blockGasLimit then Inr (run_result g) else Inl (New_err ''gas limit is bigger than max gas limit allowed''))\<rparr>"

definition demo_evm :: "unit EVM" where
  "demo_evm = \<lparr>evConfig = \<lparr>cfIndexOnly = False, cfTxRequestLimit = 1, cfGasPrice = 1, cfEnforceGasPrice = True, cfLocalIndexValidation = True\<rparr>,
     evViews = demo_views, evGetByHeight = (\<lambda>_. Inl ErrEntityNotFound), evLatestEVMHeight = Inr 7, evGetCadenceHeight = (\<lambda>_. Inr 9),
     evIsOsaka = (\<lambda>_ _. True), evIsAmsterdam = (\<lambda>_ _. False), evMustFromBig = big256, evUnpackRevert = (\<lambda>_. None),
     evHexEncode = (\<lambda>_. []), evCost = (\<lambda>_. 21000)\<rparr>"

definition demo_args :: TransactionArgs where
  "demo_args = no_args\<lparr>taTo := Some 5, taGas := Some 60000\<rparr>"

lemma demo_views_ok: "dry_call_ok demo_views"
proof -
  have "(45000 :: u64) \<le> g" if "50000 \<le> g" for g :: u64 using that by (rule order_trans [rotated]) simp
  then show ?thesis
    by (auto simp: dry_call_ok_def demo_views_def result_ok_def run_result_def TxGas_def split: if_splits)
qed

lemma demo_dry_run:
  "g \<le> blockGasLimit \<Longrightarrow> dry_run demo_evm demo_args 3 7 None None g = Ret (Inr (run_result g))"
  by (simp add: dry_run_def demo_args_def no_args_def ToTransaction_def used_type_def tx_types dryRunTx_def
      getBlockView_def evmToCadenceHeight_def demo_evm_def demo_views_def)

lemma demo_estimate: "EVM_EstimateGas 40 demo_codec demo_evm demo_args 3 7 None None = Ret (Inr 50290)"
proof -
  have hl: "highest_limit demo_evm demo_args 7 None = Inr 60000"
    by (simp add: highest_limit_def demo_args_def TxGas_def MaxTxGas_def no_args_def)
  let ?run = "dry_run demo_evm demo_args 3 7 None None"
  have step: "estimate_loop (Suc n) ?run f p = (if 50000 \<le> mid then estimate_loop n ?run f mid else estimate_loop n ?run mid p)"
    if "\<not> search_done f p" "search_mid f p = mid" "mid \<le> blockGasLimit" for n f p mid
    using that by (simp add: Let_def demo_dry_run run_result_def)
  note eval = search_done_def close_enough_def search_mid_def blockGasLimit_def min_def
  have "estimate_loop 40 ?run 48050 60000 = estimate_loop 39 ?run 48050 54025"
    using step [of 48050 60000 54025 39] by (simp add: eval del: estimate_loop.simps)
  also have "\<dots> = estimate_loop 38 ?run 48050 51037"
    using step [of 48050 54025 51037 38] by (simp add: eval del: estimate_loop.simps)
  also have "\<dots> = estimate_loop 37 ?run 49543 51037"
    using step [of 48050 51037 49543 37] by (simp add: eval del: estimate_loop.simps)
  also have "\<dots> = estimate_loop 36 ?run 49543 50290"
    using step [of 49543 51037 50290 36] by (simp add: eval del: estimate_loop.simps)
  also have "\<dots> = Ret (Inr 50290)" by (rule estimate_loop_done) (simp add: eval)
  finally have loop: "estimate_loop 40 ?run 48050 60000 = Ret (Inr 50290)" by simp
  show ?thesis
    unfolding EstimateGas_passing [OF hl]
    by (simp add: demo_dry_run blockGasLimit_def run_result_def estimate_search_def CallStipend_def loop)
qed

lemma EstimateGas_correct_witness:
  "EVM_EstimateGas 40 demo_codec demo_evm demo_args 3 7 None None = Ret (Inr 50290)
   \<and> good_limit (dry_run demo_evm demo_args 3 7 None None) 50290"
proof -
  have "must_from_big_ok (evMustFromBig demo_evm)" "dry_call_ok (evViews demo_evm)"
    using big256_ok demo_views_ok by (simp_all add: demo_evm_def)
  from EstimateGas_correct [OF this, of 40 demo_codec demo_args 3 7 None None] demo_estimate show ?thesis by simp
qed

definition demo_token :: "address \<Rightarrow> nat \<Rightarrow> (err + bool) \<times> nat" where
  "demo_token a n = (if n = 0 then (Inr False, 0) else (Inr True, n - 1))"

definition demo_pool :: "gethTx \<Rightarrow> gethTx list \<Rightarrow> err option \<times> gethTx list" where
  "demo_pool tx txs = (None, txs @ [tx])"

lemma SendRawTransaction_admission_witness:
  "SendRawTransaction receipts_codec demo_evm demo_token demo_pool [0] (1, []) = (Inr 17, 0, [demo_tx_call])
   \<and> admissible receipts_codec demo_evm demo_tx_call 17"
proof -
  have dec: "geth_UnmarshalBinary receipts_codec [0] = Inr demo_tx_call"
    by (simp add: receipts_codec_def ref_codec_def decode_in_def)
  have send: "SendRawTransaction receipts_codec demo_evm demo_token demo_pool [0] (1, []) = (Inr 17, 0, [demo_tx_call])"
    by (simp add: SendRawTransaction_def dec)
       (simp add: ValidateTransaction_def DeriveTxSender_def demo_tx_call_def receipts_codec_def ref_codec_def demo_evm_def
        demo_token_def demo_pool_def validateTransactionWithState_def getBlockView_def demo_views_def)
  obtain sender where "admissible receipts_codec demo_evm demo_tx_call sender"
    using SendRawTransaction_admission [OF send] dec by auto
  moreover from this have "sender = 17"
    by (simp add: admissible_def DeriveTxSender_def receipts_codec_def ref_codec_def demo_tx_call_def)
  ultimately show ?thesis using send by simp
qed

end
