(* ===== verification/Api_Utils.thy ===== *)
theory Api_Utils
  imports Evm_Requester Logs_Filter
begin

text \<open>
  What the JSON-RPC endpoints share: the indexes they read, block tags, hexadecimal storage keys and
  the handling of errors (\<^verbatim>\<open>api/utils.go\<close>), and the limit of requests (\<^verbatim>\<open>api/rate_limiter.go\<close>).
\<close>

section \<open>The indexes\<close>

text \<open>
  The methods of \<^verbatim>\<open>storage.BlockIndexer\<close>, \<^verbatim>\<open>ReceiptIndexer\<close> and \<^verbatim>\<open>TransactionIndexer\<close> that the
  endpoints call, at one state of the database.
\<close>

record storage_api =
  st_LatestEVMHeight :: "err + u64"
  st_GetByHeight :: "u64 \<Rightarrow> err + Block"
  st_GetByID :: "hash \<Rightarrow> err + Block"
  st_GetHeightByID :: "hash \<Rightarrow> err + u64"
  st_GetByBlockHeight :: "u64 \<Rightarrow> err + Receipt list"
  st_GetByTransactionID :: "hash \<Rightarrow> err + Receipt"
  st_BloomsForBlockRange :: "u64 \<Rightarrow> u64 \<Rightarrow> err + BloomsHeight list"
  st_GetTransaction :: "hash \<Rightarrow> (err + Transaction) exec"

definition pebble_storage :: "('db, 'batch) pebble_api \<Rightarrow> 'ev codec \<Rightarrow> Blocks \<Rightarrow> 'db \<Rightarrow> storage_api" where
  "pebble_storage P c b d =
     \<lparr>st_LatestEVMHeight = LatestEVMHeight P d, st_GetByHeight = GetByHeight P c b d, st_GetByID = GetByID P c b d,
      st_GetHeightByID = GetHeightByID P d, st_GetByBlockHeight = GetByBlockHeight P c d,
      st_GetByTransactionID = GetByTransactionID P c d, st_BloomsForBlockRange = BloomsForBlockRange P c d,
      st_GetTransaction = Transactions_Get P c d\<rparr>"

section \<open>Requests\<close>

text \<open>
  \<open>Apply\<close> of the rate limiter: a caller without an address is not limited, \<open>takeToken\<close> is the
  limiter's answer for the address.
\<close>

definition Apply :: "string \<Rightarrow> (string \<Rightarrow> err + bool) \<Rightarrow> err option" where
  "Apply remote takeToken =
     (if remote = [] then None
      else case takeToken remote of
        Inl e \<Rightarrow> Some (Errorf ''failed to check rate limit: %w'' [] [e])
      | Inr ok \<Rightarrow> if \<not> ok then Some ErrRateLimit else None)"

text \<open>A block tag: the number of \<^verbatim>\<open>rpc.BlockNumberOrHash\<close> if it has one, else its hash.\<close>

datatype block_tag = TagNumber "64 word" | TagHash hash | TagNone

definition resolveBlockNumber :: "64 word \<Rightarrow> storage_api \<Rightarrow> err + u64" where
  "resolveBlockNumber blockNumber S =
     (if sint blockNumber = EarliestBlockNumber then Inr 0
      else if sint blockNumber \<in> {SafeBlockNumber, FinalizedBlockNumber, LatestBlockNumber, PendingBlockNumber}
      then st_LatestEVMHeight S
      else Inr blockNumber)"

definition resolveBlockTag :: "block_tag option \<Rightarrow> storage_api \<Rightarrow> err + u64" where
  "resolveBlockTag blockNumberOrHash S = (case blockNumberOrHash of
      None \<Rightarrow> Inl (Errorf ''%w: neither block number nor hash specified'' [] [ErrInvalid])
    | Some (TagNumber number) \<Rightarrow> resolveBlockNumber number S
    | Some (TagHash hsh) \<Rightarrow> st_GetHeightByID S hsh
    | Some TagNone \<Rightarrow> Inl (Errorf ''%w: neither block number nor hash specified'' [] [ErrInvalid]))"

section \<open>Hexadecimal keys\<close>

text \<open>\<^verbatim>\<open>hex.DecodeString\<close> of the standard library, on strings of even length.\<close>

definition hex_digit :: "char \<Rightarrow> nat option" where
  "hex_digit ch =
     (let n = of_char ch :: nat in
      if 48 \<le> n \<and> n \<le> 57 then Some (n - 48)
      else if 97 \<le> n \<and> n \<le> 102 then Some (n - 87)
      else if 65 \<le> n \<and> n \<le> 70 then Some (n - 55)
      else None)"

fun DecodeString :: "string \<Rightarrow> err + bytes" where
  "DecodeString [] = Inr []"
| "DecodeString [ch] = Inl (New_err ''encoding/hex: odd length hex string'')"
| "DecodeString (a # b # s) = (case (hex_digit a, hex_digit b) of
      (Some x, Some y) \<Rightarrow> rbind (DecodeString s) (\<lambda>bs. Inr (of_nat (16 * x + y) # bs))
    | _ \<Rightarrow> Inl (New_err ''encoding/hex: invalid byte''))"

definition decodeHash :: "string \<Rightarrow> err + hash" where
  "decodeHash s0 =
     (let s1 = (if take 2 s0 = ''0x'' \<or> take 2 s0 = ''0X'' then drop 2 s0 else s0);
          s = (if odd (length s1) then CHR ''0'' # s1 else s1)
      in case DecodeString s of
           Inl _ \<Rightarrow> Inl (Errorf ''invalid hex string: %s'' [FStr s] [])
         | Inr b \<Rightarrow>
             if length b > 32
             then Inl (Errorf ''hex string too long, want at most 32 bytes, have %d bytes'' [FNum (length b)] [])
             else Inr (of_nat (unbe b)))"

section \<open>Errors of an endpoint\<close>

text \<open>\<^verbatim>\<open>errors.As(err, &revertedErr)\<close>: the first reverted error in depth-first order.\<close>

fun as_revert :: "err \<Rightarrow> err option" and as_revert_first :: "err list \<Rightarrow> err option" where
  "as_revert (RevertError e d) = Some (RevertError e d)"
| "as_revert (Errorf _ _ es) = as_revert_first es"
| "as_revert _ = None"
| "as_revert_first [] = None"
| "as_revert_first (e # es) = (case as_revert e of Some r \<Rightarrow> Some r | None \<Rightarrow> as_revert_first es)"

definition gethErrNonceTooHigh :: err where "gethErrNonceTooHigh = New_err ''nonce too high''"

text \<open>\<open>zero\<close> is the zero value of the endpoint's result type; the default case also counts the error.\<close>

definition handleError :: "'a \<Rightarrow> err \<Rightarrow> err + 'a" where
  "handleError zero e =
     (if errors_Is e ErrEntityNotFound then Inr zero
      else if errors_Is e ErrInvalid then Inl e
      else if errors_Is e ErrFailedTransaction then Inl e
      else case as_revert e of
        Some r \<Rightarrow> Inl r
      | None \<Rightarrow>
          if errors_Is e gethErrNonceTooLow then Inl e
          else if errors_Is e gethErrNonceTooHigh then Inl e
          else if errors_Is e gethErrInsufficientFunds then Inl e
          else if errors_Is e ErrRateLimit then Inl e
          else Inl e)"

text \<open>An endpoint's body with its errors handled.\<close>

definition handled :: "'a \<Rightarrow> err + 'a \<Rightarrow> err + 'a" where
  "handled zero m = (case m of Inl e \<Rightarrow> handleError zero e | Inr x \<Rightarrow> Inr x)"

lemma handleError_cases:
  "handleError zero e = Inr x \<longleftrightarrow> errors_Is e ErrEntityNotFound \<and> x = zero"
  by (auto simp: handleError_def split: option.splits)

section \<open>Properties\<close>

fun hex_string :: "bytes \<Rightarrow> string" where
  "hex_string [] = []"
| "hex_string (b # bs) = (let d = (\<lambda>n. if n < 10 then char_of (n + 48) else char_of (n + 87 :: nat)) in
     d (unat b div 16) # d (unat b mod 16) # hex_string bs)"

lemma hex_digit_char: "n < 16 \<Longrightarrow> hex_digit (if n < 10 then char_of (n + 48) else char_of (n + 87 :: nat)) = Some n"
  by (auto simp: hex_digit_def Let_def of_char_of)

lemma DecodeString_hex: "DecodeString (hex_string bs) = Inr bs"
proof (induction bs)
  case (Cons b bs)
  have "unat b < 256" using unsigned_less [of b] by simp
  then have "unat b div 16 < 16" "unat b mod 16 < 16" by auto
  note hd = hex_digit_char [OF this(1)] hex_digit_char [OF this(2)]
  have "16 * (unat b div 16) + unat b mod 16 = unat b" by simp
  with Cons hd show ?case by (simp add: Let_def del: of_nat_add of_nat_mult)
qed simp

lemma length_hex_string: "length (hex_string bs) = 2 * length bs"
  by (induction bs) (auto simp: Let_def)

text \<open>Storage keys are read back: the hexadecimal form of the bytes of a hash, with the prefix and of
  any length up to 32 bytes, decodes to the number the bytes are.\<close>

theorem decodeHash_roundtrip:
  assumes "length bs \<le> 32"
  shows "decodeHash (''0x'' @ hex_string bs) = Inr (of_nat (unbe bs))"
  using assms by (simp add: decodeHash_def Let_def length_hex_string DecodeString_hex)

lemma decodeHash_roundtrip_witness: "decodeHash ''0x01ff'' = Inr 511"
proof -
  have "hex_string [1, 255] = ''01ff''" by code_simp
  with decodeHash_roundtrip [of "[1, 255]"] show ?thesis by simp
qed

end
