(* ===== verification/Pull_Api.thy ===== *)
theory Pull_Api
  imports Api_Utils
begin

text \<open>
  The filters that clients poll, \<^verbatim>\<open>api/pull.go\<close>.  A filter remembers the next height it has not
  delivered; each operation below is one critical section of the map of filters, but for the tick of the
  expiry checker, which the code runs without the mutex.  The clock, fresh
  identifiers and the answer of the rate limiter are arguments.
\<close>

section \<open>Filters\<close>

definition maxFilters :: nat where "maxFilters = 10000"

datatype filter_kind = blocksFilter | transactionsFilter bool | logsFilter FilterCriteria

record api_filter =
  nextHeight :: u64
  rpcID :: string
  used :: time
  expiry :: duration
  kind :: filter_kind

definition newBaseFilter :: "duration \<Rightarrow> u64 \<Rightarrow> string \<Rightarrow> time \<Rightarrow> filter_kind \<Rightarrow> api_filter" where
  "newBaseFilter exp0 currentHeight ID now k =
     \<lparr>nextHeight = currentHeight + 1, rpcID = ID, used = now, expiry = (if exp0 = 0 then 5 * Minute else exp0), kind = k\<rparr>"

definition updateUsed :: "u64 \<Rightarrow> time \<Rightarrow> api_filter \<Rightarrow> api_filter" where
  "updateUsed currentHeight now f = f\<lparr>nextHeight := currentHeight + 1, used := now\<rparr>"

definition expired :: "time \<Rightarrow> api_filter \<Rightarrow> bool" where
  "expired now f \<longleftrightarrow> Sub now (used f) > expiry f"

record PullAPI =
  filters :: "(string, api_filter) gomap"

definition NewPullAPI :: PullAPI where
  "NewPullAPI = \<lparr>filters = []\<rparr>"

definition addFilter :: "api_filter \<Rightarrow> PullAPI \<Rightarrow> string \<times> PullAPI" where
  "addFilter f api =
     (if length (filters api) > maxFilters then ([], api)
      else (rpcID f, api\<lparr>filters := AList.update (rpcID f) f (filters api)\<rparr>))"

definition uninstallFilter :: "string \<Rightarrow> PullAPI \<Rightarrow> bool \<times> PullAPI" where
  "uninstallFilter ID api = (case map_of (filters api) ID of
      None \<Rightarrow> (False, api)
    | Some _ \<Rightarrow> (True, api\<lparr>filters := AList.delete ID (filters api)\<rparr>))"

text \<open>
  One tick of the checker: every filter that has expired is uninstalled.  The code holds the mutex only while
  it uninstalls one and reads the map outside of it, which is a data race with the other operations; the
  function is a tick that no other operation interrupts.
\<close>

definition filterExpiryChecker :: "time \<Rightarrow> PullAPI \<Rightarrow> PullAPI" where
  "filterExpiryChecker now api =
     fold (\<lambda>(ID, f) a. if expired now f then snd (uninstallFilter ID a) else a) (filters api) api"

section \<open>New filters\<close>

definition NewPendingTransactionFilter ::
    "err option \<Rightarrow> storage_api \<Rightarrow> duration \<Rightarrow> string \<Rightarrow> time \<Rightarrow> bool option \<Rightarrow> PullAPI \<Rightarrow> (err + string) \<times> PullAPI" where
  "NewPendingTransactionFilter limit S exp0 ID now fullTx api = (case limit of
      Some e \<Rightarrow> (Inl e, api)
    | None \<Rightarrow> (case st_LatestEVMHeight S of
        Inl e \<Rightarrow> (Inl e, api)
      | Inr latest \<Rightarrow>
          let full = (fullTx = Some True);
              (i, api') = addFilter (newBaseFilter exp0 latest ID now (transactionsFilter full)) api
          in (Inr i, api')))"

definition NewBlockFilter ::
    "err option \<Rightarrow> storage_api \<Rightarrow> duration \<Rightarrow> string \<Rightarrow> time \<Rightarrow> PullAPI \<Rightarrow> (err + string) \<times> PullAPI" where
  "NewBlockFilter limit S exp0 ID now api = (case limit of
      Some e \<Rightarrow> (Inl e, api)
    | None \<Rightarrow> (case st_LatestEVMHeight S of
        Inl e \<Rightarrow> (Inl e, api)
      | Inr latest \<Rightarrow>
          let (i, api') = addFilter (newBaseFilter exp0 latest ID now blocksFilter) api in (Inr i, api')))"

text \<open>\<^verbatim>\<open>big.Int.Int64\<close>: the low 64 bits as a signed number.\<close>

definition big_Int64 :: "int \<Rightarrow> int" where
  "big_Int64 x = sint (word_of_int x :: u64)"

definition NewFilter ::
    "err option \<Rightarrow> storage_api \<Rightarrow> duration \<Rightarrow> string \<Rightarrow> time \<Rightarrow> FilterCriteria \<Rightarrow> PullAPI \<Rightarrow> (err + string) \<times> PullAPI" where
  "NewFilter limit S exp0 ID now criteria api = (case limit of
      Some e \<Rightarrow> (Inl e, api)
    | None \<Rightarrow>
       if \<not> ValidCriteriaLimits criteria then (Inl ErrExceedLogQueryLimit, api)
       else (case st_LatestEVMHeight S of
         Inl e \<Rightarrow> (Inl e, api)
       | Inr latest0 \<Rightarrow>
          let add = (\<lambda>latest. let (i, api') = addFilter (newBaseFilter exp0 latest ID now (logsFilter criteria)) api in (Inr i, api'))
          in case fcFromBlock criteria of
               None \<Rightarrow> add latest0
             | Some fromBlock \<Rightarrow>
                if big_Int64 fromBlock \<ge> 0 then
                  (if (case fcToBlock criteria of None \<Rightarrow> False | Some toBlock \<Rightarrow> fromBlock > toBlock \<and> big_Int64 toBlock > 0)
                   then (Inl (Errorf ''from block (%d) must be lower than to block (%d)''
                           [FNum (unat (big_Uint64 fromBlock)), FNum (nat (big_Int64 (the (fcToBlock criteria))))] []), api)
                   else add (big_Uint64 fromBlock))
                else add latest0))"

section \<open>Changes\<close>

text \<open>
  The heights of a loop \<^verbatim>\<open>for i := a; i <= b; i++\<close>; for the largest 64-bit height the loop would not
  end, and no chain reaches it.
\<close>

definition loop_heights :: "u64 \<Rightarrow> u64 \<Rightarrow> u64 list" where
  "loop_heights a b = map of_nat [unat a..<Suc (unat b)]"

definition getBlocks :: "'ev codec \<Rightarrow> storage_api \<Rightarrow> u64 \<Rightarrow> api_filter \<Rightarrow> err + hash list" where
  "getBlocks c S latestHeight f =
     rfold (\<lambda>i hashes. rbind (st_GetByHeight S i) (\<lambda>b.
         Inr (case Hash c b of Inl _ \<Rightarrow> hashes | Inr h \<Rightarrow> hashes @ [h])))
       (loop_heights (nextHeight f) latestHeight) []"

datatype filter_result = Hashes "hash list" | Txs "eth_Transaction list" | LogsResult "Log list" | NilResult

text \<open>The transactions of the receipts of one block, with what was gathered before.\<close>

fun add_transactions ::
    "'ev codec \<Rightarrow> geth_ext \<Rightarrow> storage_api \<Rightarrow> Receipt list \<Rightarrow> eth_Transaction list \<times> hash list
      \<Rightarrow> (err + (eth_Transaction list \<times> hash list)) exec" where
  "add_transactions c X S [] acc = Ret (Inr acc)"
| "add_transactions c X S (receipt # rs) acc =
     ebind (st_GetTransaction S (rTxHash receipt)) (\<lambda>r. case r of
       Inl e \<Rightarrow> Ret (Inl e)
     | Inr tx \<Rightarrow>
        (case NewTransactionResult c X tx receipt of
           Inl e \<Rightarrow> Ret (Inl e)
         | Inr txResult \<Rightarrow> add_transactions c X S rs (fst acc @ [txResult], snd acc @ [tx_Hash tx])))"

fun transactions_loop ::
    "'ev codec \<Rightarrow> geth_ext \<Rightarrow> storage_api \<Rightarrow> bool \<Rightarrow> u64 list \<Rightarrow> eth_Transaction list \<times> hash list \<Rightarrow> (err + filter_result) exec" where
  "transactions_loop c X S fullTx [] acc = Ret (Inr (if fullTx then Txs (fst acc) else Hashes (snd acc)))"
| "transactions_loop c X S fullTx (i # is) acc = (case st_GetByHeight S i of
      Inl e \<Rightarrow> Ret (if errors_Is e ErrEntityNotFound then Inr NilResult else Inl e)
    | Inr b \<Rightarrow> (case st_GetByBlockHeight S (Height (evmBlock b)) of
        Inl e \<Rightarrow> Ret (Inl e)
      | Inr receipts \<Rightarrow> ebind (add_transactions c X S receipts acc) (\<lambda>r. case r of
          Inl e \<Rightarrow> Ret (Inl e)
        | Inr acc' \<Rightarrow> transactions_loop c X S fullTx is acc')))"

definition getTransactions ::
    "'ev codec \<Rightarrow> geth_ext \<Rightarrow> storage_api \<Rightarrow> u64 \<Rightarrow> bool \<Rightarrow> api_filter \<Rightarrow> (err + filter_result) exec" where
  "getTransactions c X S latestHeight fullTx f =
     transactions_loop c X S fullTx (loop_heights (nextHeight f) latestHeight) ([], [])"

definition getLogs ::
    "(bloom \<Rightarrow> bytes \<Rightarrow> bool) \<Rightarrow> storage_api \<Rightarrow> u64 \<Rightarrow> FilterCriteria \<Rightarrow> api_filter \<Rightarrow> err + Log list" where
  "getLogs BloomLookup S latestHeight criteria f =
     (let search = (\<lambda>end.
        if nextHeight f > end then Inr []
        else rbind (rwrap (\<lambda>e. Errorf ''could not create range filter from %d to %d: %w''
                       [FNum (unat (nextHeight f)), FNum (unat end)] [e])
                 (NewRangeFilter (nextHeight f) end criteria))
               (RangeFilter_Match (st_BloomsForBlockRange S) (st_GetByBlockHeight S) BloomLookup))
      in case fcToBlock criteria of
           None \<Rightarrow> search latestHeight
         | Some to \<Rightarrow>
            if big_Int64 to \<ge> 0 then
              (if latestHeight > big_Uint64 to then Inr [] else search (big_Uint64 to))
            else search latestHeight)"

definition GetFilterLogs ::
    "err option \<Rightarrow> (bloom \<Rightarrow> bytes \<Rightarrow> bool) \<Rightarrow> storage_api \<Rightarrow> string \<Rightarrow> time \<Rightarrow> PullAPI \<Rightarrow> (err + Log list) \<times> PullAPI" where
  "GetFilterLogs limit BloomLookup S ID now api = (case limit of
      Some e \<Rightarrow> (Inl e, api)
    | None \<Rightarrow> (case map_of (filters api) ID of
        None \<Rightarrow> (Inl (Errorf ''filter by id %s does not exist'' [FStr ID] []), api)
      | Some f \<Rightarrow>
         if expired now f
         then (Inl (Errorf ''filter by id %s has expired'' [FStr ID] []), snd (uninstallFilter ID api))
         else (case kind f of
            logsFilter criteria \<Rightarrow>
              (rbind (st_LatestEVMHeight S) (\<lambda>current. getLogs BloomLookup S current criteria f), api)
          | _ \<Rightarrow> (Inl (Errorf ''%w: filter by id %s is not a logs filter'' [FStr ID] [ErrInvalid]), api))))"

text \<open>What a poll returns for a filter at the height \<open>current\<close>.\<close>

definition filter_changes ::
    "'ev codec \<Rightarrow> geth_ext \<Rightarrow> (bloom \<Rightarrow> bytes \<Rightarrow> bool) \<Rightarrow> storage_api \<Rightarrow> u64 \<Rightarrow> api_filter \<Rightarrow> (err + filter_result) exec" where
  "filter_changes c X BloomLookup S current f = (case kind f of
      blocksFilter \<Rightarrow> Ret (rbind (getBlocks c S current f) (\<lambda>hs. Inr (Hashes hs)))
    | transactionsFilter fullTx \<Rightarrow> getTransactions c X S current fullTx f
    | logsFilter criteria \<Rightarrow> Ret (rbind (getLogs BloomLookup S current criteria f) (\<lambda>ls. Inr (LogsResult ls))))"

definition GetFilterChanges ::
    "err option \<Rightarrow> 'ev codec \<Rightarrow> geth_ext \<Rightarrow> (bloom \<Rightarrow> bytes \<Rightarrow> bool) \<Rightarrow> storage_api \<Rightarrow> string \<Rightarrow> time \<Rightarrow> PullAPI
      \<Rightarrow> ((err + filter_result) \<times> PullAPI) exec" where
  "GetFilterChanges limit c X BloomLookup S ID now api = (case limit of
      Some e \<Rightarrow> Ret (Inl e, api)
    | None \<Rightarrow> (case map_of (filters api) ID of
        None \<Rightarrow> Ret (Inl (Errorf ''filter by id %s does not exist'' [FStr ID] []), api)
      | Some f \<Rightarrow> (case st_LatestEVMHeight S of
          Inl e \<Rightarrow> Ret (Inl e, api)
        | Inr current \<Rightarrow>
           if expired now f
           then Ret (Inl (Errorf ''filter by id %s has expired'' [FStr ID] []), snd (uninstallFilter ID api))
           else ebind (filter_changes c X BloomLookup S current f) (\<lambda>r. case r of
              Inl e \<Rightarrow> Ret (Inl e, api)
            | Inr result \<Rightarrow> Ret (Inr result, api\<lparr>filters := AList.update ID (updateUsed current now f) (filters api)\<rparr>)))))"

section \<open>The interface under use\<close>

text \<open>The operations of the interface, by any client and at any time.\<close>

inductive api_step ::
    "'ev codec \<Rightarrow> geth_ext \<Rightarrow> (bloom \<Rightarrow> bytes \<Rightarrow> bool) \<Rightarrow> PullAPI \<Rightarrow> PullAPI \<Rightarrow> bool"
  for c X L where
  new_block: "NewBlockFilter limit S ex ID now api = (r, api') \<Longrightarrow> api_step c X L api api'"
| new_pending: "NewPendingTransactionFilter limit S ex ID now full api = (r, api') \<Longrightarrow> api_step c X L api api'"
| new_logs: "NewFilter limit S ex ID now criteria api = (r, api') \<Longrightarrow> api_step c X L api api'"
| uninstall: "uninstallFilter ID api = (ok, api') \<Longrightarrow> api_step c X L api api'"
| tick: "api_step c X L api (filterExpiryChecker now api)"
| get_logs: "GetFilterLogs limit L S ID now api = (r, api') \<Longrightarrow> api_step c X L api api'"
| get_changes: "GetFilterChanges limit c X L S ID now api = Ret (r, api') \<Longrightarrow> api_step c X L api api'"

definition filters_ok :: "PullAPI \<Rightarrow> bool" where
  "filters_ok api \<longleftrightarrow> wf_map (filters api) \<and> length (filters api) \<le> Suc maxFilters
     \<and> (\<forall>(i, f) \<in> set (filters api). rpcID f = i)"

lemma filters_ok_addFilter: "filters_ok api \<Longrightarrow> filters_ok (snd (addFilter f api))"
  using set_update_sub [of "rpcID f" f "filters api"] length_update [of "rpcID f" f "filters api"]
  by (auto simp: filters_ok_def addFilter_def split: if_splits option.splits)

lemma length_AList_delete: "length (AList.delete i m) \<le> length m"
  by (simp add: AList.delete_eq)

lemma filters_ok_uninstall: "filters_ok api \<Longrightarrow> filters_ok (snd (uninstallFilter ID api))"
  using set_delete_sub [of ID "filters api"]
  by (auto simp: filters_ok_def uninstallFilter_def split: option.splits intro: order_trans [OF length_AList_delete])

lemma filters_ok_tick: "filters_ok api \<Longrightarrow> filters_ok (filterExpiryChecker now api)"
proof -
  have "filters_ok a \<Longrightarrow> filters_ok (fold (\<lambda>(ID, f) a. if expired now f then snd (uninstallFilter ID a) else a) fs a)" for a fs
    by (induction fs arbitrary: a) (auto simp: filters_ok_uninstall)
  then show "filters_ok api \<Longrightarrow> ?thesis" by (simp add: filterExpiryChecker_def)
qed

lemma filters_ok_used:
  assumes "filters_ok api" "map_of (filters api) ID = Some f"
  shows "filters_ok (api\<lparr>filters := AList.update ID (updateUsed h now f) (filters api)\<rparr>)"
proof -
  have m: "(ID, f) \<in> set (filters api)" using assms(2) by (rule lookup_in_set)
  have "length (AList.update ID (updateUsed h now f) (filters api)) = length (filters api)"
    using assms(2) by (simp add: length_update)
  moreover have "rpcID f = ID" using m assms(1) by (auto simp: filters_ok_def)
  ultimately show ?thesis
    using assms(1) set_update_sub [of ID "updateUsed h now f" "filters api"]
    by (fastforce simp: filters_ok_def updateUsed_def)
qed

lemma api_step_ok: "api_step c X L api api' \<Longrightarrow> filters_ok api \<Longrightarrow> filters_ok api'"
proof (induction rule: api_step.induct)
  case (new_block limit S ex ID now api r api')
  then show ?case using filters_ok_addFilter [of api]
    by (auto simp: NewBlockFilter_def split: option.splits sum.splits prod.splits) (metis snd_conv)+
next
  case (new_pending limit S ex ID now full api r api')
  then show ?case using filters_ok_addFilter [of api]
    by (auto simp: NewPendingTransactionFilter_def Let_def split: option.splits sum.splits prod.splits) (metis snd_conv)+
next
  case (new_logs limit S ex ID now criteria api r api')
  then show ?case using filters_ok_addFilter [of api]
    by (auto simp: NewFilter_def Let_def split: option.splits sum.splits prod.splits if_splits) (metis snd_conv)+
next
  case (uninstall ID api ok api')
  then show ?case using filters_ok_uninstall by (metis snd_conv)
next
  case (tick api now)
  then show ?case by (rule filters_ok_tick)
next
  case (get_logs limit S ID now api r api')
  then show ?case
    by (auto simp: GetFilterLogs_def filters_ok_uninstall split: option.splits if_splits filter_kind.splits)
next
  case (get_changes limit S ID now api r api')
  show ?case
  proof (cases "api' = api \<or> api' = snd (uninstallFilter ID api)")
    case True
    with get_changes.prems show ?thesis by (auto simp: filters_ok_uninstall)
  next
    case False
    with get_changes.hyps obtain f current where f: "map_of (filters api) ID = Some f"
      and run: "ebind (filter_changes c X L S current f) (\<lambda>r. case r of
              Inl e \<Rightarrow> Ret (Inl e, api)
            | Inr result \<Rightarrow> Ret (Inr result, api\<lparr>filters := AList.update ID (updateUsed current now f) (filters api)\<rparr>)) = Ret (r, api')"
      by (auto simp: GetFilterChanges_def split: option.splits sum.splits if_splits)
    from run False have "api' = api\<lparr>filters := AList.update ID (updateUsed current now f) (filters api)\<rparr>"
      by (cases "filter_changes c X L S current f") (auto split: sum.splits)
    with get_changes.prems f show ?thesis by (auto intro: filters_ok_used)
  qed
qed

lemma api_reach_ok:
  assumes "(api_step c X L)\<^sup>*\<^sup>* NewPullAPI api"
  shows "filters_ok api"
  using assms
proof (induction rule: rtranclp_induct)
  case base
  show ?case by (simp add: filters_ok_def NewPullAPI_def)
qed (rule api_step_ok)

text \<open>
  The same operations as values.  A request whose handler panics leaves the map as it is: the RPC server
  recovers it and the deferred unlock runs.
\<close>

datatype api_op =
  OpNewBlock "err option" storage_api duration string time
  | OpNewPending "err option" storage_api duration string time "bool option"
  | OpNewLogs "err option" storage_api duration string time FilterCriteria
  | OpUninstall string
  | OpTick time
  | OpLogs "err option" storage_api string time
  | OpChanges "err option" storage_api string time

fun api_run :: "'ev codec \<Rightarrow> geth_ext \<Rightarrow> (bloom \<Rightarrow> bytes \<Rightarrow> bool) \<Rightarrow> api_op \<Rightarrow> PullAPI \<Rightarrow> PullAPI" where
  "api_run c X L (OpNewBlock limit S ex ID now) api = snd (NewBlockFilter limit S ex ID now api)"
| "api_run c X L (OpNewPending limit S ex ID now full) api = snd (NewPendingTransactionFilter limit S ex ID now full api)"
| "api_run c X L (OpNewLogs limit S ex ID now criteria) api = snd (NewFilter limit S ex ID now criteria api)"
| "api_run c X L (OpUninstall ID) api = snd (uninstallFilter ID api)"
| "api_run c X L (OpTick now) api = filterExpiryChecker now api"
| "api_run c X L (OpLogs limit S ID now) api = snd (GetFilterLogs limit L S ID now api)"
| "api_run c X L (OpChanges limit S ID now) api = (case GetFilterChanges limit c X L S ID now api of
      Ret (r, api') \<Rightarrow> api' | _ \<Rightarrow> api)"

lemma api_run_step: "api_run c X L op api = api \<or> api_step c X L api (api_run c X L op api)"
proof (cases op)
  case (OpChanges limit S ID now)
  then show ?thesis by (auto intro: api_step.get_changes split: exec.splits)
qed (auto intro: api_step.intros prod.collapse [symmetric])

lemma api_run_ok: "filters_ok api \<Longrightarrow> filters_ok (api_run c X L op api)"
  using api_run_step [of c X L op api] api_step_ok by metis

text \<open>
  An operation that does not concern the filter \<open>ID\<close>, last used at \<open>t\<close>: it is about another identifier, or a
  tick of the checker or a request for all logs before the filter has expired.
\<close>

fun op_elsewhere :: "string \<Rightarrow> duration \<Rightarrow> time \<Rightarrow> api_op \<Rightarrow> bool" where
  "op_elsewhere ID ex t (OpNewBlock _ _ _ i _) \<longleftrightarrow> i \<noteq> ID"
| "op_elsewhere ID ex t (OpNewPending _ _ _ i _ _) \<longleftrightarrow> i \<noteq> ID"
| "op_elsewhere ID ex t (OpNewLogs _ _ _ i _ _) \<longleftrightarrow> i \<noteq> ID"
| "op_elsewhere ID ex t (OpUninstall i) \<longleftrightarrow> i \<noteq> ID"
| "op_elsewhere ID ex t (OpTick now) \<longleftrightarrow> Sub now t \<le> ex"
| "op_elsewhere ID ex t (OpLogs _ _ i now) \<longleftrightarrow> i \<noteq> ID \<or> Sub now t \<le> ex"
| "op_elsewhere ID ex t (OpChanges _ _ i _) \<longleftrightarrow> i \<noteq> ID"

lemma addFilter_other: "rpcID f \<noteq> ID \<Longrightarrow> map_of (filters (snd (addFilter f api))) ID = map_of (filters api) ID"
  by (simp add: addFilter_def update_conv')

lemma uninstallFilter_other: "i \<noteq> ID \<Longrightarrow> map_of (filters (snd (uninstallFilter i api))) ID = map_of (filters api) ID"
  by (simp add: uninstallFilter_def delete_conv' split: option.split)

lemma tick_keeps:
  assumes "filters_ok api" and "map_of (filters api) ID = Some f" and "\<not> expired now f"
  shows "map_of (filters (filterExpiryChecker now api)) ID = Some f"
proof -
  have keep: "map_of (filters (fold (\<lambda>(ID, f) a. if expired now f then snd (uninstallFilter ID a) else a) fs a)) ID = map_of (filters a) ID"
    if "\<And>f'. (ID, f') \<in> set fs \<Longrightarrow> \<not> expired now f'" for fs a
    using that
  proof (induction fs arbitrary: a)
    case (Cons x fs)
    obtain i f' where x: "x = (i, f')" by (cases x)
    have "expired now f' \<Longrightarrow> i \<noteq> ID" using Cons.prems [of f'] x by auto
    with Cons x show ?case by (simp add: uninstallFilter_other)
  qed simp
  have "f' = f" if "(ID, f') \<in> set (filters api)" for f'
    using that assms(1,2) by (simp add: filters_ok_def in_set_iff_lookup)
  then have "\<not> expired now f'" if "(ID, f') \<in> set (filters api)" for f' using that assms(3) by blast
  from keep [of "filters api" api, OF this] show ?thesis using assms(2) by (simp add: filterExpiryChecker_def)
qed

lemma changes_other:
  assumes "GetFilterChanges limit c X L S i now api = Ret (r, api')" and "i \<noteq> ID"
  shows "map_of (filters api') ID = map_of (filters api) ID"
proof (cases "api' = api \<or> api' = snd (uninstallFilter i api)")
  case True
  then show ?thesis using assms(2) uninstallFilter_other by blast
next
  case False
  with assms(1) obtain f current where run: "ebind (filter_changes c X L S current f) (\<lambda>r. case r of
              Inl e \<Rightarrow> Ret (Inl e, api)
            | Inr result \<Rightarrow> Ret (Inr result, api\<lparr>filters := AList.update i (updateUsed current now f) (filters api)\<rparr>)) = Ret (r, api')"
    by (auto simp: GetFilterChanges_def split: option.splits sum.splits if_splits)
  from run False have "api' = api\<lparr>filters := AList.update i (updateUsed current now f) (filters api)\<rparr>"
    by (cases "filter_changes c X L S current f") (auto split: sum.splits)
  with assms(2) show ?thesis by (simp add: update_conv')
qed

text \<open>Whatever others do, a filter stays what it is until it expires.\<close>

lemma api_run_keeps:
  assumes "filters_ok api" and f: "map_of (filters api) ID = Some f" and "op_elsewhere ID (expiry f) (used f) op"
  shows "map_of (filters (api_run c X L op api)) ID = Some f"
proof (cases op)
  case (OpTick now)
  with assms show ?thesis by (simp add: tick_keeps expired_def)
next
  case (OpChanges limit S i now)
  with assms changes_other [of limit c X L S i now api] show ?thesis by (auto split: exec.splits)
next
  case (OpLogs limit S i now)
  with assms show ?thesis
    by (cases "i = ID") (auto simp: GetFilterLogs_def expired_def uninstallFilter_other split: option.splits filter_kind.splits)
qed (use assms addFilter_other uninstallFilter_other in
    \<open>auto simp: NewBlockFilter_def NewPendingTransactionFilter_def NewFilter_def newBaseFilter_def Let_def
       split: option.splits sum.splits prod.splits, (metis snd_conv api_filter.select_convs(2))+\<close>)

section \<open>Polling\<close>

text \<open>
  A client polls its filter again and again.  Before each poll other clients may have used the
  interface: a poll has the operations that ran since the last one.
\<close>

type_synonym poll = "storage_api \<times> time \<times> api_op list"

fun polls ::
    "'ev codec \<Rightarrow> geth_ext \<Rightarrow> (bloom \<Rightarrow> bytes \<Rightarrow> bool) \<Rightarrow> string \<Rightarrow> poll list \<Rightarrow> PullAPI
      \<Rightarrow> ((err + filter_result) list \<times> PullAPI) exec" where
  "polls c X L ID [] api = Ret ([], api)"
| "polls c X L ID ((S, now, others) # ps) api =
     ebind (GetFilterChanges None c X L S ID now (fold (api_run c X L) others api)) (\<lambda>(r, api').
     ebind (polls c X L ID ps api') (\<lambda>(rs, api''). Ret (r # rs, api'')))"

text \<open>
  Polls of a growing chain: each is in time, no other operation in between is about this filter, and the
  index at its time serves a height not below the last one.
\<close>

fun polls_ok :: "(storage_api \<Rightarrow> u64 \<Rightarrow> bool) \<Rightarrow> string \<Rightarrow> duration \<Rightarrow> u64 \<Rightarrow> time \<Rightarrow> poll list \<Rightarrow> u64 \<Rightarrow> bool" where
  "polls_ok serves ID ex l t [] m \<longleftrightarrow> m = l"
| "polls_ok serves ID ex l t ((S, now, others) # ps) m \<longleftrightarrow>
     (\<exists>l'. l \<le> l' \<and> l' \<noteq> - 1 \<and> serves S l' \<and> Sub now t \<le> ex
        \<and> (\<forall>op \<in> set others. op_elsewhere ID ex t op) \<and> polls_ok serves ID ex l' now ps m)"

lemma polls_ok_step:
  assumes "l \<le> l'" "l' \<noteq> - 1" "serves S l'" "Sub now t \<le> ex" "\<forall>op \<in> set others. op_elsewhere ID ex t op"
    "polls_ok serves ID ex l' now ps m"
  shows "polls_ok serves ID ex l t ((S, now, others) # ps) m"
  using assms by auto

lemma others_keep:
  assumes "filters_ok api" and "map_of (filters api) ID = Some f" and "\<forall>op \<in> set others. op_elsewhere ID (expiry f) (used f) op"
  shows "filters_ok (fold (api_run c X L) others api) \<and> map_of (filters (fold (api_run c X L) others api)) ID = Some f"
  using assms
proof (induction others arbitrary: api)
  case (Cons op others)
  then show ?case using api_run_ok [of api c X L op] api_run_keeps [of api ID f op c X L] by simp
qed simp

lemma polls_ok_mono: "polls_ok serves ID ex l t ps m \<Longrightarrow> l \<le> m"
  by (induction ps arbitrary: l t) (fastforce dest: order_trans)+

lemma loop_heights_eq: "l \<noteq> - 1 \<Longrightarrow> loop_heights a l = heights a (l + 1)"
  by (simp add: loop_heights_def heights_def u64_unat_succ)

text \<open>A kind of filter whose polls deliver the items of the heights since the last poll.\<close>

locale polled_filter =
  fixes c :: "'ev codec" and X :: geth_ext and L :: "bloom \<Rightarrow> bytes \<Rightarrow> bool"
    and k :: filter_kind and R :: "'x list \<Rightarrow> filter_result" and item :: "u64 \<Rightarrow> 'x list"
    and serves :: "storage_api \<Rightarrow> u64 \<Rightarrow> bool"
  assumes latest: "serves S l \<Longrightarrow> st_LatestEVMHeight S = Inr l"
    and delivered: "serves S l \<Longrightarrow> l \<noteq> - 1 \<Longrightarrow> kind f = k \<Longrightarrow>
      filter_changes c X L S l f = Ret (Inr (R (concat (map item (heights (nextHeight f) (l + 1))))))"
begin

lemma poll_step:
  assumes "map_of (filters api) ID = Some f" "kind f = k" "serves S l" "l \<noteq> - 1" "\<not> expired now f"
  shows "GetFilterChanges None c X L S ID now api =
    Ret (Inr (R (concat (map item (heights (nextHeight f) (l + 1))))),
         api\<lparr>filters := AList.update ID (updateUsed l now f) (filters api)\<rparr>)"
  using assms latest [OF assms(3)] delivered [OF assms(3,4,2)] by (simp add: GetFilterChanges_def)

lemma polls_complete:
  assumes "map_of (filters api) ID = Some f" "kind f = k" "nextHeight f = l + 1" "l \<noteq> - 1" "filters_ok api"
    and "polls_ok serves ID (expiry f) l (used f) ps m"
  shows "\<exists>xss api'. polls c X L ID ps api = Ret (map (\<lambda>xs. Inr (R xs)) xss, api')
    \<and> concat xss = concat (map item (heights (l + 1) (m + 1)))"
  using assms
proof (induction ps arbitrary: api f l)
  case Nil
  then show ?case by (intro exI [of _ "[]"]) simp
next
  case (Cons p ps)
  obtain S now others where p: "p = (S, now, others)" by (cases p)
  obtain l' where l': "l \<le> l'" "l' \<noteq> - 1" "serves S l'" "Sub now (used f) \<le> expiry f"
    "\<forall>op \<in> set others. op_elsewhere ID (expiry f) (used f) op" "polls_ok serves ID (expiry f) l' now ps m"
    using Cons.prems(6) p by auto
  let ?g = "fold (api_run c X L) others api"
  have keep: "filters_ok ?g" "map_of (filters ?g) ID = Some f" using others_keep [OF Cons.prems(5,1) l'(5)] by blast+
  define api1 where "api1 = ?g\<lparr>filters := AList.update ID (updateUsed l' now f) (filters ?g)\<rparr>"
  have step: "GetFilterChanges None c X L S ID now ?g =
      Ret (Inr (R (concat (map item (heights (l + 1) (l' + 1))))), api1)"
    using poll_step [OF keep(2) Cons.prems(2) l'(3,2)] l'(4) Cons.prems(3) by (simp add: expired_def api1_def)
  have f1: "map_of (filters api1) ID = Some (updateUsed l' now f)" by (simp add: api1_def)
  have ok1: "filters_ok api1" unfolding api1_def by (rule filters_ok_used [OF keep])
  obtain xss api' where rest: "polls c X L ID ps api1 = Ret (map (\<lambda>xs. Inr (R xs)) xss, api')"
    "concat xss = concat (map item (heights (l' + 1) (m + 1)))"
    using Cons.IH [OF f1 _ _ l'(2) ok1] Cons.prems(2) l'(6) by (auto simp: updateUsed_def)
  have "l' \<le> m" using l'(6) by (rule polls_ok_mono)
  have split: "heights (l + 1) (l' + 1) @ heights (l' + 1) (m + 1) = heights (l + 1) (m + 1)" if "m \<noteq> - 1"
    using that Cons.prems(4) l'(1,2) \<open>l' \<le> m\<close>
    by (intro heights_append) (auto simp: word_le_nat_alt u64_unat_succ)
  have "m \<noteq> - 1" using l'(2,6)
  proof (induction ps arbitrary: l' now)
    case (Cons q qs)
    then show ?case by (cases q) auto
  qed simp
  with step rest split show ?case
    by (intro exI [of _ "concat (map item (heights (l + 1) (l' + 1))) # xss"]) (simp add: p flip: split)
qed

end

lemma getBlocks_all:
  assumes "\<And>h. h \<in> set hts \<Longrightarrow> \<exists>b. st_GetByHeight S h = Inr b \<and> Hash c b = Inr (hsh h)"
  shows "rfold (\<lambda>i hashes. rbind (st_GetByHeight S i) (\<lambda>b.
      Inr (case Hash c b of Inl _ \<Rightarrow> hashes | Inr h \<Rightarrow> hashes @ [h]))) hts acc = Inr (acc @ map hsh hts)"
  using assms
proof (induction hts arbitrary: acc)
  case (Cons h hts)
  obtain b where "st_GetByHeight S h = Inr b" "Hash c b = Inr (hsh h)" using Cons.prems by auto
  with Cons show ?case by simp
qed simp

text \<open>An index whose blocks up to the latest height have the hashes \<open>hsh\<close>.\<close>

definition serves_hashes :: "'ev codec \<Rightarrow> (u64 \<Rightarrow> hash) \<Rightarrow> storage_api \<Rightarrow> u64 \<Rightarrow> bool" where
  "serves_hashes c hsh S l \<longleftrightarrow> st_LatestEVMHeight S = Inr l
     \<and> (\<forall>h \<le> l. \<exists>b. st_GetByHeight S h = Inr b \<and> Hash c b = Inr (hsh h))"

interpretation block_polls: polled_filter c X L blocksFilter Hashes "\<lambda>h. [hsh h]" "serves_hashes c hsh"
  for c :: "'ev codec" and X L hsh
proof (unfold_locales, goal_cases)
  case (1 S l)
  then show ?case by (simp add: serves_hashes_def)
next
  case (2 S l f)
  have "\<exists>b. st_GetByHeight S h = Inr b \<and> Hash c b = Inr (hsh h)" if "h \<in> set (heights (nextHeight f) (l + 1))" for h
    using that 2(1,2) by (auto simp: serves_hashes_def in_heights word_less_nat_alt word_le_nat_alt u64_unat_succ)
  from getBlocks_all [of "heights (nextHeight f) (l + 1)" S c hsh "[]", OF this] show ?case
    using 2(2,3) by (simp add: filter_changes_def getBlocks_def loop_heights_eq concat_map_singleton)
qed

text \<open>
  A database with a log index up to the latest height, where the receipts of the heights are \<open>rcpts\<close>.
  The criteria have no last block.
\<close>

definition serves_logs ::
    "('db, 'batch) pebble_api \<Rightarrow> 'ev codec \<Rightarrow> ('db \<Rightarrow> bytes \<rightharpoonup> bytes) \<Rightarrow> ('batch \<Rightarrow> batch_op list) \<Rightarrow> (bloom \<Rightarrow> bytes \<Rightarrow> bool)
      \<Rightarrow> Blocks \<Rightarrow> (u64 \<Rightarrow> Receipt list) \<Rightarrow> FilterCriteria \<Rightarrow> storage_api \<Rightarrow> u64 \<Rightarrow> bool" where
  "serves_logs P c view ops lookup b rcpts criteria S l \<longleftrightarrow>
     fcToBlock criteria = None \<and> ValidCriteriaLimits criteria \<and>
     (\<exists>d. S = pebble_storage P c b d \<and> pebble_ok P view ops \<and> log_index_ok P c view lookup d
        \<and> LatestEVMHeight P d = Inr l \<and> l < - 1 \<and> (\<forall>h \<le> l. GetByBlockHeight P c d h = Inr (rcpts h)))"

interpretation log_polls: polled_filter c X lookup "logsFilter criteria" LogsResult
    "\<lambda>h. matching_logs criteria (rcpts h)" "serves_logs P c view ops lookup b rcpts criteria"
  for c :: "'ev codec" and X lookup criteria rcpts and P :: "('db, 'batch) pebble_api" and view ops b
proof (unfold_locales, goal_cases)
  case (1 S l)
  then show ?case by (auto simp: serves_logs_def pebble_storage_def)
next
  case (2 S l f)
  then obtain d where d: "S = pebble_storage P c b d" "pebble_ok P view ops" "log_index_ok P c view lookup d"
    "LatestEVMHeight P d = Inr l" "l < - 1" "\<And>h. h \<le> l \<Longrightarrow> GetByBlockHeight P c d h = Inr (rcpts h)"
    and crit: "fcToBlock criteria = None" "ValidCriteriaLimits criteria" by (auto simp: serves_logs_def)
  let ?r = "\<lparr>rfStart = nextHeight f, rfEnd = l, rfCriteria = criteria\<rparr>"
  have read: "matching_logs criteria (read_or_nil (GetByBlockHeight P c d h)) = matching_logs criteria (rcpts h)"
    if "h \<in> set (heights (nextHeight f) (l + 1))" for h
  proof -
    have "h \<le> l" using that 2(2) by (auto simp: in_heights word_less_nat_alt word_le_nat_alt u64_unat_succ)
    then show ?thesis using d(6) by (simp add: read_or_nil_def)
  qed
  have "getLogs lookup S l criteria f = Inr (concat (map (\<lambda>h. matching_logs criteria (rcpts h)) (heights (nextHeight f) (l + 1))))"
  proof (cases "nextHeight f > l")
    case True
    have "l + 1 \<le> nextHeight f" using True 2(2) by (simp add: u64_succ_le)
    with True crit show ?thesis by (simp add: getLogs_def)
  next
    case False
    have "RangeFilter_Match (BloomsForBlockRange P c d) (GetByBlockHeight P c d) lookup ?r =
        Inr (concat (map (\<lambda>h. matching_logs criteria (read_or_nil (GetByBlockHeight P c d h))) (heights (nextHeight f) (l + 1))))"
      using pebble_logs.match_exact [where d = d and latest = l and r = ?r and P = P and view = view and ops = ops and c = c and lookup = lookup]
        d(2-5) False 2(2) by simp
    also have "\<dots> = Inr (concat (map (\<lambda>h. matching_logs criteria (rcpts h)) (heights (nextHeight f) (l + 1))))"
      using read by (simp cong: map_cong)
    finally show ?thesis
      using False crit by (simp add: getLogs_def NewRangeFilter_def d(1) pebble_storage_def)
  qed
  then show ?case using 2(3) by (simp add: filter_changes_def)
qed

section \<open>Properties\<close>

text \<open>C15: A client that polls a block filter in time gets every block after the creation of the filter
  exactly once and in order: the hashes of all polls together are those of the heights after the one
  at the creation up to the latest at the last poll, whatever operations on other filters other clients
  run in between, from any state the interface can be in.\<close>

theorem block_filter_complete:
  assumes "(api_step c X L)\<^sup>*\<^sup>* NewPullAPI api"
    and "NewBlockFilter None S0 ex ID now api = (Inr ID, api0)" and "ID \<noteq> []"
    and "st_LatestEVMHeight S0 = Inr l" and "l \<noteq> - 1"
    and "polls_ok (serves_hashes c hsh) ID (if ex = 0 then 5 * Minute else ex) l now ps m"
  shows "\<exists>hss api'. polls c X L ID ps api0 = Ret (map (\<lambda>hs. Inr (Hashes hs)) hss, api')
    \<and> concat hss = map hsh (heights (l + 1) (m + 1))"
proof -
  let ?f = "newBaseFilter ex l ID now blocksFilter"
  have f: "map_of (filters api0) ID = Some ?f"
    using assms(2-4) by (auto simp: NewBlockFilter_def addFilter_def newBaseFilter_def split: if_splits)
  have "filters_ok api0" by (rule api_step_ok [OF new_block [OF assms(2)] api_reach_ok [OF assms(1)]])
  from block_polls.polls_complete [OF f _ _ assms(5) this] assms(6) show ?thesis
    by (auto simp: newBaseFilter_def concat_map_singleton)
qed

text \<open>C16: A client that polls a log filter without a last block, whose first block the chain has reached by
  the first poll, gets every matching log of the following heights exactly once and in order, whatever
  operations on other filters run in between.  The first height is the one after the latest at the
  creation, or the one after the first block of the criteria, so that the first block itself is never
  searched.\<close>

theorem log_filter_complete:
  assumes "(api_step c X lookup)\<^sup>*\<^sup>* NewPullAPI api"
    and "NewFilter None S0 ex ID now criteria api = (Inr ID, api0)" and "ID \<noteq> []"
    and "st_LatestEVMHeight S0 = Inr l0"
    and "start = (case fcFromBlock criteria of Some h \<Rightarrow> if big_Int64 h \<ge> 0 then big_Uint64 h else l0 | None \<Rightarrow> l0)" and "start \<noteq> - 1"
    and "polls_ok (serves_logs P c view ops lookup b rcpts criteria) ID (if ex = 0 then 5 * Minute else ex) start now ps m"
  shows "\<exists>lss api'. polls c X lookup ID ps api0 = Ret (map (\<lambda>ls. Inr (LogsResult ls)) lss, api')
    \<and> concat lss = concat (map (\<lambda>h. matching_logs criteria (rcpts h)) (heights (start + 1) (m + 1)))"
proof -
  let ?f = "newBaseFilter ex start ID now (logsFilter criteria)"
  have f: "map_of (filters api0) ID = Some ?f"
    using assms(2-5) by (auto simp: NewFilter_def addFilter_def newBaseFilter_def Let_def split: if_splits option.splits)
  have k: "kind ?f = logsFilter criteria" "nextHeight ?f = start + 1" by (simp_all add: newBaseFilter_def)
  have ok: "filters_ok api0" by (rule api_step_ok [OF new_logs [OF assms(2)] api_reach_ok [OF assms(1)]])
  have "polls_ok (serves_logs P c view ops lookup b rcpts criteria) ID (expiry ?f) start (used ?f) ps m"
    using assms(7) by (simp add: newBaseFilter_def)
  then show ?thesis by (rule log_polls.polls_complete [OF f k assms(6) ok])
qed

text \<open>
  The first block of a filter is forgotten by a poll before the chain has reached it: the poll is empty, and
  the next one searches from the height after the latest at that time, below the first block.
\<close>

theorem early_poll_forgets_from_block:
  assumes "map_of (filters api) ID = Some f" and "kind f = logsFilter criteria" and "fcToBlock criteria = None"
    and "st_LatestEVMHeight S = Inr l" and "l < nextHeight f" and "\<not> expired now f"
  shows "\<exists>api' f'. GetFilterChanges None c X L S ID now api = Ret (Inr (LogsResult []), api')
    \<and> map_of (filters api') ID = Some f' \<and> nextHeight f' = l + 1"
  using assms by (simp add: GetFilterChanges_def filter_changes_def getLogs_def updateUsed_def)

text \<open>A log filter with a last block delivers only at that block: while the chain is behind it a poll
  fails as an invalid range, and once the chain is past it every poll is empty.\<close>

theorem log_filter_with_last_block:
  assumes "fcToBlock criteria = Some t" and "0 \<le> t" and "t < 2 ^ 63" and "ValidCriteriaLimits criteria"
    and "pebble_ok P view ops" and "LatestEVMHeight P d = Inr l" and "unat l \<noteq> nat t" and "unat (nextHeight f) \<le> nat t"
  shows "if nat t < unat l then getLogs lookup (pebble_storage P c b d) l criteria f = Inr []
    else \<exists>e. getLogs lookup (pebble_storage P c b d) l criteria f = Inl e \<and> errors_Is e ErrInvalid"
proof -
  have "unat (word_of_int t :: u64) = nat t"
    using assms(2,3) by (simp add: unat_eq_nat_uint uint_word_of_int)
  then have u: "unat (big_Uint64 t) = nat t" using assms(2) by (simp add: big_Uint64_def)
  have "sint (word_of_int t :: u64) = t"
    using assms(2,3) by (simp add: signed_of_int signed_take_bit_int_eq_self)
  then have i: "big_Int64 t \<ge> 0" using assms(2) by (simp add: big_Int64_def)
  show ?thesis
  proof (cases "nat t < unat l")
    case True
    then have "l > big_Uint64 t" by (simp add: word_less_nat_alt u)
    with True assms(1) i show ?thesis by (simp add: getLogs_def)
  next
    case False
    have range: "\<not> l > big_Uint64 t" "nextHeight f \<le> big_Uint64 t" "l < big_Uint64 t"
      using False assms(7,8) u by (simp_all add: word_less_nat_alt word_le_nat_alt)
    obtain e where "BloomsForBlockRange P c d (nextHeight f) (big_Uint64 t) = Inl e" "errors_Is e ErrInvalid"
      using BloomsForBlockRange_rejects [OF assms(5,6)] range(3) by blast
    with False assms(1,4) i range show ?thesis
      by (simp add: getLogs_def NewRangeFilter_def RangeFilter_Match_def pebble_storage_def not_less [symmetric])
  qed
qed

text \<open>In every sequence of operations the map of filters stays keyed by the identifiers of its filters
  and never holds more than 10,001 of them.\<close>

theorem filters_bounded:
  assumes "(api_step c X L)\<^sup>*\<^sup>* NewPullAPI api"
  shows "wf_map (filters api) \<and> length (filters api) \<le> 10001 \<and> (\<forall>(i, f) \<in> set (filters api). rpcID f = i)"
proof -
  have "filters_ok api" using assms by (rule api_reach_ok)
  then show ?thesis by (simp add: filters_ok_def maxFilters_def)
qed

text \<open>The bound is one more than the limit: with ten thousand filters another one is still accepted.\<close>

lemma limit_exceeded_by_one:
  assumes "length (filters api) = maxFilters" "map_of (filters api) (rpcID f) = None"
  shows "length (filters (snd (addFilter f api))) = maxFilters + 1"
  using assms by (simp add: addFilter_def length_update)

section \<open>Witnesses\<close>

definition poll_storage :: "u64 \<Rightarrow> storage_api" where
  "poll_storage l =
     \<lparr>st_LatestEVMHeight = Inr l, st_GetByHeight = (\<lambda>h. if h \<le> l then Inr (demo_block h) else Inl ErrEntityNotFound),
      st_GetByID = (\<lambda>_. Inl ErrEntityNotFound), st_GetHeightByID = (\<lambda>_. Inl ErrEntityNotFound),
      st_GetByBlockHeight = (\<lambda>_. Inr []), st_GetByTransactionID = (\<lambda>_. Inl ErrEntityNotFound),
      st_BloomsForBlockRange = (\<lambda>_ _. Inr []), st_GetTransaction = (\<lambda>_. Ret (Inl ErrEntityNotFound))\<rparr>"

lemmas times = Sub_def minDuration_def maxDuration_def Minute_def Second_def Millisecond_def

lemma poll_storage_serves:
  "serves_hashes receipts_codec (\<lambda>h. of_nat (unat h + 1)) (poll_storage l) l"
  by (auto simp: serves_hashes_def poll_storage_def Hash_def demo_block_def receipts_codec_def ref_codec_def)

lemma block_filter_complete_witness:
  "\<exists>hss api'. polls receipts_codec undefined undefined ''0x1'' [(poll_storage 6, 10, [OpNewBlock None (poll_storage 5) 0 ''0x2'' 5]), (poll_storage 7, 20, [OpUninstall ''0x2'', OpTick 15])]
       (snd (NewBlockFilter None (poll_storage 4) 0 ''0x1'' 0 NewPullAPI)) = Ret (map (\<lambda>hs. Inr (Hashes hs)) hss, api')
     \<and> concat hss = [6, 7, 8]"
proof -
  have new: "NewBlockFilter None (poll_storage 4) 0 ''0x1'' 0 NewPullAPI =
      (Inr ''0x1'', snd (NewBlockFilter None (poll_storage 4) 0 ''0x1'' 0 NewPullAPI))"
    by (simp add: NewBlockFilter_def poll_storage_def addFilter_def NewPullAPI_def newBaseFilter_def)
  have "polls_ok (serves_hashes receipts_codec (\<lambda>h. of_nat (unat h + 1))) ''0x1'' (if (0 :: int) = 0 then 5 * Minute else 0) 4 0
      [(poll_storage 6, 10, [OpNewBlock None (poll_storage 5) 0 ''0x2'' 5]), (poll_storage 7, 20, [OpUninstall ''0x2'', OpTick 15])] 7"
    by (rule polls_ok_step [where l' = 6]) (rule poll_storage_serves | rule polls_ok_step [where l' = 7] | simp add: times)+
  moreover have "heights (4 + 1) (7 + 1) = [5, 6, 7]" by (simp add: heights_Cons)
  moreover have "st_LatestEVMHeight (poll_storage 4) = Inr 4" by (simp add: poll_storage_def)
  ultimately show ?thesis
    using block_filter_complete [OF rtranclp.rtrancl_refl new, of 4 receipts_codec "\<lambda>h. of_nat (unat h + 1)"
        "[(poll_storage 6, 10, [OpNewBlock None (poll_storage 5) 0 ''0x2'' 5]), (poll_storage 7, 20, [OpUninstall ''0x2'', OpTick 15])]" 7 undefined undefined] by simp
qed

definition from_criteria :: "int \<Rightarrow> int option \<Rightarrow> FilterCriteria" where
  "from_criteria a t = log_criteria\<lparr>fcFromBlock := Some a, fcToBlock := t\<rparr>"

abbreviation log_storage :: storage_api where
  "log_storage \<equiv> pebble_storage mem_pebble receipts_codec undefined log_db"

lemma log_latest: "LatestEVMHeight mem_pebble log_db = Inr 2"
  by (simp add: LatestEVMHeight_def latestEVMHeight_def storage_get_view [OF mem_pebble_ok] log_db_def)

lemma log_filter_complete_witness:
  "\<exists>lss api'. polls receipts_codec undefined log_lookup ''0x1'' [(log_storage, 10, [OpUninstall ''0x2''])]
       (snd (NewFilter None log_storage 0 ''0x1'' 0 (from_criteria 0 None) NewPullAPI)) = Ret (map (\<lambda>ls. Inr (LogsResult ls)) lss, api')
     \<and> map lIndex (concat lss) = [0, 1, 2, 3]"
proof -
  let ?c = "from_criteria 0 None" and ?rs = "\<lambda>h. read_or_nil (GetByBlockHeight mem_pebble receipts_codec log_db h)"
  have st: "st_LatestEVMHeight log_storage = Inr 2" by (simp add: pebble_storage_def log_latest)
  have new: "NewFilter None log_storage 0 ''0x1'' 0 ?c NewPullAPI = (Inr ''0x1'', snd (NewFilter None log_storage 0 ''0x1'' 0 ?c NewPullAPI))"
    by (simp add: NewFilter_def st addFilter_def NewPullAPI_def newBaseFilter_def from_criteria_def log_criteria_def
        ValidCriteriaLimits_def LogQueryLimit_def Let_def big_Int64_def)
  have serves: "serves_logs mem_pebble receipts_codec map_of (\<lambda>ops. ops) log_lookup undefined ?rs ?c log_storage 2"
    unfolding serves_logs_def
    by (intro conjI exI [of _ log_db] mem_pebble_ok log_db_ok log_latest)
      (simp_all add: from_criteria_def log_criteria_def ValidCriteriaLimits_def LogQueryLimit_def log_reads read_or_nil_def)
  have ok: "polls_ok (serves_logs mem_pebble receipts_codec map_of (\<lambda>ops. ops) log_lookup undefined ?rs ?c) ''0x1''
      (if (0 :: int) = 0 then 5 * Minute else 0) 0 0 [(log_storage, 10, [OpUninstall ''0x2''])] 2"
    by (rule polls_ok_step [where l' = 2]) (use serves in \<open>simp_all add: times\<close>)
  have hs: "heights (0 + 1) (2 + 1) = [1, 2]" by (simp add: heights_Cons)
  have "map lIndex (concat (map (\<lambda>h. matching_logs ?c (?rs h)) [1, 2])) = [0, 1, 2, 3]"
    by (simp add: log_reads read_or_nil_def matching_logs_def demo_receipt_def demo_log_def fill_log_def ExactMatch_iff
        from_criteria_def log_criteria_def)
  moreover have "(0 :: u64) = (case fcFromBlock ?c of Some h \<Rightarrow> if big_Int64 h \<ge> 0 then big_Uint64 h else 2 | None \<Rightarrow> 2)"
    by (simp add: from_criteria_def big_Int64_def big_Uint64_def)
  ultimately show ?thesis
    using log_filter_complete [where X = undefined and c = receipts_codec and lookup = log_lookup, OF rtranclp.rtrancl_refl new _ st _ _ ok] unfolding hs by auto
qed

lemma log_filter_with_last_block_witness:
  "getLogs log_lookup log_storage 2 (from_criteria 0 (Some 1)) (newBaseFilter 0 0 ''0x1'' 0 blocksFilter) = Inr []
   \<and> (\<exists>e. getLogs log_lookup log_storage 2 (from_criteria 0 (Some 5)) (newBaseFilter 0 0 ''0x1'' 0 blocksFilter) = Inl e \<and> errors_Is e ErrInvalid)"
proof -
  have "ValidCriteriaLimits (from_criteria 0 (Some t))" for t
    by (simp add: from_criteria_def log_criteria_def ValidCriteriaLimits_def LogQueryLimit_def)
  then show ?thesis
    using log_filter_with_last_block [OF _ _ _ _ mem_pebble_ok log_latest,
        of "from_criteria 0 (Some 1)" 1 "newBaseFilter 0 0 ''0x1'' 0 blocksFilter" log_lookup receipts_codec undefined]
      log_filter_with_last_block [OF _ _ _ _ mem_pebble_ok log_latest,
        of "from_criteria 0 (Some 5)" 5 "newBaseFilter 0 0 ''0x1'' 0 blocksFilter" log_lookup receipts_codec undefined]
    by (simp add: from_criteria_def newBaseFilter_def)
qed

lemma filters_bounded_witness:
  "wf_map (filters (snd (NewBlockFilter None (poll_storage 4) 0 ''0x1'' 0 NewPullAPI)))"
proof -
  let ?api = "snd (NewBlockFilter None (poll_storage 4) 0 ''0x1'' 0 NewPullAPI)"
  have "api_step receipts_codec undefined undefined NewPullAPI ?api"
    by (rule new_block [where r = "fst (NewBlockFilter None (poll_storage 4) 0 ''0x1'' 0 NewPullAPI)"]) simp
  then have "(api_step receipts_codec undefined undefined)\<^sup>*\<^sup>* NewPullAPI ?api" by (rule r_into_rtranclp)
  from filters_bounded [OF this] show ?thesis by simp
qed

end
