(* ===== verification/Blockchain_Api.thy ===== *)
theory Blockchain_Api
  imports Api_Utils
begin

text \<open>
  The endpoints of the namespace \<^verbatim>\<open>eth\<close>, \<^verbatim>\<open>api/api.go\<close>.  Each takes the answer of the rate limiter
  as its first argument.  A nil pointer, slice or map is \<^term>\<open>None\<close>, an empty answer of bytes the empty list.
  Logging is left out, and with it the marshalling of the arguments for the log.
\<close>

section \<open>The server\<close>

definition BlockGasLimit :: u64 where "BlockGasLimit = 120000000"
definition maxFeeHistoryBlockCount :: u64 where "maxFeeHistoryBlockCount = 1024"

record api_config =
  acIndexOnly :: bool
  acCoinbase :: address
  acGasPrice :: int
  acEVMNetworkID :: int

text \<open>
  What the responses take from go-ethereum and flow-go: the bloom of an empty receipt and of a list of
  receipts, the coinbase, the hash of no uncles, the size of an RLP list, the Amsterdam rules at a
  height and time, and the slot number of a block.
\<close>

record api_ext =
  axEmptyBloom :: bloom
  axMergeBloom :: "GethReceipt list \<Rightarrow> bloom"
  axCoinbaseAddress :: address
  axEmptyUncleHash :: hash
  axListSize :: "u64 \<Rightarrow> u64"
  axIsAmsterdam :: "u64 \<Rightarrow> u64 \<Rightarrow> bool"
  axSlotNumber :: "EvmBlock \<Rightarrow> u64"

record ('ev, 'v) BlockChainAPI =
  baConfig :: api_config
  baCodec :: "'ev codec"
  baGeth :: geth_ext
  baExt :: api_ext
  baEvm :: "'v EVM"
  baStore :: storage_api
  indexingResumedHeight :: u64

text \<open>A request that the limiter refuses ends with its error.\<close>

definition limited :: "err option \<Rightarrow> err + 'a \<Rightarrow> err + 'a" where
  "limited limit m = (case limit of Some e \<Rightarrow> Inl e | None \<Rightarrow> m)"

definition limited_exec :: "err option \<Rightarrow> (err + 'a) exec \<Rightarrow> (err + 'a) exec" where
  "limited_exec limit m = (case limit of Some e \<Rightarrow> Ret (Inl e) | None \<Rightarrow> m)"

definition handled_exec :: "'a \<Rightarrow> (err + 'a) exec \<Rightarrow> (err + 'a) exec" where
  "handled_exec zero m = ebind m (\<lambda>r. Ret (handled zero r))"

text \<open>A step of a request that may fail and whose continuation may panic.\<close>

definition step :: "err + 'a \<Rightarrow> ('a \<Rightarrow> (err + 'b) exec) \<Rightarrow> (err + 'b) exec" where
  "step m f = (case m of Inl e \<Rightarrow> Ret (Inl e) | Inr x \<Rightarrow> f x)"

definition step_exec :: "(err + 'a) exec \<Rightarrow> ('a \<Rightarrow> (err + 'b) exec) \<Rightarrow> (err + 'b) exec" where
  "step_exec m f = ebind m (\<lambda>r. step r f)"

section \<open>The chain head\<close>

definition BlockNumber :: "err option \<Rightarrow> ('ev, 'v) BlockChainAPI \<Rightarrow> err + u64" where
  "BlockNumber limit b = limited limit (handled 0 (st_LatestEVMHeight (baStore b)))"

record SyncStatus =
  StartingBlock :: u64
  CurrentBlock :: u64
  HighestBlock :: u64

datatype sync_answer = SyncNil | NotSyncing | IsSyncing SyncStatus

text \<open>\<open>highest\<close> is the answer of the requester for the height of the network.\<close>

definition Syncing :: "err option \<Rightarrow> err + u64 \<Rightarrow> ('ev, 'v) BlockChainAPI \<Rightarrow> err + sync_answer" where
  "Syncing limit highest b = limited limit (handled SyncNil (
     rbind (st_LatestEVMHeight (baStore b)) (\<lambda>currentBlock.
     rbind highest (\<lambda>highestBlock.
     Inr (if currentBlock \<ge> highestBlock then NotSyncing
          else IsSyncing \<lparr>StartingBlock = indexingResumedHeight b, CurrentBlock = currentBlock, HighestBlock = highestBlock\<rparr>)))))"

section \<open>Sending transactions\<close>

definition api_SendRawTransaction ::
    "err option \<Rightarrow> ('ev, 'v) BlockChainAPI \<Rightarrow> (address \<Rightarrow> 'l \<Rightarrow> (err + bool) \<times> 'l) \<Rightarrow> (gethTx \<Rightarrow> 'p \<Rightarrow> err option \<times> 'p) \<Rightarrow> bytes
      \<Rightarrow> 'l \<times> 'p \<Rightarrow> (err + hash) \<times> 'l \<times> 'p" where
  "api_SendRawTransaction limit b takeToken addTx input st =
     (if acIndexOnly (baConfig b) then (Inl ErrIndexOnlyMode, st)
      else case limit of
        Some e \<Rightarrow> (Inl e, st)
      | None \<Rightarrow> (case SendRawTransaction (baCodec b) (baEvm b) takeToken addTx input st of
          (r, st') \<Rightarrow> (handled 0 r, st')))"

section \<open>The state of an account\<close>

definition api_GetBalance :: "err option \<Rightarrow> ('ev, 'v) BlockChainAPI \<Rightarrow> address \<Rightarrow> block_tag \<Rightarrow> err + int option" where
  "api_GetBalance limit b addr tag = limited limit (handled None (
     rbind (resolveBlockTag (Some tag) (baStore b)) (\<lambda>height.
     rbind (EVM_GetBalance (baEvm b) addr height) (\<lambda>balance. Inr (Some balance)))))"

definition GetTransactionCount :: "err option \<Rightarrow> ('ev, 'v) BlockChainAPI \<Rightarrow> address \<Rightarrow> block_tag \<Rightarrow> err + u64 option" where
  "GetTransactionCount limit b addr tag = limited limit (handled None (
     rbind (resolveBlockTag (Some tag) (baStore b)) (\<lambda>height.
     rbind (EVM_GetNonce (baEvm b) addr height) (\<lambda>networkNonce. Inr (Some networkNonce)))))"

definition api_GetCode :: "err option \<Rightarrow> ('ev, 'v) BlockChainAPI \<Rightarrow> address \<Rightarrow> block_tag \<Rightarrow> err + bytes" where
  "api_GetCode limit b addr tag = limited limit (handled [] (
     rbind (resolveBlockTag (Some tag) (baStore b)) (\<lambda>height. EVM_GetCode (baEvm b) addr height)))"

definition api_GetStorageAt :: "err option \<Rightarrow> ('ev, 'v) BlockChainAPI \<Rightarrow> address \<Rightarrow> string \<Rightarrow> block_tag \<Rightarrow> err + bytes" where
  "api_GetStorageAt limit b addr storageSlot tag = limited limit (handled [] (
     rbind (rwrap (\<lambda>e. Errorf ''%w: %w'' [] [ErrInvalid, e]) (decodeHash storageSlot)) (\<lambda>key.
     rbind (resolveBlockTag (Some tag) (baStore b)) (\<lambda>height.
     rbind (EVM_GetStorageAt (baEvm b) addr key height) (\<lambda>result. Inr (hashBytes result))))))"

section \<open>Transactions\<close>

definition prepareTransactionResponse :: "('ev, 'v) BlockChainAPI \<Rightarrow> hash \<Rightarrow> (err + eth_Transaction) exec" where
  "prepareTransactionResponse b txHash =
     step_exec (st_GetTransaction (baStore b) txHash) (\<lambda>tx.
     step (st_GetByTransactionID (baStore b) txHash) (\<lambda>receipt.
     Ret (NewTransactionResult (baCodec b) (baGeth b) tx receipt)))"

text \<open>Here the error of the conversion itself is returned as it is.\<close>

definition GetTransactionByHash :: "err option \<Rightarrow> ('ev, 'v) BlockChainAPI \<Rightarrow> hash \<Rightarrow> (err + eth_Transaction option) exec" where
  "GetTransactionByHash limit b hsh = limited_exec limit (
     ebind (st_GetTransaction (baStore b) hsh) (\<lambda>r. case r of
       Inl e \<Rightarrow> Ret (handleError None e)
     | Inr tx \<Rightarrow>
        (case st_GetByTransactionID (baStore b) hsh of
           Inl e \<Rightarrow> Ret (handleError None e)
         | Inr rcp \<Rightarrow> Ret (rbind (NewTransactionResult (baCodec b) (baGeth b) tx rcp) (\<lambda>t. Inr (Some t))))))"

text \<open>
  The transaction of an index of a block: the index is compared as a signed number and then used as an
  unsigned one.
\<close>

definition go_index :: "'a list \<Rightarrow> u64 \<Rightarrow> 'a exec" where
  "go_index xs i = (if unat i < length xs then Ret (xs ! unat i) else Panics ''index out of range'')"

definition transaction_at :: "('ev, 'v) BlockChainAPI \<Rightarrow> Block \<Rightarrow> u64 \<Rightarrow> (err + eth_Transaction option) exec" where
  "transaction_at b block index =
     (if sint index \<ge> int (length (TransactionHashes block)) then Ret (Inr None)
      else ebind (go_index (TransactionHashes block) index) (\<lambda>txHash.
           step_exec (prepareTransactionResponse b txHash) (\<lambda>tx. Ret (Inr (Some tx)))))"

definition GetTransactionByBlockHashAndIndex ::
    "err option \<Rightarrow> ('ev, 'v) BlockChainAPI \<Rightarrow> hash \<Rightarrow> u64 \<Rightarrow> (err + eth_Transaction option) exec" where
  "GetTransactionByBlockHashAndIndex limit b blockHash index = limited_exec limit (handled_exec None (
     step (st_GetByID (baStore b) blockHash) (\<lambda>block. transaction_at b block index)))"

definition GetTransactionByBlockNumberAndIndex ::
    "err option \<Rightarrow> ('ev, 'v) BlockChainAPI \<Rightarrow> 64 word \<Rightarrow> u64 \<Rightarrow> (err + eth_Transaction option) exec" where
  "GetTransactionByBlockNumberAndIndex limit b blockNumber index = limited_exec limit (handled_exec None (
     step (resolveBlockNumber blockNumber (baStore b)) (\<lambda>height.
     step (st_GetByHeight (baStore b) height) (\<lambda>block. transaction_at b block index))))"

definition GetTransactionReceipt ::
    "err option \<Rightarrow> ('ev, 'v) BlockChainAPI \<Rightarrow> hash \<Rightarrow> (err + (string, rpc_value) gomap option) exec" where
  "GetTransactionReceipt limit b hsh = limited_exec limit (handled_exec None (
     step_exec (st_GetTransaction (baStore b) hsh) (\<lambda>tx.
     step (st_GetByTransactionID (baStore b) hsh) (\<lambda>receipt.
     step (MarshalReceipt (baCodec b) receipt tx) (\<lambda>txReceipt. Ret (Inr (Some txReceipt)))))))"

section \<open>Blocks\<close>

datatype block_transactions = TxHashes "hash list" | FullTxs "eth_Transaction list"

text \<open>\<^verbatim>\<open>Block\<close> of \<^verbatim>\<open>eth/types\<close>; the fields no response sets are left out.\<close>

record eth_Block =
  ebNumber :: u64
  ebHash :: hash
  ebParentHash :: hash
  ebNonce :: bytes
  ebSha3Uncles :: hash
  ebLogsBloom :: bloom
  ebTransactionsRoot :: hash
  ebReceiptsRoot :: hash
  ebMiner :: address
  ebSize :: u64
  ebGasLimit :: u64
  ebGasUsed :: u64
  ebTimestamp :: u64
  ebTransactions :: block_transactions
  ebUncles :: "hash list"
  ebBaseFeePerGas :: int
  ebSlotNumber :: "u64 option"
  ebBlockAccessListHash :: "hash option"

fun fetchBlockTransactions :: "('ev, 'v) BlockChainAPI \<Rightarrow> Receipt list \<Rightarrow> (err + eth_Transaction list) exec" where
  "fetchBlockTransactions b [] = Ret (Inr [])"
| "fetchBlockTransactions b (receipt # rs) =
     step_exec (st_GetTransaction (baStore b) (rTxHash receipt)) (\<lambda>tx.
     step (NewTransactionResult (baCodec b) (baGeth b) tx receipt) (\<lambda>transaction.
     step_exec (fetchBlockTransactions b rs) (\<lambda>transactions. Ret (Inr (transaction # transactions)))))"

text \<open>The response before the receipts are read.\<close>

definition block_header :: "('ev, 'v) BlockChainAPI \<Rightarrow> Block \<Rightarrow> hash \<Rightarrow> eth_Block" where
  "block_header b block h =
     (let X = baExt b; eb = evmBlock block;
          amsterdam = axIsAmsterdam X (Height eb) (Timestamp eb)
      in \<lparr>ebNumber = Height eb, ebHash = h, ebParentHash = ParentBlockHash eb, ebNonce = [1, 0, 0, 0, 0, 0, 0, 0],
          ebSha3Uncles = axEmptyUncleHash X, ebLogsBloom = axEmptyBloom X, ebTransactionsRoot = TransactionHashRoot eb,
          ebReceiptsRoot = ReceiptRoot eb, ebMiner = axCoinbaseAddress X, ebSize = 0, ebGasLimit = BlockGasLimit,
          ebGasUsed = 0, ebTimestamp = Timestamp eb, ebTransactions = TxHashes (TransactionHashes block), ebUncles = [],
          ebBaseFeePerGas = BaseFeePerGas,
          ebSlotNumber = (if amsterdam then Some (axSlotNumber X eb) else None),
          ebBlockAccessListHash = (if amsterdam then AccessListHash block else None)\<rparr>)"

text \<open>The loop over the transactions with their receipts: the gas, the receipts and the size so far.\<close>

fun block_totals :: "(eth_Transaction \<times> Receipt) list \<Rightarrow> u64 \<times> GethReceipt list \<times> u64 \<Rightarrow> u64 \<times> GethReceipt list \<times> u64" where
  "block_totals [] acc = acc"
| "block_totals ((tx, txReceipt) # xs) (totalGasUsed, gethReceipts, blockSize) =
     block_totals xs (totalGasUsed + rGasUsed txReceipt, gethReceipts @ [ToGethReceipt txReceipt], blockSize + etSize tx)"

definition prepareBlockResponse :: "('ev, 'v) BlockChainAPI \<Rightarrow> Block \<Rightarrow> bool \<Rightarrow> (err + eth_Block) exec" where
  "prepareBlockResponse b block fullTx =
     step (Hash (baCodec b) block) (\<lambda>h.
     step (ToBytes (baCodec b) block) (\<lambda>blockBytes.
     step (st_GetByBlockHeight (baStore b) (Height (evmBlock block))) (\<lambda>receipts.
     step_exec (fetchBlockTransactions b receipts) (\<lambda>transactions.
     let blockSize = axListSize (baExt b) (of_nat (length blockBytes));
         resp = block_header b block h;
         (totalGasUsed, gethReceipts, size) = block_totals (zip transactions receipts) (0, [], blockSize);
         resp1 = (if length transactions > 0
           then resp\<lparr>ebGasUsed := totalGasUsed, ebLogsBloom := axMergeBloom (baExt b) gethReceipts\<rparr> else resp);
         resp2 = resp1\<lparr>ebSize := axListSize (baExt b) size\<rparr>
     in Ret (Inr (if fullTx then resp2\<lparr>ebTransactions := FullTxs transactions\<rparr> else resp2))))))"

definition GetBlockByHash :: "err option \<Rightarrow> ('ev, 'v) BlockChainAPI \<Rightarrow> hash \<Rightarrow> bool \<Rightarrow> (err + eth_Block option) exec" where
  "GetBlockByHash limit b hsh fullTx = limited_exec limit (handled_exec None (
     step (st_GetByID (baStore b) hsh) (\<lambda>block.
     step_exec (prepareBlockResponse b block fullTx) (\<lambda>apiBlock. Ret (Inr (Some apiBlock))))))"

definition GetBlockByNumber :: "err option \<Rightarrow> ('ev, 'v) BlockChainAPI \<Rightarrow> 64 word \<Rightarrow> bool \<Rightarrow> (err + eth_Block option) exec" where
  "GetBlockByNumber limit b blockNumber fullTx = limited_exec limit (handled_exec None (
     step (resolveBlockNumber blockNumber (baStore b)) (\<lambda>height.
     step (st_GetByHeight (baStore b) height) (\<lambda>block.
     step_exec (prepareBlockResponse b block fullTx) (\<lambda>apiBlock. Ret (Inr (Some apiBlock)))))))"

fun marshal_receipts :: "('ev, 'v) BlockChainAPI \<Rightarrow> Receipt list \<Rightarrow> (err + (string, rpc_value) gomap list) exec" where
  "marshal_receipts b [] = Ret (Inr [])"
| "marshal_receipts b (receipt # rs) =
     step_exec (st_GetTransaction (baStore b) (rTxHash receipt)) (\<lambda>tx.
     step (MarshalReceipt (baCodec b) receipt tx) (\<lambda>m.
     step_exec (marshal_receipts b rs) (\<lambda>ms. Ret (Inr (m # ms)))))"

definition GetBlockReceipts ::
    "err option \<Rightarrow> ('ev, 'v) BlockChainAPI \<Rightarrow> block_tag \<Rightarrow> (err + (string, rpc_value) gomap list option) exec" where
  "GetBlockReceipts limit b tag = limited_exec limit (handled_exec None (
     step (resolveBlockTag (Some tag) (baStore b)) (\<lambda>height.
     step (st_GetByHeight (baStore b) height) (\<lambda>block.
     step (st_GetByBlockHeight (baStore b) (Height (evmBlock block))) (\<lambda>receipts.
     step_exec (marshal_receipts b receipts) (\<lambda>ms. Ret (Inr (Some ms))))))))"

definition GetBlockTransactionCountByHash :: "err option \<Rightarrow> ('ev, 'v) BlockChainAPI \<Rightarrow> hash \<Rightarrow> err + u64 option" where
  "GetBlockTransactionCountByHash limit b blockHash = limited limit (handled None (
     rbind (st_GetByID (baStore b) blockHash) (\<lambda>block. Inr (Some (of_nat (length (TransactionHashes block)))))))"

definition GetBlockTransactionCountByNumber :: "err option \<Rightarrow> ('ev, 'v) BlockChainAPI \<Rightarrow> 64 word \<Rightarrow> err + u64 option" where
  "GetBlockTransactionCountByNumber limit b blockNumber = limited limit (handled None (
     rbind (resolveBlockNumber blockNumber (baStore b)) (\<lambda>height.
     rbind (st_GetByHeight (baStore b) height) (\<lambda>block. Inr (Some (of_nat (length (TransactionHashes block))))))))"

section \<open>Calls\<close>

definition latestBlockNumberOrHash :: block_tag where
  "latestBlockNumberOrHash = TagNumber (word_of_int LatestBlockNumber)"

text \<open>The sender of a call: the one of the arguments, else the coinbase of the configuration.\<close>

definition call_sender :: "('ev, 'v) BlockChainAPI \<Rightarrow> TransactionArgs \<Rightarrow> address" where
  "call_sender b args = (case taFrom args of Some a \<Rightarrow> a | None \<Rightarrow> acCoinbase (baConfig b))"

definition api_Call ::
    "err option \<Rightarrow> ('ev, 'v) BlockChainAPI \<Rightarrow> TransactionArgs \<Rightarrow> block_tag option \<Rightarrow> StateOverride option \<Rightarrow> BlockOverrides option
      \<Rightarrow> (err + bytes) exec" where
  "api_Call limit b args tag sov bov =
     (let tag' = (case tag of None \<Rightarrow> latestBlockNumberOrHash | Some t \<Rightarrow> t) in
      limited_exec limit (handled_exec [] (
        case Validate args of
          Some e \<Rightarrow> Ret (Inl e)
        | None \<Rightarrow> step (resolveBlockTag (Some tag') (baStore b)) (\<lambda>height.
            EVM_Call (baCodec b) (baEvm b) args (call_sender b args) height sov bov))))"

definition api_EstimateGas ::
    "nat \<Rightarrow> err option \<Rightarrow> ('ev, 'v) BlockChainAPI \<Rightarrow> TransactionArgs \<Rightarrow> block_tag option \<Rightarrow> StateOverride option \<Rightarrow> BlockOverrides option
      \<Rightarrow> (err + u64) exec" where
  "api_EstimateGas fuel limit b args tag sov bov =
     (let tag' = (case tag of None \<Rightarrow> latestBlockNumberOrHash | Some t \<Rightarrow> t) in
      limited_exec limit (handled_exec 0 (
        case Validate args of
          Some e \<Rightarrow> Ret (Inl e)
        | None \<Rightarrow> step (resolveBlockTag (Some tag') (baStore b)) (\<lambda>height.
            EVM_EstimateGas fuel (baCodec b) (baEvm b) args (call_sender b args) height sov bov))))"

section \<open>Logs\<close>

text \<open>A bound of the range: a missing one is the latest block, and so is a special value below pending.\<close>

definition log_bound :: "int \<Rightarrow> int option \<Rightarrow> int" where
  "log_bound latest bound =
     (let x = (case bound of None \<Rightarrow> LatestBlockNumber | Some y \<Rightarrow> y) in
      if x = EarliestBlockNumber then 0 else if x < PendingBlockNumber then latest else x)"

definition GetLogs ::
    "err option \<Rightarrow> (bloom \<Rightarrow> bytes \<Rightarrow> bool) \<Rightarrow> ('ev, 'v) BlockChainAPI \<Rightarrow> FilterCriteria \<Rightarrow> err + Log list" where
  "GetLogs limit BloomLookup b criteria = limited limit (case fcBlockHash criteria of
      Some blockHash \<Rightarrow>
        rbind (st_GetByID (baStore b) blockHash) (\<lambda>block.
        if TransactionHashes block = [] then Inr []
        else handled [] (rbind (NewIDFilter criteria)
               (IDFilter_Match (st_GetByID (baStore b)) (st_GetByBlockHeight (baStore b)))))
    | None \<Rightarrow> handled [] (
        rbind (st_LatestEVMHeight (baStore b)) (\<lambda>h.
        let latest = sint h;
            start = log_bound latest (fcFromBlock criteria);
            stop = log_bound latest (fcToBlock criteria)
        in rbind (NewRangeFilter (big_Uint64 start) (big_Uint64 stop) criteria)
             (RangeFilter_Match (st_BloomsForBlockRange (baStore b)) (st_GetByBlockHeight (baStore b)) BloomLookup))))"

section \<open>The fee history\<close>

text \<open>A ratio is kept as the two operands of the floating-point division.\<close>

record FeeHistoryResult =
  fhOldestBlock :: "int option"
  fhReward :: "int list list"
  fhBaseFee :: "int list"
  fhGasUsedRatio :: "(u64 \<times> u64) list"

fun fee_loop :: "storage_api \<Rightarrow> int list \<Rightarrow> u64 \<Rightarrow> nat \<Rightarrow> nat \<Rightarrow> FeeHistoryResult \<Rightarrow> FeeHistoryResult" where
  "fee_loop S blockRewards lastBlockNumber maxCount 0 acc = acc"
| "fee_loop S blockRewards lastBlockNumber maxCount (Suc i) acc =
     (let blockHeight = lastBlockNumber - of_nat (Suc i) + 1 in
      case st_GetByHeight S blockHeight of
        Inl _ \<Rightarrow> fee_loop S blockRewards lastBlockNumber maxCount i acc
      | Inr block \<Rightarrow>
         fee_loop S blockRewards lastBlockNumber maxCount i
           \<lparr>fhOldestBlock = (if Suc i = maxCount then Some (sint (Height (evmBlock block))) else fhOldestBlock acc),
            fhReward = fhReward acc @ [blockRewards], fhBaseFee = fhBaseFee acc @ [BaseFeePerGas],
            fhGasUsedRatio = fhGasUsedRatio acc @ [(TotalGasUsed (evmBlock block), BlockGasLimit)]\<rparr>)"

text \<open>Of the reward percentiles only their number matters.\<close>

definition FeeHistory :: "err option \<Rightarrow> ('ev, 'v) BlockChainAPI \<Rightarrow> u64 \<Rightarrow> 64 word \<Rightarrow> nat \<Rightarrow> err + FeeHistoryResult option" where
  "FeeHistory limit b blockCount lastBlock percentiles = limited limit (
     if blockCount > maxFeeHistoryBlockCount
     then handleError None (Errorf ''block count has to be between 1 and %d, got: %d''
            [FNum (unat maxFeeHistoryBlockCount), FNum (unat blockCount)] [])
     else handled None (
       rbind (resolveBlockNumber lastBlock (baStore b)) (\<lambda>lastBlockNumber.
       let maxCount = unat (min blockCount lastBlockNumber);
           blockRewards = replicate percentiles (acGasPrice (baConfig b))
       in Inr (Some (fee_loop (baStore b) blockRewards lastBlockNumber maxCount maxCount
            \<lparr>fhOldestBlock = None, fhReward = [], fhBaseFee = [], fhGasUsedRatio = []\<rparr>)))))"

section \<open>Static and unsupported answers\<close>

definition api_ChainId :: "('ev, 'v) BlockChainAPI \<Rightarrow> int" where "api_ChainId b = acEVMNetworkID (baConfig b)"
definition Coinbase :: "('ev, 'v) BlockChainAPI \<Rightarrow> address" where "Coinbase b = acCoinbase (baConfig b)"
definition api_GasPrice :: "('ev, 'v) BlockChainAPI \<Rightarrow> int" where "api_GasPrice b = acGasPrice (baConfig b)"
definition GetUncleCountByBlockHash :: "hash \<Rightarrow> u64" where "GetUncleCountByBlockHash blockHash = 0"
definition GetUncleCountByBlockNumber :: "64 word \<Rightarrow> u64" where "GetUncleCountByBlockNumber blockNumber = 0"
definition GetUncleByBlockHashAndIndex :: "hash \<Rightarrow> u64 \<Rightarrow> (string, rpc_value) gomap" where
  "GetUncleByBlockHashAndIndex blockHash index = []"
definition GetUncleByBlockNumberAndIndex :: "64 word \<Rightarrow> u64 \<Rightarrow> (string, rpc_value) gomap" where
  "GetUncleByBlockNumberAndIndex blockNumber index = []"
definition MaxPriorityFeePerGas :: "('ev, 'v) BlockChainAPI \<Rightarrow> int" where "MaxPriorityFeePerGas b = acGasPrice (baConfig b)"
definition Mining :: bool where "Mining = False"
definition Hashrate :: u64 where "Hashrate = 0"
definition GetProof :: err where "GetProof = NewEndpointNotSupportedError ''eth_getProof''"
definition CreateAccessList :: err where "CreateAccessList = NewEndpointNotSupportedError ''eth_createAccessList''"

section \<open>Reading responses\<close>

lemma step_simps [simp]: "step (Inr x) f = f x" "step (Inl e) f = Ret (Inl e)"
  by (simp_all add: step_def)

lemma step_exec_simps [simp]: "step_exec (Ret (Inr x)) f = f x" "step_exec (Ret (Inl e)) f = Ret (Inl e)" "step_exec (Panics m) f = Panics m"
  by (simp_all add: step_exec_def)

lemma step_Ret_Inr [gw_result]: "step m f = Ret (Inr y) \<longleftrightarrow> (\<exists>x. m = Inr x \<and> f x = Ret (Inr y))"
  by (cases m) simp_all

lemma step_exec_Ret_Inr [gw_result]: "step_exec m f = Ret (Inr y) \<longleftrightarrow> (\<exists>x. m = Ret (Inr x) \<and> f x = Ret (Inr y))"
  by (auto simp: step_exec_def gw_result)

lemma limited_simps [simp]: "limited None m = m" "limited_exec None r = r"
  by (simp_all add: limited_def limited_exec_def)

lemma handled_simps [simp]: "handled zero (Inr x) = Inr x" "handled_exec zero (Ret (Inr x)) = Ret (Inr x)" "handled_exec zero (Panics m) = Panics m"
  by (simp_all add: handled_def handled_exec_def)

lemma handled_exec_Some: "handled_exec None m = Ret (Inr (Some x)) \<longleftrightarrow> m = Ret (Inr (Some x))"
  by (cases m) (auto simp: handled_exec_def handled_def handleError_cases split: sum.splits)

text \<open>The transaction response that belongs to a receipt.\<close>

definition tx_of_receipt :: "('ev, 'v) BlockChainAPI \<Rightarrow> Receipt \<Rightarrow> eth_Transaction \<Rightarrow> bool" where
  "tx_of_receipt b r t \<longleftrightarrow> (\<exists>tx. st_GetTransaction (baStore b) (rTxHash r) = Ret (Inr tx)
     \<and> NewTransactionResult (baCodec b) (baGeth b) tx r = Inr t)"

lemma fetch_iff: "fetchBlockTransactions b rs = Ret (Inr txs) \<longleftrightarrow> list_all2 (tx_of_receipt b) rs txs"
  by (induction rs arbitrary: txs) (auto simp: gw_result list_all2_Cons1 tx_of_receipt_def)

lemma fetch_exists:
  assumes "\<And>r. r \<in> set rs \<Longrightarrow> \<exists>t. tx_of_receipt b r t"
  shows "\<exists>txs. list_all2 (tx_of_receipt b) rs txs"
  using assms by (induction rs) (force simp: list_all2_Cons1)+

lemma block_totals_eq:
  "block_totals xs (g, rs, s) = (g + (\<Sum>(t, r) \<leftarrow> xs. rGasUsed r), rs @ map (\<lambda>(t, r). ToGethReceipt r) xs, s + (\<Sum>(t, r) \<leftarrow> xs. etSize t))"
  by (induction xs arbitrary: g rs s) (auto simp: algebra_simps)

lemma zip_totals:
  assumes "length txs = length rs"
  shows "(\<Sum>(t, r) \<leftarrow> zip txs rs. (f r :: u64)) = (\<Sum>r \<leftarrow> rs. f r)" and "map (\<lambda>(t, r). g r) (zip txs rs) = map g rs"
    and "(\<Sum>(t, r) \<leftarrow> zip txs rs. (k t :: u64)) = (\<Sum>t \<leftarrow> txs. k t)"
  using assms by (induction txs rs rule: list_induct2) auto

lemma prepareBlockResponse_eq:
  assumes "Hash (baCodec b) block = Inr h" and "ToBytes (baCodec b) block = Inr bytes"
    and "st_GetByBlockHeight (baStore b) (Height (evmBlock block)) = Inr rs" and "list_all2 (tx_of_receipt b) rs txs"
  shows "prepareBlockResponse b block fullTx = Ret (Inr ((block_header b block h)
    \<lparr>ebLogsBloom := (if rs = [] then axEmptyBloom (baExt b) else axMergeBloom (baExt b) (map ToGethReceipt rs)),
     ebSize := axListSize (baExt b) (axListSize (baExt b) (of_nat (length bytes)) + (\<Sum>t \<leftarrow> txs. etSize t)),
     ebGasUsed := (\<Sum>r \<leftarrow> rs. rGasUsed r),
     ebTransactions := (if fullTx then FullTxs txs else TxHashes (TransactionHashes block))\<rparr>))"
proof -
  have len: "length txs = length rs" using assms(4) by (simp add: list_all2_lengthD)
  note tot = zip_totals(1) [OF len, where f = rGasUsed] zip_totals(2) [OF len, where g = ToGethReceipt] zip_totals(3) [OF len, where k = etSize]
  show ?thesis
    using assms(1-3) fetch_iff [THEN iffD2, OF assms(4)] len
    by (auto simp: prepareBlockResponse_def block_totals_eq tot block_header_def Let_def)
qed

section \<open>Properties\<close>

text \<open>C18: A block of the index whose receipts have their transactions is served in full: the totals of the
  response are those of its receipts, and the transactions come in the order of the receipts with the
  position, hash and number the receipts name.\<close>

theorem GetBlockByNumber_complete:
  assumes "resolveBlockNumber n (baStore b) = Inr height" and "st_GetByHeight (baStore b) height = Inr block"
    and "Hash (baCodec b) block = Inr h" and "ToBytes (baCodec b) block = Inr bytes"
    and "st_GetByBlockHeight (baStore b) (Height (evmBlock block)) = Inr rs"
    and "\<forall>r \<in> set rs. \<exists>tx from. st_GetTransaction (baStore b) (rTxHash r) = Ret (Inr tx) \<and> tx_Hash tx = rTxHash r \<and> From (baCodec b) tx = Inr from"
  shows "\<exists>resp txs. GetBlockByNumber None b n fullTx = Ret (Inr (Some resp))
    \<and> ebNumber resp = Height (evmBlock block) \<and> ebHash resp = h \<and> ebParentHash resp = ParentBlockHash (evmBlock block)
    \<and> ebGasUsed resp = (\<Sum>r \<leftarrow> rs. rGasUsed r)
    \<and> ebLogsBloom resp = (if rs = [] then axEmptyBloom (baExt b) else axMergeBloom (baExt b) (map ToGethReceipt rs))
    \<and> ebTransactions resp = (if fullTx then FullTxs txs else TxHashes (TransactionHashes block))
    \<and> map etHash txs = map rTxHash rs \<and> map etTransactionIndex txs = map (\<lambda>r. Some (rTransactionIndex r)) rs
    \<and> map etBlockHash txs = map (\<lambda>r. Some (rBlockHash r)) rs \<and> map etBlockNumber txs = map (\<lambda>r. Some (rBlockNumber r)) rs"
proof -
  have ex: "\<exists>t. tx_of_receipt b r t \<and> etHash t = rTxHash r \<and> etTransactionIndex t = Some (rTransactionIndex r)
      \<and> etBlockHash t = Some (rBlockHash r) \<and> etBlockNumber t = Some (rBlockNumber r)" if "r \<in> set rs" for r
  proof -
    obtain tx sender where tx: "st_GetTransaction (baStore b) (rTxHash r) = Ret (Inr tx)" "tx_Hash tx = rTxHash r" "From (baCodec b) tx = Inr sender"
      using assms(6) \<open>r \<in> set rs\<close> by blast
    then obtain t where "NewTransactionResult (baCodec b) (baGeth b) tx r = Inr t" "etHash t = rTxHash r"
        "etTransactionIndex t = Some (rTransactionIndex r)" "etBlockHash t = Some (rBlockHash r)" "etBlockNumber t = Some (rBlockNumber r)"
      by (cases "RawSignatureValues tx") (auto simp: NewTransactionResult_def NewTransaction_def Let_def)
    with tx(1) show ?thesis by (auto simp: tx_of_receipt_def)
  qed
  then obtain f where f: "\<And>r. r \<in> set rs \<Longrightarrow> tx_of_receipt b r (f r) \<and> etHash (f r) = rTxHash r \<and> etTransactionIndex (f r) = Some (rTransactionIndex r)
      \<and> etBlockHash (f r) = Some (rBlockHash r) \<and> etBlockNumber (f r) = Some (rBlockNumber r)" by metis
  then have "list_all2 (tx_of_receipt b) rs (map f rs)" by (simp add: list_all2_conv_all_nth)
  from prepareBlockResponse_eq [OF assms(3-5) this, of fullTx] f assms(1,2) show ?thesis
    by (intro exI [of _ "map f rs"] exI conjI) (auto simp: GetBlockByNumber_def block_header_def Let_def)
qed

text \<open>C17: The endpoints agree: the full transactions of a block, the transaction at an index of the block,
  by number or by hash, and the transaction by its hash are the same answers, for an index in which the
  receipts of the block are those of its transaction hashes.\<close>

theorem transaction_endpoints_agree:
  assumes "GetBlockByNumber None b n True = Ret (Inr (Some resp))"
    and "resolveBlockNumber n (baStore b) = Inr height" and "st_GetByHeight (baStore b) height = Inr block"
    and "st_GetByID (baStore b) h = Inr block"
    and "st_GetByBlockHeight (baStore b) (Height (evmBlock block)) = Inr rs" and "TransactionHashes block = map rTxHash rs"
    and "\<forall>r \<in> set rs. st_GetByTransactionID (baStore b) (rTxHash r) = Inr r"
    and "length rs < 2 ^ 63" and "i < length rs"
  shows "\<exists>txs. ebTransactions resp = FullTxs txs \<and> length txs = length rs
    \<and> GetTransactionByHash None b (rTxHash (rs ! i)) = Ret (Inr (Some (txs ! i)))
    \<and> GetTransactionByBlockNumberAndIndex None b n (of_nat i) = Ret (Inr (Some (txs ! i)))
    \<and> GetTransactionByBlockHashAndIndex None b h (of_nat i) = Ret (Inr (Some (txs ! i)))"
proof -
  obtain txs where txs: "list_all2 (tx_of_receipt b) rs txs" "ebTransactions resp = FullTxs txs"
  proof -
    have "step_exec (prepareBlockResponse b block True) (\<lambda>apiBlock. Ret (Inr (Some apiBlock))) = Ret (Inr (Some resp))"
      using assms(1-3) by (simp add: GetBlockByNumber_def handled_exec_Some)
    then have p: "prepareBlockResponse b block True = Ret (Inr resp)" by (auto simp: gw_result)
    then obtain hh bytes txs where ok: "Hash (baCodec b) block = Inr hh" "ToBytes (baCodec b) block = Inr bytes" "list_all2 (tx_of_receipt b) rs txs"
      using assms(5) unfolding prepareBlockResponse_def by (auto simp: gw_result fetch_iff)
    from prepareBlockResponse_eq [OF ok(1,2) assms(5) ok(3), of True] p ok(3) show thesis
      by (intro that) auto
  qed
  have len: "length txs = length rs" using txs(1) by (simp add: list_all2_lengthD)
  have "tx_of_receipt b (rs ! i) (txs ! i)" using txs(1) assms(9) by (simp add: list_all2_conv_all_nth)
  then obtain tx where tx: "st_GetTransaction (baStore b) (rTxHash (rs ! i)) = Ret (Inr tx)"
    "NewTransactionResult (baCodec b) (baGeth b) tx (rs ! i) = Inr (txs ! i)" by (auto simp: tx_of_receipt_def)
  have rc: "st_GetByTransactionID (baStore b) (rTxHash (rs ! i)) = Inr (rs ! i)" using assms(7,9) by simp
  have u: "unat (of_nat i :: u64) = i" "sint (of_nat i :: u64) = int i"
  proof -
    have "i < 2 ^ 63" using assms(8,9) by simp
    then show "unat (of_nat i :: u64) = i" by (simp add: unsigned_of_nat take_bit_nat_eq_self)
    show "sint (of_nat i :: u64) = int i" using \<open>i < 2 ^ 63\<close> by (simp add: signed_of_nat signed_take_bit_int_eq_self)
  qed
  have prep: "prepareTransactionResponse b (rTxHash (rs ! i)) = Ret (Inr (txs ! i))"
    using tx rc by (simp add: prepareTransactionResponse_def)
  have "transaction_at b block (of_nat i) = Ret (Inr (Some (txs ! i)))"
    using prep u assms(6,9) by (simp add: transaction_at_def go_index_def)
  then show ?thesis
    using txs(2) len tx rc assms(2-4)
    by (auto simp: GetTransactionByHash_def GetTransactionByBlockNumberAndIndex_def GetTransactionByBlockHashAndIndex_def)
qed

text \<open>An index of a transaction from 2 to the 63 on passes the range check as a negative number and
  panics, in every block.\<close>

theorem huge_index_panics:
  assumes "st_GetByID (baStore b) h = Inr block" and "index \<ge> 2 ^ 63" and "length (TransactionHashes block) < 2 ^ 63"
  shows "GetTransactionByBlockHashAndIndex None b h index = Panics ''index out of range''"
proof -
  have u: "unat index \<ge> 2 ^ 63" using assms(2) by (simp add: word_le_nat_alt)
  have "uint index \<ge> 2 ^ 63" using assms(2) by (simp add: word_le_def)
  moreover have "uint index < 2 ^ 64" using uint_lt2p [of index] by simp
  ultimately have "uint index div 2 ^ 63 = 1" by simp
  then have "sint index < 0" by (simp add: sint_uint signed_take_bit_negative_iff bit_iff_odd)
  moreover note u
  ultimately show ?thesis using assms(1,3)
    by (simp add: GetTransactionByBlockHashAndIndex_def transaction_at_def go_index_def)
qed

lemma sint_small: "x < 2 ^ 63 \<Longrightarrow> sint (x :: u64) = uint x"
proof -
  assume "x < 2 ^ 63"
  then have "uint x < 2 ^ 63" by (simp add: word_less_def)
  then show ?thesis by (simp add: sint_uint signed_take_bit_int_eq_self order_trans [of _ 0])
qed

text \<open>A search of logs over a range returns exactly the logs of the receipts of the range that match
  the criteria, in order; earliest is block 0, and a missing, latest, safe or finalized bound is the
  latest block.\<close>

theorem GetLogs_exact:
  assumes "baStore b = pebble_storage P c blocks d" and "pebble_ok P view ops" and "log_index_ok P c view lookup d"
    and "LatestEVMHeight P d = Inr l" and "l < 2 ^ 63" and "fcBlockHash criteria = None" and "ValidCriteriaLimits criteria"
    and "log_bound (uint l) (fcFromBlock criteria) = uint start" and "log_bound (uint l) (fcToBlock criteria) = uint stop"
    and "start \<le> stop" and "stop \<le> l"
  shows "GetLogs None lookup b criteria =
    Inr (concat (map (\<lambda>h. matching_logs criteria (read_or_nil (GetByBlockHeight P c d h))) (heights start (stop + 1))))"
proof -
  let ?r = "\<lparr>rfStart = start, rfEnd = stop, rfCriteria = criteria\<rparr>"
  have new: "NewRangeFilter start stop criteria = Inr ?r" using assms(7,10) by (simp add: NewRangeFilter_def not_less)
  have "l < - 1" using assms(5) by (rule order.strict_trans2) simp
  then have "RangeFilter_Match (BloomsForBlockRange P c d) (GetByBlockHeight P c d) lookup ?r =
      Inr (concat (map (\<lambda>h. matching_logs criteria (read_or_nil (GetByBlockHeight P c d h))) (heights start (stop + 1))))"
    using pebble_logs.match_exact [where d = d and latest = l and r = ?r and P = P and view = view and ops = ops and c = c and lookup = lookup]
      assms(2-4,10,11) by simp
  moreover have "big_Uint64 (uint w) = w" for w :: u64 by (simp add: big_Uint64_def)
  ultimately show ?thesis
    using assms(1,4,6,8,9) new by (simp add: GetLogs_def pebble_storage_def sint_small [OF assms(5)])
qed

lemma criteria_from [simp]:
  "ValidCriteriaLimits (criteria\<lparr>fcFromBlock := x\<rparr>) = ValidCriteriaLimits criteria"
  "bloomMatch L bl (criteria\<lparr>fcFromBlock := x\<rparr>) = bloomMatch L bl criteria"
  "matching_logs (criteria\<lparr>fcFromBlock := x\<rparr>) = matching_logs criteria"
  by (auto simp: ValidCriteriaLimits_def bloomMatch_def matching_logs_def ExactMatch_def fun_eq_iff)

lemma search_from [simp]:
  "rbind (NewRangeFilter a z (criteria\<lparr>fcFromBlock := x\<rparr>)) (RangeFilter_Match B R L) = rbind (NewRangeFilter a z criteria) (RangeFilter_Match B R L)"
  "rbind (NewIDFilter (criteria\<lparr>fcFromBlock := x\<rparr>)) (IDFilter_Match G R) = rbind (NewIDFilter criteria) (IDFilter_Match G R)"
  by (simp_all add: NewRangeFilter_def RangeFilter_Match_def NewIDFilter_def IDFilter_Match_def split: option.splits)

text \<open>A range of logs from the pending block is searched from block 1: the special value is the only
  one that is not replaced by the latest height.\<close>

theorem GetLogs_from_pending:
  "GetLogs limit lookup b (criteria\<lparr>fcFromBlock := Some PendingBlockNumber\<rparr>) = GetLogs limit lookup b (criteria\<lparr>fcFromBlock := Some 1\<rparr>)"
proof -
  have one: "big_Uint64 (- 1) = 1" "big_Uint64 1 = 1" by (simp_all add: big_Uint64_def)
  have bound: "log_bound l (Some PendingBlockNumber) = - 1" "log_bound l (Some 1) = 1" for l
    by (simp_all add: log_bound_def PendingBlockNumber_def EarliestBlockNumber_def)
  show ?thesis by (cases "fcBlockHash criteria") (simp_all add: GetLogs_def bound one Let_def cong: if_cong)
qed

lemma fee_loop_eq:
  assumes "\<And>j. 1 \<le> j \<Longrightarrow> j \<le> i \<Longrightarrow> st_GetByHeight S (last_h - of_nat j + 1) = Inr (blk (last_h - of_nat j + 1))"
    and "i \<le> n"
  shows "fee_loop S rw last_h n i acc =
    \<lparr>fhOldestBlock = (if i = n \<and> 0 < n then Some (sint (Height (evmBlock (blk (last_h - of_nat n + 1))))) else fhOldestBlock acc),
     fhReward = fhReward acc @ replicate i rw, fhBaseFee = fhBaseFee acc @ replicate i BaseFeePerGas,
     fhGasUsedRatio = fhGasUsedRatio acc @ map (\<lambda>j. (TotalGasUsed (evmBlock (blk (last_h - of_nat j + 1))), BlockGasLimit)) (rev [1..<Suc i])\<rparr>"
  using assms
proof (induction i arbitrary: acc)
  case 0
  then show ?case by (cases acc) auto
next
  case (Suc i)
  have "st_GetByHeight S (last_h - of_nat (Suc i) + 1) = Inr (blk (last_h - of_nat (Suc i) + 1))" using Suc.prems(1) [of "Suc i"] by (simp del: of_nat_Suc)
  moreover have IH: "fee_loop S rw last_h n i acc' = \<lparr>fhOldestBlock = fhOldestBlock acc',
     fhReward = fhReward acc' @ replicate i rw, fhBaseFee = fhBaseFee acc' @ replicate i BaseFeePerGas,
     fhGasUsedRatio = fhGasUsedRatio acc' @ map (\<lambda>j. (TotalGasUsed (evmBlock (blk (last_h - of_nat j + 1))), BlockGasLimit)) (rev [1..<Suc i])\<rparr>" for acc'
    using Suc.IH [of acc'] Suc.prems by auto
  ultimately show ?case
    by (simp add: Let_def del: of_nat_Suc)
qed

text \<open>The fee history of at most 1024 blocks is a window that ends at the last block: one entry per
  block in ascending order, and the oldest block is the first of the window.  Block 0 is never part of
  it, and an empty window has no oldest block.\<close>

theorem FeeHistory_window:
  assumes "resolveBlockNumber lastBlock (baStore b) = Inr l" and "l < 2 ^ 63" and "cnt \<le> 1024"
    and "\<forall>h. 0 < h \<and> h \<le> l \<longrightarrow> st_GetByHeight (baStore b) h = Inr (blk h) \<and> Height (evmBlock (blk h)) = h"
    and "n = min (unat cnt) (unat l)"
  shows "\<exists>r. FeeHistory None b cnt lastBlock p = Inr (Some r)
    \<and> fhOldestBlock r = (if n = 0 then None else Some (int (unat l - n + 1)))
    \<and> fhGasUsedRatio r = map (\<lambda>h. (TotalGasUsed (evmBlock (blk h)), BlockGasLimit)) (heights (l - of_nat n + 1) (l + 1))
    \<and> fhReward r = replicate n (replicate p (acGasPrice (baConfig b))) \<and> fhBaseFee r = replicate n BaseFeePerGas"
proof -
  have n: "n \<le> unat l" "unat (min cnt l) = n" using assms(5) by (auto simp: min_def word_le_nat_alt)
  have l: "unat l < 2 ^ 63" using assms(2) by (simp add: word_less_nat_alt)
  have at: "unat (l - of_nat j + 1) = unat l - j + 1" if "1 \<le> j" "j \<le> n" for j
  proof -
    have j: "unat (of_nat j :: u64) = j" using that n(1) l by (simp add: unsigned_of_nat take_bit_nat_eq_self)
    have "unat (l - of_nat j) = unat l - j" using that n(1) j by (subst unat_sub) (simp_all add: word_le_nat_alt)
    then show ?thesis using l that by (subst unat_add_lem [THEN iffD1]) simp_all
  qed
  have rd: "st_GetByHeight (baStore b) (l - of_nat j + 1) = Inr (blk (l - of_nat j + 1)) \<and> Height (evmBlock (blk (l - of_nat j + 1))) = l - of_nat j + 1"
    if "1 \<le> j" "j \<le> n" for j
    using assms(4) at [OF that] that n(1) by (simp add: word_less_nat_alt word_le_nat_alt)
  have old: "sint (l - of_nat n + 1) = int (unat l - n + 1)" if "0 < n"
  proof -
    have a: "unat (l - of_nat n + 1) = unat l - n + 1" using at [of n] that by simp
    then have "l - of_nat n + 1 < 2 ^ 63" using l that n(1) by (simp add: word_less_nat_alt)
    moreover have "uint (l - of_nat n + 1) = int (unat (l - of_nat n + 1))" by simp
    ultimately show ?thesis unfolding a by (simp only: sint_small)
  qed
  have hs: "heights (l - of_nat n + 1) (l + 1) = map (\<lambda>j. l - of_nat j + 1) (rev [1..<Suc n])"
  proof (cases "n = 0")
    case False
    have len: "unat (l + 1) - unat (l - of_nat n + 1) = n"
    proof -
      have "l \<noteq> - 1" using assms(2) by auto
      then show ?thesis using at [of n] False n(1) by (simp add: u64_unat_succ)
    qed
    show ?thesis
    proof (rule nth_equalityI)
      show "length (heights (l - of_nat n + 1) (l + 1)) = length (map (\<lambda>j. l - of_nat j + 1) (rev [1..<Suc n]))"
        using len by (simp add: heights_def)
      fix k assume "k < length (heights (l - of_nat n + 1) (l + 1))"
      then have k: "k < n" using len by (simp add: heights_def)
      have "of_nat (unat l - (n - k)) = (of_nat (unat l) - of_nat (n - k) :: u64)" using n(1) by (intro of_nat_diff) simp
      moreover have "unat l - n + 1 + k = Suc (unat l - (n - k))" using n(1) k by simp
      moreover have "rev [1..<Suc n] ! k = n - k" using k by (simp add: rev_nth del: upt_Suc)
      ultimately show "heights (l - of_nat n + 1) (l + 1) ! k = map (\<lambda>j. l - of_nat j + 1) (rev [1..<Suc n]) ! k"
        using k len at [of n] by (simp add: heights_def del: of_nat_diff upt_Suc)
    qed
  qed simp
  show ?thesis
    using fee_loop_eq [of n "baStore b" l blk n] rd old assms(1,3) n(2)
    by (auto simp: FeeHistory_def maxFeeHistoryBlockCount_def hs not_less Let_def comp_def simp del: upt_Suc)
qed

section \<open>Witnesses\<close>

definition served_block :: "u64 \<Rightarrow> Block" where
  "served_block h = (demo_block h)\<lparr>TransactionHashes := [17, 18]\<rparr>"

definition served_call :: "hash \<Rightarrow> directCall" where
  "served_call h = \<lparr>dcHash = h, dcSubType = 0, dcFrom = 4, dcTo = 5, dcData = [], dcNonce = 0, dcValue = 0, dcGasLimit = 0,
     dcTxType = 255, dcEmptyToField = False, dcSignature = (0, 0, 0)\<rparr>"

definition served_store :: storage_api where
  "served_store =
     \<lparr>st_LatestEVMHeight = Inr 2, st_GetByHeight = (\<lambda>h. Inr (served_block h)),
      st_GetByID = (\<lambda>_. Inr (served_block 2)), st_GetHeightByID = (\<lambda>_. Inr 2),
      st_GetByBlockHeight = (\<lambda>_. Inr [demo_receipt 17, demo_receipt 18]), st_GetByTransactionID = (\<lambda>h. Inr (demo_receipt h)),
      st_BloomsForBlockRange = (\<lambda>_ _. Inr []), st_GetTransaction = (\<lambda>h. Ret (Inr (DirectCall (served_call h))))\<rparr>"

definition served_api :: "storage_api \<Rightarrow> (unit, unit) BlockChainAPI" where
  "served_api S = \<lparr>baConfig = \<lparr>acIndexOnly = False, acCoinbase = 1, acGasPrice = 1, acEVMNetworkID = 747\<rparr>,
     baCodec = (ref_codec [served_block 2] [] [] []),
     baGeth = \<lparr>gxAccessList = (\<lambda>_. []), gxBlobGasFeeCap = (\<lambda>_. None), gxBlobHashes = (\<lambda>_. []), gxSetCodeAuthorizations = (\<lambda>_. []), gxSize = (\<lambda>_. 0)\<rparr>,
     baExt = \<lparr>axEmptyBloom = 0, axMergeBloom = (\<lambda>_. 3), axCoinbaseAddress = 3, axEmptyUncleHash = 0, axListSize = (\<lambda>n. n + 1),
       axIsAmsterdam = (\<lambda>_ _. False), axSlotNumber = (\<lambda>_. 0)\<rparr>,
     baEvm = demo_evm, baStore = S, indexingResumedHeight = 0\<rparr>"

lemma served_reads:
  "resolveBlockNumber (- 2) served_store = Inr 2" "st_GetByHeight served_store h = Inr (served_block h)"
  "Height (evmBlock (served_block h)) = h" "TransactionHashes (served_block h) = [17, 18]"
  "st_GetByID served_store k = Inr (served_block 2)" "rTxHash (demo_receipt k) = k" "rGasUsed (demo_receipt k) = 21000"
  "st_GetByBlockHeight served_store h = Inr [demo_receipt 17, demo_receipt 18]" "st_GetByTransactionID served_store k = Inr (demo_receipt k)"
  "st_GetTransaction served_store k = Ret (Inr (DirectCall (served_call k)))" "dcHash (served_call k) = k" "baStore (served_api S) = S"
  by (simp_all add: served_store_def resolveBlockNumber_def EarliestBlockNumber_def SafeBlockNumber_def FinalizedBlockNumber_def
      LatestBlockNumber_def served_block_def demo_block_def demo_receipt_def served_call_def served_api_def)

lemma served_codec:
  "Hash (baCodec (served_api S)) (served_block 2) = Inr 3" "ToBytes (baCodec (served_api S)) (served_block 2) = Inr [0]"
  by (simp_all add: served_api_def Hash_def ToBytes_def ref_codec_def encode_in_def served_block_def demo_block_def)

lemma GetBlockByNumber_complete_witness:
  "\<exists>resp. GetBlockByNumber None (served_api served_store) (- 2) True = Ret (Inr (Some resp)) \<and> ebHash resp = 3 \<and> ebGasUsed resp = 42000"
proof -
  let ?b = "served_api served_store"
  have "resolveBlockNumber (- 2) (baStore ?b) = Inr 2" "st_GetByHeight (baStore ?b) 2 = Inr (served_block 2)"
    "st_GetByBlockHeight (baStore ?b) (Height (evmBlock (served_block 2))) = Inr [demo_receipt 17, demo_receipt 18]"
    "\<forall>r \<in> set [demo_receipt 17, demo_receipt 18]. \<exists>tx from. st_GetTransaction (baStore ?b) (rTxHash r) = Ret (Inr tx) \<and> tx_Hash tx = rTxHash r
       \<and> From (baCodec ?b) tx = Inr from"
    by (simp_all add: served_reads)
  from GetBlockByNumber_complete [OF this(1,2) served_codec this(3,4), of True] show ?thesis
    by (auto simp: served_reads)
qed

lemma served_block_response: "\<exists>resp. GetBlockByNumber None (served_api served_store) (- 2) True = Ret (Inr (Some resp))"
proof -
  let ?b = "served_api served_store" and ?rs = "[demo_receipt 17, demo_receipt 18]"
  have "\<exists>t. tx_of_receipt ?b r t" for r
    by (simp add: tx_of_receipt_def served_reads NewTransactionResult_def NewTransaction_def Let_def split: prod.splits)
  then obtain txs where "list_all2 (tx_of_receipt ?b) ?rs txs" using fetch_exists [of ?rs ?b] by blast
  from prepareBlockResponse_eq [OF served_codec _ this] show ?thesis
    by (simp add: GetBlockByNumber_def served_reads)
qed

lemma transaction_endpoints_agree_witness:
  "GetTransactionByBlockNumberAndIndex None (served_api served_store) (- 2) 1 = GetTransactionByHash None (served_api served_store) 18"
proof -
  let ?b = "served_api served_store" and ?rs = "[demo_receipt 17, demo_receipt 18]"
  obtain resp where r: "GetBlockByNumber None ?b (- 2) True = Ret (Inr (Some resp))" using served_block_response by blast
  show ?thesis
    using transaction_endpoints_agree [OF r, of 2 "served_block 2" 3 ?rs 1] by (auto simp: served_reads)
qed

lemma huge_index_panics_witness:
  "GetTransactionByBlockHashAndIndex None (served_api served_store) 3 (2 ^ 63) = Panics ''index out of range''"
  using huge_index_panics [of "served_api served_store" 3 "served_block 2" "2 ^ 63"] by (simp add: served_reads)

lemma GetLogs_exact_witness:
  "\<exists>logs. GetLogs None log_lookup (served_api (pebble_storage mem_pebble receipts_codec undefined log_db)) log_criteria = Inr logs
     \<and> map lIndex logs = [0, 1, 2, 3]"
proof -
  let ?b = "served_api (pebble_storage mem_pebble receipts_codec undefined log_db)"
  have latest: "LatestEVMHeight mem_pebble log_db = Inr 2"
    by (simp add: LatestEVMHeight_def latestEVMHeight_def storage_get_view [OF mem_pebble_ok] log_db_def)
  have crit: "fcBlockHash log_criteria = None" "ValidCriteriaLimits log_criteria"
    "log_bound (uint (2 :: u64)) (fcFromBlock log_criteria) = uint (2 :: u64)" "log_bound (uint (2 :: u64)) (fcToBlock log_criteria) = uint (2 :: u64)"
    by (simp_all add: log_criteria_def ValidCriteriaLimits_def LogQueryLimit_def log_bound_def LatestBlockNumber_def EarliestBlockNumber_def PendingBlockNumber_def)
  have hs: "heights 2 (2 + 1) = [2]" by (simp add: heights_Cons)
  have "baStore ?b = pebble_storage mem_pebble receipts_codec undefined log_db" by (simp add: served_reads)
  from GetLogs_exact [OF this mem_pebble_ok log_db_ok latest _ crit] show ?thesis
    unfolding hs by (simp add: log_reads read_or_nil_def matching_logs_def demo_receipt_def demo_log_def fill_log_def ExactMatch_iff log_criteria_def)
qed

lemma FeeHistory_window_witness:
  "\<exists>r. FeeHistory None (served_api served_store) 5 (- 2) 1 = Inr (Some r) \<and> fhOldestBlock r = Some 1 \<and> fhBaseFee r = [1, 1]"
proof -
  have "\<forall>h. 0 < h \<and> h \<le> (2 :: u64) \<longrightarrow> st_GetByHeight (baStore (served_api served_store)) h = Inr (served_block h)
      \<and> Height (evmBlock (served_block h)) = h"
    by (simp add: served_reads)
  moreover have "resolveBlockNumber (- 2) (baStore (served_api served_store)) = Inr 2" by (simp add: served_reads)
  ultimately obtain r where r: "FeeHistory None (served_api served_store) 5 (- 2) 1 = Inr (Some r)"
    "fhOldestBlock r = Some (int (unat (2 :: u64) - 2 + 1))" "fhBaseFee r = replicate 2 BaseFeePerGas"
    using FeeHistory_window [of "- 2" "served_api served_store" 2 5 served_block 2 1] by fastforce
  have "replicate 2 BaseFeePerGas = [1, 1]" unfolding BaseFeePerGas_def by code_simp
  then have "fhBaseFee r = [1, 1]" using r(3) by (rule trans [rotated])
  moreover have "fhOldestBlock r = Some 1" using r(2) by simp
  ultimately show ?thesis using r(1) by (intro exI [of _ r] conjI)
qed

end
