(* ===== verification/Stream_Api.thy ===== *)
theory Stream_Api
  imports Blockchain_Api Sync_Models
begin

text \<open>
  The subscriptions of \<^verbatim>\<open>api/stream.go\<close>, the wallet of \<^verbatim>\<open>api/wallet.go\<close> and the answers of
  \<^verbatim>\<open>api/net.go\<close>, \<^verbatim>\<open>api/pool.go\<close> and \<^verbatim>\<open>api/web3.go\<close>.  The notifier of the RPC server is a function from what
  it is given to send to its error; a callback returns its error and what it sent.
\<close>

section \<open>Subscriptions\<close>

record eth_BlockHeader =
  ehNumber :: u64
  ehHash :: hash
  ehParentHash :: hash
  ehNonce :: bytes
  ehSha3Uncles :: hash
  ehLogsBloom :: bloom
  ehTransactionsRoot :: hash
  ehReceiptsRoot :: hash
  ehMiner :: address
  ehGasLimit :: u64
  ehGasUsed :: u64
  ehTimestamp :: u64

definition prepareBlockHeader :: "('ev, 'v) BlockChainAPI \<Rightarrow> Block \<Rightarrow> err + eth_BlockHeader" where
  "prepareBlockHeader s block =
     rbind (Hash (baCodec s) block) (\<lambda>h.
     let eb = evmBlock block;
         blockHeader = \<lparr>ehNumber = Height eb, ehHash = h, ehParentHash = ParentBlockHash eb, ehNonce = [1, 0, 0, 0, 0, 0, 0, 0],
           ehSha3Uncles = axEmptyUncleHash (baExt s), ehLogsBloom = axEmptyBloom (baExt s), ehTransactionsRoot = TransactionHashRoot eb,
           ehReceiptsRoot = ReceiptRoot eb, ehMiner = axCoinbaseAddress (baExt s), ehGasLimit = BlockGasLimit, ehGasUsed = 0,
           ehTimestamp = Timestamp eb\<rparr>
     in rbind (st_GetByBlockHeight (baStore s) (Height eb)) (\<lambda>receipts.
        Inr (if length receipts > 0
             then (let (totalGasUsed, gethReceipts) =
                     fold (\<lambda>receipt (g, rs). (g + rGasUsed receipt, rs @ [ToGethReceipt receipt])) receipts (0, [])
                   in blockHeader\<lparr>ehGasUsed := totalGasUsed, ehLogsBloom := axMergeBloom (baExt s) gethReceipts\<rparr>)
             else blockHeader)))"

text \<open>The callbacks.\<close>

definition heads_callback ::
    "('ev, 'v) BlockChainAPI \<Rightarrow> (eth_BlockHeader \<Rightarrow> err option) \<Rightarrow> Block \<Rightarrow> err option \<times> eth_BlockHeader list" where
  "heads_callback s notify block = (case prepareBlockHeader s block of
      Inl e \<Rightarrow> (Some (Errorf ''failed to get block header response: %w'' [] [e]), [])
    | Inr blockHeader \<Rightarrow> (notify blockHeader, [blockHeader]))"

datatype pending_item = FullTransaction gethTx | TransactionHash hash

definition pending_callback :: "bool option \<Rightarrow> (pending_item \<Rightarrow> err option) \<Rightarrow> gethTx \<Rightarrow> err option \<times> pending_item list" where
  "pending_callback fullTx notify tx =
     (let item = (if fullTx = Some True then FullTransaction tx else TransactionHash (gtHash tx)) in (notify item, [item]))"

fun logs_callback :: "FilterCriteria \<Rightarrow> (Log \<Rightarrow> err option) \<Rightarrow> Log list \<Rightarrow> err option \<times> Log list" where
  "logs_callback criteria notify [] = (None, [])"
| "logs_callback criteria notify (l # ls) =
     (if \<not> ExactMatch l criteria then logs_callback criteria notify ls
      else case notify l of
        Some e \<Rightarrow> (Some e, [l])
      | None \<Rightarrow> (let (r, sent) = logs_callback criteria notify ls in (r, l # sent)))"

text \<open>
  \<open>newSubscription\<close>: \<open>supported\<close> tells whether the connection has a notifier, \<open>i\<close> is the new subscription.
\<close>

definition newSubscription :: "bool \<Rightarrow> nat \<Rightarrow> ('a \<Rightarrow> err option) \<Rightarrow> 'a Publisher \<Rightarrow> (err + nat) \<times> 'a Publisher" where
  "newSubscription supported i cb publisher =
     (if \<not> supported then (Inl (New_err ''notifications not supported''), publisher)
      else (Inr i, Subscribe i (NewSubscription cb) publisher))"

text \<open>The goroutine of a subscription: an error of the callback or of the client ends it.\<close>

definition subscription_watch :: "bool \<Rightarrow> nat \<Rightarrow> 'a Publisher \<Rightarrow> 'a Publisher" where
  "subscription_watch client_gone i publisher =
     (if client_gone \<or> (\<exists>s. map_of publisher i = Some s \<and> sub_err s \<noteq> []) then Unsubscribe i publisher else publisher)"

definition NewHeads ::
    "bool \<Rightarrow> nat \<Rightarrow> ('ev, 'v) BlockChainAPI \<Rightarrow> (eth_BlockHeader \<Rightarrow> err option) \<Rightarrow> Block Publisher \<Rightarrow> (err + nat) \<times> Block Publisher" where
  "NewHeads supported i s notify publisher = newSubscription supported i (\<lambda>block. fst (heads_callback s notify block)) publisher"

definition NewPendingTransactions ::
    "bool \<Rightarrow> nat \<Rightarrow> bool option \<Rightarrow> (pending_item \<Rightarrow> err option) \<Rightarrow> gethTx Publisher \<Rightarrow> (err + nat) \<times> gethTx Publisher" where
  "NewPendingTransactions supported i fullTx notify publisher =
     newSubscription supported i (\<lambda>tx. fst (pending_callback fullTx notify tx)) publisher"

definition Logs ::
    "bool \<Rightarrow> nat \<Rightarrow> FilterCriteria \<Rightarrow> (Log \<Rightarrow> err option) \<Rightarrow> Log list Publisher \<Rightarrow> (err + nat) \<times> Log list Publisher" where
  "Logs supported i criteria notify publisher =
     (if \<not> ValidCriteriaLimits criteria then (Inl ErrExceedLogQueryLimit, publisher)
      else newSubscription supported i (\<lambda>ls. fst (logs_callback criteria notify ls)) publisher)"

section \<open>The wallet\<close>

text \<open>
  The key of the configuration with the operations of go-ethereum's \<^verbatim>\<open>crypto\<close>, \<^verbatim>\<open>accounts\<close> and \<^verbatim>\<open>types\<close>:
  the address, the hash of a message, a plain signature, and a signed transaction in its binary form.
\<close>

record 'stx wallet =
  waAddress :: address
  waTextHash :: "bytes \<Rightarrow> hash"
  waSign :: "hash \<Rightarrow> err + bytes"
  waSignTx :: "TxData \<Rightarrow> err + 'stx"
  waMarshalBinary :: "'stx \<Rightarrow> err + bytes"

definition Accounts :: "'stx wallet \<Rightarrow> address list" where
  "Accounts w = [waAddress w]"

definition wallet_Sign :: "'stx wallet \<Rightarrow> bytes \<Rightarrow> err + bytes" where
  "wallet_Sign w data = rbind (waSign w (waTextHash w data)) (\<lambda>signature. Inr (signature[64 := signature ! 64 + 27]))"

definition SignTransaction ::
    "err option \<Rightarrow> 'stx wallet \<Rightarrow> ('ev, 'v) BlockChainAPI \<Rightarrow> TransactionArgs \<Rightarrow> (err + (bytes \<times> TxData)) exec" where
  "SignTransaction limit w net args =
     (case taGas args of
        None \<Rightarrow> Ret (Inl (New_err ''gas not specified''))
      | Some gas \<Rightarrow>
         if taGasPrice args = None \<and> (taMaxPriorityFeePerGas args = None \<or> taMaxFeePerGas args = None)
         then Ret (Inl (New_err ''missing gasPrice or maxFeePerGas/maxPriorityFeePerGas''))
         else ebind (go_index (Accounts w) 0) (\<lambda>sender.
           step_exec
             (case taNonce args of
                Some n \<Rightarrow> Ret (Inr n)
              | None \<Rightarrow> step (GetTransactionCount limit net sender latestBlockNumberOrHash) (\<lambda>n.
                  ebind (deref n) (\<lambda>nonce. Ret (Inr nonce))))
             (\<lambda>nonce.
              let data = (case taData args of Some d \<Rightarrow> d | None \<Rightarrow> []);
                  tx = LegacyTx (taTo args) nonce gas (taGasPrice args) (taValue args) data
              in step (rwrap (\<lambda>e. Errorf ''error signing EVM transaction: %w'' [] [e]) (waSignTx w tx)) (\<lambda>signed.
                 step (waMarshalBinary w signed) (\<lambda>raw. Ret (Inr (raw, tx)))))))"

definition SendTransaction ::
    "err option \<Rightarrow> 'stx wallet \<Rightarrow> ('ev, 'v) BlockChainAPI \<Rightarrow> (address \<Rightarrow> 'l \<Rightarrow> (err + bool) \<times> 'l) \<Rightarrow> (gethTx \<Rightarrow> 'p \<Rightarrow> err option \<times> 'p)
      \<Rightarrow> TransactionArgs \<Rightarrow> 'l \<times> 'p \<Rightarrow> ((err + hash) \<times> 'l \<times> 'p) exec" where
  "SendTransaction limit w net takeToken addTx args st =
     ebind (SignTransaction limit w net args) (\<lambda>r. case r of
       Inl e \<Rightarrow> Ret (Inl e, st)
     | Inr (raw, _) \<Rightarrow> Ret (api_SendRawTransaction limit net takeToken addTx raw st))"

section \<open>Other namespaces\<close>

definition Listening :: bool where "Listening = True"
definition PeerCount :: u64 where "PeerCount = 1"
definition pool_Status :: "(string, u64) gomap" where "pool_Status = [(''pending'', 0), (''queued'', 0)]"
definition ClientVersion :: "string \<Rightarrow> string" where "ClientVersion Version = ''flow-evm-gateway@'' @ Version"
definition Sha3 :: "(bytes \<Rightarrow> bytes) \<Rightarrow> bytes \<Rightarrow> bytes" where "Sha3 Keccak256 input = Keccak256 input"

section \<open>Properties\<close>

lemma header_totals:
  "fold (\<lambda>receipt (g, rs). (g + rGasUsed receipt, rs @ [ToGethReceipt receipt])) receipts (g, rs) =
     (g + (\<Sum>r \<leftarrow> receipts. rGasUsed r), rs @ map ToGethReceipt receipts)"
  by (induction receipts arbitrary: g rs) (auto simp: algebra_simps)

text \<open>A header that is streamed is the header of the block that the request endpoints serve: whenever
  the block response exists, the two agree on every field they share.\<close>

theorem streamed_header_agrees:
  assumes "prepareBlockResponse s block fullTx = Ret (Inr resp)"
  shows "\<exists>hdr. prepareBlockHeader s block = Inr hdr
    \<and> ehNumber hdr = ebNumber resp \<and> ehHash hdr = ebHash resp \<and> ehParentHash hdr = ebParentHash resp
    \<and> ehLogsBloom hdr = ebLogsBloom resp \<and> ehGasUsed hdr = ebGasUsed resp \<and> ehGasLimit hdr = ebGasLimit resp
    \<and> ehTransactionsRoot hdr = ebTransactionsRoot resp \<and> ehReceiptsRoot hdr = ebReceiptsRoot resp
    \<and> ehMiner hdr = ebMiner resp \<and> ehTimestamp hdr = ebTimestamp resp \<and> ehNonce hdr = ebNonce resp \<and> ehSha3Uncles hdr = ebSha3Uncles resp"
proof -
  obtain h bytes rs txs where ok: "Hash (baCodec s) block = Inr h" "ToBytes (baCodec s) block = Inr bytes"
    "st_GetByBlockHeight (baStore s) (Height (evmBlock block)) = Inr rs" "list_all2 (tx_of_receipt s) rs txs"
    using assms unfolding prepareBlockResponse_def by (auto simp: gw_result fetch_iff)
  from prepareBlockResponse_eq [OF ok, of fullTx] assms ok(1,3) show ?thesis
    by (auto simp: prepareBlockHeader_def header_totals block_header_def Let_def)
qed

lemma logs_callback_ok:
  assumes "\<And>l. l \<in> set ls \<Longrightarrow> notify l = None"
  shows "logs_callback criteria notify ls = (None, filter (\<lambda>l. ExactMatch l criteria) ls)"
  using assms by (induction ls) auto

text \<open>What the callback of a subscription of logs gave to the notifier in all its calls.\<close>

definition sent_logs :: "FilterCriteria \<Rightarrow> (Log \<Rightarrow> err option) \<Rightarrow> Log list Subscription \<Rightarrow> Log list" where
  "sent_logs criteria notify s = concat (map (\<lambda>ls. snd (logs_callback criteria notify ls)) (sub_calls s))"


text \<open>The wallet signs a legacy transaction whatever fees the arguments name: with only the fees of a
  dynamic fee transaction the signed transaction has no gas price, and the calldata of the field
  \<^verbatim>\<open>input\<close> is left out.\<close>

theorem wallet_ignores_dynamic_fees:
  assumes "taGas args = Some gas" and "taGasPrice args = None" and "taMaxFeePerGas args = Some f" and "taMaxPriorityFeePerGas args = Some t"
    and "taNonce args = Some n" and "taData args = None" and "taInput args = Some d"
    and "SignTransaction limit w net args = Ret (Inr (raw, tx))"
  shows "tx = LegacyTx (taTo args) n gas None (taValue args) []"
  using assms by (auto simp: SignTransaction_def go_index_def Accounts_def gw_result Let_def)

text \<open>The wallet panics when it looks up the nonce and the state of the latest block is not found: the
  endpoint answers nil without an error, and the answer is dereferenced.\<close>

theorem wallet_nonce_panics:
  assumes "taGas args = Some gas" and "taGasPrice args = Some p" and "taNonce args = None"
    and "rbind (st_LatestEVMHeight (baStore net)) (EVM_GetNonce (baEvm net) (waAddress w)) = Inl e" and "errors_Is e ErrEntityNotFound"
  shows "\<exists>m. SignTransaction None w net args = Panics m"
proof -
  have "resolveBlockTag (Some latestBlockNumberOrHash) (baStore net) = st_LatestEVMHeight (baStore net)"
    by (simp add: latestBlockNumberOrHash_def resolveBlockTag_def resolveBlockNumber_def LatestBlockNumber_def EarliestBlockNumber_def)
  then have "GetTransactionCount None net (waAddress w) latestBlockNumberOrHash = Inr None"
    using assms(4,5)
    by (cases "st_LatestEVMHeight (baStore net)") (auto simp: GetTransactionCount_def handled_def handleError_cases)
  with assms(1-3) show ?thesis by (simp add: SignTransaction_def go_index_def Accounts_def deref_def)
qed

section \<open>Witnesses\<close>

lemma streamed_header_agrees_witness:
  "\<exists>hdr. prepareBlockHeader (served_api served_store) (served_block 2) = Inr hdr \<and> ehHash hdr = 3 \<and> ehGasUsed hdr = 42000"
proof -
  let ?b = "served_api served_store" and ?rs = "[demo_receipt 17, demo_receipt 18]"
  have "\<exists>t. tx_of_receipt ?b r t" for r
    by (simp add: tx_of_receipt_def served_reads NewTransactionResult_def NewTransaction_def Let_def split: prod.splits)
  then obtain txs where "list_all2 (tx_of_receipt ?b) ?rs txs" using fetch_exists [of ?rs ?b] by blast
  from prepareBlockResponse_eq [OF served_codec _ this] have
    "prepareBlockResponse ?b (served_block 2) False = Ret (Inr ((block_header ?b (served_block 2) 3)
      \<lparr>ebLogsBloom := 3, ebSize := axListSize (baExt ?b) (axListSize (baExt ?b) 1 + (\<Sum>t \<leftarrow> txs. etSize t)), ebGasUsed := 42000,
       ebTransactions := TxHashes [17, 18]\<rparr>))"
    by (simp add: served_reads) (simp add: served_api_def)
  from streamed_header_agrees [OF this] show ?thesis by (auto simp: block_header_def Let_def)
qed


definition demo_wallet :: "TxData wallet" where
  "demo_wallet = \<lparr>waAddress = 9, waTextHash = (\<lambda>_. 0), waSign = (\<lambda>_. Inr (replicate 65 0)), waSignTx = Inr, waMarshalBinary = (\<lambda>_. Inr [1])\<rparr>"

lemma wallet_ignores_dynamic_fees_witness:
  "SignTransaction None demo_wallet (served_api served_store)
      (no_args\<lparr>taGas := Some 21000, taMaxFeePerGas := Some 5, taMaxPriorityFeePerGas := Some 5, taNonce := Some 1, taInput := Some [1]\<rparr>) =
    Ret (Inr ([1], LegacyTx None 1 21000 None None []))"
proof -
  let ?a = "no_args\<lparr>taGas := Some 21000, taMaxFeePerGas := Some 5, taMaxPriorityFeePerGas := Some 5, taNonce := Some 1, taInput := Some [1]\<rparr>"
  obtain raw tx where r: "SignTransaction None demo_wallet (served_api served_store) ?a = Ret (Inr (raw, tx))" "raw = [1]"
    by (simp add: SignTransaction_def no_args_def go_index_def Accounts_def demo_wallet_def)
  from wallet_ignores_dynamic_fees [OF _ _ _ _ _ _ _ r(1)] r show ?thesis by (simp add: no_args_def)
qed

lemma wallet_nonce_panics_witness:
  "\<exists>m. SignTransaction None demo_wallet (served_api (served_store\<lparr>st_LatestEVMHeight := Inl ErrEntityNotFound\<rparr>))
     (no_args\<lparr>taGas := Some 21000, taGasPrice := Some 1\<rparr>) = Panics m"
proof (rule wallet_nonce_panics)
  show "rbind (st_LatestEVMHeight (baStore (served_api (served_store\<lparr>st_LatestEVMHeight := Inl ErrEntityNotFound\<rparr>))))
      (EVM_GetNonce (baEvm (served_api (served_store\<lparr>st_LatestEVMHeight := Inl ErrEntityNotFound\<rparr>))) (waAddress demo_wallet)) = Inl ErrEntityNotFound"
    by (simp add: served_reads)
qed (simp_all add: no_args_def)

end
