(* ===== verification/Debug_Api.thy ===== *)
theory Debug_Api
  imports Blockchain_Api
begin

text \<open>
  The traces of \<^verbatim>\<open>api/debug.go\<close> and the executor they replay a block with, \<^verbatim>\<open>services/evm/executor.go\<close>.
  The emulator, the block contexts and the tracers are flow-go and go-ethereum code and the fields of a
  record; what a tracer has recorded is part of the state the emulator works on.
\<close>

section \<open>The executor\<close>

record exec_result =
  xrValidationError :: "err option"
  xrGasConsumed :: u64

record ('c, 'p) exec_context =
  xcContext :: 'c
  TxCountSoFar :: u64
  TotalGasUsedSoFar :: u64
  ExtraPrecompiledContracts :: "'p option"

record TraceConfig =
  tcTracer :: "string option"
  tcTracerConfig :: bytes

record trace_context =
  tcBlockHash :: hash
  tcBlockNumber :: int
  tcTxIndex :: int
  tcTxHash :: hash

record ('s, 't, 'c, 'p) trace_env =
  te_NewBlockContext :: "u64 \<Rightarrow> u64 \<Rightarrow> (u64 \<Rightarrow> hash) \<Rightarrow> hash \<Rightarrow> 't option \<Rightarrow> err + 'c"
  te_PrecompileCalls :: "bytes \<Rightarrow> err + 'p"
  te_NewBlockView :: "('c, 'p) exec_context \<Rightarrow> 's \<Rightarrow> err option"
  te_DirectCall :: "('c, 'p) exec_context \<Rightarrow> directCall \<Rightarrow> 's \<Rightarrow> (err + exec_result) \<times> 's"
  te_RunTransaction :: "('c, 'p) exec_context \<Rightarrow> gethTx \<Rightarrow> 's \<Rightarrow> (err + exec_result) \<times> 's"
  te_GetSnapshotAt :: "u64 \<Rightarrow> err + 's"
  te_NewStructLogger :: "TraceConfig \<Rightarrow> 't"
  te_NewTracer :: "string \<Rightarrow> trace_context \<Rightarrow> bytes \<Rightarrow> err + 't"
  te_GetResult :: "'t \<Rightarrow> 's \<Rightarrow> err + bytes"

record 's BlockExecutor =
  xeBlock :: Block
  txIndex :: u64
  gasUsed :: u64
  xeLedger :: 's

definition NewBlockExecutor :: "Block \<Rightarrow> 's \<Rightarrow> 's BlockExecutor" where
  "NewBlockExecutor block ledger = \<lparr>xeBlock = block, txIndex = 0, gasUsed = 0, xeLedger = ledger\<rparr>"

definition executor_hash :: "'ev codec \<Rightarrow> storage_api \<Rightarrow> u64 \<Rightarrow> hash" where
  "executor_hash c S n = (case rbind (st_GetByHeight S n) (Hash c) of Inl _ \<Rightarrow> 0 | Inr h \<Rightarrow> h)"

definition blockContext ::
    "('s, 't, 'c, 'p) trace_env \<Rightarrow> 'ev codec \<Rightarrow> storage_api \<Rightarrow> 's BlockExecutor \<Rightarrow> Receipt option \<Rightarrow> 't option \<Rightarrow> err + ('c, 'p) exec_context" where
  "blockContext E c S s receipt tracer =
     (let eb = evmBlock (xeBlock s) in
      rbind (te_NewBlockContext E (Height eb) (Timestamp eb) (executor_hash c S) (PrevRandao eb) tracer) (\<lambda>x.
      let ctx = \<lparr>xcContext = x, TxCountSoFar = txIndex s, TotalGasUsedSoFar = gasUsed s, ExtraPrecompiledContracts = None\<rparr> in
      case receipt of
        None \<Rightarrow> Inr ctx
      | Some r \<Rightarrow> rbind (te_PrecompileCalls E (rPrecompiledCalls r)) (\<lambda>calls.
          Inr (ctx\<lparr>ExtraPrecompiledContracts := Some calls\<rparr>))))"

definition executor_Run ::
    "('s, 't, 'c, 'p) trace_env \<Rightarrow> 'ev codec \<Rightarrow> storage_api \<Rightarrow> Transaction \<Rightarrow> Receipt \<Rightarrow> 't option \<Rightarrow> 's BlockExecutor
      \<Rightarrow> err option \<times> 's BlockExecutor" where
  "executor_Run E c S tx receipt tracer s =
     (case blockContext E c S s (Some receipt) tracer of
        Inl e \<Rightarrow> (Some e, s)
      | Inr ctx \<Rightarrow>
         (case te_NewBlockView E ctx (xeLedger s) of
            Some e \<Rightarrow> (Some e, s)
          | None \<Rightarrow>
             (let (res, ledger) = (case tx of
                  DirectCall dc \<Rightarrow> te_DirectCall E ctx dc (xeLedger s)
                | TransactionCall tc \<Rightarrow> te_RunTransaction E ctx tc (xeLedger s));
                  s1 = s\<lparr>xeLedger := ledger\<rparr>
              in case res of
                Inl e \<Rightarrow> (Some e, s1)
              | Inr res \<Rightarrow>
                 (case xrValidationError res of
                    Some e \<Rightarrow> (Some (Errorf ''invalid transaction %s: %w'' [FNum (unat (tx_Hash tx))] [e]), s1)
                  | None \<Rightarrow>
                     (let s2 = s1\<lparr>gasUsed := gasUsed s1 + xrGasConsumed res, txIndex := txIndex s1 + 1\<rparr> in
                      if xrGasConsumed res \<noteq> rGasUsed receipt
                      then (Some (Errorf ''used gas mismatch, expected: %d, got: %d''
                             [FNum (unat (rGasUsed receipt)), FNum (unat (xrGasConsumed res))] []), s2)
                      else (None, s2))))))"

section \<open>Traces\<close>

definition tracerForReceipt ::
    "('s, 't, 'c, 'p) trace_env \<Rightarrow> TraceConfig option \<Rightarrow> Receipt option \<Rightarrow> err + 't" where
  "tracerForReceipt E config receipt =
     (let cfg = (case config of Some x \<Rightarrow> x | None \<Rightarrow> \<lparr>tcTracer = None, tcTracerConfig = []\<rparr>);
          tracerCtx = (case receipt of
              None \<Rightarrow> \<lparr>tcBlockHash = 0, tcBlockNumber = 0, tcTxIndex = 0, tcTxHash = 0\<rparr>
            | Some r \<Rightarrow> \<lparr>tcBlockHash = rBlockHash r, tcBlockNumber = rBlockNumber r, tcTxIndex = sint (rTransactionIndex r), tcTxHash = rTxHash r\<rparr>)
      in case tcTracer cfg of
           None \<Rightarrow> Inr (te_NewStructLogger E cfg)
         | Some name \<Rightarrow> te_NewTracer E name tracerCtx (tcTracerConfig cfg))"

definition executorAtBlock :: "('s, 't, 'c, 'p) trace_env \<Rightarrow> Block \<Rightarrow> err + 's BlockExecutor" where
  "executorAtBlock E block =
     rbind (rwrap (\<lambda>e. Errorf ''failed to get register snapshot at block height %d: %w'' [FNum (unat (Height (evmBlock block)))] [e])
       (te_GetSnapshotAt E (Height (evmBlock block)))) (\<lambda>snapshot. Inr (NewBlockExecutor block snapshot))"

text \<open>The loop over the transaction hashes: it stops after the transaction to trace.\<close>

fun trace_loop ::
    "('s, 't, 'c, 'p) trace_env \<Rightarrow> 'ev codec \<Rightarrow> storage_api \<Rightarrow> hash \<Rightarrow> 't \<Rightarrow> u64 \<Rightarrow> (hash \<rightharpoonup> Receipt) \<Rightarrow> hash list \<Rightarrow> 's BlockExecutor
      \<Rightarrow> (err + bytes) exec" where
  "trace_loop E c S hsh tracer height receiptsByHash [] ex =
     Ret (Inl (Errorf ''failed to trace transaction with hash: %s'' [FNum (unat hsh)] []))"
| "trace_loop E c S hsh tracer height receiptsByHash (h # hs) ex =
     step_exec (st_GetTransaction S h) (\<lambda>tx.
     case receiptsByHash h of
       None \<Rightarrow> Ret (Inl (Errorf ''missing receipt for tx %s in block %d'' [FNum (unat h), FNum (unat height)] []))
     | Some txReceipt \<Rightarrow>
        (case executor_Run E c S tx txReceipt (if h = hsh then Some tracer else None) ex of
           (Some e, _) \<Rightarrow> Ret (Inl e)
         | (None, ex') \<Rightarrow>
            if h = hsh then Ret (te_GetResult E tracer (xeLedger ex'))
            else trace_loop E c S hsh tracer height receiptsByHash hs ex'))"

definition traceTransaction ::
    "('s, 't, 'c, 'p) trace_env \<Rightarrow> 'ev codec \<Rightarrow> storage_api \<Rightarrow> hash \<Rightarrow> TraceConfig option \<Rightarrow> (err + bytes) exec" where
  "traceTransaction E c S hsh config =
     step (st_GetByTransactionID S hsh) (\<lambda>receipt.
     step (st_GetByHeight S (big_Uint64 (rBlockNumber receipt))) (\<lambda>block.
     step (executorAtBlock E block) (\<lambda>blockExecutor.
     step (tracerForReceipt E config (Some receipt)) (\<lambda>tracer.
     step (st_GetByBlockHeight S (Height (evmBlock block))) (\<lambda>blockReceipts.
     let receiptsByHash = fold (\<lambda>r m. m(rTxHash r \<mapsto> r)) blockReceipts Map.empty in
     trace_loop E c S hsh tracer (Height (evmBlock block)) receiptsByHash (TransactionHashes block) blockExecutor)))))"

definition TraceTransaction ::
    "err option \<Rightarrow> ('s, 't, 'c, 'p) trace_env \<Rightarrow> 'ev codec \<Rightarrow> storage_api \<Rightarrow> hash \<Rightarrow> TraceConfig option \<Rightarrow> (err + bytes) exec" where
  "TraceTransaction limit E c S hsh config = limited_exec limit (traceTransaction E c S hsh config)"

record txTraceResult =
  trTxHash :: hash
  trOutcome :: "err + bytes"

text \<open>The loop over the receipts: an entry beyond the results, one per transaction hash, panics.\<close>

fun trace_block_loop ::
    "('s, 't, 'c, 'p) trace_env \<Rightarrow> 'ev codec \<Rightarrow> storage_api \<Rightarrow> TraceConfig option \<Rightarrow> nat \<Rightarrow> Receipt list \<Rightarrow> 's BlockExecutor
      \<Rightarrow> txTraceResult option list \<Rightarrow> (err + txTraceResult option list) exec" where
  "trace_block_loop E c S config i [] ex results = Ret (Inr results)"
| "trace_block_loop E c S config i (receipt # rs) ex results =
     step_exec (st_GetTransaction S (rTxHash receipt)) (\<lambda>tx.
     step (tracerForReceipt E config (Some receipt)) (\<lambda>tracer.
     let (r, ex') = executor_Run E c S tx receipt (Some tracer) ex;
         outcome = (case r of Some e \<Rightarrow> Inl e | None \<Rightarrow> te_GetResult E tracer (xeLedger ex'))
     in if i < length results
        then trace_block_loop E c S config (Suc i) rs ex' (results[i := Some \<lparr>trTxHash = rTxHash receipt, trOutcome = outcome\<rparr>])
        else Panics ''index out of range''))"

definition traceBlockByNumber ::
    "('s, 't, 'c, 'p) trace_env \<Rightarrow> 'ev codec \<Rightarrow> storage_api \<Rightarrow> 64 word \<Rightarrow> TraceConfig option \<Rightarrow> (err + txTraceResult option list) exec" where
  "traceBlockByNumber E c S number config =
     step (resolveBlockNumber number S) (\<lambda>height.
     step (st_GetByHeight S height) (\<lambda>block.
     step (executorAtBlock E block) (\<lambda>blockExecutor.
     step (st_GetByBlockHeight S (Height (evmBlock block))) (\<lambda>receipts.
     trace_block_loop E c S config 0 receipts blockExecutor (replicate (length (TransactionHashes block)) None)))))"

definition TraceBlockByNumber ::
    "err option \<Rightarrow> ('s, 't, 'c, 'p) trace_env \<Rightarrow> 'ev codec \<Rightarrow> storage_api \<Rightarrow> 64 word \<Rightarrow> TraceConfig option \<Rightarrow> (err + txTraceResult option list) exec" where
  "TraceBlockByNumber limit E c S number config = limited_exec limit (traceBlockByNumber E c S number config)"

definition TraceBlockByHash ::
    "err option \<Rightarrow> ('s, 't, 'c, 'p) trace_env \<Rightarrow> 'ev codec \<Rightarrow> storage_api \<Rightarrow> hash \<Rightarrow> TraceConfig option \<Rightarrow> (err + txTraceResult option list) exec" where
  "TraceBlockByHash limit E c S hsh config = limited_exec limit (
     step (st_GetByID S hsh) (\<lambda>block. traceBlockByNumber E c S (Height (evmBlock block)) config))"

text \<open>
  A traced call: \<open>view\<close> makes the view of a height with the overrides and the tracer, \<open>call\<close> is a dry call
  with the tracer and returns what the tracer recorded, \<open>cadence\<close> is the Cadence height of a block.
\<close>

definition TraceCall ::
    "err option \<Rightarrow> ('s, 't, 'c, 'p) trace_env \<Rightarrow> ('ev, 'v) BlockChainAPI \<Rightarrow> (u64 \<Rightarrow> err + u64)
      \<Rightarrow> (BlockOverrides option \<Rightarrow> 't \<Rightarrow> u64 \<Rightarrow> err + 'w)
      \<Rightarrow> ('w \<Rightarrow> address \<Rightarrow> address \<Rightarrow> bytes \<Rightarrow> SetCodeAuthorization list \<Rightarrow> int \<Rightarrow> u64 \<Rightarrow> dry_option list \<Rightarrow> 't \<Rightarrow> err + (err + bytes))
      \<Rightarrow> TransactionArgs \<Rightarrow> block_tag \<Rightarrow> TraceConfig option \<Rightarrow> StateOverride option \<Rightarrow> BlockOverrides option \<Rightarrow> (err + bytes) exec" where
  "TraceCall limit E d cadence view call args tag config sov bov = limited_exec limit (
     ebind (ToTransaction (evMustFromBig (baEvm d)) args LegacyTxType BlockGasLimit) (\<lambda>tx.
     let from_address = call_sender d args; S = baStore d in
     step (tracerForReceipt E config None) (\<lambda>tracer.
     step (resolveBlockTag (Some tag) S) (\<lambda>height.
     step (st_GetByHeight S height) (\<lambda>block.
     step (cadence height) (\<lambda>cdcHeight.
     let bov' = map_option (\<lambda>ov. \<lparr>boNumber = boNumber ov, boDifficulty = None, boTime = boTime ov, boGasLimit = None,
           boFeeRecipient = boFeeRecipient ov, boPrevRandao = boPrevRandao ov, boBaseFeePerGas = None, boBlobBaseFee = None,
           boBeaconRoot = None, boWithdrawals = None\<rparr>) bov in
     step (view bov' tracer (Height (evmBlock block))) (\<lambda>v.
     let to = (case td_To tx of Some a \<Rightarrow> a | None \<Rightarrow> 0) in
     step (rmap (\<lambda>(addr, account). account_options addr account) (case sov of Some m \<Rightarrow> m | None \<Rightarrow> [])) (\<lambda>opts.
     step (call v from_address to (td_Data tx) (td_SetCodeAuthorizations tx) (td_Value tx) (td_Gas tx)
       (WithExtraPrecompiledContracts cdcHeight # concat opts) tracer) (\<lambda>result. Ret result)))))))))"

definition FlowHeightByBlock :: "err option \<Rightarrow> (u64 \<Rightarrow> err + u64) \<Rightarrow> storage_api \<Rightarrow> block_tag \<Rightarrow> err + u64" where
  "FlowHeightByBlock limit cadence S tag = limited limit (
     rbind (resolveBlockTag (Some tag) S) (\<lambda>height. cadence height))"

section \<open>Properties\<close>

text \<open>
  What running one transaction of a block means, in terms of the emulator: the context is that of the block
  with \<open>n\<close> transactions and the gas \<open>g\<close> before it, and with the precompile calls of the receipt; the
  transaction is valid and uses the gas of its receipt.
\<close>

definition tx_runs ::
    "('s, 't, 'c, 'p) trace_env \<Rightarrow> 'ev codec \<Rightarrow> storage_api \<Rightarrow> Block \<Rightarrow> u64 \<Rightarrow> u64 \<Rightarrow> Transaction \<Rightarrow> Receipt \<Rightarrow> 't option \<Rightarrow> 's \<Rightarrow> 's \<Rightarrow> bool" where
  "tx_runs E c S block n g tx r tracer ledger ledger' \<longleftrightarrow>
     (\<exists>x calls ctx res. te_NewBlockContext E (Height (evmBlock block)) (Timestamp (evmBlock block)) (executor_hash c S) (PrevRandao (evmBlock block)) tracer = Inr x
        \<and> te_PrecompileCalls E (rPrecompiledCalls r) = Inr calls
        \<and> ctx = \<lparr>xcContext = x, TxCountSoFar = n, TotalGasUsedSoFar = g, ExtraPrecompiledContracts = Some calls\<rparr>
        \<and> te_NewBlockView E ctx ledger = None
        \<and> (case tx of DirectCall dc \<Rightarrow> te_DirectCall E ctx dc ledger | TransactionCall tc \<Rightarrow> te_RunTransaction E ctx tc ledger) = (Inr res, ledger')
        \<and> xrValidationError res = None \<and> xrGasConsumed res = rGasUsed r)"

text \<open>The untraced run of the transactions of some hashes, each against its receipt and after those before it.\<close>

inductive block_runs ::
    "('s, 't, 'c, 'p) trace_env \<Rightarrow> 'ev codec \<Rightarrow> storage_api \<Rightarrow> (hash \<rightharpoonup> Receipt) \<Rightarrow> Block \<Rightarrow> u64 \<Rightarrow> u64 \<Rightarrow> hash list \<Rightarrow> 's \<Rightarrow> 's \<Rightarrow> bool"
  for E c S m block where
  none: "block_runs E c S m block n g [] ledger ledger"
| one: "st_GetTransaction S h = Ret (Inr tx) \<Longrightarrow> m h = Some r \<Longrightarrow> tx_runs E c S block n g tx r None ledger ledger1 \<Longrightarrow>
    block_runs E c S m block (n + 1) (g + rGasUsed r) hs ledger1 ledger2 \<Longrightarrow> block_runs E c S m block n g (h # hs) ledger ledger2"

inductive_cases block_runs_NilE: "block_runs E c S m block n g [] ledger ledger'"
inductive_cases block_runs_ConsE: "block_runs E c S m block n g (h # hs) ledger ledger'"

lemma executor_Run_ok:
  assumes "executor_Run E c S tx r tracer ex = (None, ex')"
  shows "tx_runs E c S (xeBlock ex) (txIndex ex) (gasUsed ex) tx r tracer (xeLedger ex) (xeLedger ex')"
    and "txIndex ex' = txIndex ex + 1" and "gasUsed ex' = gasUsed ex + rGasUsed r" and "xeBlock ex' = xeBlock ex"
proof -
  obtain x calls where ctx: "te_NewBlockContext E (Height (evmBlock (xeBlock ex))) (Timestamp (evmBlock (xeBlock ex))) (executor_hash c S)
      (PrevRandao (evmBlock (xeBlock ex))) tracer = Inr x" "te_PrecompileCalls E (rPrecompiledCalls r) = Inr calls"
    using assms by (auto simp: executor_Run_def blockContext_def Let_def gw_result split: sum.splits)
  define k where "k = \<lparr>xcContext = x, TxCountSoFar = txIndex ex, TotalGasUsedSoFar = gasUsed ex, ExtraPrecompiledContracts = Some calls\<rparr>"
  have b: "blockContext E c S ex (Some r) tracer = Inr k" using ctx by (simp add: blockContext_def k_def)
  let ?run = "case tx of DirectCall dc \<Rightarrow> te_DirectCall E k dc (xeLedger ex) | TransactionCall tc \<Rightarrow> te_RunTransaction E k tc (xeLedger ex)"
  obtain res l where run: "?run = (res, l)" by (cases ?run)
  have view: "te_NewBlockView E k (xeLedger ex) = None" using assms b by (auto simp: executor_Run_def split: option.splits)
  obtain res' where res: "res = Inr res'" "xrValidationError res' = None" "xrGasConsumed res' = rGasUsed r"
    "ex' = ex\<lparr>xeLedger := l, gasUsed := gasUsed ex + xrGasConsumed res', txIndex := txIndex ex + 1\<rparr>"
    using assms b view run by (auto simp: executor_Run_def Let_def split: sum.splits option.splits if_splits)
  then show "txIndex ex' = txIndex ex + 1" "gasUsed ex' = gasUsed ex + rGasUsed r" "xeBlock ex' = xeBlock ex" by simp_all
  show "tx_runs E c S (xeBlock ex) (txIndex ex) (gasUsed ex) tx r tracer (xeLedger ex) (xeLedger ex')"
    unfolding tx_runs_def using ctx view run res k_def by (intro exI [of _ x] exI [of _ calls] exI [of _ k] exI [of _ res']) simp
qed

lemma trace_loop_run:
  assumes "trace_loop E c S hsh tracer height m hs ex = Ret (Inr out)"
  shows "\<exists>i tx r ledger1 ledger2. i < length hs \<and> hs ! i = hsh \<and> hsh \<notin> set (take i hs)
    \<and> block_runs E c S m (xeBlock ex) (txIndex ex) (gasUsed ex) (take i hs) (xeLedger ex) ledger1
    \<and> st_GetTransaction S hsh = Ret (Inr tx) \<and> m hsh = Some r
    \<and> tx_runs E c S (xeBlock ex) (txIndex ex + of_nat i) (gasUsed ex + (\<Sum>h \<leftarrow> take i hs. rGasUsed (the (m h)))) tx r (Some tracer) ledger1 ledger2
    \<and> te_GetResult E tracer ledger2 = Inr out"
  using assms
proof (induction hs arbitrary: ex)
  case (Cons h hs)
  obtain tx r where tx: "st_GetTransaction S h = Ret (Inr tx)" "m h = Some r"
    using Cons.prems by (auto simp: gw_result split: option.splits)
  obtain ex1 where run: "executor_Run E c S tx r (if h = hsh then Some tracer else None) ex = (None, ex1)"
    using Cons.prems tx by (auto split: prod.splits option.splits)
  note ok = executor_Run_ok [OF run]
  show ?case
  proof (cases "h = hsh")
    case True
    then have "te_GetResult E tracer (xeLedger ex1) = Inr out" using Cons.prems tx run by simp
    with True tx ok(1) show ?thesis
      by (intro exI [of _ 0] exI [of _ tx] exI [of _ r] exI [of _ "xeLedger ex"] exI [of _ "xeLedger ex1"]) (auto intro: block_runs.none)
  next
    case False
    then have "trace_loop E c S hsh tracer height m hs ex1 = Ret (Inr out)" using Cons.prems tx run by simp
    from Cons.IH [OF this] obtain i tx' r' l1 l2 where IH: "i < length hs" "hs ! i = hsh" "hsh \<notin> set (take i hs)"
      "block_runs E c S m (xeBlock ex) (txIndex ex + 1) (gasUsed ex + rGasUsed r) (take i hs) (xeLedger ex1) l1"
      "st_GetTransaction S hsh = Ret (Inr tx')" "m hsh = Some r'"
      "tx_runs E c S (xeBlock ex) (txIndex ex + 1 + of_nat i) (gasUsed ex + rGasUsed r + (\<Sum>h \<leftarrow> take i hs. rGasUsed (the (m h))))
         tx' r' (Some tracer) l1 l2"
      "te_GetResult E tracer l2 = Inr out" unfolding ok(2-4) by blast
    have "block_runs E c S m (xeBlock ex) (txIndex ex) (gasUsed ex) (take (Suc i) (h # hs)) (xeLedger ex) l1"
      using False tx ok(1) IH(4) by (auto intro: block_runs.one)
    with False IH tx(2) show ?thesis
      by (intro exI [of _ "Suc i"] exI [of _ tx'] exI [of _ r'] exI [of _ l1] exI [of _ l2]) (auto simp: add.assoc)
  qed
qed simp

text \<open>C32: A trace of a transaction is that of its own execution: when one is returned, the transactions
  before it in its block were run in order without a tracer on the state before the block, each with the
  gas of its receipt, and then the transaction with this hash was run with the tracer, in the context of
  the block with its position, the gas of all receipts before it and the precompile calls of its receipt;
  the trace is what the tracer recorded.\<close>

theorem traceTransaction_context:
  assumes "traceTransaction E c S hsh config = Ret (Inr out)"
  shows "\<exists>receipt block rs m snapshot tracer i tx r ledger1 ledger2.
    st_GetByTransactionID S hsh = Inr receipt \<and> st_GetByHeight S (big_Uint64 (rBlockNumber receipt)) = Inr block
    \<and> tracerForReceipt E config (Some receipt) = Inr tracer
    \<and> st_GetByBlockHeight S (Height (evmBlock block)) = Inr rs \<and> m = fold (\<lambda>r m. m(rTxHash r \<mapsto> r)) rs Map.empty
    \<and> te_GetSnapshotAt E (Height (evmBlock block)) = Inr snapshot
    \<and> i < length (TransactionHashes block) \<and> TransactionHashes block ! i = hsh \<and> hsh \<notin> set (take i (TransactionHashes block))
    \<and> block_runs E c S m block 0 0 (take i (TransactionHashes block)) snapshot ledger1
    \<and> st_GetTransaction S hsh = Ret (Inr tx) \<and> m hsh = Some r
    \<and> tx_runs E c S block (of_nat i) (\<Sum>h \<leftarrow> take i (TransactionHashes block). rGasUsed (the (m h))) tx r (Some tracer) ledger1 ledger2
    \<and> te_GetResult E tracer ledger2 = Inr out"
proof -
  obtain receipt block snapshot tracer rs where o: "st_GetByTransactionID S hsh = Inr receipt"
    "st_GetByHeight S (big_Uint64 (rBlockNumber receipt)) = Inr block" "te_GetSnapshotAt E (Height (evmBlock block)) = Inr snapshot"
    "tracerForReceipt E config (Some receipt) = Inr tracer" "st_GetByBlockHeight S (Height (evmBlock block)) = Inr rs"
    and loop: "trace_loop E c S hsh tracer (Height (evmBlock block)) (fold (\<lambda>r m. m(rTxHash r \<mapsto> r)) rs Map.empty)
      (TransactionHashes block) (NewBlockExecutor block snapshot) = Ret (Inr out)"
    using assms unfolding traceTransaction_def executorAtBlock_def by (auto simp: gw_result Let_def)
  have new: "xeBlock (NewBlockExecutor block snapshot) = block" "txIndex (NewBlockExecutor block snapshot) = 0"
    "gasUsed (NewBlockExecutor block snapshot) = 0" "xeLedger (NewBlockExecutor block snapshot) = snapshot"
    by (simp_all add: NewBlockExecutor_def)
  show ?thesis
    using trace_loop_run [OF loop] o unfolding new add_0 by blast
qed

lemma trace_block_loop_all:
  assumes "\<And>r. r \<in> set rs \<Longrightarrow> \<exists>tx tr. st_GetTransaction S (rTxHash r) = Ret (Inr tx) \<and> tracerForReceipt E config (Some r) = Inr tr"
    and "i + length rs = length results"
  shows "\<exists>outs. trace_block_loop E c S config i rs ex results = Ret (Inr (take i results @ map Some outs)) \<and> map trTxHash outs = map rTxHash rs"
  using assms
proof (induction rs arbitrary: i ex results)
  case (Cons r rs)
  obtain tx tr where tx: "st_GetTransaction S (rTxHash r) = Ret (Inr tx)" "tracerForReceipt E config (Some r) = Inr tr"
    using Cons.prems(1) [of r] by auto
  obtain res ex' where run: "executor_Run E c S tx r (Some tr) ex = (res, ex')" by (cases "executor_Run E c S tx r (Some tr) ex")
  define out where "out = \<lparr>trTxHash = rTxHash r, trOutcome = (case res of Some e \<Rightarrow> Inl e | None \<Rightarrow> te_GetResult E tr (xeLedger ex'))\<rparr>"
  have i: "i < length results" using Cons.prems(2) by simp
  obtain outs where outs: "trace_block_loop E c S config (Suc i) rs ex' (results[i := Some out]) =
      Ret (Inr (take (Suc i) (results[i := Some out]) @ map Some outs))" "map trTxHash outs = map rTxHash rs"
    using Cons.IH [of "Suc i" "results[i := Some out]" ex'] Cons.prems by auto
  have "take (Suc i) (results[i := Some out]) = take i results @ [Some out]" using i by (simp add: take_Suc_conv_app_nth)
  with outs tx run i show ?case
    by (intro exI [of _ "out # outs"]) (simp add: out_def Let_def)
qed simp

text \<open>A trace of a block answers for every transaction: when each receipt has its transaction and a
  tracer, there is one entry per receipt in the order of the block, also after a transaction that
  failed to execute.\<close>

theorem traceBlock_complete:
  assumes "resolveBlockNumber number S = Inr height" and "st_GetByHeight S height = Inr block"
    and "te_GetSnapshotAt E (Height (evmBlock block)) = Inr snapshot"
    and "st_GetByBlockHeight S (Height (evmBlock block)) = Inr rs" and "length (TransactionHashes block) = length rs"
    and "\<forall>r \<in> set rs. \<exists>tx tr. st_GetTransaction S (rTxHash r) = Ret (Inr tx) \<and> tracerForReceipt E config (Some r) = Inr tr"
  shows "\<exists>outs. TraceBlockByNumber None E c S number config = Ret (Inr (map Some outs)) \<and> map trTxHash outs = map rTxHash rs"
  using trace_block_loop_all [of rs S E config 0 "replicate (length rs) None" c "NewBlockExecutor block snapshot"] assms
  by (auto simp: TraceBlockByNumber_def traceBlockByNumber_def executorAtBlock_def)

section \<open>Witnesses\<close>

definition demo_traces :: "(nat, unit, unit, unit) trace_env" where
  "demo_traces = \<lparr>te_NewBlockContext = (\<lambda>_ _ _ _ _. Inr ()), te_PrecompileCalls = (\<lambda>_. Inr ()), te_NewBlockView = (\<lambda>_ _. None),
     te_DirectCall = (\<lambda>_ _ n. (Inr \<lparr>xrValidationError = None, xrGasConsumed = 21000\<rparr>, Suc n)),
     te_RunTransaction = (\<lambda>_ _ n. (Inl ErrInvalid, n)), te_GetSnapshotAt = (\<lambda>_. Inr 0), te_NewStructLogger = (\<lambda>_. ()),
     te_NewTracer = (\<lambda>_ _ _. Inr ()), te_GetResult = (\<lambda>_ n. Inr [of_nat n])\<rparr>"

lemma traceTransaction_context_witness:
  "\<exists>tx r ledger1 ledger2. tx_runs demo_traces (baCodec (served_api served_store)) served_store (served_block 2) 1 21000 tx r (Some ()) ledger1 ledger2
     \<and> te_GetResult demo_traces () ledger2 = Inr [2]"
proof -
  let ?c = "baCodec (served_api served_store)" and ?m = "fold (\<lambda>r m. m(rTxHash r \<mapsto> r)) [demo_receipt 17, demo_receipt 18] Map.empty"
  have "traceTransaction demo_traces ?c served_store 18 None = Ret (Inr [2])"
    by (simp add: traceTransaction_def served_reads executorAtBlock_def demo_traces_def tracerForReceipt_def executor_Run_def
        blockContext_def NewBlockExecutor_def Let_def)
  from traceTransaction_context [OF this] obtain i tx r l1 l2 where
    i: "i < length [17, 18 :: hash]" "[17, 18] ! i = (18 :: hash)"
    and run: "tx_runs demo_traces ?c served_store (served_block (big_Uint64 (rBlockNumber (demo_receipt 18)))) (of_nat i)
      (\<Sum>h \<leftarrow> take i [17, 18]. rGasUsed (the (?m h))) tx r (Some ()) l1 l2" "te_GetResult demo_traces () l2 = Inr [2]"
    by (auto simp: served_reads)
  have "i = 1" using i by (cases i) auto
  moreover have "big_Uint64 (rBlockNumber (demo_receipt 18)) = 2" by (simp add: big_Uint64_def demo_receipt_def)
  ultimately show ?thesis using run by (auto simp: served_reads)
qed

lemma traceBlock_complete_witness:
  "\<exists>outs. TraceBlockByNumber None demo_traces (baCodec (served_api served_store)) served_store (- 2) None = Ret (Inr (map Some outs))
     \<and> map trTxHash outs = [17, 18]"
proof -
  have "te_GetSnapshotAt demo_traces (Height (evmBlock (served_block 2))) = Inr 0" by (simp add: demo_traces_def)
  from traceBlock_complete [OF served_reads(1,2) this served_reads(8), of None "baCodec (served_api served_store)"] show ?thesis
    by (simp add: served_reads tracerForReceipt_def)
qed

end
