(* ===== verification/Gateway_Bootstrap.thy ===== *)
theory Gateway_Bootstrap
  imports Ingestion_Engine Events_Hash Key_Store
begin

text \<open>
  The start of the gateway: the flags of \<^verbatim>\<open>cmd/run/cmd.go\<close> with \<^verbatim>\<open>config/config.go\<close>, and from
  \<^verbatim>\<open>bootstrap/bootstrap.go\<close> and \<^verbatim>\<open>bootstrap/utils.go\<close> the initialization of the database, the height the
  ingestion starts at, the choice of the account keys, and the retries of exhausted requests.
\<close>

section \<open>The configuration\<close>

definition EmulatorInitCadenceHeight :: u64 where "EmulatorInitCadenceHeight = 0"
definition LiveNetworkInitCadenceHeight :: u64 where "LiveNetworkInitCadenceHeight = 1"
definition TestnetInitCadenceHeight :: u64 where "TestnetInitCadenceHeight = 211176670"
definition MainnetInitCadenceHeight :: u64 where "MainnetInitCadenceHeight = 85981135"

definition LocalIndexValidation :: string where "LocalIndexValidation = ''local-index''"
definition TxSealValidation :: string where "TxSealValidation = ''tx-seal''"

datatype flow_network = Previewnet | Emulator | Testnet | Mainnet

record kms_key =
  ProjectID :: string
  LocationID :: string
  KeyRingID :: string
  KeyID :: string
  KeyVersion :: string

text \<open>
  The flags of the command: first those that \<^verbatim>\<open>parseConfigFromFlags\<close> reads, then those bound to fields of
  the configuration, and the two that are deprecated and have no effect.
\<close>

record flags =
  flIndexOnly :: bool
  flCoinbase :: string
  flCoa :: string
  flKey :: string
  flKeyAlg :: string
  flCloudKMSKey :: string
  flCloudKMSProjectID :: string
  flCloudKMSLocationID :: string
  flCloudKMSKeyRingID :: string
  flWalletKey :: string
  flGas :: string
  flFlowNetwork :: string
  flLogLevel :: string
  flLogWriter :: string
  flFilterExpiry :: string
  flAccessSporkHosts :: string
  flForceStartHeight :: u64
  flTxStateValidation :: string
  flTxBatchMode :: bool
  flTxBatchInterval :: duration
  flSoftFinality :: bool
  flSealingVerification :: bool
  flDatabaseDir :: string
  flRPCHost :: string
  flRPCPort :: int
  flWSEnabled :: bool
  flAccessNodeHost :: string
  flEnforceGasPrice :: bool
  flRateLimit :: u64
  flAddressHeader :: string
  flCOATxLookupEnabled :: bool
  flMetricsPort :: int
  flProfilerEnabled :: bool
  flProfilerHost :: string
  flProfilerPort :: int
  flTxRequestLimit :: u64
  flTxRequestLimitDuration :: duration
  flRpcRequestTimeout :: duration
  flInitHeight :: u64
  flEoaActivityCacheTTL :: duration

text \<open>The defaults of the flags.\<close>

definition default_flags :: flags where
  "default_flags = \<lparr>flIndexOnly = False, flCoinbase = [], flCoa = [], flKey = [], flKeyAlg = ''ECDSA_P256'', flCloudKMSKey = [],
     flCloudKMSProjectID = [], flCloudKMSLocationID = [], flCloudKMSKeyRingID = [], flWalletKey = [], flGas = ''1'',
     flFlowNetwork = ''flow-emulator'', flLogLevel = ''debug'', flLogWriter = ''stderr'', flFilterExpiry = ''5m'', flAccessSporkHosts = [],
     flForceStartHeight = 0, flTxStateValidation = ''tx-seal'', flTxBatchMode = False, flTxBatchInterval = 1200 * Millisecond,
     flSoftFinality = False, flSealingVerification = False, flDatabaseDir = ''./db'', flRPCHost = [], flRPCPort = 8545, flWSEnabled = False,
     flAccessNodeHost = ''localhost:3569'', flEnforceGasPrice = True, flRateLimit = 50, flAddressHeader = [], flCOATxLookupEnabled = False,
     flMetricsPort = 9091, flProfilerEnabled = False, flProfilerHost = ''localhost'', flProfilerPort = 6060, flTxRequestLimit = 0,
     flTxRequestLimitDuration = 3 * Second, flRpcRequestTimeout = 120 * Second, flInitHeight = 0, flEoaActivityCacheTTL = 10 * Second\<rparr>"

text \<open>The configuration; a log writer is the standard error or the console, and a logger of the caller is left out.\<close>

record ('k, 'w) Config =
  IndexOnly :: bool
  cfgCoinbase :: address
  COAAddress :: flow_address
  COAKey :: "'k option"
  COACloudKMSKey :: "kms_key option"
  WalletKey :: "'w option"
  WalletEnabled :: bool
  cfgGasPrice :: int
  FlowNetworkID :: flow_network
  EVMNetworkID :: int
  InitCadenceHeight :: u64
  LogLevel :: nat
  LogStderr :: bool
  FilterExpiry :: duration
  AccessNodePreviousSporkHosts :: "string list"
  ForceStartCadenceHeight :: u64
  TxStateValidation :: string
  TxBatchMode :: bool
  TxBatchInterval :: duration
  ExperimentalSoftFinalityEnabled :: bool
  ExperimentalSealingVerificationEnabled :: bool
  DatabaseDir :: string
  RPCHost :: string
  RPCPort :: int
  WSEnabled :: bool
  AccessNodeHost :: string
  EnforceGasPrice :: bool
  RateLimit :: u64
  AddressHeader :: string
  cfgCOATxLookupEnabled :: bool
  MetricsPort :: int
  ProfilerEnabled :: bool
  ProfilerHost :: string
  ProfilerPort :: int
  TxRequestLimit :: u64
  TxRequestLimitDuration :: duration
  RpcRequestTimeout :: duration

text \<open>
  What parsing takes from libraries: the addresses and keys of go-ethereum and the Flow SDK (0 is the
  unknown signature algorithm), the chain identifiers of flow-go, the log levels, and durations.
\<close>

record ('k, 'w) parse_ext =
  px_HexToAddress :: "string \<Rightarrow> address"
  px_FlowHexToAddress :: "string \<Rightarrow> flow_address"
  px_StringToSignatureAlgorithm :: "string \<Rightarrow> nat"
  px_DecodePrivateKeyHex :: "nat \<Rightarrow> string \<Rightarrow> err + 'k"
  px_HexToECDSA :: "string \<Rightarrow> err + 'w"
  px_ChainID :: "flow_network \<Rightarrow> int"
  px_ParseLevel :: "string \<Rightarrow> err + nat"
  px_ParseDuration :: "string \<Rightarrow> err + duration"

text \<open>\<^verbatim>\<open>strings.Split\<close> at one character.\<close>

fun Split :: "char \<Rightarrow> string \<Rightarrow> string list" where
  "Split sep [] = [[]]"
| "Split sep (ch # s) = (if ch = sep then [] # Split sep s else (case Split sep s of p # ps \<Rightarrow> (ch # p) # ps | [] \<Rightarrow> [[ch]]))"

text \<open>\<^verbatim>\<open>big.Int.SetString\<close> in base 10: an optional sign and at least one digit.\<close>

fun digits :: "string \<Rightarrow> int \<Rightarrow> int option" where
  "digits [] acc = Some acc"
| "digits (ch # s) acc =
     (let n = of_char ch :: nat in if 48 \<le> n \<and> n \<le> 57 then digits s (10 * acc + int (n - 48)) else None)"

definition SetString :: "string \<Rightarrow> int option" where
  "SetString s = (case s of
      [] \<Rightarrow> None
    | ch # t \<Rightarrow>
       if ch = CHR ''-'' then (if t = [] then None else map_option uminus (digits t 0))
       else if ch = CHR ''+'' then (if t = [] then None else digits t 0)
       else digits s 0)"

text \<open>The signing keys of a gateway that sends transactions.\<close>

definition parse_coa_key :: "('k, 'w) parse_ext \<Rightarrow> flags \<Rightarrow> ('k, 'w) Config \<Rightarrow> err + ('k, 'w) Config" where
  "parse_coa_key X f cfg =
     (if flKey f \<noteq> [] then
        (let sigAlgo = px_StringToSignatureAlgorithm X (flKeyAlg f) in
         if sigAlgo = 0 then Inl (Errorf ''invalid signature algorithm: %s'' [FStr (flKeyAlg f)] [])
         else rbind (rwrap (\<lambda>e. Errorf ''invalid COA private key: %w'' [] [e]) (px_DecodePrivateKeyHex X sigAlgo (flKey f))) (\<lambda>pkey.
           Inr (cfg\<lparr>COAKey := Some pkey\<rparr>)))
      else if flCloudKMSKey f \<noteq> [] then
        (if flCloudKMSProjectID f = [] \<or> flCloudKMSLocationID f = [] \<or> flCloudKMSKeyRingID f = []
         then Inl (New_err ''using coa-cloud-kms-key requires also coa-cloud-kms-project-id & coa-cloud-kms-location-id & coa-cloud-kms-key-ring-id'')
         else case Split CHR ''@'' (flCloudKMSKey f) of
             [i, v] \<Rightarrow> Inr (cfg\<lparr>COACloudKMSKey := Some \<lparr>ProjectID = flCloudKMSProjectID f, LocationID = flCloudKMSLocationID f,
                 KeyRingID = flCloudKMSKeyRingID f, KeyID = i, KeyVersion = v\<rparr>\<rparr>)
           | _ \<Rightarrow> Inl (Errorf ''wrong format for Cloud KMS key: %s'' [FStr (flKey f)] []))
      else Inl (New_err ''must either provide coa-key / coa-cloud-kms-key''))"

definition parse_sender :: "('k, 'w) parse_ext \<Rightarrow> flags \<Rightarrow> ('k, 'w) Config \<Rightarrow> err + ('k, 'w) Config" where
  "parse_sender X f cfg =
     (if flCoinbase f = [] then Inl (New_err ''coinbase EVM address required'')
      else let cfg1 = cfg\<lparr>cfgCoinbase := px_HexToAddress X (flCoinbase f)\<rparr> in
      if cfgCoinbase cfg1 = 0 then Inl (Errorf ''invalid coinbase address: %s'' [FStr (flCoinbase f)] [])
      else let cfg2 = cfg1\<lparr>COAAddress := px_FlowHexToAddress X (flCoa f)\<rparr> in
      if COAAddress cfg2 = 0 then Inl (New_err ''COA address value is the empty address'')
      else rbind (parse_coa_key X f cfg2) (\<lambda>cfg3.
        if flWalletKey f \<noteq> [] then
          rbind (rwrap (\<lambda>e. Errorf ''invalid private key for wallet API: %w'' [] [e]) (px_HexToECDSA X (flWalletKey f))) (\<lambda>k.
          Inr (cfg3\<lparr>WalletKey := Some k, WalletEnabled := True\<rparr>))
        else Inr cfg3))"

definition parse_network :: "('k, 'w) parse_ext \<Rightarrow> string \<Rightarrow> ('k, 'w) Config \<Rightarrow> err + ('k, 'w) Config" where
  "parse_network X flowNetwork cfg =
     (if flowNetwork = ''flow-previewnet''
      then Inr (cfg\<lparr>FlowNetworkID := Previewnet, EVMNetworkID := px_ChainID X Previewnet, InitCadenceHeight := LiveNetworkInitCadenceHeight\<rparr>)
      else if flowNetwork = ''flow-emulator''
      then Inr (cfg\<lparr>FlowNetworkID := Emulator, EVMNetworkID := px_ChainID X Previewnet, InitCadenceHeight := EmulatorInitCadenceHeight\<rparr>)
      else if flowNetwork = ''flow-testnet''
      then Inr (cfg\<lparr>FlowNetworkID := Testnet, EVMNetworkID := px_ChainID X Testnet, InitCadenceHeight := TestnetInitCadenceHeight\<rparr>)
      else if flowNetwork = ''flow-mainnet''
      then Inr (cfg\<lparr>FlowNetworkID := Mainnet, EVMNetworkID := px_ChainID X Mainnet, InitCadenceHeight := MainnetInitCadenceHeight\<rparr>)
      else Inl (Errorf ''flow network ID: %s not supported'' [FStr flowNetwork] []))"

text \<open>The checks that span several flags.\<close>

definition parse_modes :: "flags \<Rightarrow> ('k, 'w) Config \<Rightarrow> err + ('k, 'w) Config" where
  "parse_modes f cfg =
     (if flTxStateValidation f \<noteq> LocalIndexValidation \<and> flTxStateValidation f \<noteq> TxSealValidation
      then Inl (Errorf ''unknown tx state validation: %s'' [FStr (flTxStateValidation f)] [])
      else let cfg1 = cfg\<lparr>TxStateValidation := flTxStateValidation f\<rparr> in
      if TxBatchMode cfg1 \<and> TxBatchInterval cfg1 \<le> 0
      then Inl (New_err ''tx-batch-interval must be > 0 when tx-batch-mode is enabled'')
      else if TxBatchMode cfg1 \<and> TxStateValidation cfg1 = TxSealValidation
      then Inl (New_err ''tx-batch-mode should be enabled with tx-state-validation=local-index'')
      else if \<not> ExperimentalSoftFinalityEnabled cfg1 \<and> ExperimentalSealingVerificationEnabled cfg1
      then Inl (New_err ''experimental-sealing-verification-enabled should be enabled only when experimental-soft-finality-enabled=true'')
      else Inr cfg1)"

text \<open>The configuration that the flags write to directly, before it is parsed.\<close>

definition flag_config :: "flags \<Rightarrow> ('k, 'w) Config" where
  "flag_config f = \<lparr>IndexOnly = flIndexOnly f, cfgCoinbase = 0, COAAddress = 0, COAKey = None, COACloudKMSKey = None,
     WalletKey = None, WalletEnabled = False, cfgGasPrice = 0, FlowNetworkID = Emulator, EVMNetworkID = 0, InitCadenceHeight = 0,
     LogLevel = 0, LogStderr = False, FilterExpiry = 0, AccessNodePreviousSporkHosts = [], ForceStartCadenceHeight = 0,
     TxStateValidation = [], TxBatchMode = flTxBatchMode f, TxBatchInterval = flTxBatchInterval f,
     ExperimentalSoftFinalityEnabled = flSoftFinality f, ExperimentalSealingVerificationEnabled = flSealingVerification f,
     DatabaseDir = flDatabaseDir f, RPCHost = flRPCHost f, RPCPort = flRPCPort f, WSEnabled = flWSEnabled f, AccessNodeHost = flAccessNodeHost f,
     EnforceGasPrice = flEnforceGasPrice f, RateLimit = flRateLimit f, AddressHeader = flAddressHeader f,
     cfgCOATxLookupEnabled = flCOATxLookupEnabled f, MetricsPort = flMetricsPort f, ProfilerEnabled = flProfilerEnabled f,
     ProfilerHost = flProfilerHost f, ProfilerPort = flProfilerPort f, TxRequestLimit = flTxRequestLimit f,
     TxRequestLimitDuration = flTxRequestLimitDuration f, RpcRequestTimeout = flRpcRequestTimeout f\<rparr>"

definition parseConfigFromFlags :: "('k, 'w) parse_ext \<Rightarrow> flags \<Rightarrow> err + ('k, 'w) Config" where
  "parseConfigFromFlags X f =
     rbind (if \<not> flIndexOnly f then parse_sender X f (flag_config f) else Inr (flag_config f)) (\<lambda>cfg.
     case SetString (flGas f) of
       None \<Rightarrow> Inl (New_err ''invalid gas price'')
     | Some g \<Rightarrow>
        rbind (parse_network X (flFlowNetwork f) (cfg\<lparr>cfgGasPrice := g\<rparr>)) (\<lambda>cfg.
        rbind (rwrap (\<lambda>_. Errorf ''invalid log level: %s'' [FStr (flLogLevel f)] []) (px_ParseLevel X (flLogLevel f))) (\<lambda>level.
        rbind (rwrap (\<lambda>e. Errorf ''invalid unit %s for filter expiry: %w'' [FStr (flFilterExpiry f)] [e])
          (px_ParseDuration X (flFilterExpiry f))) (\<lambda>expiry.
        parse_modes f (cfg\<lparr>LogLevel := level, LogStderr := (flLogWriter f = ''stderr''), FilterExpiry := expiry,
          AccessNodePreviousSporkHosts := AccessNodePreviousSporkHosts cfg
            @ (if flAccessSporkHosts f \<noteq> [] then Split CHR '','' (flAccessSporkHosts f) else []),
          ForceStartCadenceHeight := (if flForceStartHeight f \<noteq> 0 then flForceStartHeight f else ForceStartCadenceHeight cfg)\<rparr>)))))"

section \<open>The signer\<close>

definition createSigner :: "('k \<Rightarrow> err + 's) \<Rightarrow> (kms_key \<Rightarrow> err + 's) \<Rightarrow> ('k, 'w) Config \<Rightarrow> err + 's" where
  "createSigner NewInMemorySigner NewKMSKeySigner cfg =
     (let wrap = rwrap (\<lambda>e. Errorf ''failed to create a COA signer: %w'' [] [e]) in
      case COAKey cfg of
        Some k \<Rightarrow> wrap (NewInMemorySigner k)
      | None \<Rightarrow> (case COACloudKMSKey cfg of
          Some k \<Rightarrow> wrap (NewKMSKeySigner k)
        | None \<Rightarrow> Inl (New_err ''must provide either single COA / Cloud KMS key'')))"

text \<open>The keys of the account the key store is built with: those with the public key of the signer.\<close>

definition signer_keys ::
    "(err + ('pk \<times> 'ak) list) \<Rightarrow> ('s \<Rightarrow> 'pk) \<Rightarrow> ('k \<Rightarrow> err + 's) \<Rightarrow> (kms_key \<Rightarrow> err + 's) \<Rightarrow> ('k, 'w) Config \<Rightarrow> err + 'ak list" where
  "signer_keys account PublicKey mem kms cfg =
     (if IndexOnly cfg then Inr []
      else rbind (rwrap (\<lambda>e. Errorf ''failed to get signer info account for address: %s, with: %w'' [FNum (unat (COAAddress cfg))] [e]) account) (\<lambda>ks.
           rbind (createSigner mem kms cfg) (\<lambda>signer.
           Inr (map snd (filter (\<lambda>(pk, _). pk = PublicKey signer) ks)))))"

section \<open>Retries of exhausted requests\<close>

definition DefaultResourceExhaustedRetryDelay :: duration where "DefaultResourceExhaustedRetryDelay = 100 * Millisecond"
definition DefaultResourceExhaustedMaxRetryDelay :: duration where "DefaultResourceExhaustedMaxRetryDelay = 30 * Second"

text \<open>
  Each attempt is the answer of the server, the time after it, and the error of the context if it ended
  during the pause that follows.
\<close>

fun retryInterceptor :: "duration \<Rightarrow> time \<Rightarrow> nat \<Rightarrow> (err option \<times> time \<times> err option) list \<Rightarrow> err option exec" where
  "retryInterceptor maxD start attempts [] = Blocks"
| "retryInterceptor maxD start attempts ((answer, now, ctxErr) # rest) = (case answer of
      None \<Rightarrow> Ret None
    | Some e \<Rightarrow>
       if status_Code e \<noteq> ResourceExhausted then Ret (Some e)
       else let attempts' = attempts + 1; dur = Sub now start in
       if dur \<ge> maxD
       then Ret (Some (Errorf ''request failed (attempts: %d, duration: %v): %w'' [FNum attempts', FNum (nat dur)] [e]))
       else case ctxErr of
           Some c \<Rightarrow> Ret (Some c)
         | None \<Rightarrow> retryInterceptor maxD start attempts' rest)"

section \<open>The database\<close>

text \<open>
  What the initialization takes from flow-go: the address of the storage account, its register
  identifiers, and the key and bytes of a new account status.
\<close>

record account_ext =
  storageAddress :: bytes
  ax_registerID :: "bytes \<Rightarrow> bytes \<Rightarrow> RegisterID"
  ax_AccountStatusKey :: bytes
  ax_NewAccountStatus :: bytes

text \<open>The forced start height: it also takes the verified height and the stored hashes back.\<close>

definition force_start :: "('db, 'batch) pebble_api \<Rightarrow> u64 \<Rightarrow> 'db \<Rightarrow> 'batch \<Rightarrow> err + 'batch" where
  "force_start P force d batch =
     rbind (rwrap (\<lambda>e. Errorf ''failed to set latest cadence height: %w'' [] [e]) (SetLatestCadenceHeight P force batch)) (\<lambda>batch.
     rbind (case ProcessedSealedHeight P d of
              Inr h \<Rightarrow> Inr h
            | Inl e \<Rightarrow> if is_panic e then Inl e
                else if errors_Is e ErrStorageNotInitialized then Inr 0
                else Inl (Errorf ''failed to get latest verified sealed height: %w'' [] [e])) (\<lambda>verifiedHeight.
     if verifiedHeight > force then
       rbind (rwrap (\<lambda>e. Errorf ''failed to set latest verified sealed height: %w'' [] [e]) (BatchSetProcessedSealedHeight P force batch)) (\<lambda>batch.
       rwrap (\<lambda>e. Errorf ''failed to reset events hash above height: %w'' [] [e]) (BatchRemoveAboveHeight P force batch))
     else Inr batch))"

text \<open>The first start: the account status of the storage account and the genesis block.\<close>

definition init_database ::
    "('db, 'batch) pebble_api \<Rightarrow> 'ev codec \<Rightarrow> Blocks \<Rightarrow> RegisterStorage \<Rightarrow> account_ext \<Rightarrow> (u64 \<Rightarrow> err + flow_id) \<Rightarrow> u64 \<Rightarrow> 'db \<Rightarrow> 'batch \<Rightarrow> err + 'batch" where
  "init_database P c b r A blockID cadenceHeight d batch =
     rbind (rwrap (\<lambda>e. Errorf ''could not fetch provided cadence height, make sure it's correct: %w'' [] [e]) (blockID cadenceHeight)) (\<lambda>cadenceID.
     let snapshot = GetSnapshotAt P r d 0;
         delta = NewRegisterDelta (\<lambda>own key. fst (Snapshot_GetValue (ax_registerID A) own key snapshot));
         delta1 = SetValue (ax_registerID A) (storageAddress A) (ax_AccountStatusKey A) (ax_NewAccountStatus A) delta
     in rbind (rwrap (\<lambda>e. Errorf ''could not store register updates: %w'' [] [e]) (RegisterStorage_Store P r (GetUpdates delta1) 0 batch)) (\<lambda>batch.
        rwrap (\<lambda>e. Errorf ''failed to init the database for block height: %d and ID: %s, with : %w'' [FNum (unat cadenceHeight), FNum (unat cadenceID)] [e])
          (InitHeights P c b d cadenceHeight cadenceID batch)))"

text \<open>The batch of the setup.\<close>

definition setup_batch ::
    "('db, 'batch) pebble_api \<Rightarrow> 'ev codec \<Rightarrow> Blocks \<Rightarrow> RegisterStorage \<Rightarrow> account_ext \<Rightarrow> (u64 \<Rightarrow> err + flow_id) \<Rightarrow> ('k, 'w) Config \<Rightarrow> 'db \<Rightarrow> err + 'batch" where
  "setup_batch P c b r A blockID cfg d =
     (let force = ForceStartCadenceHeight cfg in
      rbind (if force \<noteq> 0 then force_start P force d (NewBatch P d) else Inr (NewBatch P d)) (\<lambda>batch.
      case LatestCadenceHeight P d of
        Inr _ \<Rightarrow> Inr batch
      | Inl e \<Rightarrow> if is_panic e then Inl e
          else if errors_Is e ErrStorageNotInitialized then init_database P c b r A blockID (InitCadenceHeight cfg) d batch
          else Inr batch))"

text \<open>
  \<open>setupStorage\<close> on an opened database; \<open>batchCount\<close> is the number of operations of a batch and
  \<open>blockID\<close> asks the access node for the header of a height.
\<close>

definition setupStorage ::
    "('db, 'batch) pebble_api \<Rightarrow> ('batch \<Rightarrow> nat) \<Rightarrow> 'ev codec \<Rightarrow> Blocks \<Rightarrow> RegisterStorage \<Rightarrow> account_ext \<Rightarrow> (u64 \<Rightarrow> err + flow_id)
      \<Rightarrow> ('k, 'w) Config \<Rightarrow> 'db \<Rightarrow> err option \<times> 'db" where
  "setupStorage P batchCount c b r A blockID cfg d = (case setup_batch P c b r A blockID cfg d of
      Inl e \<Rightarrow> (Some e, d)
    | Inr batch \<Rightarrow>
       if batchCount batch > 0 then
         (case b_Commit P batch d of
            Inl e \<Rightarrow> (Some (Errorf ''could not commit setup updates: %w'' [] [e]), d)
          | Inr d' \<Rightarrow> (None, d'))
       else (None, d))"

section \<open>The start of the ingestion\<close>

datatype subscriber_kind = EventSubscriberFrom u64 | BlockTrackingFrom u64 "u64 option"

text \<open>
  \<open>StartEventIngestion\<close> up to the start of the engine: \<open>network\<close> is the height of the latest sealed block
  of the network, \<open>header\<close> asks for a header.
\<close>

definition StartEventIngestion ::
    "('db, 'batch) pebble_api \<Rightarrow> err + u64 \<Rightarrow> (u64 \<Rightarrow> err + flow_id) \<Rightarrow> ('k, 'w) Config \<Rightarrow> 'db \<Rightarrow> err + subscriber_kind" where
  "StartEventIngestion P network header cfg d =
     rbind (rwrap (\<lambda>e. Errorf ''failed to get latest cadence block: %w'' [] [e]) network) (\<lambda>_.
     rbind (LatestCadenceHeight P d) (\<lambda>latestCadenceHeight.
     rbind (rwrap (\<lambda>e. Errorf ''failed to get provided cadence height %d: %w'' [FNum (unat latestCadenceHeight)] [e]) (header latestCadenceHeight)) (\<lambda>_.
     let next = latestCadenceHeight + 1;
         nextCadenceHeight = (if latestCadenceHeight = EmulatorInitCadenceHeight then next - 1 else next)
     in Inr (if ExperimentalSoftFinalityEnabled cfg
             then BlockTrackingFrom nextCadenceHeight (if ExperimentalSealingVerificationEnabled cfg then Some nextCadenceHeight else None)
             else EventSubscriberFrom nextCadenceHeight))))"

section \<open>Properties of the configuration\<close>

text \<open>What an accepted configuration promises the components built from it.\<close>

definition config_ok :: "('k, 'w) Config \<Rightarrow> bool" where
  "config_ok cfg \<longleftrightarrow>
     (\<not> IndexOnly cfg \<longrightarrow> cfgCoinbase cfg \<noteq> 0 \<and> COAAddress cfg \<noteq> 0 \<and> (COAKey cfg = None) \<noteq> (COACloudKMSKey cfg = None))
     \<and> (WalletEnabled cfg \<longleftrightarrow> WalletKey cfg \<noteq> None)
     \<and> (TxStateValidation cfg = LocalIndexValidation \<or> TxStateValidation cfg = TxSealValidation)
     \<and> (TxBatchMode cfg \<longrightarrow> TxBatchInterval cfg > 0 \<and> TxStateValidation cfg = LocalIndexValidation)
     \<and> (ExperimentalSealingVerificationEnabled cfg \<longrightarrow> ExperimentalSoftFinalityEnabled cfg)
     \<and> InitCadenceHeight cfg = (case FlowNetworkID cfg of Previewnet \<Rightarrow> 1 | Emulator \<Rightarrow> 0 | Testnet \<Rightarrow> 211176670 | Mainnet \<Rightarrow> 85981135)"

lemma parse_coa_key_ok:
  assumes "parse_coa_key X f cfg = Inr cfg'" "COAKey cfg = None" "COACloudKMSKey cfg = None"
  shows "(COAKey cfg' = None) \<noteq> (COACloudKMSKey cfg' = None) \<and> (\<exists>k m. cfg' = cfg\<lparr>COAKey := k, COACloudKMSKey := m\<rparr>)"
  using assms by (cases cfg) (auto simp: parse_coa_key_def gw_result Let_def split: if_splits list.splits)

lemma parse_sender_ok:
  assumes "parse_sender X f cfg = Inr cfg'" "COAKey cfg = None" "COACloudKMSKey cfg = None" "WalletKey cfg = None" "\<not> WalletEnabled cfg"
  shows "cfgCoinbase cfg' \<noteq> 0 \<and> COAAddress cfg' \<noteq> 0 \<and> (COAKey cfg' = None) \<noteq> (COACloudKMSKey cfg' = None)
    \<and> (WalletEnabled cfg' \<longleftrightarrow> WalletKey cfg' \<noteq> None)
    \<and> IndexOnly cfg' = IndexOnly cfg \<and> TxBatchMode cfg' = TxBatchMode cfg \<and> TxBatchInterval cfg' = TxBatchInterval cfg
    \<and> ExperimentalSoftFinalityEnabled cfg' = ExperimentalSoftFinalityEnabled cfg
    \<and> ExperimentalSealingVerificationEnabled cfg' = ExperimentalSealingVerificationEnabled cfg"
proof -
  let ?c2 = "cfg\<lparr>cfgCoinbase := px_HexToAddress X (flCoinbase f), COAAddress := px_FlowHexToAddress X (flCoa f)\<rparr>"
  obtain cfg3 where c3: "parse_coa_key X f ?c2 = Inr cfg3" "px_HexToAddress X (flCoinbase f) \<noteq> 0" "px_FlowHexToAddress X (flCoa f) \<noteq> 0"
    and w: "cfg' = cfg3 \<or> (\<exists>k. cfg' = cfg3\<lparr>WalletKey := Some k, WalletEnabled := True\<rparr>)"
    using assms(1) by (auto simp: parse_sender_def gw_result Let_def split: if_splits)
  have k: "(COAKey cfg3 = None) \<noteq> (COACloudKMSKey cfg3 = None)" "\<exists>k m. cfg3 = ?c2\<lparr>COAKey := k, COACloudKMSKey := m\<rparr>"
    using parse_coa_key_ok [OF c3(1)] assms(2,3) by simp_all
  have e: "cfgCoinbase cfg3 = px_HexToAddress X (flCoinbase f)" "COAAddress cfg3 = px_FlowHexToAddress X (flCoa f)"
    "WalletKey cfg3 = WalletKey cfg" "WalletEnabled cfg3 = WalletEnabled cfg" "IndexOnly cfg3 = IndexOnly cfg"
    "TxBatchMode cfg3 = TxBatchMode cfg" "TxBatchInterval cfg3 = TxBatchInterval cfg"
    "ExperimentalSoftFinalityEnabled cfg3 = ExperimentalSoftFinalityEnabled cfg"
    "ExperimentalSealingVerificationEnabled cfg3 = ExperimentalSealingVerificationEnabled cfg"
    using k(2) by auto
  from w show ?thesis
  proof
    assume "cfg' = cfg3"
    with e k(1) c3(2,3) assms(4,5) show ?thesis by simp
  next
    assume "\<exists>k. cfg' = cfg3\<lparr>WalletKey := Some k, WalletEnabled := True\<rparr>"
    then obtain k' where "cfg' = cfg3\<lparr>WalletKey := Some k', WalletEnabled := True\<rparr>" by blast
    with e k(1) c3(2,3) show ?thesis by simp
  qed
qed

lemma parse_network_ok:
  "parse_network X n cfg = Inr cfg' \<Longrightarrow>
     InitCadenceHeight cfg' = (case FlowNetworkID cfg' of Previewnet \<Rightarrow> 1 | Emulator \<Rightarrow> 0 | Testnet \<Rightarrow> 211176670 | Mainnet \<Rightarrow> 85981135)
     \<and> (\<exists>a b i. cfg' = cfg\<lparr>FlowNetworkID := a, EVMNetworkID := b, InitCadenceHeight := i\<rparr>)"
  by (auto simp: parse_network_def LiveNetworkInitCadenceHeight_def EmulatorInitCadenceHeight_def TestnetInitCadenceHeight_def
      MainnetInitCadenceHeight_def split: if_splits)

lemma parse_modes_ok:
  assumes "parse_modes f cfg = Inr cfg'"
  shows "cfg' = cfg\<lparr>TxStateValidation := flTxStateValidation f\<rparr>"
    and "flTxStateValidation f = LocalIndexValidation \<or> flTxStateValidation f = TxSealValidation"
    and "TxBatchMode cfg \<Longrightarrow> TxBatchInterval cfg > 0 \<and> flTxStateValidation f \<noteq> TxSealValidation"
    and "ExperimentalSealingVerificationEnabled cfg \<Longrightarrow> ExperimentalSoftFinalityEnabled cfg"
  using assms by (auto simp: parse_modes_def Let_def split: if_splits)

text \<open>C37: Every accepted configuration is well formed: a gateway that sends transactions has addresses and
  exactly one signing key, batches need a positive interval and the local index, the verification of
  seals needs soft finality, and the initial height is that of the network.\<close>

theorem parseConfig_wellformed:
  assumes "parseConfigFromFlags X f = Inr cfg"
  shows "config_ok cfg"
proof -
  obtain cfg0 g cfg1 level expiry where
    c0: "(if \<not> flIndexOnly f then parse_sender X f (flag_config f) else Inr (flag_config f)) = Inr cfg0"
    and c1: "parse_network X (flFlowNetwork f) (cfg0\<lparr>cfgGasPrice := g\<rparr>) = Inr cfg1"
    and c2: "parse_modes f (cfg1\<lparr>LogLevel := level, LogStderr := (flLogWriter f = ''stderr''), FilterExpiry := expiry,
          AccessNodePreviousSporkHosts := AccessNodePreviousSporkHosts cfg1
            @ (if flAccessSporkHosts f \<noteq> [] then Split CHR '','' (flAccessSporkHosts f) else []),
          ForceStartCadenceHeight := (if flForceStartHeight f \<noteq> 0 then flForceStartHeight f else ForceStartCadenceHeight cfg1)\<rparr>) = Inr cfg"
    using assms unfolding parseConfigFromFlags_def by (auto simp: gw_result split: option.splits)
  have s: "(\<not> IndexOnly cfg0 \<longrightarrow> cfgCoinbase cfg0 \<noteq> 0 \<and> COAAddress cfg0 \<noteq> 0 \<and> (COAKey cfg0 = None) \<noteq> (COACloudKMSKey cfg0 = None))
      \<and> (WalletEnabled cfg0 \<longleftrightarrow> WalletKey cfg0 \<noteq> None)"
  proof (cases "flIndexOnly f")
    case True
    then show ?thesis using c0 by (auto simp: flag_config_def)
  next
    case False
    then have "parse_sender X f (flag_config f) = Inr cfg0" using c0 by simp
    from parse_sender_ok [OF this] show ?thesis by (simp add: flag_config_def)
  qed
  obtain a b i where n: "cfg1 = cfg0\<lparr>cfgGasPrice := g, FlowNetworkID := a, EVMNetworkID := b, InitCadenceHeight := i\<rparr>"
    using parse_network_ok [OF c1] by blast
  have i: "i = (case a of Previewnet \<Rightarrow> 1 | Emulator \<Rightarrow> 0 | Testnet \<Rightarrow> 211176670 | Mainnet \<Rightarrow> 85981135)"
    using parse_network_ok [OF c1] by (simp add: n)
  note m = parse_modes_ok [OF c2]
  show ?thesis
    unfolding config_ok_def m(1) using s m(2-4) i by (auto simp: n)
qed

lemma signer_present:
  "config_ok cfg \<Longrightarrow> \<not> IndexOnly cfg \<Longrightarrow> createSigner mem kms cfg =
     rwrap (\<lambda>e. Errorf ''failed to create a COA signer: %w'' [] [e])
       (case COAKey cfg of Some k \<Rightarrow> mem k | None \<Rightarrow> kms (the (COACloudKMSKey cfg)))"
  by (auto simp: config_ok_def createSigner_def split: option.splits)

section \<open>Properties of the retries\<close>

lemma retry_returns:
  assumes "\<And>i. i < length as \<Longrightarrow> Sub (fst (snd (as ! i))) start \<ge> int i * pause - off" and "int (length as) * pause \<ge> maxD + pause + off" and "0 < pause"
    and "as \<noteq> []"
  shows "\<exists>r. retryInterceptor maxD start n as = Ret r"
  using assms
proof (induction as arbitrary: n off)
  case (Cons a as)
  obtain answer now ctxErr where a: "a = (answer, now, ctxErr)" by (cases a)
  show ?case
  proof (cases "as = []")
    case True
    then have "Sub now start \<ge> maxD" using Cons.prems(1) [of 0] Cons.prems(2) by (simp add: a)
    then show ?thesis by (auto simp: a Let_def split: option.splits)
  next
    case False
    have "\<exists>r. retryInterceptor maxD start (n + 1) as = Ret r"
    proof (rule Cons.IH [where off = "off - pause"])
      show "int i * pause - (off - pause) \<le> Sub (fst (snd (as ! i))) start" if "i < length as" for i
        using Cons.prems(1) [of "Suc i"] that by (simp add: algebra_simps)
      show "maxD + pause + (off - pause) \<le> int (length as) * pause" using Cons.prems(2) by (simp add: algebra_simps)
    qed (use Cons.prems(3) False in auto)
    then show ?thesis by (auto simp: a Let_def split: option.splits)
  qed
qed simp

text \<open>The retries of a request end: with a pause of 100 milliseconds before every further attempt, at
  most 301 attempts are made until the request has an answer, whatever the server says.\<close>

theorem retryInterceptor_ends:
  assumes "length as = 301"
    and "\<forall>i < 301. Sub (fst (snd (as ! i))) start \<ge> int i * DefaultResourceExhaustedRetryDelay"
  shows "\<exists>r. retryInterceptor DefaultResourceExhaustedMaxRetryDelay start 0 as = Ret r"
proof (rule retry_returns [where off = 0])
  show "int i * DefaultResourceExhaustedRetryDelay - 0 \<le> Sub (fst (snd (as ! i))) start" if "i < length as" for i
    using assms that by simp
  show "DefaultResourceExhaustedMaxRetryDelay + DefaultResourceExhaustedRetryDelay + 0 \<le> int (length as) * DefaultResourceExhaustedRetryDelay"
    by (simp add: assms(1) DefaultResourceExhaustedMaxRetryDelay_def DefaultResourceExhaustedRetryDelay_def Second_def Millisecond_def)
qed (use assms(1) in \<open>auto simp: DefaultResourceExhaustedRetryDelay_def Millisecond_def\<close>)

section \<open>Properties of the database\<close>

lemma force_start_ops:
  assumes "pebble_ok P view ops" and "verified = (case sealed_at (view d) of Some v \<Rightarrow> v | None \<Rightarrow> 0)"
    and "\<forall>v. view d [sealedEventsHeightKey] = Some v \<longrightarrow> length v = 8"
  shows "\<exists>b'. force_start P force d b = Inr b' \<and> ops b' = ops b @ [OpSet [latestCadenceHeightKey] (uint64Bytes force)]
    @ (if verified > force then OpSet [sealedEventsHeightKey] (uint64Bytes force) # 
         [OpDeleteRange (eventsHashKey # uint64Bytes (force + 1)) [sealedEventsHeightKey]] else [])"
proof -
  obtain b1 where b1: "SetLatestCadenceHeight P force b = Inr b1" "ops b1 = ops b @ [OpSet [latestCadenceHeightKey] (uint64Bytes force)]"
    using storage_set_ops [OF assms(1), of latestCadenceHeightKey None "uint64Bytes force" b] by (auto simp: SetLatestCadenceHeight_def)
  obtain b2 where b2: "BatchSetProcessedSealedHeight P force b1 = Inr b2" "ops b2 = ops b1 @ [OpSet [sealedEventsHeightKey] (uint64Bytes force)]"
    using BatchSetProcessedSealedHeight_ops [OF assms(1)] by blast
  have v: "(case ProcessedSealedHeight P d of Inr h \<Rightarrow> Inr h
            | Inl e \<Rightarrow> if is_panic e then Inl e else if errors_Is e ErrStorageNotInitialized then Inr 0
                else Inl (Errorf ''failed to get latest verified sealed height: %w'' [] [e])) = Inr verified"
    using assms(2,3)
    by (auto simp: ProcessedSealedHeight_def storage_get_view [OF assms(1)] sealed_at_def decoded_def BE_Uint64_def split: option.splits)
  have "force \<noteq> - 1" if "verified > force" using that by auto
  moreover obtain b3 where "b_DeleteRange P (eventsHashKey # uint64Bytes (force + 1)) [sealedEventsHeightKey] b2 = Inr b3"
    "ops b3 = ops b2 @ [OpDeleteRange (eventsHashKey # uint64Bytes (force + 1)) [sealedEventsHeightKey]]"
    using pebble_delete_range [OF assms(1)] by blast
  ultimately show ?thesis using b1 b2 v
    by (auto simp: force_start_def BatchRemoveAboveHeight_def Let_def)
qed

lemma setup_commit:
  assumes "pebble_ok P view ops" and "\<forall>b. batchCount b = length (ops b)"
    and "setupStorage P batchCount c bl r A blockID cfg d = (None, d')"
  shows "\<exists>b. setup_batch P c bl r A blockID cfg d = Inr b \<and> view d' = apply_ops (ops b) (view d)"
  using assms(3) unfolding setupStorage_def
  by (auto simp: assms(2) pebble_commit [OF assms(1)] split: sum.splits if_splits)

text \<open>A restart of an initialized gateway without a forced height changes nothing, and the ingestion
  resumes at the Cadence height after the last one that was indexed.\<close>

theorem restart_resumes:
  assumes "pebble_ok P view ops" and "\<forall>b. batchCount b = length (ops b)"
    and "ixLatestCadence (index_of c (view d)) = Some h" and "h \<noteq> 0" and "ForceStartCadenceHeight cfg = 0"
    and "network = Inr n" and "header h = Inr i"
  shows "setupStorage P batchCount c bl r A blockID cfg d = (None, d)
    \<and> (\<exists>s. StartEventIngestion P network header cfg d = Inr s
       \<and> s = (if ExperimentalSoftFinalityEnabled cfg
             then BlockTrackingFrom (h + 1) (if ExperimentalSealingVerificationEnabled cfg then Some (h + 1) else None)
             else EventSubscriberFrom (h + 1)))"
proof -
  have l: "LatestCadenceHeight P d = Inr h" using LatestCadenceHeight_index [OF assms(1)] assms(3) by blast
  have "ops (NewBatch P d) = []" using assms(1) by (simp add: pebble_ok_def NewBatch_def)
  with l assms(2,5) have "setupStorage P batchCount c bl r A blockID cfg d = (None, d)" by (simp add: setupStorage_def setup_batch_def)
  moreover have "StartEventIngestion P network header cfg d = Inr (if ExperimentalSoftFinalityEnabled cfg
       then BlockTrackingFrom (h + 1) (if ExperimentalSealingVerificationEnabled cfg then Some (h + 1) else None) else EventSubscriberFrom (h + 1))"
    using l assms(4,6,7) by (simp add: StartEventIngestion_def EmulatorInitCadenceHeight_def Let_def)
  ultimately show ?thesis by blast
qed

text \<open>C36: A forced start height of an initialized gateway replaces the indexed Cadence height, takes the
  verified height back to it together with the stored event hashes above it, and keeps every indexed
  block.\<close>

theorem forced_start_rewinds:
  assumes "pebble_ok P view ops" and "\<forall>b. batchCount b = length (ops b)"
    and "\<forall>v. view d [sealedEventsHeightKey] = Some v \<longrightarrow> length v = 8"
    and "ixLatestCadence (index_of c (view d)) = Some h" and "ForceStartCadenceHeight cfg = force" and "force \<noteq> 0"
    and "setupStorage P batchCount c bl r A blockID cfg d = (None, d')"
    and "verified = (case sealed_at (view d) of Some v \<Rightarrow> v | None \<Rightarrow> 0)"
  shows "index_of c (view d') = (index_of c (view d))\<lparr>ixLatestCadence := Some force\<rparr>
    \<and> (if verified > force
       then sealed_at (view d') = Some force \<and> (\<forall>k. hash_at c (view d') k = (if k \<le> force then hash_at c (view d) k else None))
       else sealed_at (view d') = sealed_at (view d) \<and> (\<forall>k. hash_at c (view d') k = hash_at c (view d) k))"
proof -
  let ?xs = "[OpSet [latestCadenceHeightKey] (uint64Bytes force)] @ (if verified > force then OpSet [sealedEventsHeightKey] (uint64Bytes force) #
         [OpDeleteRange (eventsHashKey # uint64Bytes (force + 1)) [sealedEventsHeightKey]] else [])"
  have l: "LatestCadenceHeight P d = Inr h" using LatestCadenceHeight_index [OF assms(1)] assms(4) by blast
  have o: "ops (NewBatch P d) = []" using assms(1) by (simp add: pebble_ok_def NewBatch_def)
  obtain b' where "force_start P force d (NewBatch P d) = Inr b'" "ops b' = ?xs"
    using force_start_ops [OF assms(1,8,3), of force "NewBatch P d"] o by auto
  with setup_commit [OF assms(1,2,7)] l assms(5,6) have view': "view d' = apply_ops ?xs (view d)" by (auto simp: setup_batch_def)
  have del: "\<not> (eventsHashKey # uint64Bytes (force + 1) \<le> k \<and> k < [sealedEventsHeightKey])" if "hd k \<noteq> eventsHashKey" for k
    using that by (cases k) (auto simp: key_codes word_less_nat_alt word_le_nat_alt word_unat_eq_iff)
  show ?thesis
  proof (cases "verified > force")
    case True
    then have "force \<noteq> - 1" by auto
    with True view' del remove_range_iff [of force] show ?thesis
      by (auto simp: index_of_def hash_at_def sealed_at_def decoded_def key_codes fun_eq_iff not_less)
  next
    case False
    with view' show ?thesis by (auto simp: index_of_def hash_at_def sealed_at_def key_codes fun_eq_iff)
  qed
qed

text \<open>On the first start the index holds exactly the genesis block at the initial Cadence height of the
  network, also when a start height is forced: the forced height is overwritten by the initialization.\<close>

theorem first_start_ignores_force:
  assumes "pebble_ok P view ops" and "\<forall>b. batchCount b = length (ops b)" and "codec_ok c"
    and "ToBytes c (GenesisBlock (genesis bl)) = Inr val" and "Hash c (GenesisBlock (genesis bl)) = Inr h"
    and "view d = Map.empty" and "blockID (InitCadenceHeight cfg) = Inr cid"
    and "setupStorage P batchCount c bl r A blockID cfg d = (None, d')"
  shows "index_of c (view d') = index_store (InitCadenceHeight cfg) cid (GenesisBlock (genesis bl)) h (index_of c Map.empty)
    \<and> ixLatestCadence (index_of c (view d')) = Some (InitCadenceHeight cfg)"
proof -
  let ?init = "InitCadenceHeight cfg" and ?g = "GenesisBlock (genesis bl)"
  have un: "LatestCadenceHeight P d = Inl ErrStorageNotInitialized"
    using assms(6) by (simp add: LatestCadenceHeight_def storage_get_view [OF assms(1)])
  have nb: "ops (NewBatch P d) = []" using assms(1) by (simp add: pebble_ok_def NewBatch_def)
  have fs: "\<exists>b'. force_start P f d (NewBatch P d) = Inr b' \<and> ops b' = [OpSet [latestCadenceHeightKey] (uint64Bytes f)]" for f
    using force_start_ops [OF assms(1), of 0 d f "NewBatch P d"] assms(6) nb by (auto simp: sealed_at_def)
  obtain b0 where b0: "(if ForceStartCadenceHeight cfg \<noteq> 0 then force_start P (ForceStartCadenceHeight cfg) d (NewBatch P d) else Inr (NewBatch P d)) = Inr b0"
    and o0: "ops b0 = (if ForceStartCadenceHeight cfg \<noteq> 0 then [OpSet [latestCadenceHeightKey] (uint64Bytes (ForceStartCadenceHeight cfg))] else [])"
    using fs [of "ForceStartCadenceHeight cfg"] nb by (cases "ForceStartCadenceHeight cfg = 0") auto
  obtain b where b: "init_database P c bl r A blockID ?init d b0 = Inr b" "view d' = apply_ops (ops b) (view d)"
    using setup_commit [OF assms(1,2,8)] un b0 by (auto simp: setup_batch_def Let_def)
  obtain b1 where b1: "\<exists>es. RegisterStorage_Store P r es 0 b0 = Inr b1" "InitHeights P c bl d ?init cid b1 = Inr b"
    using b(1) assms(7) by (auto simp: init_database_def gw_result Let_def)
  obtain xs where xs: "ops b1 = ops b0 @ xs" "sets_only {registerKeyMarker} xs"
    using b1(1) Register_Store_Inr [OF assms(1)] by blast
  from InitHeights_spec [OF assms(1,3,4,5), where d = d and cadenceHeight = ?init and cadenceID = cid and batch = b1 and m = Map.empty] assms(6) b1(2)
  have "index_of c (apply_ops (ops b) Map.empty) = index_store ?init cid ?g h (index_of c (apply_ops (ops b1) Map.empty))" by auto
  also have "index_of c (apply_ops (ops b1) Map.empty) = index_of c (apply_ops (ops b0) Map.empty)"
    using xs sets_only_index [OF xs(2), of c "apply_ops (ops b0) Map.empty"] by (simp add: key_codes)
  also have "index_store ?init cid ?g h (index_of c (apply_ops (ops b0) Map.empty)) = index_store ?init cid ?g h (index_of c Map.empty)"
    by (simp add: o0 index_of_def index_store_def key_codes fun_eq_iff)
  finally show ?thesis using b(2) assms(6) by (simp add: index_store_def)
qed

section \<open>Witnesses\<close>

definition demo_parse :: "(nat, nat) parse_ext" where
  "demo_parse = \<lparr>px_HexToAddress = (\<lambda>_. 7), px_FlowHexToAddress = (\<lambda>_. 8), px_StringToSignatureAlgorithm = (\<lambda>_. 1),
     px_DecodePrivateKeyHex = (\<lambda>_ _. Inr 1), px_HexToECDSA = (\<lambda>_. Inr 2), px_ChainID = (\<lambda>_. 646), px_ParseLevel = (\<lambda>_. Inr 0),
     px_ParseDuration = (\<lambda>_. Inr 300)\<rparr>"

definition demo_flags :: flags where
  "demo_flags = default_flags\<lparr>flCoinbase := ''0x7'', flCoa := ''0x8'', flCloudKMSKey := ''k@1'',
     flCloudKMSProjectID := ''p'', flCloudKMSLocationID := ''l'', flCloudKMSKeyRingID := ''r'', flGas := ''150'',
     flFlowNetwork := ''flow-testnet'', flAccessSporkHosts := ''a,b'', flTxStateValidation := ''local-index'', flTxBatchMode := True,
     flSoftFinality := True, flSealingVerification := True\<rparr>"

lemma parseConfig_wellformed_witness:
  "\<exists>cfg. parseConfigFromFlags demo_parse demo_flags = Inr cfg \<and> cfgGasPrice cfg = 150 \<and> config_ok cfg"
proof -
  have g: "SetString ''150'' = Some 150" by (simp add: SetString_def Let_def)
  obtain cfg where cfg: "parseConfigFromFlags demo_parse demo_flags = Inr cfg" "cfgGasPrice cfg = 150"
    by (simp add: parseConfigFromFlags_def demo_flags_def demo_parse_def parse_sender_def parse_coa_key_def parse_network_def parse_modes_def
        flag_config_def g LocalIndexValidation_def TxSealValidation_def default_flags_def Millisecond_def)
  with parseConfig_wellformed [OF cfg(1)] show ?thesis by blast
qed

lemma retryInterceptor_ends_witness:
  "\<exists>r. retryInterceptor DefaultResourceExhaustedMaxRetryDelay 0 0
     (map (\<lambda>i. (Some (Status ResourceExhausted []), int i * DefaultResourceExhaustedRetryDelay, None)) [0..<301]) = Ret r"
proof (rule retryInterceptor_ends)
  show "\<forall>i < 301. int i * DefaultResourceExhaustedRetryDelay \<le> Sub (fst (snd (map (\<lambda>i. (Some (Status ResourceExhausted []),
      int i * DefaultResourceExhaustedRetryDelay, None :: err option)) [0..<301] ! i))) 0"
    by (auto simp: Sub_def minDuration_def maxDuration_def DefaultResourceExhaustedRetryDelay_def Millisecond_def)
qed simp

definition boot_db :: "(bytes \<times> bytes) list" where
  "boot_db = [([latestCadenceHeightKey], uint64Bytes 9), ([sealedEventsHeightKey], uint64Bytes 8)]"

definition boot_config :: "u64 \<Rightarrow> (nat, nat) Config" where
  "boot_config force = (flag_config demo_flags)\<lparr>ForceStartCadenceHeight := force, InitCadenceHeight := 1\<rparr>"

lemma boot_index: "ixLatestCadence (index_of demo_codec (map_of boot_db)) = Some 9" "sealed_at (map_of boot_db) = Some 8"
  by (simp_all add: index_of_def boot_db_def decoded_def sealed_at_def key_codes)

lemma restart_resumes_witness:
  "setupStorage mem_pebble length demo_codec undefined undefined undefined undefined (boot_config 0) boot_db = (None, boot_db)
   \<and> StartEventIngestion mem_pebble (Inr 20) (\<lambda>_. Inr 1) (boot_config 0) boot_db = Inr (BlockTrackingFrom 10 (Some 10))"
  using restart_resumes [OF mem_pebble_ok, of length demo_codec boot_db 9 "boot_config 0" "Inr 20" 20 "\<lambda>_. Inr 1" 1] boot_index
  by (auto simp: boot_config_def flag_config_def demo_flags_def default_flags_def)

lemma mem_setup:
  assumes "setup_batch mem_pebble c bl r A blockID cfg d = Inr b"
  shows "\<exists>d'. setupStorage mem_pebble length c bl r A blockID cfg d = (None, d')"
proof -
  have "b_Commit mem_pebble b d = Inr (fold mem_apply b d)" by (simp add: mem_pebble_def)
  with assms show ?thesis by (simp add: setupStorage_def)
qed

lemma forced_start_rewinds_witness:
  "\<exists>d'. setupStorage mem_pebble length demo_codec undefined undefined undefined undefined (boot_config 5) boot_db = (None, d')
     \<and> ixLatestCadence (index_of demo_codec (map_of d')) = Some 5 \<and> sealed_at (map_of d') = Some 5"
proof -
  have "\<exists>b'. force_start mem_pebble 5 boot_db (NewBatch mem_pebble boot_db) = Inr b'"
    using force_start_ops [OF mem_pebble_ok, of 8 boot_db 5 "NewBatch mem_pebble boot_db"] boot_index(2)
    by (auto simp: boot_db_def)
  moreover have "LatestCadenceHeight mem_pebble boot_db = Inr 9"
    using LatestCadenceHeight_index [OF mem_pebble_ok] boot_index(1) by blast
  ultimately have "\<exists>b. setup_batch mem_pebble demo_codec undefined undefined undefined undefined (boot_config 5) boot_db = Inr b"
    by (auto simp: setup_batch_def boot_config_def)
  then obtain d' where d': "setupStorage mem_pebble length demo_codec undefined undefined undefined undefined (boot_config 5) boot_db = (None, d')"
    using mem_setup by blast
  have "\<forall>v. map_of boot_db [sealedEventsHeightKey] = Some v \<longrightarrow> length v = 8" by (simp add: boot_db_def)
  with forced_start_rewinds [OF mem_pebble_ok _ this boot_index(1) _ _ d', of 5 8] d' show ?thesis
    by (auto simp: boot_config_def boot_index)
qed

definition boot_account :: account_ext where
  "boot_account = \<lparr>storageAddress = [1], ax_registerID = (\<lambda>own key. \<lparr>Owner = own, Key = key\<rparr>), ax_AccountStatusKey = [2], ax_NewAccountStatus = [3]\<rparr>"

lemma first_start_ignores_force_witness:
  "\<exists>d'. setupStorage mem_pebble length demo_codec (demo_blocks True) \<lparr>owner = 1, toAddress = (\<lambda>_. 1)\<rparr> boot_account (\<lambda>_. Inr 6) (boot_config 5) [] = (None, d')
     \<and> ixLatestCadence (index_of demo_codec (map_of d')) = Some 1"
proof -
  let ?r = "\<lparr>owner = 1, toAddress = (\<lambda>_. 1)\<rparr>"
  have g: "GenesisBlock (genesis (demo_blocks True)) = demo_block 0"
    by (simp add: GenesisBlock_def demo_blocks_def demo_block_def)
  obtain b0 where b0: "force_start mem_pebble 5 [] (NewBatch mem_pebble []) = Inr b0"
    using force_start_ops [OF mem_pebble_ok, of 0 "[]" 5 "NewBatch mem_pebble []"] by (auto simp: sealed_at_def)
  have reg: "RegisterStorage_Store mem_pebble ?r [e] 0 b = Inr (b @ [OpSet (newLookupKey 0 (Key (reKey e))) (reValue e)])" for e b
    by (simp add: RegisterStorage_Store_def mem_pebble_def)
  have "\<exists>b'. InitHeights mem_pebble demo_codec (demo_blocks True) [] 1 6 b = Inr b'" for b
    using InitHeights_spec [OF mem_pebble_ok demo_codec_ok, where b = "demo_blocks True" and val = "[0]" and blockID = 1 and d = "[]" and batch = b
        and cadenceHeight = 1 and cadenceID = 6]
    by (auto simp: g demo_ToBytes demo_Hash)
  then have "\<exists>b. init_database mem_pebble demo_codec (demo_blocks True) ?r boot_account (\<lambda>_. Inr 6) 1 [] b0 = Inr b"
    by (auto simp: init_database_def Let_def GetUpdates_def SetValue_def NewRegisterDelta_def reg) (metis rwrap.simps(2))
  moreover have "LatestCadenceHeight mem_pebble [] = Inl ErrStorageNotInitialized"
    by (simp add: LatestCadenceHeight_def storage_get_view [OF mem_pebble_ok])
  ultimately have "\<exists>b. setup_batch mem_pebble demo_codec (demo_blocks True) ?r boot_account (\<lambda>_. Inr 6) (boot_config 5) [] = Inr b"
    using b0 by (auto simp: setup_batch_def boot_config_def)
  then obtain d' where d': "setupStorage mem_pebble length demo_codec (demo_blocks True) ?r boot_account (\<lambda>_. Inr 6) (boot_config 5) [] = (None, d')"
    using mem_setup by blast
  have "ToBytes demo_codec (GenesisBlock (genesis (demo_blocks True))) = Inr [0]" "Hash demo_codec (GenesisBlock (genesis (demo_blocks True))) = Inr 1"
    by (simp_all add: g demo_ToBytes demo_Hash)
  from first_start_ignores_force [OF mem_pebble_ok _ demo_codec_ok this _ _ d', of 6] d' show ?thesis
    by (auto simp: boot_config_def)
qed

end
