(* ===== verification/Rpc_Server.thy ===== *)
theory Rpc_Server
  imports Gateway_Bootstrap Stream_Api Debug_Api "HOL-Library.Multiset"
begin

text \<open>
  The JSON-RPC server of \<^verbatim>\<open>api/server.go\<close>: its life cycle, the routing of requests and the rewriting of
  responses, with the namespaces of \<^verbatim>\<open>SupportedAPIs\<close> (\<^verbatim>\<open>api/api.go\<close>), the method names of
  \<^verbatim>\<open>eth/utils.go\<close> and the profiler of \<^verbatim>\<open>api/profiler.go\<close>.  The RPC servers of go-ethereum are values of type
  \<open>'s\<close> and listeners of type \<open>'l\<close>; what is done to them is the list of effects an operation returns.
\<close>

section \<open>Addresses\<close>

text \<open>\<^verbatim>\<open>strconv.Itoa\<close> and \<^verbatim>\<open>net.JoinHostPort\<close>: a host with a colon is put into brackets.\<close>

fun nat_string :: "nat \<Rightarrow> string" where
  "nat_string n = (if n < 10 then [char_of (48 + n)] else nat_string (n div 10) @ [char_of (48 + n mod 10)])"

declare nat_string.simps [simp del]

definition Itoa :: "int \<Rightarrow> string" where
  "Itoa i = (if i < 0 then CHR ''-'' # nat_string (nat (- i)) else nat_string (nat i))"

definition JoinHostPort :: "string \<Rightarrow> string \<Rightarrow> string" where
  "JoinHostPort hst prt = (if CHR '':'' \<in> set hst then ''['' @ hst @ '']:'' @ prt else hst @ '':'' @ prt)"

lemma JoinHostPort_nonempty [simp]: "JoinHostPort hst prt \<noteq> []"
  by (simp add: JoinHostPort_def)

section \<open>The interfaces that are served\<close>

datatype api_service =
  BlockChainService | StreamService | PullService | Web3Service | NetService | TxPoolService | DebugService | WalletService

text \<open>\<open>debugAPI\<close> and \<open>walletAPI\<close> tell whether the pointers are not nil.\<close>

definition SupportedAPIs :: "bool \<Rightarrow> bool \<Rightarrow> (string \<times> api_service) list" where
  "SupportedAPIs debugAPI walletAPI =
     [(''eth'', BlockChainService), (''eth'', StreamService), (''eth'', PullService), (''web3'', Web3Service),
      (''net'', NetService), (''txpool'', TxPoolService)]
     @ (if debugAPI then [(''debug'', DebugService)] else [])
     @ (if walletAPI then [(''eth'', WalletService)] else [])"

definition validMethods :: "string list" where
  "validMethods =
     [''eth_blockNumber'', ''eth_syncing'', ''eth_sendRawTransaction'', ''eth_getBalance'', ''eth_getTransactionByHash'',
      ''eth_getTransactionByBlockHashAndIndex'', ''eth_getTransactionByBlockNumberAndIndex'', ''eth_getTransactionReceipt'',
      ''eth_getBlockByHash'', ''eth_getBlockByNumber'', ''eth_getBlockReceipts'', ''eth_getBlockTransactionCountByHash'',
      ''eth_getBlockTransactionCountByNumber'', ''eth_call'', ''eth_getLogs'', ''eth_getTransactionCount'', ''eth_estimateGas'',
      ''eth_getCode'', ''eth_feeHistory'', ''eth_getStorageAt'', ''eth_chainId'', ''eth_coinbase'', ''eth_gasPrice'',
      ''eth_getUncleCountByBlockHash'', ''eth_getUncleCountByBlockNumber'', ''eth_getUncleByBlockHashAndIndex'',
      ''eth_getUncleByBlockNumberAndIndex'', ''eth_maxPriorityFeePerGas'', ''eth_mining'', ''eth_hashrate'', ''eth_getProof'',
      ''eth_createAccessList'', ''debug_traceTransaction'', ''debug_traceBlockByNumber'', ''debug_traceBlockByHash'',
      ''debug_traceCall'', ''debug_flowHeightByBlock'', ''web3_clientVersion'', ''web3_sha3'', ''net_listening'',
      ''net_peerCount'', ''net_version'', ''txpool_content'', ''txpool_contentFrom'', ''txpool_status'', ''txpool_inspect'']"

definition IsValidMethod :: "string \<Rightarrow> bool" where
  "IsValidMethod methodName \<longleftrightarrow> methodName \<in> set validMethods"

section \<open>The state of the server\<close>

record HTTPTimeouts =
  ReadTimeout :: duration
  ReadHeaderTimeout :: duration
  WriteTimeout :: duration
  IdleTimeout :: duration

text \<open>What \<open>Server\<close> takes from go-ethereum and the package \<^verbatim>\<open>net\<close>.\<close>

record ('s, 'l) net_api =
  rpc_NewServer :: 's
  rpc_SetBatchLimits :: "nat \<Rightarrow> nat \<Rightarrow> 's \<Rightarrow> 's"
  rpc_RegisterName :: "string \<Rightarrow> api_service \<Rightarrow> 's \<Rightarrow> err + 's"
  rpc_DefaultHTTPTimeouts :: HTTPTimeouts
  net_Addr :: "'l \<Rightarrow> string"

record cors_options =
  AllowedOrigins :: "string list"
  AllowedMethods :: "string list"
  AllowedHeaders :: "string list"
  MaxAge :: nat

datatype 's http_handler = Bare 's | Cors cors_options 's | Websocket "string list" 's

record 's rpcHandler =
  Handler :: "'s http_handler"
  rpc_server :: 's

record ('s, 'l) Server =
  timeouts :: HTTPTimeouts
  http_server :: "HTTPTimeouts option"
  listener :: "'l option"
  httpHandler :: "'s rpcHandler option"
  wsHandler :: "'s rpcHandler option"
  endpoint :: string
  host :: string
  port :: int

datatype ('s, 'l) effect =
  Enabled 's | StopServer 's | Serve 'l | Shutdown | CloseServer | CloseListener 'l

definition batchRequestLimit :: nat where "batchRequestLimit = 50"
definition batchResponseMaxSize :: nat where "batchResponseMaxSize = 10 * 1000 * 1000"

definition NewServer :: "('s, 'l) net_api \<Rightarrow> ('s, 'l) Server" where
  "NewServer N = \<lparr>timeouts = rpc_DefaultHTTPTimeouts N, http_server = None, listener = None, httpHandler = None,
     wsHandler = None, endpoint = [], host = [], port = 0\<rparr>"

section \<open>Operations\<close>

definition SetListenAddr :: "string \<Rightarrow> int \<Rightarrow> ('s, 'l) Server \<Rightarrow> err option \<times> ('s, 'l) Server" where
  "SetListenAddr hst prt h =
     (if listener h \<noteq> None \<and> (hst \<noteq> host h \<or> prt \<noteq> port h)
      then (Some (Errorf ''HTTP server already running on: %s'' [FStr (endpoint h)] []), h)
      else (None, h\<lparr>host := hst, port := prt, endpoint := JoinHostPort hst (Itoa prt)\<rparr>))"

definition ListenAddr :: "('s, 'l) net_api \<Rightarrow> ('s, 'l) Server \<Rightarrow> string" where
  "ListenAddr N h = (case listener h of Some l \<Rightarrow> net_Addr N l | None \<Rightarrow> endpoint h)"

definition corsHandler :: "'s \<Rightarrow> string list \<Rightarrow> 's http_handler" where
  "corsHandler srv allowedOrigins =
     (if allowedOrigins = [] then Bare srv
      else Cors \<lparr>AllowedOrigins = allowedOrigins, AllowedMethods = [''POST'', ''GET''], AllowedHeaders = [''*''], MaxAge = 600\<rparr> srv)"

definition register_all :: "('s, 'l) net_api \<Rightarrow> (string \<times> api_service) list \<Rightarrow> 's \<Rightarrow> err + 's" where
  "register_all N = rfold (\<lambda>(namespace, service). rpc_RegisterName N namespace service)"

definition rpcAllowed :: "('s, 'l) Server \<Rightarrow> bool" where "rpcAllowed h \<longleftrightarrow> httpHandler h \<noteq> None"
definition wsAllowed :: "('s, 'l) Server \<Rightarrow> bool" where "wsAllowed h \<longleftrightarrow> wsHandler h \<noteq> None"

definition EnableRPC ::
    "('s, 'l) net_api \<Rightarrow> (string \<times> api_service) list \<Rightarrow> ('s, 'l) Server \<Rightarrow> err option \<times> ('s, 'l) effect list \<times> ('s, 'l) Server" where
  "EnableRPC N apis h =
     (if rpcAllowed h then (Some (New_err ''JSON-RPC over HTTP is already enabled''), [], h)
      else case register_all N apis (rpc_SetBatchLimits N batchRequestLimit batchResponseMaxSize (rpc_NewServer N)) of
        Inl e \<Rightarrow> (Some e, [], h)
      | Inr srv \<Rightarrow> (None, [Enabled srv], h\<lparr>httpHandler := Some \<lparr>Handler = corsHandler srv [''*''], rpc_server = srv\<rparr>\<rparr>))"

definition EnableWS ::
    "('s, 'l) net_api \<Rightarrow> (string \<times> api_service) list \<Rightarrow> ('s, 'l) Server \<Rightarrow> err option \<times> ('s, 'l) effect list \<times> ('s, 'l) Server" where
  "EnableWS N apis h =
     (if wsAllowed h then (Some (New_err ''JSON-RPC over WebSocket is already enabled''), [], h)
      else case register_all N apis (rpc_NewServer N) of
        Inl e \<Rightarrow> (Some e, [], h)
      | Inr srv \<Rightarrow> (None, [Enabled srv], h\<lparr>wsHandler := Some \<lparr>Handler = Websocket [''*''] srv, rpc_server = srv\<rparr>\<rparr>))"

definition disableWS :: "('s, 'l) Server \<Rightarrow> bool \<times> ('s, 'l) effect list \<times> ('s, 'l) Server" where
  "disableWS h = (case wsHandler h of
      Some w \<Rightarrow> (True, [StopServer (rpc_server w)], h\<lparr>wsHandler := None\<rparr>)
    | None \<Rightarrow> (False, [], h))"

definition disableRPC :: "('s, 'l) Server \<Rightarrow> bool \<times> ('s, 'l) effect list \<times> ('s, 'l) Server" where
  "disableRPC h = (case httpHandler h of
      Some w \<Rightarrow> (True, [StopServer (rpc_server w)], h\<lparr>httpHandler := None\<rparr>)
    | None \<Rightarrow> (False, [], h))"

definition CheckTimeouts :: "HTTPTimeouts \<Rightarrow> HTTPTimeouts \<Rightarrow> HTTPTimeouts" where
  "CheckTimeouts deflt t =
     \<lparr>ReadTimeout = (if ReadTimeout t < Second then ReadTimeout deflt else ReadTimeout t),
      ReadHeaderTimeout = (if ReadHeaderTimeout t < Second then ReadHeaderTimeout deflt else ReadHeaderTimeout t),
      WriteTimeout = (if WriteTimeout t < Second then WriteTimeout deflt else WriteTimeout t),
      IdleTimeout = (if IdleTimeout t < Second then IdleTimeout deflt else IdleTimeout t)\<rparr>"

definition noTimeouts :: HTTPTimeouts where
  "noTimeouts = \<lparr>ReadTimeout = 0, ReadHeaderTimeout = 0, WriteTimeout = 0, IdleTimeout = 0\<rparr>"

text \<open>
  The timeouts of the HTTP server: the write timeout is that of the configuration.  \<open>listen\<close> is the answer
  of \<^verbatim>\<open>net.Listen\<close>; the goroutine that serves the listener is the effect \<open>Serve\<close>.
\<close>

definition Server_Start ::
    "('s, 'l) net_api \<Rightarrow> ('k, 'w) Config \<Rightarrow> err + 'l \<Rightarrow> ('s, 'l) Server \<Rightarrow> err option \<times> ('s, 'l) effect list \<times> ('s, 'l) Server" where
  "Server_Start N cfg listen h =
     (if endpoint h = [] \<or> listener h \<noteq> None then (None, [], h)
      else let t = (if timeouts h \<noteq> noTimeouts then CheckTimeouts (rpc_DefaultHTTPTimeouts N) (timeouts h) else timeouts h);
               h1 = h\<lparr>timeouts := t,
                      http_server := Some (if timeouts h \<noteq> noTimeouts then t\<lparr>WriteTimeout := RpcRequestTimeout cfg\<rparr> else noTimeouts)\<rparr>
      in case listen of
        Inl e \<Rightarrow> (let (_, e1, h2) = disableRPC h1; (_, e2, h3) = disableWS h2 in (Some e, e1 @ e2, h3))
      | Inr l \<Rightarrow> (None, [Serve l], h1\<lparr>listener := Some l\<rparr>))"

text \<open>The end of the serving goroutine: any error but that of a closed server is a panic.\<close>

definition http_ErrServerClosed :: err where "http_ErrServerClosed = New_err ''http: Server closed''"

definition serve_ends :: "err option \<Rightarrow> unit exec" where
  "serve_ends r = (case r of
      None \<Rightarrow> Ret ()
    | Some e \<Rightarrow> if errors_Is e http_ErrServerClosed then Ret () else Panics ''failed to start API server'')"

text \<open>\<open>timedOut\<close> tells whether the graceful shutdown ended with the error of its own context.\<close>

definition Server_Stop :: "bool \<Rightarrow> ('s, 'l) Server \<Rightarrow> ('s, 'l) effect list \<times> ('s, 'l) Server" where
  "Server_Stop timedOut h = (case listener h of
      None \<Rightarrow> ([], h)
    | Some l \<Rightarrow>
       ((case httpHandler h of Some w \<Rightarrow> [StopServer (rpc_server w)] | None \<Rightarrow> [])
        @ (case wsHandler h of Some w \<Rightarrow> [StopServer (rpc_server w)] | None \<Rightarrow> [])
        @ [Shutdown] @ (if timedOut then [CloseServer] else []) @ [CloseListener l],
        h\<lparr>httpHandler := None, wsHandler := None, host := [], port := 0, endpoint := [], http_server := None, listener := None\<rparr>))"

section \<open>Requests\<close>

text \<open>The header is its \<^verbatim>\<open>Get\<close>; its values are ASCII, where folding the case is that of the letters.\<close>

record http_Request =
  RemoteAddr :: string
  Header_Get :: "string \<Rightarrow> string"
  URL_Path :: string
  Body :: "err + bytes"

definition lower :: "char \<Rightarrow> char" where
  "lower ch = (let n = of_char ch :: nat in if 65 \<le> n \<and> n \<le> 90 then char_of (n + 32) else ch)"

definition ToLower :: "string \<Rightarrow> string" where "ToLower s = map lower s"

definition Contains :: "string \<Rightarrow> string \<Rightarrow> bool" where
  "Contains s sub \<longleftrightarrow> (\<exists>i \<in> set [0..<Suc (length s)]. take (length sub) (drop i s) = sub)"

definition isWebSocket :: "http_Request \<Rightarrow> bool" where
  "isWebSocket r \<longleftrightarrow> ToLower (Header_Get r ''Upgrade'') = ''websocket''
     \<and> Contains (ToLower (Header_Get r ''Connection'')) ''upgrade''"

definition checkPath :: "http_Request \<Rightarrow> string \<Rightarrow> bool" where
  "checkPath r path = (if path = [] then URL_Path r = ''/''
     else length path \<le> length (URL_Path r) \<and> take (length path) (URL_Path r) = path)"

text \<open>A decoded JSON value; \<open>unmarshal\<close> gives the fields of a request, none if it is not an object.\<close>

datatype json = JNull | JBool bool | JNumber int | JString string | JArray "json list" | JObject "(string \<times> json) list"

definition request_method :: "(bytes \<Rightarrow> (string \<times> json) list) \<Rightarrow> http_Request \<Rightarrow> string" where
  "request_method unmarshal r = (case Body r of
      Inl _ \<Rightarrow> []
    | Inr b \<Rightarrow> (case map_of (unmarshal b) ''method'' of
        Some (JString m) \<Rightarrow> if IsValidMethod m then m else []
      | _ \<Rightarrow> []))"

text \<open>Where a request goes: \<open>ToHTTP\<close> with the method whose duration is measured.\<close>

datatype 's route = ToWebsocket "'s rpcHandler" http_Request | ToHTTP "'s rpcHandler" http_Request "string option" | StatusNotFound

definition ServeHTTP ::
    "('k, 'w) Config \<Rightarrow> (bytes \<Rightarrow> (string \<times> json) list) \<Rightarrow> http_Request \<Rightarrow> ('s, 'l) Server \<Rightarrow> 's route" where
  "ServeHTTP cfg unmarshal r h =
     (let r1 = (if AddressHeader cfg \<noteq> [] then r\<lparr>RemoteAddr := Header_Get r (AddressHeader cfg)\<rparr> else r);
          requestMethod = request_method unmarshal r1;
          http = (case httpHandler h of
              Some w \<Rightarrow> if checkPath r1 [] then ToHTTP w r1 (if IsValidMethod requestMethod then Some requestMethod else None) else StatusNotFound
            | None \<Rightarrow> StatusNotFound)
      in case wsHandler h of
        Some ws \<Rightarrow> if isWebSocket r1 then ToWebsocket ws r1 else http
      | None \<Rightarrow> http)"

text \<open>The hash of a submitted transaction, for the log of a request.\<close>

definition extractSendRawTxHash ::
    "'ev codec \<Rightarrow> (string \<Rightarrow> err + bytes) \<Rightarrow> (string \<times> json) list \<Rightarrow> err + hash" where
  "extractSendRawTxHash c Decode requestBody = (case map_of requestBody ''params'' of
      Some (JArray (p # _)) \<Rightarrow>
        (case p of
           JString hexStr \<Rightarrow>
             rbind (Decode hexStr) (\<lambda>rawTx.
             rbind (geth_UnmarshalBinary c rawTx) (\<lambda>tx. Inr (gtHash tx)))
         | _ \<Rightarrow> Inl (New_err ''params[0] not a string''))
    | _ \<Rightarrow> Inl (New_err ''missing params''))"

section \<open>Responses\<close>

definition errCodePanic :: int where "errCodePanic = - 32603"
definition errCodeTimeout :: int where "errCodeTimeout = - 32002"

record jsonError =
  jeCode :: int
  jeMessage :: string
  jeData :: "json option"

record jsonMessage =
  jmVersion :: string
  jmID :: "bytes option"
  jmMethod :: string
  jmParams :: "bytes option"
  jmError :: "jsonError option"
  jmResult :: "bytes option"

datatype metric_event = ServerPanicked string | ApiErrorOccurred

text \<open>What a response writer has been given.\<close>

record response =
  rwHeader :: "(string, string) gomap"
  rwBody :: bytes
  rwFlushed :: bool
  rwMetrics :: "metric_event list"

text \<open>
  \<open>decode\<close> and \<open>encode\<close> are those of package \<^verbatim>\<open>json\<close>, where \<open>None\<close> is the message \<^verbatim>\<open>null\<close>; \<open>out\<close> writes to the
  connection and gives the number of bytes and an error.
\<close>

definition raw_write :: "(bytes \<Rightarrow> int \<times> err option) \<Rightarrow> bytes \<Rightarrow> response \<Rightarrow> (int \<times> err option) \<times> response" where
  "raw_write out data w = (out data, w\<lparr>rwBody := rwBody w @ data\<rparr>)"

definition responseHandler_Write ::
    "(bytes \<Rightarrow> err + jsonMessage option) \<Rightarrow> (jsonMessage \<Rightarrow> err + bytes) \<Rightarrow> (bytes \<Rightarrow> int \<times> err option) \<Rightarrow> bytes \<Rightarrow> response
      \<Rightarrow> ((int \<times> err option) \<times> response) exec" where
  "responseHandler_Write decode encode out data w0 =
     (let w = w0\<lparr>rwHeader := AList.update ''content-type'' ''application/json'' (rwHeader w0)\<rparr> in
      case decode data of
        Inl _ \<Rightarrow> Ret (raw_write out data w)
      | Inr None \<Rightarrow> Panics ''nil pointer dereference''
      | Inr (Some message) \<Rightarrow> (case jmError message of
          None \<Rightarrow> Ret (raw_write out data w)
        | Some e \<Rightarrow>
           let w1 = w\<lparr>rwMetrics := rwMetrics w
                        @ (if jeCode e = errCodePanic then [ServerPanicked (jeMessage e)] else [])
                        @ (if jeCode e = errCodeTimeout then [ApiErrorOccurred] else [])\<rparr>
           in case encode message of
             Inl err \<Rightarrow> Ret ((0, Some err), w1)
           | Inr encdata \<Rightarrow>
              let w2 = w1\<lparr>rwHeader := AList.update ''transfer-encoding'' ''identity''
                            (AList.update ''content-length'' (Itoa (int (length encdata))) (rwHeader w1))\<rparr>;
                  ((_, err), w3) = raw_write out encdata w2
              in Ret ((0, err), w3\<lparr>rwFlushed := True\<rparr>)))"

section \<open>The profiler\<close>

record ProfileServer =
  psEndpoint :: string

definition NewProfileServer :: "string \<Rightarrow> int \<Rightarrow> ProfileServer" where
  "NewProfileServer hst prt = \<lparr>psEndpoint = JoinHostPort hst (Itoa prt)\<rparr>"

definition Profile_ListenAddr :: "ProfileServer \<Rightarrow> string" where "Profile_ListenAddr s = psEndpoint s"

section \<open>The life cycle\<close>

text \<open>A client of the server calls its operations in any order.\<close>

datatype 'l server_call =
  OpSetListenAddr string int | OpEnableRPC "(string \<times> api_service) list" | OpEnableWS "(string \<times> api_service) list"
  | OpStart "err + 'l" | OpStop bool

fun server_op ::
    "('s, 'l) net_api \<Rightarrow> ('k, 'w) Config \<Rightarrow> 'l server_call \<Rightarrow> ('s, 'l) Server \<Rightarrow> ('s, 'l) effect list \<times> ('s, 'l) Server" where
  "server_op N cfg (OpSetListenAddr hst prt) h = ([], snd (SetListenAddr hst prt h))"
| "server_op N cfg (OpEnableRPC apis) h = snd (EnableRPC N apis h)"
| "server_op N cfg (OpEnableWS apis) h = snd (EnableWS N apis h)"
| "server_op N cfg (OpStart listen) h = snd (Server_Start N cfg listen h)"
| "server_op N cfg (OpStop timedOut) h = Server_Stop timedOut h"

fun server_run ::
    "('s, 'l) net_api \<Rightarrow> ('k, 'w) Config \<Rightarrow> 'l server_call list \<Rightarrow> ('s, 'l) Server \<Rightarrow> ('s, 'l) effect list \<times> ('s, 'l) Server" where
  "server_run N cfg [] h = ([], h)"
| "server_run N cfg (op # ops) h =
     (let (e, h1) = server_op N cfg op h; (es, h2) = server_run N cfg ops h1 in (e @ es, h2))"

text \<open>The RPC servers and listeners that effects start and end, and those a server holds.\<close>

fun enabled_by :: "('s, 'l) effect \<Rightarrow> 's list" where "enabled_by (Enabled s) = [s]" | "enabled_by _ = []"
fun stopped_by :: "('s, 'l) effect \<Rightarrow> 's list" where "stopped_by (StopServer s) = [s]" | "stopped_by _ = []"
fun opened_by :: "('s, 'l) effect \<Rightarrow> 'l list" where "opened_by (Serve l) = [l]" | "opened_by _ = []"
fun closed_by :: "('s, 'l) effect \<Rightarrow> 'l list" where "closed_by (CloseListener l) = [l]" | "closed_by _ = []"

definition total :: "('e \<Rightarrow> 'x list) \<Rightarrow> 'e list \<Rightarrow> 'x multiset" where
  "total f es = mset (concat (map f es))"

definition held_servers :: "('s, 'l) Server \<Rightarrow> 's multiset" where
  "held_servers h = mset (map rpc_server (case httpHandler h of Some w \<Rightarrow> [w] | None \<Rightarrow> []))
     + mset (map rpc_server (case wsHandler h of Some w \<Rightarrow> [w] | None \<Rightarrow> []))"

definition held_listeners :: "('s, 'l) Server \<Rightarrow> 'l multiset" where
  "held_listeners h = mset (case listener h of Some l \<Rightarrow> [l] | None \<Rightarrow> [])"

text \<open>A running server has an HTTP server and an address, and an address is that of the host and port.\<close>

definition server_ok :: "('s, 'l) Server \<Rightarrow> bool" where
  "server_ok h \<longleftrightarrow> (listener h \<noteq> None \<longrightarrow> http_server h \<noteq> None \<and> endpoint h \<noteq> [])
     \<and> (endpoint h \<noteq> [] \<longrightarrow> endpoint h = JoinHostPort (host h) (Itoa (port h)))"

lemmas server_defs = SetListenAddr_def EnableRPC_def EnableWS_def disableRPC_def disableWS_def Server_Start_def Server_Stop_def
  rpcAllowed_def wsAllowed_def Let_def

lemmas held_defs = held_servers_def held_listeners_def total_def

lemma total_Nil [simp]: "total f [] = {#}"
  by (simp add: total_def)

lemma total_append [simp]: "total f (xs @ ys) = total f xs + total f ys"
  by (simp add: total_def)

lemma server_op_ok:
  assumes "server_ok h"
  shows "server_ok (snd (server_op N cfg op h))"
  using assms by (cases op) (auto simp: server_defs server_ok_def split: sum.splits option.splits)

lemma server_op_servers:
  "held_servers h + total enabled_by (fst (server_op N cfg op h)) =
     total stopped_by (fst (server_op N cfg op h)) + held_servers (snd (server_op N cfg op h))"
  by (cases op; cases "httpHandler h"; cases "wsHandler h") (auto simp: server_defs held_defs split: sum.splits option.splits)

lemma server_op_listeners:
  "held_listeners h + total opened_by (fst (server_op N cfg op h)) =
     total closed_by (fst (server_op N cfg op h)) + held_listeners (snd (server_op N cfg op h))"
  by (cases op; cases "httpHandler h"; cases "wsHandler h") (auto simp: server_defs held_defs split: sum.splits option.splits)

definition run_ok :: "('s, 'l) Server \<Rightarrow> ('s, 'l) effect list \<times> ('s, 'l) Server \<Rightarrow> bool" where
  "run_ok h r \<longleftrightarrow> server_ok (snd r)
     \<and> held_servers h + total enabled_by (fst r) = total stopped_by (fst r) + held_servers (snd r)
     \<and> held_listeners h + total opened_by (fst r) = total closed_by (fst r) + held_listeners (snd r)"

lemma server_op_run_ok: "server_ok h \<Longrightarrow> run_ok h (server_op N cfg op h)"
  by (simp add: run_ok_def server_op_ok server_op_servers server_op_listeners)

lemma run_ok_append:
  assumes "run_ok h (e, h1)" "run_ok h1 (es, h2)"
  shows "run_ok h (e @ es, h2)"
  using assms by (auto simp: run_ok_def) (metis add.assoc)+

lemma server_run_ok: "server_ok h \<Longrightarrow> run_ok h (server_run N cfg ops h)"
proof (induction ops arbitrary: h)
  case Nil
  then show ?case by (simp add: run_ok_def total_def)
next
  case (Cons op ops)
  obtain e h1 where op: "server_op N cfg op h = (e, h1)" by (cases "server_op N cfg op h")
  obtain es h2 where run: "server_run N cfg ops h1 = (es, h2)" by (cases "server_run N cfg ops h1")
  have step: "run_ok h (e, h1)" using server_op_run_ok [OF Cons.prems, of N cfg op] op by simp
  then have "run_ok h1 (es, h2)" using Cons.IH [of h1] run by (simp add: run_ok_def)
  with step show ?case by (simp add: op run run_ok_append)
qed

text \<open>C33: However the server is configured, started and stopped, a running server has an address and an HTTP
  server, no RPC server and no listener is lost: each that was enabled or opened is either held or was
  stopped exactly once; there is at most one listener at a time.\<close>

theorem server_lifecycle:
  "server_ok (snd (server_run N cfg ops (NewServer N)))
   \<and> total enabled_by (fst (server_run N cfg ops (NewServer N))) =
       total stopped_by (fst (server_run N cfg ops (NewServer N))) + held_servers (snd (server_run N cfg ops (NewServer N)))
   \<and> total opened_by (fst (server_run N cfg ops (NewServer N))) =
       total closed_by (fst (server_run N cfg ops (NewServer N))) + held_listeners (snd (server_run N cfg ops (NewServer N)))"
proof -
  have new: "server_ok (NewServer N)" "held_servers (NewServer N) = {#}" "held_listeners (NewServer N) = {#}"
    by (simp_all add: server_ok_def NewServer_def held_defs)
  then show ?thesis using server_run_ok [OF new(1), of N cfg ops] by (simp add: run_ok_def)
qed

text \<open>A stopped server is a new one but for its timeouts, so that it can be configured and started again.\<close>

lemma Server_Stop_resets:
  assumes "listener h = Some l"
  shows "snd (Server_Stop timedOut h) = (NewServer N)\<lparr>timeouts := timeouts h\<rparr>"
  using assms by (simp add: Server_Stop_def NewServer_def)

text \<open>While it runs, neither another address nor another start has an effect.\<close>

lemma running_server_stable:
  assumes "listener h = Some l"
  shows "ListenAddr N h = net_Addr N l" and "Server_Start N cfg r h = (None, [], h)"
    and "hst \<noteq> host h \<or> prt \<noteq> port h \<Longrightarrow> \<exists>e. SetListenAddr hst prt h = (Some e, h)"
  using assms by (auto simp: ListenAddr_def Server_Start_def SetListenAddr_def)

text \<open>A start that fails leaves nothing enabled.\<close>

lemma failed_start_disables:
  assumes "Server_Start N cfg (Inl e) h = (Some e, es, h')"
  shows "httpHandler h' = None \<and> wsHandler h' = None \<and> listener h' = None"
  using assms by (auto simp: server_defs split: if_splits option.splits)

definition timeouts_ok :: "HTTPTimeouts \<Rightarrow> bool" where
  "timeouts_ok t \<longleftrightarrow> Second \<le> ReadTimeout t \<and> Second \<le> ReadHeaderTimeout t \<and> Second \<le> WriteTimeout t \<and> Second \<le> IdleTimeout t"

text \<open>Sanitized timeouts are at least a second, and sanitizing them again changes nothing.\<close>

lemma CheckTimeouts_sane:
  assumes "timeouts_ok deflt"
  shows "timeouts_ok (CheckTimeouts deflt t)" and "CheckTimeouts deflt (CheckTimeouts deflt t) = CheckTimeouts deflt t"
  using assms by (auto simp: CheckTimeouts_def timeouts_ok_def)

lemma CheckTimeouts_id: "timeouts_ok t \<Longrightarrow> CheckTimeouts deflt t = t"
  by (auto simp: CheckTimeouts_def timeouts_ok_def)

section \<open>Requests and responses\<close>

text \<open>The requests for filters, subscriptions and the wallet are served, but not among the known methods.\<close>

lemma unlisted_methods:
  "\<not> IsValidMethod ''eth_newFilter'' \<and> \<not> IsValidMethod ''eth_newBlockFilter'' \<and> \<not> IsValidMethod ''eth_getFilterChanges''
   \<and> \<not> IsValidMethod ''eth_getFilterLogs'' \<and> \<not> IsValidMethod ''eth_uninstallFilter'' \<and> \<not> IsValidMethod ''eth_subscribe''
   \<and> \<not> IsValidMethod ''eth_sign''"
  by (simp add: IsValidMethod_def validMethods_def)

text \<open>The hash that is logged for a submitted transaction is the one the endpoint answers with.\<close>

lemma logged_hash_answered:
  assumes "extractSendRawTxHash c Decode body = Inr h"
    and "map_of body ''params'' = Some (JArray (JString hexStr # ps))" and "Decode hexStr = Inr data"
    and "SendRawTransaction c ev takeToken addTx data (lim, pool) = (Inr h', lim', pool')"
  shows "h' = h"
proof -
  obtain tx where tx: "geth_UnmarshalBinary c data = Inr tx" "gtHash tx = h"
    using assms(1-3) by (auto simp: extractSendRawTxHash_def gw_result)
  then show ?thesis using assms(4)
    by (auto simp: SendRawTransaction_def gw_result split: sum.splits prod.splits bool.splits if_splits option.splits)
qed

text \<open>What the handler guarantees of a response: \<open>answered\<close> is what it has written of \<open>data\<close>.\<close>

definition answered :: "(bytes \<Rightarrow> err + jsonMessage option) \<Rightarrow> (jsonMessage \<Rightarrow> err + bytes) \<Rightarrow> bytes \<Rightarrow> bytes" where
  "answered decode encode data = (case decode data of
      Inr (Some m) \<Rightarrow> (if jmError m = None then data else case encode m of Inl _ \<Rightarrow> [] | Inr enc \<Rightarrow> enc)
    | _ \<Rightarrow> data)"

definition is_error :: "(bytes \<Rightarrow> err + jsonMessage option) \<Rightarrow> bytes \<Rightarrow> bool" where
  "is_error decode data \<longleftrightarrow> (\<exists>m. decode data = Inr (Some m) \<and> jmError m \<noteq> None)"

text \<open>A response that is not the value null is written once, as it is or, when it is an error,
  re-encoded with its length as the content length and flushed; for an error the number of bytes reported to the
  caller is always zero, also when the whole response was written.\<close>

theorem response_written:
  assumes "decode data \<noteq> Inr None" and "rwBody w = []"
  shows "\<exists>n e w'. responseHandler_Write decode encode out data w = Ret ((n, e), w')
    \<and> rwBody w' = answered decode encode data
    \<and> map_of (rwHeader w') ''content-type'' = Some ''application/json''
    \<and> (if is_error decode data
       then n = 0 \<and> (e = None \<longrightarrow> rwFlushed w' \<and> map_of (rwHeader w') ''content-length'' = Some (Itoa (int (length (rwBody w')))))
       else (n, e) = out data)"
proof (cases "decode data")
  case (Inl e)
  then show ?thesis using assms(2)
    by (cases "out data") (auto simp: responseHandler_Write_def raw_write_def answered_def is_error_def update_conv')
next
  case (Inr mo)
  with assms obtain m where m: "decode data = Inr (Some m)" by (cases mo) auto
  show ?thesis
  proof (cases "jmError m")
    case None
    then show ?thesis using m assms(2)
      by (cases "out data") (auto simp: responseHandler_Write_def raw_write_def answered_def is_error_def update_conv')
  next
    case (Some je)
    then show ?thesis using m assms(2)
      by (cases "encode m"; cases "out (case encode m of Inr enc \<Rightarrow> enc)")
         (auto simp: responseHandler_Write_def raw_write_def answered_def is_error_def update_conv' Let_def)
  qed
qed

section \<open>Witnesses\<close>

definition demo_message :: jsonMessage where
  "demo_message = \<lparr>jmVersion = ''2.0'', jmID = Some [49], jmMethod = [], jmParams = None,
     jmError = Some \<lparr>jeCode = - 32603, jeMessage = ''method handler crashed'', jeData = None\<rparr>, jmResult = None\<rparr>"

definition no_response :: response where
  "no_response = \<lparr>rwHeader = [], rwBody = [], rwFlushed = False, rwMetrics = []\<rparr>"

lemma response_written_witness:
  "\<exists>w'. responseHandler_Write (\<lambda>_. Inr (Some demo_message)) (\<lambda>_. Inr [1, 2, 3]) (\<lambda>d. (int (length d), None)) [5] no_response = Ret ((0, None), w')
    \<and> rwBody w' = [1, 2, 3] \<and> map_of (rwHeader w') ''content-length'' = Some ''3''"
proof -
  have three: "Itoa 3 = ''3''" by code_simp
  have "responseHandler_Write (\<lambda>_. Inr (Some demo_message)) (\<lambda>_. Inr [1, 2, 3]) (\<lambda>d. (int (length d), None)) [5] no_response
      = Ret ((0, None), w') \<Longrightarrow> rwBody w' = [1, 2, 3] \<and> map_of (rwHeader w') ''content-length'' = Some ''3''" for w'
    using response_written [of "\<lambda>_. Inr (Some demo_message)" "[5]" no_response "\<lambda>_. Inr [1, 2, 3]" "\<lambda>d. (int (length d), None)"]
    by (auto simp: no_response_def demo_message_def answered_def is_error_def three)
  moreover have "\<exists>w'. responseHandler_Write (\<lambda>_. Inr (Some demo_message)) (\<lambda>_. Inr [1, 2, 3]) (\<lambda>d. (int (length d), None)) [5] no_response
      = Ret ((0, None), w')"
    by (simp add: responseHandler_Write_def raw_write_def demo_message_def Let_def)
  ultimately show ?thesis by blast
qed

end
