(* ===== verification/Gateway_Services.thy ===== *)
theory Gateway_Services
  imports Rpc_Server Batch_Pool Cross_Spork
begin

text \<open>
  The services of \<^verbatim>\<open>bootstrap/bootstrap.go\<close>: the client of the access nodes, the construction of the key
  store, the transaction pool, the requester and the endpoints behind the API server, the metrics and
  profiler servers, and the order in which all of them start and stop.
\<close>

section \<open>The access client\<close>

text \<open>\<open>dial\<close> opens the connection to a host.\<close>

definition setupCrossSporkClient ::
    "(string \<Rightarrow> err + 'c) \<Rightarrow> ('c, 'ev, 'v, 's) access_api \<Rightarrow> ('k, 'w) Config \<Rightarrow> err + 'c CrossSporkClient" where
  "setupCrossSporkClient dial N cfg =
     (let connect = (\<lambda>hst. rwrap (\<lambda>e. Errorf ''failed to create client connection for host: %s, with error: %w'' [FStr hst] [e]) (dial hst)) in
      rbind (connect (AccessNodeHost cfg)) (\<lambda>currentSporkClient.
      rbind (rmap connect (AccessNodePreviousSporkHosts cfg)) (\<lambda>pastSporkClients.
      rwrap (\<lambda>e. Errorf ''failed to create cross spork client: %w'' [] [e])
        (NewCrossSporkClient N currentSporkClient pastSporkClients (FlowNetworkID cfg = Emulator)))))"

section \<open>The services behind the endpoints\<close>

datatype tx_pool = BatchPool BatchTxPool | SinglePool "KeyStore SingleTxPool"

text \<open>What the start of the API server asks: the account, the access node, the limiter stores and the network.\<close>

record ('pk, 'sg, 'k, 'v, 'rs, 'l) start_env =
  sxAccount :: "err + ('pk \<times> nat) list"
  sxPublicKey :: "'sg \<Rightarrow> 'pk"
  sxNewInMemorySigner :: "'k \<Rightarrow> err + 'sg"
  sxNewKMSKeySigner :: "kms_key \<Rightarrow> err + 'sg"
  sxLatestHeader :: "err + BlockHeader"
  sxBalance :: "err + u64"
  sxTxLimiter :: "err option"
  sxEvm :: "'v EVM"
  sxLimiter :: "err option"
  sxLatestEVMHeight :: "err + u64"
  sxNet :: "('rs, 'l) net_api"
  sxListen :: "err + 'l"

record 'v api_services =
  asPool :: tx_pool
  asEvm :: "'v EVM"
  asRateLimit :: u64
  asResumedHeight :: u64
  asApis :: "(string \<times> api_service) list"

definition requester_config :: "('k, 'w) Config \<Rightarrow> rq_config" where
  "requester_config cfg = \<lparr>cfIndexOnly = Config.IndexOnly cfg, cfTxRequestLimit = TxRequestLimit cfg, cfGasPrice = cfgGasPrice cfg,
     cfEnforceGasPrice = EnforceGasPrice cfg, cfLocalIndexValidation = (TxStateValidation cfg = LocalIndexValidation)\<rparr>"

definition new_tx_pool :: "('k, 'w) Config \<Rightarrow> err + BlockHeader \<Rightarrow> KeyStore \<Rightarrow> err + tx_pool" where
  "new_tx_pool cfg header ks =
     rwrap (\<lambda>e. Errorf ''failed to create transaction pool: %w'' [] [e])
       (if TxBatchMode cfg then rbind (NewBatchTxPool header ks) (\<lambda>p. Inr (BatchPool p))
        else rbind (NewSingleTxPool header ks) (\<lambda>p. Inr (SinglePool p)))"

text \<open>Without a limit the number of tokens is the largest \<^verbatim>\<open>int\<close>.\<close>

definition rate_limit :: "('k, 'w) Config \<Rightarrow> u64" where
  "rate_limit cfg = (if RateLimit cfg = 0 then 2 ^ 63 - 1 else RateLimit cfg)"

definition build_services ::
    "('pk, 'sg, 'k, 'v, 'rs, 'l) start_env \<Rightarrow> ('k, 'w) Config \<Rightarrow> KeyStore \<Rightarrow> err + 'v api_services" where
  "build_services X cfg ks =
     rbind (new_tx_pool cfg (sxLatestHeader X) ks) (\<lambda>txPool.
     rbind (rwrap (\<lambda>e. Errorf ''failed to create EVM requester: %w'' [] [e])
       (NewEVM (requester_config cfg) (sxBalance X) (sxTxLimiter X) (sxEvm X))) (\<lambda>evm.
     rbind (case sxLimiter X of
         Some e \<Rightarrow> Inl (Errorf ''failed to create in-memory limiter store: %w'' [] [e]) | None \<Rightarrow> Inr ()) (\<lambda>_.
     rbind (rwrap (\<lambda>e. Errorf ''failed to retrieve the indexing resumed height: %w'' [] [e]) (sxLatestEVMHeight X)) (\<lambda>resumed.
     Inr \<lparr>asPool = txPool, asEvm = evm, asRateLimit = rate_limit cfg, asResumedHeight = resumed,
          asApis = SupportedAPIs True (WalletEnabled cfg)\<rparr>))))"

text \<open>The server is enabled, gets its address and starts; the first error ends it.\<close>

definition serve_apis ::
    "('rs, 'l) net_api \<Rightarrow> ('k, 'w) Config \<Rightarrow> (string \<times> api_service) list \<Rightarrow> err + 'l \<Rightarrow> ('rs, 'l) Server
      \<Rightarrow> err option \<times> ('rs, 'l) effect list \<times> ('rs, 'l) Server" where
  "serve_apis N cfg apis listen h = (case EnableRPC N apis h of
      (Some e, es1, h1) \<Rightarrow> (Some e, es1, h1)
    | (None, es1, h1) \<Rightarrow> (case (if WSEnabled cfg then EnableWS N apis h1 else (None, [], h1)) of
        (Some e, es2, h2) \<Rightarrow> (Some e, es1 @ es2, h2)
      | (None, es2, h2) \<Rightarrow> (case SetListenAddr (RPCHost cfg) (RPCPort cfg) h2 of
          (Some e, h3) \<Rightarrow> (Some e, es1 @ es2, h3)
        | (None, h3) \<Rightarrow> (case Server_Start N cfg listen h3 of (r, es3, h4) \<Rightarrow> (r, es1 @ es2 @ es3, h4)))))"

section \<open>The bootstrap\<close>

record metricsWrapper =
  mwPort :: int
  mwStopFN :: bool

text \<open>What \<open>New\<close> opened before, the client and the database, is there as long as the bootstrap.\<close>

record ('rs, 'l) Bootstrap =
  bsServer :: "('rs, 'l) Server option"
  bsEvents :: "subscriber_kind option"
  bsMetrics :: "metricsWrapper option"
  bsProfiler :: "ProfileServer option"
  bsKeystore :: "KeyStore option"

datatype ('rs, 'l) service_effect =
  ApiEffect "('rs, 'l) effect" | EngineStarted subscriber_kind | EngineStopped subscriber_kind | MetricsStarted | MetricsStopped
  | ProfilerStarted ProfileServer | ProfilerStopped ProfileServer | ProfilerClosed ProfileServer | Ready | ClientClosed | DBClosed

definition NewBootstrap :: "('rs, 'l) Bootstrap" where
  "NewBootstrap = \<lparr>bsServer = None, bsEvents = None, bsMetrics = None, bsProfiler = None, bsKeystore = None\<rparr>"

definition StartAPIServer ::
    "('pk, 'sg, 'k, 'v, 'rs, 'l) start_env \<Rightarrow> ('k, 'w) Config \<Rightarrow> ('rs, 'l) Bootstrap
      \<Rightarrow> (err option \<times> ('rs, 'l) service_effect list \<times> ('rs, 'l) Bootstrap) exec" where
  "StartAPIServer X cfg b =
     (let b1 = b\<lparr>bsServer := Some (NewServer (sxNet X))\<rparr> in
      case signer_keys (sxAccount X) (sxPublicKey X) (sxNewInMemorySigner X) (sxNewKMSKeySigner X) cfg of
        Inl e \<Rightarrow> Ret (Some e, [], b1)
      | Inr indexes \<Rightarrow>
         ebind (New (map (NewAccountKey (Config.COAAddress cfg)) indexes) (Config.IndexOnly cfg) (cfgCOATxLookupEnabled cfg)) (\<lambda>ks.
         let b2 = b1\<lparr>bsKeystore := Some ks\<rparr> in
         case build_services X cfg ks of
           Inl e \<Rightarrow> Ret (Some e, [], b2)
         | Inr s \<Rightarrow> (case serve_apis (sxNet X) cfg (asApis s) (sxListen X) (NewServer (sxNet X)) of
             (r, es, h) \<Rightarrow> Ret (r, map ApiEffect es, b2\<lparr>bsServer := Some h\<rparr>))))"

text \<open>
  The metrics server: \<open>waited\<close> is the error of waiting for it to be ready, \<open>early\<close> what its error channel
  already holds then.
\<close>

definition metricsWrapper_Start :: "err option \<Rightarrow> err option option \<Rightarrow> metricsWrapper \<Rightarrow> err option \<times> metricsWrapper" where
  "metricsWrapper_Start waited early m = (case waited of
      Some e \<Rightarrow> (Some (Errorf ''failed to start metrics server: %w'' [] [e]), m)
    | None \<Rightarrow> (case early of Some r \<Rightarrow> (r, m) | None \<Rightarrow> (None, m\<lparr>mwStopFN := True\<rparr>)))"

definition metricsWrapper_Stop :: "metricsWrapper option \<Rightarrow> ('rs, 'l) service_effect list" where
  "metricsWrapper_Stop m = (case m of Some w \<Rightarrow> if mwStopFN w then [MetricsStopped] else [] | None \<Rightarrow> [])"

definition StartMetricsServer ::
    "('k, 'w) Config \<Rightarrow> err option \<Rightarrow> err option option \<Rightarrow> ('rs, 'l) Bootstrap \<Rightarrow> err option \<times> ('rs, 'l) service_effect list \<times> ('rs, 'l) Bootstrap" where
  "StartMetricsServer cfg waited early b =
     (case metricsWrapper_Start waited early \<lparr>mwPort = MetricsPort cfg, mwStopFN = False\<rparr> of
        (r, m) \<Rightarrow> (r, if mwStopFN m then [MetricsStarted] else [], b\<lparr>bsMetrics := Some m\<rparr>))"

definition StartProfilerServer ::
    "('k, 'w) Config \<Rightarrow> ('rs, 'l) Bootstrap \<Rightarrow> ('rs, 'l) service_effect list \<times> ('rs, 'l) Bootstrap" where
  "StartProfilerServer cfg b =
     (if \<not> ProfilerEnabled cfg then ([], b)
      else let p = NewProfileServer (ProfilerHost cfg) (ProfilerPort cfg) in ([ProfilerStarted p], b\<lparr>bsProfiler := Some p\<rparr>))"

text \<open>
  \<open>ingestion\<close> is the outcome of \<open>StartEventIngestion\<close>, whose wait for the engine to be ready and the
  waits for the metrics and profiler servers are in the outcomes given; an RPC server whose
  registration of a name fails is never enabled and so appears in no effect.
\<close>

definition Bootstrap_Run ::
    "('pk, 'sg, 'k, 'v, 'rs, 'l) start_env \<Rightarrow> ('k, 'w) Config \<Rightarrow> err + subscriber_kind \<Rightarrow> err option \<Rightarrow> err option option \<Rightarrow> ('rs, 'l) Bootstrap
      \<Rightarrow> (err option \<times> ('rs, 'l) service_effect list \<times> ('rs, 'l) Bootstrap) exec" where
  "Bootstrap_Run X cfg ingestion waited early b =
     ebind (StartAPIServer X cfg b) (\<lambda>(r, es1, b1). Ret (case r of
        Some e \<Rightarrow> (Some (Errorf ''failed to start API server: %w'' [] [e]), es1, b1)
      | None \<Rightarrow> (case ingestion of
          Inl e \<Rightarrow> (Some (Errorf ''failed to start event ingestion engine: %w'' [] [e]), es1, b1)
        | Inr sub \<Rightarrow>
           (case StartMetricsServer cfg waited early (b1\<lparr>bsEvents := Some sub\<rparr>) of
              (Some e, es2, b2) \<Rightarrow> (Some (Errorf ''failed to start metrics server: %w'' [] [e]), es1 @ [EngineStarted sub] @ es2, b2)
            | (None, es2, b2) \<Rightarrow> (case StartProfilerServer cfg b2 of
                (es3, b3) \<Rightarrow> (None, es1 @ [EngineStarted sub] @ es2 @ es3 @ [Ready], b3))))))"

definition StopEventIngestion :: "('rs, 'l) Bootstrap \<Rightarrow> ('rs, 'l) service_effect list" where
  "StopEventIngestion b = (case bsEvents b of None \<Rightarrow> [] | Some s \<Rightarrow> [EngineStopped s])"

definition StopAPIServer :: "bool \<Rightarrow> ('rs, 'l) Bootstrap \<Rightarrow> ('rs, 'l) service_effect list \<times> ('rs, 'l) Bootstrap" where
  "StopAPIServer timedOut b = (case bsServer b of
      None \<Rightarrow> ([], b)
    | Some h \<Rightarrow> (case Server_Stop timedOut h of (es, h') \<Rightarrow> (map ApiEffect es, b\<lparr>bsServer := Some h'\<rparr>)))"

text \<open>\<open>timedOut\<close>: the graceful shutdown ended with the deadline of its context.\<close>

definition StopProfilerServer :: "bool \<Rightarrow> ('rs, 'l) Bootstrap \<Rightarrow> ('rs, 'l) service_effect list" where
  "StopProfilerServer timedOut b = (case bsProfiler b of
      None \<Rightarrow> []
    | Some p \<Rightarrow> [ProfilerStopped p] @ (if timedOut then [ProfilerClosed p] else []))"

text \<open>\<open>Stop\<close> calls everything but \<open>StopProfilerServer\<close>.\<close>

definition Bootstrap_Stop :: "bool \<Rightarrow> ('rs, 'l) Bootstrap \<Rightarrow> ('rs, 'l) service_effect list \<times> ('rs, 'l) Bootstrap" where
  "Bootstrap_Stop timedOut b = (case StopAPIServer timedOut b of
      (es, b') \<Rightarrow> (StopEventIngestion b @ metricsWrapper_Stop (bsMetrics b) @ es @ [ClientClosed] @ [DBClosed], b'))"

section \<open>Starting\<close>

lemma signer_keys_index_only: "Config.IndexOnly cfg \<Longrightarrow> signer_keys acc pub mem kms cfg = Inr []"
  by (simp add: signer_keys_def)

text \<open>The key store of a starting gateway has every key free.\<close>

lemma new_keystore:
  "\<exists>ks. New (map (NewAccountKey addr) indexes) ionly lookup = Ret ks \<and> ks_ok ks \<and> AvailableKeys ks = length indexes
     \<and> heap ks = map (NewAccountKey addr) indexes"
proof -
  have "\<not> inUse k" if "k \<in> set (map (NewAccountKey addr) indexes)" for k using that by (auto simp: NewAccountKey_def)
  with New_ok [where keys = "map (NewAccountKey addr) indexes" and indexOnly = ionly and coaLookup = lookup]
  show ?thesis by (metis length_map)
qed

text \<open>The handlers of a server that serves a list of APIs: over HTTP with the limits of a batch, over
websockets, where they are enabled, without.\<close>

definition serves_apis :: "('rs, 'l) net_api \<Rightarrow> (string \<times> api_service) list \<Rightarrow> bool \<Rightarrow> ('rs, 'l) Server \<Rightarrow> bool" where
  "serves_apis N apis ws h \<longleftrightarrow>
     (\<exists>srv. register_all N apis (rpc_SetBatchLimits N batchRequestLimit batchResponseMaxSize (rpc_NewServer N)) = Inr srv
        \<and> httpHandler h = Some \<lparr>Handler = corsHandler srv [''*''], rpc_server = srv\<rparr>)
   \<and> (if ws then (\<exists>srv. register_all N apis (rpc_NewServer N) = Inr srv
          \<and> wsHandler h = Some \<lparr>Handler = Websocket [''*''] srv, rpc_server = srv\<rparr>)
      else wsHandler h = None)"

lemma serve_apis_outcome:
  assumes "serve_apis N cfg apis listen (NewServer N) = (r, es, h)"
  shows "(r = None \<longrightarrow> (\<exists>l. listen = Inr l \<and> listener h = Some l \<and> Serve l \<in> set es) \<and> serves_apis N apis (WSEnabled cfg) h
           \<and> host h = RPCHost cfg \<and> port h = RPCPort cfg)
    \<and> (r \<noteq> None \<longrightarrow> listener h = None) \<and> (\<forall>e \<in> set es. closed_by e = [])"
  using assms
  by (auto simp: serve_apis_def EnableRPC_def EnableWS_def SetListenAddr_def Server_Start_def NewServer_def rpcAllowed_def wsAllowed_def
      disableRPC_def disableWS_def serves_apis_def Let_def split: sum.splits if_splits option.splits prod.splits)

lemma filtered_keys: "map snd (filter (\<lambda>(pk, _). pk = k) keys) = [i. (pk, i) \<leftarrow> keys, pk = k]"
  by (induction keys) auto

lemma signer_keys_cases:
  assumes "signer_keys account PublicKey mem kms cfg = Inr indexes"
  shows "if Config.IndexOnly cfg then indexes = []
    else \<exists>keys signer. account = Inr keys \<and> createSigner mem kms cfg = Inr signer
      \<and> indexes = [i. (pk, i) \<leftarrow> keys, pk = PublicKey signer]"
  using assms by (auto simp: signer_keys_def gw_result filtered_keys)


section \<open>Stopping\<close>

fun api_effects :: "('rs, 'l) service_effect list \<Rightarrow> ('rs, 'l) effect list" where
  "api_effects [] = []"
| "api_effects (ApiEffect e # es) = e # api_effects es"
| "api_effects (_ # es) = api_effects es"

lemma api_effects_append [simp]: "api_effects (xs @ ys) = api_effects xs @ api_effects ys"
  by (induction xs rule: api_effects.induct) auto

lemma api_effects_map [simp]: "api_effects (map ApiEffect es) = es"
  by (induction es) auto

lemma serve_apis_run_ok:
  assumes "serve_apis N cfg apis listen h = (r, es, h')" "server_ok h"
  shows "run_ok h (es, h')"
proof -
  note step = server_op_run_ok [where N = N and cfg = cfg]
  obtain r1 es1 h1 where rpc: "EnableRPC N apis h = (r1, es1, h1)" by (cases "EnableRPC N apis h")
  have 1: "run_ok h (es1, h1)" using step [OF assms(2), of "OpEnableRPC apis"] rpc by simp
  obtain r2 es2 h2 where ws: "(if WSEnabled cfg then EnableWS N apis h1 else (None, [], h1)) = (r2, es2, h2)"
    by (cases "if WSEnabled cfg then EnableWS N apis h1 else (None, [], h1)")
  have ok1: "server_ok h1" using 1 by (simp add: run_ok_def)
  have 2: "run_ok h1 (es2, h2)"
    using step [OF ok1, of "OpEnableWS apis"] ws ok1 by (auto simp: run_ok_def total_def split: if_splits)
  then have ok2: "server_ok h2" by (simp add: run_ok_def)
  obtain r3 h3 where ad: "SetListenAddr (RPCHost cfg) (RPCPort cfg) h2 = (r3, h3)" by (cases "SetListenAddr (RPCHost cfg) (RPCPort cfg) h2")
  have 3: "run_ok h2 ([], h3)" using step [OF ok2, of "OpSetListenAddr (RPCHost cfg) (RPCPort cfg)"] ad by simp
  then have ok3: "server_ok h3" by (simp add: run_ok_def)
  obtain r4 es4 h4 where st: "Server_Start N cfg listen h3 = (r4, es4, h4)" by (cases "Server_Start N cfg listen h3")
  have 4: "run_ok h3 (es4, h4)" using step [OF ok3, of "OpStart listen"] st by simp
  have 12: "run_ok h (es1 @ es2, h2)" by (rule run_ok_append [OF 1 2])
  have 123: "run_ok h (es1 @ es2, h3)" using run_ok_append [OF 12 3] by simp
  have "run_ok h (es1 @ es2 @ es4, h4)" using run_ok_append [OF 123 4] by simp
  with 1 12 123 assms(1) show ?thesis
    by (cases r1; cases r2; cases r3) (auto simp: serve_apis_def rpc ws ad st)
qed

lemma StartAPIServer_ok:
  assumes "StartAPIServer X cfg b = Ret (None, es, b')"
  obtains ks apis h aes where "serve_apis (sxNet X) cfg apis (sxListen X) (NewServer (sxNet X)) = (None, aes, h)"
    "es = map ApiEffect aes" "b' = b\<lparr>bsServer := Some h, bsKeystore := Some ks\<rparr>"
proof -
  obtain indexes where idx: "signer_keys (sxAccount X) (sxPublicKey X) (sxNewInMemorySigner X) (sxNewKMSKeySigner X) cfg = Inr indexes"
    using assms by (auto simp: StartAPIServer_def Let_def split: sum.splits)
  obtain ks where ks: "New (map (NewAccountKey (Config.COAAddress cfg)) indexes) (Config.IndexOnly cfg) (cfgCOATxLookupEnabled cfg) = Ret ks"
    using new_keystore by blast
  obtain s where s: "build_services X cfg ks = Inr s"
    using assms idx ks by (cases "build_services X cfg ks") (auto simp: StartAPIServer_def Let_def)
  obtain r aes h where run: "serve_apis (sxNet X) cfg (asApis s) (sxListen X) (NewServer (sxNet X)) = (r, aes, h)"
    by (cases "serve_apis (sxNet X) cfg (asApis s) (sxListen X) (NewServer (sxNet X))")
  show thesis by (rule that [of "asApis s" aes h ks]) (use assms idx ks s run in \<open>auto simp: StartAPIServer_def Let_def\<close>)
qed

text \<open>What a successful start leaves behind.\<close>

lemma Bootstrap_Run_started:
  assumes "Bootstrap_Run X cfg ingestion waited early NewBootstrap = Ret (None, es, b)"
  obtains sub h l m aes where "ingestion = Inr sub" "bsEvents b = Some sub" "bsServer b = Some h" "listener h = Some l" "Serve l \<in> set aes"
    "run_ok (NewServer (sxNet X)) (aes, h)" "bsMetrics b = Some m"
    "es = map ApiEffect aes @ [EngineStarted sub] @ (if mwStopFN m then [MetricsStarted] else [])
       @ (if ProfilerEnabled cfg then [ProfilerStarted (NewProfileServer (ProfilerHost cfg) (ProfilerPort cfg))] else []) @ [Ready]"
proof -
  obtain es1 b1 sub where api: "StartAPIServer X cfg NewBootstrap = Ret (None, es1, b1)" and sub: "ingestion = Inr sub"
    using assms by (auto simp: Bootstrap_Run_def gw_result split: option.splits sum.splits prod.splits)
  obtain ks apis h aes where
    sv: "serve_apis (sxNet X) cfg apis (sxListen X) (NewServer (sxNet X)) = (None, aes, h)"
    and b1: "es1 = map ApiEffect aes" "b1 = NewBootstrap\<lparr>bsServer := Some h, bsKeystore := Some ks\<rparr>"
    by (rule StartAPIServer_ok [OF api])
  have "server_ok (NewServer (sxNet X))" by (simp add: server_ok_def NewServer_def)
  from serve_apis_run_ok [OF sv this] have run: "run_ok (NewServer (sxNet X)) (aes, h)" .
  obtain l where lis: "listener h = Some l" "Serve l \<in> set aes" using serve_apis_outcome [OF sv] by auto
  obtain m where m: "metricsWrapper_Start waited early \<lparr>mwPort = MetricsPort cfg, mwStopFN = False\<rparr> = (None, m)"
    using assms by (cases "metricsWrapper_Start waited early \<lparr>mwPort = MetricsPort cfg, mwStopFN = False\<rparr>")
      (auto simp: Bootstrap_Run_def api sub StartMetricsServer_def split: option.splits)
  have "bsEvents b = Some sub \<and> bsServer b = Some h \<and> bsMetrics b = Some m \<and>
      es = map ApiEffect aes @ [EngineStarted sub] @ (if mwStopFN m then [MetricsStarted] else [])
        @ (if ProfilerEnabled cfg then [ProfilerStarted (NewProfileServer (ProfilerHost cfg) (ProfilerPort cfg))] else []) @ [Ready]"
    using assms by (cases "ProfilerEnabled cfg") (auto simp: Bootstrap_Run_def api sub StartMetricsServer_def m b1 StartProfilerServer_def Let_def)
  then show thesis using that [OF sub _ _ lis run, of m] by blast
qed

text \<open>What the effects of a start and the stop after it have in common with each other.\<close>

lemma start_stop_effects:
  assumes "Bootstrap_Run X cfg ingestion waited early NewBootstrap = Ret (None, es, b)" and "Bootstrap_Stop timedOut b = (es', b')"
  shows "(\<exists>sub rest. EngineStarted sub \<in> set es \<and> es' = [EngineStopped sub] @ rest @ [ClientClosed, DBClosed])"
    and "total enabled_by (api_effects (es @ es')) = total stopped_by (api_effects (es @ es'))"
    and "total opened_by (api_effects (es @ es')) = total closed_by (api_effects (es @ es'))"
    and "MetricsStarted \<in> set es \<longleftrightarrow> MetricsStopped \<in> set es'"
    and "ProfilerStopped p \<notin> set (es @ es')"
    and "\<exists>l. ApiEffect (Serve l) \<in> set es" and "Ready \<in> set es"
    and "ProfilerStarted p \<in> set es \<longleftrightarrow> ProfilerEnabled cfg \<and> p = NewProfileServer (ProfilerHost cfg) (ProfilerPort cfg)"
proof -
  obtain sub h l m aes where st: "ingestion = Inr sub" "bsEvents b = Some sub" "bsServer b = Some h" "listener h = Some l" "Serve l \<in> set aes"
    "run_ok (NewServer (sxNet X)) (aes, h)" "bsMetrics b = Some m"
    and es: "es = map ApiEffect aes @ [EngineStarted sub] @ (if mwStopFN m then [MetricsStarted] else [])
       @ (if ProfilerEnabled cfg then [ProfilerStarted (NewProfileServer (ProfilerHost cfg) (ProfilerPort cfg))] else []) @ [Ready]"
    by (rule Bootstrap_Run_started [OF assms(1)])
  obtain ses h' where stop: "Server_Stop timedOut h = (ses, h')" by (cases "Server_Stop timedOut h")
  have es': "es' = [EngineStopped sub] @ (if mwStopFN m then [MetricsStopped] else []) @ map ApiEffect ses @ [ClientClosed, DBClosed]"
    using assms(2) st(2,3,7) stop
    by (auto simp: Bootstrap_Stop_def StopAPIServer_def StopEventIngestion_def metricsWrapper_Stop_def)
  have "run_ok h (ses, h')"
    using server_op_run_ok [where op = "OpStop timedOut" and h = h] st(6) stop by (simp add: run_ok_def)
  then have run: "run_ok (NewServer (sxNet X)) (aes @ ses, h')" by (rule run_ok_append [OF st(6)])
  have "held_servers h' = {#}" "held_listeners h' = {#}"
    using stop st(4) by (auto simp: Server_Stop_def held_defs)
  then have eq: "total enabled_by (aes @ ses) = total stopped_by (aes @ ses)" "total opened_by (aes @ ses) = total closed_by (aes @ ses)"
    using run by (simp_all add: run_ok_def) (simp_all add: held_defs NewServer_def)
  have apis: "api_effects es = aes" "api_effects es' = ses" by (simp_all add: es es')
  show "\<exists>sub rest. EngineStarted sub \<in> set es \<and> es' = [EngineStopped sub] @ rest @ [ClientClosed, DBClosed]" by (auto simp: es es')
  show "total enabled_by (api_effects (es @ es')) = total stopped_by (api_effects (es @ es'))"
    "total opened_by (api_effects (es @ es')) = total closed_by (api_effects (es @ es'))"
    using eq by (simp_all add: apis)
  show "MetricsStarted \<in> set es \<longleftrightarrow> MetricsStopped \<in> set es'" "ProfilerStopped p \<notin> set (es @ es')" by (auto simp: es es')
  show "\<exists>l. ApiEffect (Serve l) \<in> set es" "Ready \<in> set es"
    "ProfilerStarted p \<in> set es \<longleftrightarrow> ProfilerEnabled cfg \<and> p = NewProfileServer (ProfilerHost cfg) (ProfilerPort cfg)"
    using st(5) by (auto simp: es)
qed

text \<open>A start that fails stops no service: it has at most begun to serve the API and started the
  ingestion.  (Where listening fails the server itself disables the RPC servers it had enabled.)\<close>

fun start_effect :: "('rs, 'l) service_effect \<Rightarrow> bool" where
  "start_effect (ApiEffect e) \<longleftrightarrow> closed_by e = []"
| "start_effect (EngineStarted _) \<longleftrightarrow> True"
| "start_effect _ \<longleftrightarrow> False"

lemma StartAPIServer_effects:
  assumes "StartAPIServer X cfg b = Ret (r, es, b')"
  shows "list_all start_effect es"
proof (cases "signer_keys (sxAccount X) (sxPublicKey X) (sxNewInMemorySigner X) (sxNewKMSKeySigner X) cfg")
  case (Inl e)
  then show ?thesis using assms by (simp add: StartAPIServer_def Let_def)
next
  case keys: (Inr indexes)
  obtain ks where ks: "New (map (NewAccountKey (Config.COAAddress cfg)) indexes) (Config.IndexOnly cfg) (cfgCOATxLookupEnabled cfg) = Ret ks"
    using new_keystore by blast
  show ?thesis
  proof (cases "build_services X cfg ks")
    case (Inl e)
    then show ?thesis using assms keys ks by (simp add: StartAPIServer_def Let_def)
  next
    case (Inr s)
    obtain r' aes h where run: "serve_apis (sxNet X) cfg (asApis s) (sxListen X) (NewServer (sxNet X)) = (r', aes, h)"
      by (cases "serve_apis (sxNet X) cfg (asApis s) (sxListen X) (NewServer (sxNet X))")
    then have "es = map ApiEffect aes" using assms keys ks Inr by (simp add: StartAPIServer_def Let_def)
    with serve_apis_outcome [OF run] show ?thesis by (simp add: list_all_iff)
  qed
qed

lemma failed_start_effects:
  assumes "Bootstrap_Run X cfg ingestion waited early b = Ret (Some e, es, b')"
  shows "list_all start_effect es"
proof -
  obtain r1 es1 b1 where api: "StartAPIServer X cfg b = Ret (r1, es1, b1)"
    using assms by (auto simp: Bootstrap_Run_def gw_result)
  have "list_all start_effect es1" by (rule StartAPIServer_effects [OF api])
  moreover have "es = es1 \<or> (\<exists>sub. es = es1 @ [EngineStarted sub])"
    using assms by (auto simp: Bootstrap_Run_def api StartMetricsServer_def metricsWrapper_Start_def StartProfilerServer_def Let_def
        split: option.splits sum.splits prod.splits if_splits)
  ultimately show ?thesis by auto
qed

text \<open>C39: A gateway that started and is stopped has stopped the ingestion first and closed the client and the
  database last; every RPC server and listener of the API and the metrics server are stopped in between,
  and the profiler is not.\<close>

theorem shutdown_complete:
  assumes "Bootstrap_Run X cfg ingestion waited early NewBootstrap = Ret (None, es, b)" and "Bootstrap_Stop timedOut b = (es', b')"
  shows "(\<exists>sub rest. EngineStarted sub \<in> set es \<and> es' = [EngineStopped sub] @ rest @ [ClientClosed, DBClosed])
    \<and> total enabled_by (api_effects (es @ es')) = total stopped_by (api_effects (es @ es'))
    \<and> total opened_by (api_effects (es @ es')) = total closed_by (api_effects (es @ es'))
    \<and> (MetricsStarted \<in> set es \<longleftrightarrow> MetricsStopped \<in> set es')
    \<and> (\<forall>p. ProfilerStopped p \<notin> set es')"
  using start_stop_effects [OF assms] by auto

section \<open>Witnesses\<close>

definition demo_net :: "(nat, nat) net_api" where
  "demo_net = \<lparr>rpc_NewServer = 0, rpc_SetBatchLimits = (\<lambda>_ _ s. s), rpc_RegisterName = (\<lambda>_ _ s. Inr (s + 1)),
     rpc_DefaultHTTPTimeouts = \<lparr>ReadTimeout = 30 * Second, ReadHeaderTimeout = 30 * Second, WriteTimeout = 30 * Second, IdleTimeout = 120 * Second\<rparr>,
     net_Addr = (\<lambda>_. [])\<rparr>"

definition demo_start :: "(nat, nat, nat, unit, nat, nat) start_env" where
  "demo_start = \<lparr>sxAccount = Inr [], sxPublicKey = (\<lambda>s. s), sxNewInMemorySigner = (\<lambda>_. Inr 1), sxNewKMSKeySigner = (\<lambda>_. Inr 1),
     sxLatestHeader = Inr \<lparr>bhID = 1, bhParentID = 0, bhHeight = 9, bhTimestamp = 0\<rparr>, sxBalance = Inr 5, sxTxLimiter = None, sxEvm = demo_evm, sxLimiter = None,
     sxLatestEVMHeight = Inr 4, sxNet = demo_net, sxListen = Inr 7\<rparr>"

definition demo_config :: "(nat, nat) Config" where
  "demo_config = (flag_config default_flags)\<lparr>Config.IndexOnly := True, WSEnabled := True, ProfilerEnabled := True\<rparr>"

lemma demo_services_start:
  "\<exists>es b. Bootstrap_Run demo_start demo_config (Inr (EventSubscriberFrom 5)) None None NewBootstrap = Ret (None, es, b)
     \<and> ApiEffect (Serve 7) \<in> set es"
  by (simp add: Bootstrap_Run_def StartAPIServer_def demo_start_def demo_config_def flag_config_def default_flags_def signer_keys_def New_def
      build_services_def new_tx_pool_def NewSingleTxPool_def NewEVM_def requester_config_def serve_apis_def EnableRPC_def EnableWS_def
      rpcAllowed_def wsAllowed_def NewServer_def register_all_def SupportedAPIs_def demo_net_def SetListenAddr_def Server_Start_def
      StartMetricsServer_def metricsWrapper_Start_def StartProfilerServer_def Let_def noTimeouts_def Second_def)

lemma shutdown_complete_witness:
  "\<exists>es b es' b'. Bootstrap_Run demo_start demo_config (Inr (EventSubscriberFrom 5)) None None NewBootstrap = Ret (None, es, b)
     \<and> Bootstrap_Stop False b = (es', b') \<and> ApiEffect (Serve 7) \<in> set es
     \<and> total opened_by (api_effects (es @ es')) = total closed_by (api_effects (es @ es'))"
proof -
  obtain es b where run: "Bootstrap_Run demo_start demo_config (Inr (EventSubscriberFrom 5)) None None NewBootstrap = Ret (None, es, b)"
    "ApiEffect (Serve 7) \<in> set es" using demo_services_start by blast
  obtain es' b' where stop: "Bootstrap_Stop False b = (es', b')" by (cases "Bootstrap_Stop False b")
  from shutdown_complete [OF run(1) stop] run stop show ?thesis by blast
qed

end
