(* ===== verification/Gateway_Tools.thy ===== *)
theory Gateway_Tools
  imports Gateway_Bootstrap Register_Index Blocks_Index Single_Tx_Pool "HOL-Library.Sublist"
begin

text \<open>
  The tools beside the gateway: the creation of an account with many keys
  (\<^verbatim>\<open>bootstrap/create-multi-key-account.go\<close>), the cloud key signer
  (\<^verbatim>\<open>services/requester/kms_key_signer.go\<close>), the check of the block database (\<^verbatim>\<open>cmd/blocks/cmd.go\<close>) and the
  export and extraction of the EVM state (\<^verbatim>\<open>cmd/export/cmd.go\<close>, \<^verbatim>\<open>services/evm/extract.go\<close>).
\<close>

section \<open>Accounts with many keys\<close>

datatype hash_algo = SHA3_256 | SHA2_256

text \<open>The keys given to the new account; all use the algorithm ECDSA on P-256.\<close>

record 'pk new_key =
  nkIndex :: "32 word"
  nkPublicKey :: 'pk
  nkHashAlgo :: hash_algo
  nkWeight :: nat

record 'pk payer_key =
  pkPublicKey :: 'pk
  pkIndex :: "32 word"
  pkSequenceNumber :: u64

record tool_tx =
  ttScript :: string
  ttAuthorizer :: flow_address
  ttArguments :: "bytes list"
  ttPayer :: flow_address
  ttProposalKey :: "flow_address \<times> 32 word \<times> u64"
  ttReferenceBlockID :: flow_id

datatype tool_value = VAddress flow_address | VOther

record flowEvent =
  feType :: string
  feValues :: "(string \<times> tool_value) list"

record tx_result =
  trError :: "err option"
  trPending :: bool
  trEvents :: "flowEvent list"

text \<open>
  What the tool takes from the SDK and the access node: keys and their Cadence encodings, the latest
  sealed block, the payer's account, signing and sending; \<open>tl_Results\<close> are the answers for the result.
\<close>

record ('k, 'pk, 'cv, 'sg) tool_api =
  tl_PublicKey :: "'k \<Rightarrow> 'pk"
  tl_DecodePublicKeyHex :: "string \<Rightarrow> err + 'pk"
  tl_CadenceKey :: "'pk new_key \<Rightarrow> err + 'cv"
  tl_EncodeKeys :: "'cv list \<Rightarrow> bytes"
  tl_EncodeNoContracts :: bytes
  tl_UFix64 :: "string \<Rightarrow> err + bytes"
  tl_LatestBlock :: "err + flow_id"
  tl_NewInMemorySigner :: "'k \<Rightarrow> err + 'sg"
  tl_Account :: "flow_address \<Rightarrow> err + 'pk payer_key list"
  tl_SignEnvelope :: "flow_address \<Rightarrow> 32 word \<Rightarrow> 'sg \<Rightarrow> tool_tx \<Rightarrow> err option"
  tl_SendTransaction :: "tool_tx \<Rightarrow> err option"
  tl_Results :: "(err + tx_result) list"

definition randomPrivateKey :: "err + bytes \<Rightarrow> (bytes \<Rightarrow> err + 'k) \<Rightarrow> err + 'k" where
  "randomPrivateKey seed GeneratePrivateKey = rbind seed GeneratePrivateKey"

text \<open>The initial value of the script, a variable of the package that both functions assign.\<close>

definition unlines :: "string list \<Rightarrow> string" where
  "unlines ls = concat (map (\<lambda>line. CHR 0x0A # line) ls)"

definition fund_lines :: "string list" where
  "fund_lines =
    [''import Crypto'',
     ''import \"FlowToken\"'',
     ''import \"FungibleToken\"'',
     '''',
     ''transaction(publicKeys: [Crypto.KeyListEntry], contracts: {String: String}, fundAmount: UFix64) {'',
     ''    let tokenReceiver: &{FungibleToken.Receiver}'',
     ''    let sentVault: @'' @ ''{FungibleToken.Vault}'',
     '''',
     ''	prepare(signer: auth(BorrowValue) &Account) {'',
     ''		let account = Account(payer: signer)'',
     '''',
     ''		// add all the keys to the account'',
     ''		for key in publicKeys {'',
     ''			account.keys.add(publicKey: key.publicKey, hashAlgorithm: key.hashAlgorithm, weight: key.weight)'',
     ''		}'',
     '''',
     ''		// add contracts if provided'',
     ''		for contract in contracts.keys {'',
     ''			account.contracts.add(name: contract, code: contracts[contract]!.decodeHex())'',
     ''		}'',
     '''',
     ''		self.tokenReceiver = account'',
     ''          .capabilities.borrow<&{FungibleToken.Receiver}>(/public/flowTokenReceiver)'',
     ''          ?? panic(\"Unable to borrow receiver reference\")'',
     '''',
     ''        let vaultRef = signer.storage.borrow<auth(FungibleToken.Withdraw) &FlowToken.Vault>(from: /storage/flowTokenVault)'',
     ''            ?? panic(\"Could not borrow reference to the owner's Vault!\")'',
     '''',
     ''        self.sentVault <- vaultRef.withdraw(amount: fundAmount)'',
     ''	}'',
     '''',
     ''	execute {'',
     ''	    self.tokenReceiver.deposit(from: <-self.sentVault)'',
     ''	}'',
     ''}'',
     '''']"

definition createAndFund :: string where
  "createAndFund = unlines fund_lines"

definition flow_import :: string where "flow_import = ''import \"FlowToken\"''"
definition ft_import :: string where "ft_import = ''import \"FungibleToken\"''"

definition flow_from :: "string \<Rightarrow> string" where "flow_from address = ''import FlowToken from '' @ address"
definition ft_from :: "string \<Rightarrow> string" where "ft_from address = ''import FungibleToken from '' @ address"

definition with_imports :: "string \<Rightarrow> string \<Rightarrow> string \<Rightarrow> string" where
  "with_imports flowAddress ftAddress script =
     ReplaceAll ft_import (ft_from ftAddress) (ReplaceAll flow_import (flow_from flowAddress) script)"

definition EventAccountCreated :: string where "EventAccountCreated = ''flow.AccountCreated''"

definition GetAddress :: "flowEvent \<Rightarrow> flow_address option" where
  "GetAddress e = (case map_of (feValues e) ''address'' of Some (VAddress a) \<Rightarrow> Some a | _ \<Rightarrow> None)"

definition GetCreatedAddresses :: "flowEvent list \<Rightarrow> flow_address option list" where
  "GetCreatedAddresses es = map GetAddress (filter (\<lambda>e. feType e = EventAccountCreated) es)"

text \<open>The polling of the result; the answers run out when the transaction stays pending.\<close>

fun await_result :: "(err + tx_result) list \<Rightarrow> (err + tx_result) exec" where
  "await_result [] = Blocks"
| "await_result (Inl e # rs) = Ret (Inl e)"
| "await_result (Inr res # rs) = (case trError res of
      Some e \<Rightarrow> Ret (Inl e)
    | None \<Rightarrow> if \<not> trPending res then Ret (Inr res) else await_result rs)"

text \<open>The proposal key: the loop over the keys keeps the last match, and zeros if there is none.\<close>

definition proposal_key :: "'pk \<Rightarrow> 'pk payer_key list \<Rightarrow> 32 word \<times> u64" where
  "proposal_key pub ks = fold (\<lambda>k (index, seq). if pkPublicKey k = pub then (pkIndex k, pkSequenceNumber k) else (index, seq)) ks (0, 0)"

text \<open>The common part of both functions, from the encoding of the keys on.  The script is assigned on the way.\<close>

definition send_and_await ::
    "('k, 'pk, 'cv, 'sg) tool_api \<Rightarrow> flow_address \<Rightarrow> 'k \<Rightarrow> tool_tx \<Rightarrow> (err + flow_address option) exec" where
  "send_and_await T payer key tx =
     (case rbind (tl_LatestBlock T) (\<lambda>blk.
        rbind (tl_NewInMemorySigner T key) (\<lambda>signer.
        rbind (tl_Account T payer) (\<lambda>acc.
        let (index, seq) = proposal_key (tl_PublicKey T key) acc;
            tx1 = tx\<lparr>ttPayer := payer, ttProposalKey := (payer, index, seq), ttReferenceBlockID := blk\<rparr>
        in case tl_SignEnvelope T payer index signer tx1 of
             Some e \<Rightarrow> Inl e
           | None \<Rightarrow> (case tl_SendTransaction T tx1 of Some e \<Rightarrow> Inl e | None \<Rightarrow> Inr ())))) of
        Inl e \<Rightarrow> Ret (Inl e)
      | Inr _ \<Rightarrow> ebind (await_result (tl_Results T)) (\<lambda>r. case r of
            Inl e \<Rightarrow> Ret (Inl e)
          | Inr res \<Rightarrow> (case GetCreatedAddresses (trEvents res) of
              [] \<Rightarrow> Panics ''index out of range''
            | a # _ \<Rightarrow> Ret (Inr a))))"

definition create_account ::
    "('k, 'pk, 'cv, 'sg) tool_api \<Rightarrow> 'pk new_key list \<Rightarrow> flow_address \<Rightarrow> string \<Rightarrow> string \<Rightarrow> 'k \<Rightarrow> string
      \<Rightarrow> (err + flow_address option) exec \<times> string" where
  "create_account T keys payer ftAddress flowAddress key script =
     (case rmap (tl_CadenceKey T) keys of
        Inl e \<Rightarrow> (Ret (Inl e), script)
      | Inr keyList \<Rightarrow>
         (let script' = with_imports flowAddress ftAddress script in
          (case tl_UFix64 T ''10.0'' of
             Inl e \<Rightarrow> Ret (Inl e)
           | Inr val \<Rightarrow> send_and_await T payer key
               \<lparr>ttScript = script', ttAuthorizer = payer, ttArguments = [tl_EncodeKeys T keyList, tl_EncodeNoContracts T, val],
                ttPayer = 0, ttProposalKey = (0, 0, 0), ttReferenceBlockID = 0\<rparr>, script')))"

text \<open>\<open>private\<close> is the outcome of \<open>randomPrivateKey\<close>; the created key is part of the answer.\<close>

definition CreateMultiKeyAccount ::
    "('k, 'pk, 'cv, 'sg) tool_api \<Rightarrow> err + 'k \<Rightarrow> nat \<Rightarrow> flow_address \<Rightarrow> string \<Rightarrow> string \<Rightarrow> 'k \<Rightarrow> string
      \<Rightarrow> (err + flow_address option \<times> 'k) exec \<times> string" where
  "CreateMultiKeyAccount T private keyCount payer ftAddress flowAddress key script = (case private of
      Inl e \<Rightarrow> (Ret (Inl e), script)
    | Inr privateKey \<Rightarrow>
       (case create_account T
           (map (\<lambda>i. \<lparr>nkIndex = of_nat i, nkPublicKey = tl_PublicKey T privateKey, nkHashAlgo = SHA3_256, nkWeight = 1000\<rparr>) [0..<keyCount])
           payer ftAddress flowAddress key script of
          (r, script') \<Rightarrow> (ebind r (\<lambda>a. Ret (rbind a (\<lambda>addr. Inr (addr, privateKey)))), script')))"

definition CreateMultiCloudKMSKeysAccount ::
    "('k, 'pk, 'cv, 'sg) tool_api \<Rightarrow> string list \<Rightarrow> flow_address \<Rightarrow> string \<Rightarrow> string \<Rightarrow> 'k \<Rightarrow> string
      \<Rightarrow> (err + flow_address option) exec \<times> string" where
  "CreateMultiCloudKMSKeysAccount T publicKeys payer ftAddress flowAddress key script =
     (case rmap (tl_DecodePublicKeyHex T) publicKeys of
        Inl e \<Rightarrow> (Ret (Inl e), script)
      | Inr pks \<Rightarrow> create_account T
          (map (\<lambda>(i, pk). \<lparr>nkIndex = of_nat i, nkPublicKey = pk, nkHashAlgo = SHA2_256, nkWeight = 1000\<rparr>) (zip [0..<length pks] pks))
          payer ftAddress flowAddress key script)"

text \<open>
  The command: it panics on every error, and prints the address and the private key.  \<open>connect\<close> is the
  error of creating the client, and an address that is nil is dereferenced for printing.
\<close>

definition RunCreateMultiKeyAccount ::
    "('k, 'pk, 'cv, 'sg) tool_api \<Rightarrow> err + 'k \<Rightarrow> (string \<Rightarrow> err + 'k) \<Rightarrow> (string \<Rightarrow> flow_address) \<Rightarrow> err option
      \<Rightarrow> nat \<Rightarrow> string \<Rightarrow> string \<Rightarrow> string \<Rightarrow> string \<Rightarrow> string \<Rightarrow> (flow_address \<times> 'k) exec \<times> string" where
  "RunCreateMultiKeyAccount T private DecodePrivateKeyHex addressOf connect keyCount keyFlag addressFlag ftFlag flowFlag script =
     (case DecodePrivateKeyHex keyFlag of
        Inl e \<Rightarrow> (Panics ''private key'', script)
      | Inr key \<Rightarrow>
         let payer = addressOf addressFlag in
         if payer = 0 then (Panics ''invalid address'', script)
         else case connect of
           Some e \<Rightarrow> (Panics ''client'', script)
         | None \<Rightarrow> (case CreateMultiKeyAccount T private keyCount payer ftFlag flowFlag key script of
             (r, script') \<Rightarrow> (ebind r (\<lambda>a. case a of
                 Inl e \<Rightarrow> Panics ''account''
               | Inr (None, k) \<Rightarrow> Panics ''nil pointer dereference''
               | Inr (Some addr, k) \<Rightarrow> Ret (addr, k)), script')))"

section \<open>The cloud key signer\<close>

text \<open>A signer of the cloud service is its public key and its \<^verbatim>\<open>Sign\<close>.\<close>

record 'pk KMSKeySigner =
  ksPublicKey :: 'pk
  ksSign :: "bytes \<Rightarrow> err + bytes"

definition NewKMSKeySigner ::
    "err + (kms_key \<Rightarrow> err + 'pk KMSKeySigner) \<Rightarrow> kms_key \<Rightarrow> err + 'pk KMSKeySigner" where
  "NewKMSKeySigner client key =
     rbind (rwrap (\<lambda>e. Errorf ''unable to create Cloud KMS client: %w'' [] [e]) client) (\<lambda>SignerForKey.
     rwrap (\<lambda>e. Errorf ''could not create KMS signer for the key with ID: %s: %w'' [FStr (KeyID key)] [e]) (SignerForKey key))"

definition KMS_Sign :: "'pk KMSKeySigner \<Rightarrow> bytes \<Rightarrow> err + bytes" where
  "KMS_Sign s message = rwrap (\<lambda>e. Errorf ''failed to sign message with public key %s: %w'' [] [e]) (ksSign s message)"

section \<open>The check of the blocks\<close>

record integrity =
  igMissing :: "u64 list"
  igFailed :: "u64 list"
  igHealthy :: bool

definition check_height ::
    "('db, 'batch) pebble_api \<Rightarrow> 'ev codec \<Rightarrow> Blocks \<Rightarrow> 'db \<Rightarrow> u64 \<Rightarrow> u64 list \<times> u64 list \<Rightarrow> (u64 list \<times> u64 list) exec" where
  "check_height P c b d height s = (case s of (missing, failed) \<Rightarrow>
     (case GetByHeight P c b d height of
        Inr _ \<Rightarrow> Ret s
      | Inl e \<Rightarrow> if is_panic e then Panics ''stack overflow''
          else if errors_Is e ErrEntityNotFound then Ret (missing @ [height], failed)
          else Ret (missing, failed @ [height])))"

text \<open>
  The command on an opened database; \<open>igFailed\<close> are the heights that are only logged, \<open>igHealthy\<close> is the
  verdict of the last message.  With the largest height as the latest the loop would not end.
\<close>

definition check_blocks_integrity ::
    "('db, 'batch) pebble_api \<Rightarrow> 'ev codec \<Rightarrow> Blocks \<Rightarrow> 'db \<Rightarrow> (err + integrity) exec" where
  "check_blocks_integrity P c b d = (case LatestEVMHeight P d of
      Inl e \<Rightarrow> Ret (Inl (Errorf ''failed to get latest EVM height: %w'' [] [e]))
    | Inr latestHeight \<Rightarrow>
       if latestHeight = - 1 then Blocks
       else ebind (efold (check_height P c b d) (heights 0 (latestHeight + 1)) ([], [])) (\<lambda>(missing, failed).
         Ret (Inr \<lparr>igMissing = missing, igFailed = failed, igHealthy = (length missing = 0)\<rparr>)))"

section \<open>Export and extraction of the state\<close>

text \<open>The read-only ledger over the registers of a height; \<open>NewExporter\<close> and \<open>ExportGob\<close>, \<open>NewBaseView\<close> and \<open>Extract\<close> are flow-go.\<close>

definition state_ledger ::
    "('db, 'batch) pebble_api \<Rightarrow> (bytes \<Rightarrow> bytes \<Rightarrow> RegisterID) \<Rightarrow> RegisterStorage \<Rightarrow> 'db \<Rightarrow> u64 \<Rightarrow> bytes \<Rightarrow> bytes \<Rightarrow> err + bytes option" where
  "state_ledger P registerID r d height own key = fst (Snapshot_GetValue registerID own key (GetSnapshotAt P r d height))"

definition ExportEVMStateForHeight ::
    "('db, 'batch) pebble_api \<Rightarrow> (bytes \<Rightarrow> bytes \<Rightarrow> RegisterID) \<Rightarrow> RegisterStorage \<Rightarrow> ((bytes \<Rightarrow> bytes \<Rightarrow> err + bytes option) \<Rightarrow> err + 'x)
      \<Rightarrow> ('x \<Rightarrow> err option) \<Rightarrow> err + 'db \<Rightarrow> u64 \<Rightarrow> err option" where
  "ExportEVMStateForHeight P registerID r NewExporter ExportGob opened height =
     (case rbind (rwrap (\<lambda>e. Errorf ''failed to open pebble db: %w'' [] [e]) opened) (\<lambda>d.
        NewExporter (state_ledger P registerID r d height)) of
        Inl e \<Rightarrow> Some e
      | Inr exporter \<Rightarrow> ExportGob exporter)"

definition export_command :: "(u64 \<Rightarrow> err option) \<Rightarrow> u64 \<Rightarrow> string \<Rightarrow> string \<Rightarrow> err option" where
  "export_command run height outputDir registerStoreDir =
     (if height = 0 \<or> outputDir = [] \<or> registerStoreDir = []
      then Some (New_err ''all flags (height, output, register-store) must be provided'')
      else map_option (\<lambda>e. Errorf ''fail to export: %w'' [] [e]) (run height))"

definition ExtractEVMState ::
    "('db, 'batch) pebble_api \<Rightarrow> (bytes \<Rightarrow> bytes \<Rightarrow> RegisterID) \<Rightarrow> RegisterStorage \<Rightarrow> ((bytes \<Rightarrow> bytes \<Rightarrow> err + bytes option) \<Rightarrow> err + 'bv)
      \<Rightarrow> ('bv \<Rightarrow> err + 'st) \<Rightarrow> 'db \<Rightarrow> u64 \<Rightarrow> err + 'st" where
  "ExtractEVMState P registerID r NewBaseView Extract d evmHeight =
     rbind (rwrap (\<lambda>e. Errorf ''failed to create base view: %w'' [] [e]) (NewBaseView (state_ledger P registerID r d evmHeight))) Extract"

section \<open>Properties\<close>

lemma rmap_nth: "rmap f xs = Inr ys \<Longrightarrow> i < length xs \<Longrightarrow> f (xs ! i) = Inr (ys ! i)"
  by (induction xs arbitrary: ys i) (auto simp: gw_result nth_Cons split: nat.splits)

text \<open>
  A created account: the address is that of the first event of the result, the returned private key is the
  one all keys of the account belong to, and the transaction that was sent has the script with the
  addresses and a proposal key of the payer.
\<close>

lemma send_and_await_ok:
  assumes "send_and_await T payer key tx = Ret (Inr a)"
  shows "\<exists>tx' res. tl_SendTransaction T tx' = None \<and> ttScript tx' = ttScript tx \<and> ttArguments tx' = ttArguments tx \<and> ttPayer tx' = payer
    \<and> (\<exists>acc. tl_Account T payer = Inr acc \<and> ttProposalKey tx' = (payer, proposal_key (tl_PublicKey T key) acc))
    \<and> await_result (tl_Results T) = Ret (Inr res) \<and> (\<exists>as. GetCreatedAddresses (trEvents res) = a # as)"
proof -
  obtain blk signer acc where r: "tl_LatestBlock T = Inr blk" "tl_NewInMemorySigner T key = Inr signer" "tl_Account T payer = Inr acc"
    using assms by (cases "tl_LatestBlock T"; cases "tl_NewInMemorySigner T key"; cases "tl_Account T payer") (auto simp: send_and_await_def)
  obtain i q where iq: "proposal_key (tl_PublicKey T key) acc = (i, q)" by (cases "proposal_key (tl_PublicKey T key) acc")
  let ?tx = "tx\<lparr>ttPayer := payer, ttProposalKey := (payer, i, q), ttReferenceBlockID := blk\<rparr>"
  have "tl_SignEnvelope T payer i signer ?tx = None" "tl_SendTransaction T ?tx = None"
    using assms r iq by (cases "tl_SignEnvelope T payer i signer ?tx"; cases "tl_SendTransaction T ?tx"; simp add: send_and_await_def)+
  moreover from this have "ebind (await_result (tl_Results T)) (\<lambda>r. case r of
            Inl e \<Rightarrow> Ret (Inl e)
          | Inr res \<Rightarrow> (case GetCreatedAddresses (trEvents res) of [] \<Rightarrow> Panics ''index out of range'' | a # _ \<Rightarrow> Ret (Inr a))) = Ret (Inr a)"
    using assms r iq by (simp add: send_and_await_def)
  then obtain ro where ro: "await_result (tl_Results T) = Ret ro" by (auto simp: ebind_Ret_iff)
  with \<open>ebind _ _ = _\<close> obtain res where "await_result (tl_Results T) = Ret (Inr res)" "\<exists>as. GetCreatedAddresses (trEvents res) = a # as"
    by (cases ro) (auto split: list.splits)
  ultimately show ?thesis using r(3) iq by (intro exI [of _ ?tx] exI [of _ res]) auto
qed

theorem account_created:
  assumes "CreateMultiKeyAccount T private keyCount payer ft fl key script = (Ret (Inr (a, k)), script')"
  shows "private = Inr k \<and> script' = with_imports fl ft script
    \<and> (\<exists>tx keyList. tl_SendTransaction T tx = None \<and> ttScript tx = script' \<and> length keyList = keyCount
         \<and> ttArguments tx ! 0 = tl_EncodeKeys T keyList
         \<and> (\<forall>i < keyCount. tl_CadenceKey T \<lparr>nkIndex = of_nat i, nkPublicKey = tl_PublicKey T k, nkHashAlgo = SHA3_256, nkWeight = 1000\<rparr> = Inr (keyList ! i)))
    \<and> (\<exists>res as. await_result (tl_Results T) = Ret (Inr res) \<and> GetCreatedAddresses (trEvents res) = a # as)"
proof -
  let ?keys = "map (\<lambda>i. \<lparr>nkIndex = of_nat i, nkPublicKey = tl_PublicKey T k, nkHashAlgo = SHA3_256, nkWeight = 1000\<rparr>) [0..<keyCount]"
  have k: "private = Inr k" and c: "create_account T ?keys payer ft fl key script = (Ret (Inr a), script')"
    using assms by (auto simp: CreateMultiKeyAccount_def gw_result split: sum.splits prod.splits)
  obtain keyList where kl: "rmap (tl_CadenceKey T) ?keys = Inr keyList" using c by (auto simp: create_account_def split: sum.splits)
  obtain val where val: "tl_UFix64 T ''10.0'' = Inr val" using c kl by (cases "tl_UFix64 T ''10.0''") (auto simp: create_account_def Let_def)
  have s': "script' = with_imports fl ft script" using c kl by (simp add: create_account_def Let_def)
  obtain tx res where tx: "tl_SendTransaction T tx = None" "ttScript tx = script'" "ttArguments tx ! 0 = tl_EncodeKeys T keyList"
    "await_result (tl_Results T) = Ret (Inr res)" "\<exists>as. GetCreatedAddresses (trEvents res) = a # as"
    using c kl val s' send_and_await_ok [of T payer key _ a] by (auto simp: create_account_def Let_def) (metis nth_Cons_0 tool_tx.select_convs(1,3))
  have "length keyList = keyCount" using rmap_Inr_length [OF kl] by simp
  moreover have "tl_CadenceKey T (?keys ! i) = Inr (keyList ! i)" if "i < keyCount" for i
    using rmap_nth [OF kl, of i] that by simp
  ultimately show ?thesis using k s' tx by auto
qed

text \<open>The answer of a node that does not know the transaction yet is not pending and has no events.\<close>

lemma unknown_status_panics:
  assumes "tl_Results T = Inr res # rs" "trError res = None" "\<not> trPending res" "trEvents res = []"
    and "tl_LatestBlock T = Inr blk" "tl_NewInMemorySigner T key = Inr signer" "tl_Account T payer = Inr acc"
    and "\<forall>i tx. tl_SignEnvelope T payer i signer tx = None" "\<forall>tx. tl_SendTransaction T tx = None"
  shows "send_and_await T payer key tx = Panics ''index out of range''"
  using assms by (simp add: send_and_await_def GetCreatedAddresses_def split_beta)

subsection \<open>The script\<close>

fun occurs :: "string \<Rightarrow> string \<Rightarrow> bool" where
  "occurs old [] \<longleftrightarrow> old = []"
| "occurs old (c # s) \<longleftrightarrow> prefix old (c # s) \<or> occurs old s"

lemma ReplaceAll_Nil [simp]: "ReplaceAll old new [] = []"
  by (simp add: ReplaceAll.simps)

lemma ReplaceAll_miss: "\<not> prefix old (c # s) \<Longrightarrow> ReplaceAll old new (c # s) = c # ReplaceAll old new s"
  by (subst ReplaceAll.simps) (auto simp: prefix_def, metis append_take_drop_id)

lemma ReplaceAll_hit: "old \<noteq> [] \<Longrightarrow> ReplaceAll old new (old @ s) = new @ ReplaceAll old new s"
  by (subst ReplaceAll.simps) simp

text \<open>A line without the old text is kept, since the old text has no line break.\<close>

lemma prefix_line: "CHR 0x0A \<notin> set old \<Longrightarrow> prefix old (l @ CHR 0x0A # s) \<longleftrightarrow> prefix old l"
proof (induction old arbitrary: l)
  case (Cons c old)
  then show ?case by (cases l) auto
qed simp

lemma ReplaceAll_line:
  assumes "\<not> occurs old l" "CHR 0x0A \<notin> set old" "s = [] \<or> (\<exists>s'. s = CHR 0x0A # s')"
  shows "ReplaceAll old new (l @ s) = l @ ReplaceAll old new s"
  using assms(1)
proof (induction l)
  case (Cons c l)
  then have "\<not> prefix old ((c # l) @ s)" using assms(2,3) prefix_line [of old "c # l"] by auto
  then show ?case using Cons by (simp add: ReplaceAll_miss)
qed simp

lemma ReplaceAll_unlines:
  assumes "\<forall>l \<in> set ls. l = old \<or> \<not> occurs old l" "CHR 0x0A \<notin> set old" "old \<noteq> []"
  shows "ReplaceAll old new (unlines ls) = unlines (map (\<lambda>l. if l = old then new else l) ls)"
  using assms(1)
proof (induction ls)
  case Nil
  then show ?case by (simp add: unlines_def)
next
  case (Cons l ls)
  have miss: "\<not> prefix old (CHR 0x0A # s)" for s using assms(2,3) by (cases old) auto
  have nl: "unlines ls = [] \<or> (\<exists>s'. unlines ls = CHR 0x0A # s')" by (cases ls) (auto simp: unlines_def)
  have "ReplaceAll old new (l @ unlines ls) = (if l = old then new else l) @ unlines (map (\<lambda>l. if l = old then new else l) ls)"
    using Cons ReplaceAll_hit [OF assms(3), of new "unlines ls"] ReplaceAll_line [of old l "unlines ls" new] assms(2) nl by auto
  then show ?case by (simp add: unlines_def ReplaceAll_miss [OF miss])
qed

lemma occurs_absent: "c \<notin> set s \<Longrightarrow> \<not> occurs (c # old) s"
  by (induction s) auto

lemma import_literals [simp]:
  "flow_import \<noteq> []" "ft_import \<noteq> []" "flow_import \<noteq> ft_import" "CHR 0x0A \<notin> set flow_import" "CHR 0x0A \<notin> set ft_import"
  by (simp_all add: flow_import_def ft_import_def)

lemma fund_lines_plain:
  "\<forall>l \<in> set fund_lines. l = flow_import \<or> \<not> occurs flow_import l" "\<forall>l \<in> set fund_lines. l = ft_import \<or> \<not> occurs ft_import l"
  by (simp_all add: fund_lines_def flow_import_def ft_import_def)

lemma import_plain:
  assumes "CHR ''i'' \<notin> set a"
  shows "\<not> occurs flow_import (flow_from a)" "\<not> occurs flow_import (ft_from a)" "\<not> occurs ft_import (flow_from a)" "\<not> occurs ft_import (ft_from a)"
  using occurs_absent [OF assms] by (simp_all add: flow_import_def ft_import_def flow_from_def ft_from_def)

lemma from_not_import [simp]: "flow_from a \<noteq> ft_import" "ft_from a \<noteq> flow_import"
  by (simp_all add: flow_import_def ft_import_def flow_from_def ft_from_def)

definition import_line :: "string \<Rightarrow> string \<Rightarrow> string \<Rightarrow> string" where
  "import_line fl ft l = (if l = flow_import then flow_from fl else if l = ft_import then ft_from ft else l)"

lemma with_imports_script:
  assumes "CHR ''i'' \<notin> set fl"
  shows "with_imports fl ft createAndFund = unlines (map (import_line fl ft) fund_lines)"
proof -
  let ?f = "\<lambda>l. if l = flow_import then flow_from fl else l" and ?g = "\<lambda>l. if l = ft_import then ft_from ft else l"
  have 1: "ReplaceAll flow_import (flow_from fl) createAndFund = unlines (map ?f fund_lines)"
    unfolding createAndFund_def by (rule ReplaceAll_unlines) (use fund_lines_plain(1) in simp_all)
  have "\<forall>l \<in> set (map ?f fund_lines). l = ft_import \<or> \<not> occurs ft_import l"
    using fund_lines_plain(2) import_plain(3) [OF assms] by auto
  then have "with_imports fl ft createAndFund = unlines (map ?g (map ?f fund_lines))"
    unfolding with_imports_def 1 by (rule ReplaceAll_unlines) simp_all
  also have "map ?g (map ?f fund_lines) = map (import_line fl ft) fund_lines" by (simp add: import_line_def)
  finally show ?thesis .
qed

lemma ReplaceAll_unlines_none:
  assumes "\<forall>l \<in> set ls. \<not> occurs old l" "CHR 0x0A \<notin> set old" "old \<noteq> []"
  shows "ReplaceAll old new (unlines ls) = unlines ls"
proof -
  have "occurs old old" using assms(3) by (cases old) auto
  then have "map (\<lambda>l. if l = old then new else l) ls = ls" using assms(1) by (intro map_idI) auto
  then show ?thesis using ReplaceAll_unlines [of ls old new] assms by simp
qed

text \<open>The package variable keeps the addresses of the first call: a later call finds no placeholder to
  replace and sends the imports of the first one.  Hexadecimal addresses have no letter i.\<close>

theorem second_account_keeps_addresses:
  assumes "CHR ''i'' \<notin> set fl" "CHR ''i'' \<notin> set ft"
  shows "with_imports fl' ft' (with_imports fl ft createAndFund) = with_imports fl ft createAndFund"
proof -
  let ?ls = "map (import_line fl ft) fund_lines"
  have "\<not> occurs flow_import l" "\<not> occurs ft_import l" if "l \<in> set ?ls" for l
    using that fund_lines_plain import_plain [OF assms(1)] import_plain [OF assms(2)] by (auto simp: import_line_def)
  then have "ReplaceAll flow_import new (unlines ?ls) = unlines ?ls" "ReplaceAll ft_import new (unlines ?ls) = unlines ?ls" for new
    by (auto intro!: ReplaceAll_unlines_none)
  then show ?thesis by (simp add: with_imports_script [OF assms(1)]) (simp add: with_imports_def)
qed

subsection \<open>The exported state\<close>

text \<open>Exported and extracted states are those at the end of the block before the height.\<close>

lemma state_ledger_previous:
  "state_ledger P registerID r d height own key = RegisterStorage_Get P r d (registerID own key) (if height = 0 then 0 else height - 1)"
  by (auto simp: state_ledger_def Snapshot_GetValue_def GetSnapshotAt_def NewStorageSnapshot_def Let_def word_neq_0_conv split: sum.splits)

theorem exported_state_before_block:
  "ExportEVMStateForHeight P registerID r NewExporter ExportGob (Inr d) height =
     (case NewExporter (\<lambda>own key. RegisterStorage_Get P r d (registerID own key) (if height = 0 then 0 else height - 1)) of
        Inl e \<Rightarrow> Some e | Inr exporter \<Rightarrow> ExportGob exporter)"
  by (simp add: ExportEVMStateForHeight_def state_ledger_previous [abs_def])

subsection \<open>The verdict on the blocks\<close>

definition block_missing :: "('db, 'batch) pebble_api \<Rightarrow> 'ev codec \<Rightarrow> Blocks \<Rightarrow> 'db \<Rightarrow> u64 \<Rightarrow> bool" where
  "block_missing P c b d h \<longleftrightarrow> (case GetByHeight P c b d h of Inr _ \<Rightarrow> False | Inl e \<Rightarrow> errors_Is e ErrEntityNotFound)"

definition block_failed :: "('db, 'batch) pebble_api \<Rightarrow> 'ev codec \<Rightarrow> Blocks \<Rightarrow> 'db \<Rightarrow> u64 \<Rightarrow> bool" where
  "block_failed P c b d h \<longleftrightarrow> (case GetByHeight P c b d h of Inr _ \<Rightarrow> False | Inl e \<Rightarrow> \<not> errors_Is e ErrEntityNotFound)"

lemma check_height_step:
  "(\<And>e. GetByHeight P c b d h = Inl e \<Longrightarrow> \<not> is_panic e) \<Longrightarrow>
     check_height P c b d h (m, f) = Ret (m @ filter (block_missing P c b d) [h], f @ filter (block_failed P c b d) [h])"
  by (cases "GetByHeight P c b d h") (auto simp: check_height_def block_missing_def block_failed_def)

lemma check_heights:
  assumes "\<And>h e. GetByHeight P c b d h = Inl e \<Longrightarrow> \<not> is_panic e"
  shows "efold (check_height P c b d) hs (m, f) = Ret (m @ filter (block_missing P c b d) hs, f @ filter (block_failed P c b d) hs)"
proof (induction hs arbitrary: m f)
  case (Cons h hs)
  have "check_height P c b d h (m, f) = Ret (m @ filter (block_missing P c b d) [h], f @ filter (block_failed P c b d) [h])"
    by (rule check_height_step) (rule assms)
  then show ?case using Cons by simp
qed simp

text \<open>The check of the database reports as missing exactly the heights up to the latest one without a
  block, and finds no issue exactly if there is none; blocks that are there and cannot be read are
  listed apart and do not change the verdict.\<close>

theorem integrity_verdict:
  assumes "LatestEVMHeight P d = Inr latest" "latest \<noteq> - 1"
    and "\<And>h e. GetByHeight P c b d h = Inl e \<Longrightarrow> \<not> is_panic e"
  shows "\<exists>report. check_blocks_integrity P c b d = Ret (Inr report)
    \<and> set (igMissing report) = {h. h \<le> latest \<and> block_missing P c b d h}
    \<and> set (igFailed report) = {h. h \<le> latest \<and> block_failed P c b d h}
    \<and> igHealthy report = (\<forall>h \<in> {0..latest}. \<not> block_missing P c b d h)"
proof -
  have lt: "h < latest + 1 \<longleftrightarrow> h \<le> latest" for h using u64_succ_le [OF assms(2), of h] by (meson not_le)
  have hs: "set (heights 0 (latest + 1)) = {h. h \<le> latest}"
    by (simp only: set_eq_iff in_heights mem_Collect_eq lt word_zero_le simp_thms)
  have run: "efold (check_height P c b d) (heights 0 (latest + 1)) ([], []) =
      Ret (filter (block_missing P c b d) (heights 0 (latest + 1)), filter (block_failed P c b d) (heights 0 (latest + 1)))"
    using check_heights [where hs = "heights 0 (latest + 1)" and m = "[]" and f = "[]", OF assms(3)] by (simp only: append_Nil)
  have "filter (block_missing P c b d) (heights 0 (latest + 1)) = [] \<longleftrightarrow> (\<forall>h \<in> {0..latest}. \<not> block_missing P c b d h)"
    using hs by (auto simp: filter_empty_conv)
  moreover have "check_blocks_integrity P c b d = Ret (Inr \<lparr>igMissing = filter (block_missing P c b d) (heights 0 (latest + 1)),
      igFailed = filter (block_failed P c b d) (heights 0 (latest + 1)),
      igHealthy = (filter (block_missing P c b d) (heights 0 (latest + 1)) = [])\<rparr>)"
    unfolding check_blocks_integrity_def assms(1) sum.case if_not_P [OF assms(2)] run ebind.simps prod.case length_0_conv by (rule refl)
  moreover have "set (filter Q (heights 0 (latest + 1))) = {h. h \<le> latest \<and> Q h}" for Q using hs by auto
  ultimately show ?thesis by simp
qed

section \<open>Witnesses\<close>

text \<open>A database whose only block cannot be decoded passes the check.\<close>

definition broken_db :: "(bytes \<times> bytes) list" where
  "broken_db = [([latestEVMHeightKey], uint64Bytes 0), (blockHeightKey # uint64Bytes 0, [9])]"

lemma broken_db_reads:
  "LatestEVMHeight mem_pebble broken_db = Inr 0"
  "GetByHeight mem_pebble demo_codec (demo_blocks False) broken_db h = Inl e \<Longrightarrow> \<not> is_panic e \<and> (h = 0 \<longrightarrow> \<not> errors_Is e ErrEntityNotFound)"
  "\<exists>e. GetByHeight mem_pebble demo_codec (demo_blocks False) broken_db h = Inl e"
proof -
  note get = storage_get_view [OF mem_pebble_ok]
  have dec: "\<exists>e. NewBlockFromBytes demo_codec [9] = Inl e \<and> \<not> is_panic e \<and> \<not> errors_Is e ErrEntityNotFound"
    by (simp add: NewBlockFromBytes_def demo_codec_def ref_codec_def decode_in_def decodeBlockBreakingChanges_def)
  show l: "LatestEVMHeight mem_pebble broken_db = Inr 0"
    by (simp add: LatestEVMHeight_def latestEVMHeight_def get broken_db_def)
  from dec obtain e0 where e0: "NewBlockFromBytes demo_codec [9] = Inl e0" "\<not> is_panic e0" "\<not> errors_Is e0 ErrEntityNotFound" by blast
  have "storage_get mem_pebble broken_db blockHeightKey (Some (uint64Bytes 0)) = Inr [9]" by (simp add: get broken_db_def key_codes)
  with e0(1) have "getBlock_rec (Suc 4) mem_pebble demo_codec (demo_blocks False) broken_db (uint64Bytes 0) = Inl e0"
    unfolding getBlock_rec.simps by simp
  then have "getBlock mem_pebble demo_codec (demo_blocks False) broken_db (uint64Bytes 0) = Inl e0" by (simp add: getBlock_def)
  with e0 l show "GetByHeight mem_pebble demo_codec (demo_blocks False) broken_db h = Inl e \<Longrightarrow> \<not> is_panic e \<and> (h = 0 \<longrightarrow> \<not> errors_Is e ErrEntityNotFound)"
    "\<exists>e. GetByHeight mem_pebble demo_codec (demo_blocks False) broken_db h = Inl e"
    by (cases "h = 0"; auto simp: GetByHeight_def LatestEVMHeight_def rwrapf_def word_neq_0_conv)+
qed

lemma integrity_verdict_witness:
  "\<exists>report. check_blocks_integrity mem_pebble demo_codec (demo_blocks False) broken_db = Ret (Inr report)
     \<and> igHealthy report \<and> igFailed report \<noteq> []"
proof -
  let ?miss = "block_missing mem_pebble demo_codec (demo_blocks False) broken_db" and ?fail = "block_failed mem_pebble demo_codec (demo_blocks False) broken_db"
  obtain e where "GetByHeight mem_pebble demo_codec (demo_blocks False) broken_db 0 = Inl e" using broken_db_reads(3) by blast
  with broken_db_reads(2) [of 0 e] have "\<not> ?miss 0" "?fail 0" by (simp_all add: block_missing_def block_failed_def)
  moreover obtain report where "check_blocks_integrity mem_pebble demo_codec (demo_blocks False) broken_db = Ret (Inr report)"
    "set (igFailed report) = {h. h \<le> 0 \<and> ?fail h}" "igHealthy report = (\<forall>h \<in> {0..0}. \<not> ?miss h)"
    using integrity_verdict [of mem_pebble broken_db 0 demo_codec "demo_blocks False", OF broken_db_reads(1)] broken_db_reads(2) by auto
  ultimately show ?thesis by (intro exI [of _ report]) auto
qed

lemma second_account_keeps_addresses_witness:
  "with_imports ''0x7e60df042a9c0868'' ''0x9a0766d93b6608b7'' (with_imports ''0x0ae53cb6e3f42a79'' ''0xee82856bf20e2aa6'' createAndFund)
     = with_imports ''0x0ae53cb6e3f42a79'' ''0xee82856bf20e2aa6'' createAndFund"
  by (rule second_account_keeps_addresses) simp_all

end
