(* ===== verification/Gateway_Metrics.thy ===== *)
theory Gateway_Metrics
  imports Rpc_Server "HOL-Library.Log_Nat"
begin

text \<open>
  The metrics of \<^verbatim>\<open>metrics/collector.go\<close> and \<^verbatim>\<open>metrics/nop.go\<close>: the metrics that are registered, the choice of
  the collector, and every operation of it.  A counter is its number, a vector of counters maps a label
  to its number, a gauge is the float it was set to, histograms and summaries are the durations they
  observed, in nanoseconds.
\<close>

section \<open>Conversion to floats\<close>

text \<open>
  The conversion of an integer to \<^verbatim>\<open>float64\<close>: the nearest number with 53 significant bits, of two at the same
  distance the one with an even last bit, and an infinity above the range.
\<close>

datatype f64 = Finite int | Infinite bool

definition round53 :: "nat \<Rightarrow> nat" where
  "round53 n =
     (let e = bitlen (int n) - 53 in
      if e \<le> 0 then n
      else let u = 2 ^ nat e; q = n div u; r = n mod u
           in (if 2 * r > u \<or> (2 * r = u \<and> odd q) then q + 1 else q) * u)"

definition float64 :: "int \<Rightarrow> f64" where
  "float64 i = (let m = round53 (nat \<bar>i\<bar>) in if m \<ge> 2 ^ 1024 then Infinite (i < 0) else Finite (sgn i * int m))"

section \<open>The registered metrics\<close>

definition prefixedName :: "string \<Rightarrow> string" where
  "prefixedName name = ''evm_gateway_'' @ name"

text \<open>The metrics by their names, in the order in which they are registered.\<close>

definition metrics :: "string list" where
  "metrics = map prefixedName
     [''api_errors_total'', ''api_server_panics_total'', ''cadence_block_height'', ''evm_block_height'', ''blocks_indexed_total'',
      ''txs_indexed_total'', ''operator_balance'', ''evm_account_interactions_total'', ''api_request_duration_seconds'',
      ''available_signing_keys'', ''gas_estimation_iterations'', ''block_ingestion_time_seconds'', ''block_process_time_seconds'',
      ''request_rate_limited'', ''transactions_dropped_total'', ''rate_limited_transactions_total'', ''flow_total_supply'',
      ''txpool_queues'', ''txpool_queued_transactions'', ''txpool_submissions_total'', ''txpool_nonce_view_cache_total'']"

text \<open>The registry of Prometheus is its two operations.\<close>

record 'r registry_api =
  prom_Unregister :: "string \<Rightarrow> 'r \<Rightarrow> 'r"
  prom_Register :: "string \<Rightarrow> 'r \<Rightarrow> err + 'r"

fun registerMetrics :: "'r registry_api \<Rightarrow> string list \<Rightarrow> 'r \<Rightarrow> err option \<times> 'r" where
  "registerMetrics R [] r = (None, r)"
| "registerMetrics R (m # ms) r =
     (let r1 = prom_Unregister R m r in
      case prom_Register R m r1 of
        Inl e \<Rightarrow> (Some e, r1)
      | Inr r2 \<Rightarrow> registerMetrics R ms r2)"

section \<open>The collector\<close>

record DefaultCollector =
  apiErrorsCounter :: nat
  serverPanicsCounters :: "(string, nat) gomap"
  cadenceBlockHeight :: f64
  evmBlockHeight :: f64
  evmBlockIndexedCounter :: nat
  evmTxIndexedCounter :: nat
  operatorBalance :: f64
  evmAccountCallCounters :: "(string, nat) gomap"
  requestDurations :: "(string, duration list) gomap"
  availableSigningkeys :: f64
  gasEstimationIterations :: f64
  blockIngestionTime :: "duration list"
  blockProcessTime :: "duration list"
  requestRateLimitedCounters :: "(string, nat) gomap"
  transactionsDroppedCounter :: nat
  rateLimitedTransactionsCounter :: nat
  flowTotalSupply :: f64
  txPoolQueues :: f64
  txPoolQueuedTransactions :: f64
  txPoolSubmissions :: "(string, nat) gomap"
  txPoolNonceViewCache :: "(string, nat) gomap"

definition new_metrics :: DefaultCollector where
  "new_metrics = \<lparr>apiErrorsCounter = 0, serverPanicsCounters = [], cadenceBlockHeight = Finite 0, evmBlockHeight = Finite 0,
     evmBlockIndexedCounter = 0, evmTxIndexedCounter = 0, operatorBalance = Finite 0, evmAccountCallCounters = [], requestDurations = [],
     availableSigningkeys = Finite 0, gasEstimationIterations = Finite 0, blockIngestionTime = [], blockProcessTime = [],
     requestRateLimitedCounters = [], transactionsDroppedCounter = 0, rateLimitedTransactionsCounter = 0, flowTotalSupply = Finite 0,
     txPoolQueues = Finite 0, txPoolQueuedTransactions = Finite 0, txPoolSubmissions = [], txPoolNonceViewCache = []\<rparr>"

datatype Collector = NopCollector | Default DefaultCollector

definition NewCollector :: "'r registry_api \<Rightarrow> DefaultCollector \<Rightarrow> 'r \<Rightarrow> Collector \<times> 'r" where
  "NewCollector R c r = (case registerMetrics R metrics r of
      (Some _, r') \<Rightarrow> (NopCollector, r')
    | (None, r') \<Rightarrow> (Default c, r'))"

text \<open>
  \<^verbatim>\<open>With(labels).Inc()\<close>; a counter adds the float it is given, which is a whole number here, and panics on a
  negative one.
\<close>

definition vec :: "(string, nat) gomap \<Rightarrow> string \<Rightarrow> nat" where
  "vec m l = (case map_of m l of Some n \<Rightarrow> n | None \<Rightarrow> 0)"

definition vec_Inc :: "string \<Rightarrow> (string, nat) gomap \<Rightarrow> (string, nat) gomap" where
  "vec_Inc l m = AList.update l (Suc (vec m l)) m"

definition counter_Add :: "int \<Rightarrow> nat \<Rightarrow> nat exec" where
  "counter_Add v n = (if v < 0 then Panics ''counter cannot decrease in value'' else Ret (n + round53 (nat v)))"

definition c_ApiErrorOccurred :: "DefaultCollector \<Rightarrow> DefaultCollector" where
  "c_ApiErrorOccurred c = c\<lparr>apiErrorsCounter := Suc (apiErrorsCounter c)\<rparr>"

definition c_ServerPanicked :: "string \<Rightarrow> DefaultCollector \<Rightarrow> DefaultCollector" where
  "c_ServerPanicked reason c = c\<lparr>serverPanicsCounters := vec_Inc reason (serverPanicsCounters c)\<rparr>"

definition c_CadenceHeightIndexed :: "u64 \<Rightarrow> DefaultCollector \<Rightarrow> DefaultCollector" where
  "c_CadenceHeightIndexed height c = c\<lparr>cadenceBlockHeight := float64 (uint height)\<rparr>"

definition c_EVMHeightIndexed :: "u64 \<Rightarrow> DefaultCollector \<Rightarrow> DefaultCollector" where
  "c_EVMHeightIndexed height c =
     c\<lparr>evmBlockHeight := float64 (uint height), evmBlockIndexedCounter := Suc (evmBlockIndexedCounter c)\<rparr>"

definition c_EVMTransactionIndexed :: "int \<Rightarrow> DefaultCollector \<Rightarrow> DefaultCollector exec" where
  "c_EVMTransactionIndexed n c = ebind (counter_Add n (evmTxIndexedCounter c)) (\<lambda>v. Ret (c\<lparr>evmTxIndexedCounter := v\<rparr>))"

definition c_EVMAccountInteraction :: "string \<Rightarrow> DefaultCollector \<Rightarrow> DefaultCollector" where
  "c_EVMAccountInteraction addr c = c\<lparr>evmAccountCallCounters := vec_Inc addr (evmAccountCallCounters c)\<rparr>"

definition c_OperatorBalance :: "u64 \<Rightarrow> DefaultCollector \<Rightarrow> DefaultCollector" where
  "c_OperatorBalance balance c = c\<lparr>operatorBalance := float64 (uint balance)\<rparr>"

definition c_MeasureRequestDuration :: "time \<Rightarrow> time \<Rightarrow> string \<Rightarrow> DefaultCollector \<Rightarrow> DefaultCollector" where
  "c_MeasureRequestDuration now start method c = c\<lparr>requestDurations := AList.update method
     ((case map_of (requestDurations c) method of Some ds \<Rightarrow> ds | None \<Rightarrow> []) @ [Sub now start]) (requestDurations c)\<rparr>"

definition c_AvailableSigningKeys :: "int \<Rightarrow> DefaultCollector \<Rightarrow> DefaultCollector" where
  "c_AvailableSigningKeys n c = c\<lparr>availableSigningkeys := float64 n\<rparr>"

definition c_GasEstimationIterations :: "int \<Rightarrow> DefaultCollector \<Rightarrow> DefaultCollector" where
  "c_GasEstimationIterations n c = c\<lparr>gasEstimationIterations := float64 n\<rparr>"

definition c_BlockIngestionTime :: "time \<Rightarrow> time \<Rightarrow> DefaultCollector \<Rightarrow> DefaultCollector" where
  "c_BlockIngestionTime now blockCreation c = c\<lparr>blockIngestionTime := blockIngestionTime c @ [Sub now blockCreation]\<rparr>"

definition c_BlockProcessTime :: "time \<Rightarrow> time \<Rightarrow> DefaultCollector \<Rightarrow> DefaultCollector" where
  "c_BlockProcessTime now start c = c\<lparr>blockProcessTime := blockProcessTime c @ [Sub now start]\<rparr>"

definition c_RequestRateLimited :: "string \<Rightarrow> DefaultCollector \<Rightarrow> DefaultCollector" where
  "c_RequestRateLimited method c = c\<lparr>requestRateLimitedCounters := vec_Inc method (requestRateLimitedCounters c)\<rparr>"

definition c_TransactionsDropped :: "int \<Rightarrow> DefaultCollector \<Rightarrow> DefaultCollector exec" where
  "c_TransactionsDropped n c = ebind (counter_Add n (transactionsDroppedCounter c)) (\<lambda>v. Ret (c\<lparr>transactionsDroppedCounter := v\<rparr>))"

definition c_TransactionRateLimited :: "DefaultCollector \<Rightarrow> DefaultCollector" where
  "c_TransactionRateLimited c = c\<lparr>rateLimitedTransactionsCounter := Suc (rateLimitedTransactionsCounter c)\<rparr>"

definition c_FlowTotalSupply :: "int option \<Rightarrow> DefaultCollector \<Rightarrow> DefaultCollector" where
  "c_FlowTotalSupply totalSupply c = (case totalSupply of None \<Rightarrow> c | Some s \<Rightarrow> c\<lparr>flowTotalSupply := float64 s\<rparr>)"

definition c_TxPoolSize :: "int \<Rightarrow> int \<Rightarrow> DefaultCollector \<Rightarrow> DefaultCollector" where
  "c_TxPoolSize queues queued c = c\<lparr>txPoolQueues := float64 queues, txPoolQueuedTransactions := float64 queued\<rparr>"

definition c_TxPoolSubmission :: "string \<Rightarrow> DefaultCollector \<Rightarrow> DefaultCollector" where
  "c_TxPoolSubmission reason c = c\<lparr>txPoolSubmissions := vec_Inc reason (txPoolSubmissions c)\<rparr>"

definition c_NonceViewCache :: "bool \<Rightarrow> DefaultCollector \<Rightarrow> DefaultCollector" where
  "c_NonceViewCache hit c = c\<lparr>txPoolNonceViewCache := vec_Inc (if hit then ''hit'' else ''miss'') (txPoolNonceViewCache c)\<rparr>"

text \<open>The methods of the interface as calls; those of the empty collector do nothing.\<close>

datatype metric_call =
  MApiErrorOccurred | MServerPanicked string | MCadenceHeightIndexed u64 | MEVMHeightIndexed u64 | MEVMTransactionIndexed int
  | MEVMAccountInteraction string | MMeasureRequestDuration time string | MOperatorBalance u64 | MAvailableSigningKeys int
  | MGasEstimationIterations int | MBlockIngestionTime time | MBlockProcessTime time | MRequestRateLimited string
  | MTransactionsDropped int | MTransactionRateLimited | MFlowTotalSupply "int option" | MTxPoolSize int int
  | MTxPoolSubmission string | MNonceViewCache bool

fun collect_default :: "time \<Rightarrow> metric_call \<Rightarrow> DefaultCollector \<Rightarrow> DefaultCollector exec" where
  "collect_default now MApiErrorOccurred c = Ret (c_ApiErrorOccurred c)"
| "collect_default now (MServerPanicked r) c = Ret (c_ServerPanicked r c)"
| "collect_default now (MCadenceHeightIndexed h) c = Ret (c_CadenceHeightIndexed h c)"
| "collect_default now (MEVMHeightIndexed h) c = Ret (c_EVMHeightIndexed h c)"
| "collect_default now (MEVMTransactionIndexed n) c = c_EVMTransactionIndexed n c"
| "collect_default now (MEVMAccountInteraction a) c = Ret (c_EVMAccountInteraction a c)"
| "collect_default now (MMeasureRequestDuration start m) c = Ret (c_MeasureRequestDuration now start m c)"
| "collect_default now (MOperatorBalance b) c = Ret (c_OperatorBalance b c)"
| "collect_default now (MAvailableSigningKeys n) c = Ret (c_AvailableSigningKeys n c)"
| "collect_default now (MGasEstimationIterations n) c = Ret (c_GasEstimationIterations n c)"
| "collect_default now (MBlockIngestionTime t) c = Ret (c_BlockIngestionTime now t c)"
| "collect_default now (MBlockProcessTime t) c = Ret (c_BlockProcessTime now t c)"
| "collect_default now (MRequestRateLimited m) c = Ret (c_RequestRateLimited m c)"
| "collect_default now (MTransactionsDropped n) c = c_TransactionsDropped n c"
| "collect_default now MTransactionRateLimited c = Ret (c_TransactionRateLimited c)"
| "collect_default now (MFlowTotalSupply s) c = Ret (c_FlowTotalSupply s c)"
| "collect_default now (MTxPoolSize q n) c = Ret (c_TxPoolSize q n c)"
| "collect_default now (MTxPoolSubmission r) c = Ret (c_TxPoolSubmission r c)"
| "collect_default now (MNonceViewCache hit) c = Ret (c_NonceViewCache hit c)"

fun collect :: "time \<Rightarrow> metric_call \<Rightarrow> Collector \<Rightarrow> Collector exec" where
  "collect now call NopCollector = Ret NopCollector"
| "collect now call (Default c) = ebind (collect_default now call c) (\<lambda>c'. Ret (Default c'))"

definition collect_all :: "(time \<times> metric_call) list \<Rightarrow> Collector \<Rightarrow> Collector exec" where
  "collect_all = efold (\<lambda>(now, call). collect now call)"

lemmas collector_defs = c_ApiErrorOccurred_def c_ServerPanicked_def c_CadenceHeightIndexed_def c_EVMHeightIndexed_def
  c_EVMTransactionIndexed_def c_EVMAccountInteraction_def c_OperatorBalance_def c_MeasureRequestDuration_def c_AvailableSigningKeys_def
  c_GasEstimationIterations_def c_BlockIngestionTime_def c_BlockProcessTime_def c_RequestRateLimited_def c_TransactionsDropped_def
  c_TransactionRateLimited_def c_FlowTotalSupply_def c_TxPoolSize_def c_TxPoolSubmission_def c_NonceViewCache_def

section \<open>Floats\<close>

lemma round53_small: "n < 2 ^ 53 \<Longrightarrow> round53 n = n"
proof -
  assume "n < 2 ^ 53"
  then have "bitlen (int n) \<le> 53" using bitlen_le_iff_power [of "int n" 53] by simp
  then show ?thesis by (simp add: round53_def)
qed

lemma round_nearest:
  fixes n u :: nat
  assumes "u > 0"
  defines "m \<equiv> (if 2 * (n mod u) > u \<or> (2 * (n mod u) = u \<and> odd (n div u)) then n div u + 1 else n div u) * u"
  shows "2 * m \<le> 2 * n + u" and "2 * n \<le> 2 * m + u"
proof -
  define q r where "q = n div u" and "r = n mod u"
  have n: "n = q * u + r" and lt: "r < u" using assms(1) by (simp_all add: q_def r_def)
  have m: "m = (if 2 * r > u \<or> (2 * r = u \<and> odd q) then q * u + u else q * u)" by (simp add: m_def q_def r_def)
  show "2 * m \<le> 2 * n + u" "2 * n \<le> 2 * m + u" using lt by (auto simp: n m)
qed

lemma nat_distance: "2 * m \<le> 2 * n + u \<Longrightarrow> 2 * n \<le> 2 * m + u \<Longrightarrow> 2 * \<bar>int m - int n\<bar> \<le> int u"
  by presburger

text \<open>The conversion of a number to a float is exact below $2^{53}$ and otherwise off by at most
  one part in $2^{53}$.\<close>

theorem round53_error:
  "(\<bar>int (round53 n) - int n\<bar>) * 2 ^ 53 \<le> int n"
proof (cases "n < 2 ^ 53")
  case True
  then show ?thesis by (simp add: round53_small)
next
  case False
  define e where "e = nat (bitlen (int n) - 53)"
  have pos: "n > 0" using False by (cases n) auto
  have b: "53 < bitlen (int n)" using False bitlen_le_iff_power [of "int n" 53] by simp
  then have e: "bitlen (int n) - 53 = int e" "0 < e" by (simp_all add: e_def)
  have "2 ^ nat (bitlen (int n) - 1) \<le> int n" using bitlen_bounds [of "int n"] pos by simp
  moreover have "nat (bitlen (int n) - 1) = e + 52" using b by (simp add: e_def)
  ultimately have "(2 :: int) ^ (e + 52) \<le> int n" by simp
  then have big: "int (2 ^ e) * 2 ^ 52 \<le> int n" by (simp add: power_add)
  have "2 * round53 n \<le> 2 * n + 2 ^ e" "2 * n \<le> 2 * round53 n + 2 ^ e"
    using round_nearest [of "2 ^ e" n] e by (simp_all add: round53_def Let_def)
  then have "2 * \<bar>int (round53 n) - int n\<bar> \<le> int (2 ^ e)" by (rule nat_distance)
  then have "2 * \<bar>int (round53 n) - int n\<bar> * 2 ^ 52 \<le> int (2 ^ e) * 2 ^ 52" by (rule mult_right_mono) simp
  with big show ?thesis by simp
qed

text \<open>Numbers below $2^{53}$ are exact.\<close>

lemma float64_exact: "\<bar>i\<bar> < 2 ^ 53 \<Longrightarrow> float64 i = Finite i"
proof -
  assume "\<bar>i\<bar> < 2 ^ 53"
  then have small: "nat \<bar>i\<bar> < 2 ^ 53" by simp
  also have "(2 :: nat) ^ 53 \<le> 2 ^ 1024" by (rule power_increasing) simp_all
  finally have "\<not> 2 ^ 1024 \<le> nat \<bar>i\<bar>" by simp
  then show ?thesis by (simp add: float64_def Let_def round53_small [OF small] sgn_mult_abs del: power_numeral)
qed

section \<open>Registration\<close>

lemma metrics_distinct: "distinct metrics"
  by (simp add: metrics_def prefixedName_def)

text \<open>
  A registry that holds names and refuses only a name it has: whatever it holds from an earlier start of the
  gateway, the registration succeeds.
\<close>

definition registry_ok :: "'r registry_api \<Rightarrow> ('r \<Rightarrow> string set) \<Rightarrow> bool" where
  "registry_ok R names \<longleftrightarrow> (\<forall>m r. names (prom_Unregister R m r) = names r - {m}
     \<and> (m \<notin> names r \<longrightarrow> (\<exists>r'. prom_Register R m r = Inr r' \<and> names r' = insert m (names r))))"

lemma registerMetrics_ok:
  assumes "registry_ok R names"
  shows "\<exists>r'. registerMetrics R ms r = (None, r') \<and> names r' = names r \<union> set ms"
proof (induction ms arbitrary: r)
  case (Cons m ms)
  obtain r2 where r2: "prom_Register R m (prom_Unregister R m r) = Inr r2" "names r2 = insert m (names r)"
    using assms unfolding registry_ok_def by (metis Diff_iff insertI1 insert_Diff_single)
  from Cons.IH [of r2] r2 show ?case by auto
qed simp

theorem restarted_gateway_collects:
  assumes "registry_ok R names"
  shows "\<exists>r1 r2. NewCollector R c r = (Default c, r1) \<and> NewCollector R c r1 = (Default c, r2) \<and> names r2 = names r \<union> set metrics"
  using registerMetrics_ok [OF assms, of metrics r] registerMetrics_ok [OF assms, of metrics]
  by (auto simp: NewCollector_def) (metis (no_types, lifting) Un_absorb case_prod_conv option.simps(4) sup_assoc)

section \<open>What is counted\<close>

text \<open>No call takes anything away, only a negative count stops the program, and counts below $2^{53}$ are exact.\<close>

fun valid_call :: "metric_call \<Rightarrow> bool" where
  "valid_call (MEVMTransactionIndexed n) \<longleftrightarrow> 0 \<le> n \<and> n < 2 ^ 53"
| "valid_call (MTransactionsDropped n) \<longleftrightarrow> 0 \<le> n \<and> n < 2 ^ 53"
| "valid_call _ \<longleftrightarrow> True"

lemma collect_default_returns: "valid_call call \<Longrightarrow> \<exists>c'. collect_default now call c = Ret c'"
  by (cases call) (auto simp: c_EVMTransactionIndexed_def c_TransactionsDropped_def counter_Add_def)

lemma collect_all_returns:
  "\<forall>(now, call) \<in> set calls. valid_call call \<Longrightarrow> \<exists>c'. collect_all calls (Default c) = Ret (Default c')"
proof (induction calls arbitrary: c)
  case (Cons x calls)
  obtain now call where x: "x = (now, call)" by (cases x)
  with Cons.prems obtain c1 where "collect_default now call c = Ret c1" using collect_default_returns [of call now c] by auto
  with Cons x show ?case by (auto simp: collect_all_def)
qed (simp add: collect_all_def)

text \<open>A number that every call raises by its weight is raised by the sum of the weights.\<close>

lemma collect_all_sum:
  assumes step: "\<And>now call c c'. valid_call call \<Longrightarrow> collect_default now call c = Ret c' \<Longrightarrow> f c' = f c + w call"
    and "\<forall>(now, call) \<in> set calls. valid_call call"
    and "collect_all calls (Default c) = Ret (Default c')"
  shows "f c' = f c + (\<Sum>(now, call) \<leftarrow> calls. w call)"
  using assms(2,3)
proof (induction calls arbitrary: c)
  case Nil
  then show ?case by (simp add: collect_all_def)
next
  case (Cons x calls)
  obtain now call where x: "x = (now, call)" by (cases x)
  with Cons.prems obtain c1 where "collect_default now call c = Ret c1" "collect_all calls (Default c1) = Ret (Default c')"
    by (auto simp: collect_all_def gw_result)
  with Cons.IH [of c1] Cons.prems(1) step [of call now c c1] show ?case by (simp add: x add.assoc)
qed

lemma vec_vec_Inc [simp]: "vec (vec_Inc l m) k = vec m k + (if k = l then 1 else 0)"
  by (simp add: vec_def vec_Inc_def update_conv')

fun panics :: "string \<Rightarrow> metric_call \<Rightarrow> nat" where
  "panics r (MServerPanicked s) = (if r = s then 1 else 0)" | "panics r _ = 0"

fun api_errors :: "metric_call \<Rightarrow> nat" where "api_errors MApiErrorOccurred = 1" | "api_errors _ = 0"
fun heights_indexed :: "metric_call \<Rightarrow> nat" where "heights_indexed (MEVMHeightIndexed _) = 1" | "heights_indexed _ = 0"
fun txs_indexed :: "metric_call \<Rightarrow> nat" where "txs_indexed (MEVMTransactionIndexed n) = nat n" | "txs_indexed _ = 0"
fun txs_dropped :: "metric_call \<Rightarrow> nat" where "txs_dropped (MTransactionsDropped n) = nat n" | "txs_dropped _ = 0"

lemma collect_default_counts:
  assumes "valid_call call" and "collect_default now call c = Ret c'"
  shows "vec (serverPanicsCounters c') r = vec (serverPanicsCounters c) r + panics r call"
    and "apiErrorsCounter c' = apiErrorsCounter c + api_errors call"
    and "evmBlockIndexedCounter c' = evmBlockIndexedCounter c + heights_indexed call"
    and "evmTxIndexedCounter c' = evmTxIndexedCounter c + txs_indexed call"
    and "transactionsDroppedCounter c' = transactionsDroppedCounter c + txs_dropped call"
  using assms by (cases call; auto simp: collector_defs counter_Add_def gw_result round53_small split: option.splits if_splits)+

text \<open>A run of metric calls whose counts are not negative and below $2^{53}$ never stops the program, and every counter is
  afterwards the number, or the sum, of its calls.\<close>

theorem counters_count:
  assumes "\<forall>(now, call) \<in> set calls. valid_call call"
  shows "\<exists>c. collect_all calls (Default new_metrics) = Ret (Default c)
    \<and> (\<forall>r. vec (serverPanicsCounters c) r = (\<Sum>(now, call) \<leftarrow> calls. panics r call))
    \<and> apiErrorsCounter c = (\<Sum>(now, call) \<leftarrow> calls. api_errors call)
    \<and> evmBlockIndexedCounter c = (\<Sum>(now, call) \<leftarrow> calls. heights_indexed call)
    \<and> evmTxIndexedCounter c = (\<Sum>(now, call) \<leftarrow> calls. txs_indexed call)
    \<and> transactionsDroppedCounter c = (\<Sum>(now, call) \<leftarrow> calls. txs_dropped call)"
proof -
  obtain c where c: "collect_all calls (Default new_metrics) = Ret (Default c)" using collect_all_returns [OF assms] by blast
  note sum = collect_all_sum [OF _ assms c] and count = collect_default_counts
  have "vec (serverPanicsCounters c) r = (\<Sum>(now, call) \<leftarrow> calls. panics r call)" for r
    using sum [where f = "\<lambda>c. vec (serverPanicsCounters c) r", OF count(1)] by (simp add: new_metrics_def vec_def)
  moreover have "apiErrorsCounter c = (\<Sum>(now, call) \<leftarrow> calls. api_errors call)"
    using sum [where f = apiErrorsCounter, OF count(2)] by (simp add: new_metrics_def)
  moreover have "evmBlockIndexedCounter c = (\<Sum>(now, call) \<leftarrow> calls. heights_indexed call)"
    using sum [where f = evmBlockIndexedCounter, OF count(3)] by (simp add: new_metrics_def)
  moreover have "evmTxIndexedCounter c = (\<Sum>(now, call) \<leftarrow> calls. txs_indexed call)"
    using sum [where f = evmTxIndexedCounter, OF count(4)] by (simp add: new_metrics_def)
  moreover have "transactionsDroppedCounter c = (\<Sum>(now, call) \<leftarrow> calls. txs_dropped call)"
    using sum [where f = transactionsDroppedCounter, OF count(5)] by (simp add: new_metrics_def)
  ultimately show ?thesis using c by blast
qed

section \<open>Witnesses\<close>

definition demo_registry :: "string list registry_api" where
  "demo_registry = \<lparr>prom_Unregister = (\<lambda>m r. removeAll m r),
     prom_Register = (\<lambda>m r. if m \<in> set r then Inl (New_err ''duplicate metrics collector registration attempted'') else Inr (m # r))\<rparr>"

lemma restarted_gateway_collects_witness:
  "\<exists>r1 r2. NewCollector demo_registry new_metrics [] = (Default new_metrics, r1) \<and> NewCollector demo_registry new_metrics r1 = (Default new_metrics, r2)
     \<and> set r2 = set metrics"
proof -
  have "registry_ok demo_registry set" by (auto simp: registry_ok_def demo_registry_def)
  from restarted_gateway_collects [OF this, of new_metrics "[]"] show ?thesis by simp
qed

lemma counters_count_witness:
  "\<exists>c. collect_all [(0, MServerPanicked ''x''), (0, MEVMHeightIndexed 7), (1, MServerPanicked ''x'')] (Default new_metrics) = Ret (Default c)
     \<and> vec (serverPanicsCounters c) ''x'' = 2 \<and> evmBlockIndexedCounter c = 1"
  using counters_count [of "[(0, MServerPanicked ''x''), (0, MEVMHeightIndexed 7), (1, MServerPanicked ''x'')]"] by auto

end
