(* ===== verification/Gateway_Process.thy ===== *)
theory Gateway_Process
  imports Gateway_Services Gateway_Metrics
begin

text \<open>
  The process of the gateway: \<^verbatim>\<open>New\<close> and \<^verbatim>\<open>Run\<close> of \<^verbatim>\<open>bootstrap/bootstrap.go\<close> and the run command of
  \<^verbatim>\<open>cmd/run/cmd.go\<close>, whose goroutines, channels and signals are a transition system, down to the exit status
  given by \<^verbatim>\<open>cmd/main.go\<close>.
\<close>

section \<open>Construction and the operator balance\<close>

text \<open>\<open>setup\<close> is the outcome of \<open>setupStorage\<close>, which asks the client for headers.\<close>

definition Bootstrap_New ::
    "(string \<Rightarrow> err + 'c) \<Rightarrow> ('c, 'ev, 'x, 's) access_api \<Rightarrow> ('c CrossSporkClient \<Rightarrow> ('k, 'w) Config \<Rightarrow> err option) \<Rightarrow> ('k, 'w) Config
      \<Rightarrow> err + ('rs, 'l) Bootstrap" where
  "Bootstrap_New dial N setup cfg =
     rbind (setupCrossSporkClient dial N cfg) (\<lambda>client. case setup client cfg of Some e \<Rightarrow> Inl e | None \<Rightarrow> Inr NewBootstrap)"

text \<open>One tick of \<open>trackOperatorBalance\<close> with the answer of the access node.\<close>

definition trackOperatorBalance_tick :: "time \<Rightarrow> err + u64 \<Rightarrow> Collector \<Rightarrow> Collector exec" where
  "trackOperatorBalance_tick now accBalance c = (case accBalance of
      Inl e \<Rightarrow> Ret c
    | Inr balance \<Rightarrow> collect now (MOperatorBalance balance) c)"

text \<open>The end of the goroutine that serves the profiler.\<close>

definition Profile_Start :: "err option \<Rightarrow> unit exec" where
  "Profile_Start r = (case r of
      None \<Rightarrow> Ret ()
    | Some e \<Rightarrow> if errors_Is e http_ErrServerClosed then Ret () else Panics ''failed to start Profiler server'')"

section \<open>The run command\<close>

text \<open>
  What the command meets: the multi-key mode with its outcome, the parsed flags, and the outcomes of
  starting the services.
\<close>

record ('c, 'ev, 'x, 's, 'pk, 'sg, 'k, 'w, 'v, 'rs, 'l) run_env =
  reMultiKey :: "unit exec option"
  reConfig :: "err + ('k, 'w) Config"
  reDial :: "string \<Rightarrow> err + 'c"
  reAccess :: "('c, 'ev, 'x, 's) access_api"
  reSetup :: "'c CrossSporkClient \<Rightarrow> ('k, 'w) Config \<Rightarrow> err option"
  reStart :: "('pk, 'sg, 'k, 'v, 'rs, 'l) start_env"
  reIngestion :: "err + subscriber_kind"
  reWaited :: "err option"
  reEarly :: "err option option"
  reTimedOut :: bool

datatype process_end = Exited nat | Killed | Crashed string

datatype main_pc = AwaitReady | AwaitSignal | AwaitDone

datatype ('rs, 'l) gateway_pc =
  Creating | Starting "('rs, 'l) Bootstrap" | Serving "('rs, 'l) Bootstrap" | Returned "err option" | Closing "err option" | Finished "err option"

record ('rs, 'l) run_state =
  rtCancelled :: bool
  rtOnce :: bool
  rtReady :: bool
  rtDone :: bool
  rtNotify :: bool
  rtSignal :: bool
  rtMain :: main_pc
  rtGateway :: "('rs, 'l) gateway_pc"
  rtTracker :: bool
  rtCollector :: Collector
  rtEffects :: "('rs, 'l) service_effect list"
  rtLogged :: "err list"
  rtEnd :: "process_end option"

definition started :: "Collector \<Rightarrow> ('rs, 'l) run_state" where
  "started c = \<lparr>rtCancelled = False, rtOnce = False, rtReady = False, rtDone = False, rtNotify = False, rtSignal = False,
     rtMain = AwaitReady, rtGateway = Creating, rtTracker = False, rtCollector = c, rtEffects = [], rtLogged = [], rtEnd = None\<rparr>"

text \<open>The exit status of the process by what the command returns.\<close>

definition Execute :: "err option \<Rightarrow> process_end" where
  "Execute r = (case r of Some e \<Rightarrow> Exited 1 | None \<Rightarrow> Exited 0)"

text \<open>The command up to the start of its goroutine.\<close>

definition run_start ::
    "('c, 'ev, 'x, 's, 'pk, 'sg, 'k, 'w, 'v, 'rs, 'l) run_env \<Rightarrow> Collector \<Rightarrow> ('rs, 'l) run_state" where
  "run_start E c = (case reMultiKey E of
      Some (Ret _) \<Rightarrow> (started c)\<lparr>rtEnd := Some (Execute None)\<rparr>
    | Some (Panics m) \<Rightarrow> (started c)\<lparr>rtEnd := Some (Crashed m)\<rparr>
    | Some Blocks \<Rightarrow> (started c)\<lparr>rtEnd := Some Killed\<rparr>
    | None \<Rightarrow> (case reConfig E of
        Inl e \<Rightarrow> (started c)\<lparr>rtEnd := Some (Execute (Some (Errorf ''failed to parse flags: %w'' [] [e])))\<rparr>
      | Inr _ \<Rightarrow> started c))"

definition closeReady :: "('rs, 'l) run_state \<Rightarrow> ('rs, 'l) run_state exec" where
  "closeReady s =
     (if rtOnce s then Ret s
      else if rtReady s then Panics ''close of closed channel''
      else Ret (s\<lparr>rtOnce := True, rtReady := True\<rparr>))"

definition close_done :: "('rs, 'l) run_state \<Rightarrow> ('rs, 'l) run_state exec" where
  "close_done s = (if rtDone s then Panics ''close of closed channel'' else Ret (s\<lparr>rtDone := True\<rparr>))"

text \<open>The goroutine once \<open>Run\<close> has returned: the error is logged, then the deferred calls run.\<close>

definition goroutine_returns :: "err option \<Rightarrow> ('rs, 'l) run_state \<Rightarrow> ('rs, 'l) run_state exec" where
  "goroutine_returns r s =
     closeReady (s\<lparr>rtLogged := rtLogged s @ (case r of Some e \<Rightarrow> if errors_Is e ContextCanceled then [] else [e] | None \<Rightarrow> []),
       rtGateway := Closing r\<rparr>)"

text \<open>
  One step of the goroutine of the gateway, with \<open>Blocks\<close> where it waits: \<open>New\<close>, the start of the services
  with the call of \<open>ready\<close> and the start of the balance goroutine, the shutdown once the context is
  cancelled, and the two deferred calls after the error is logged.
\<close>

fun gateway_step ::
    "('c, 'ev, 'x, 's, 'pk, 'sg, 'k, 'w, 'v, 'rs, 'l) run_env \<Rightarrow> ('k, 'w) Config \<Rightarrow> ('rs, 'l) gateway_pc \<Rightarrow> ('rs, 'l) run_state
      \<Rightarrow> ('rs, 'l) run_state exec" where
  "gateway_step E cfg Creating s = (case Bootstrap_New (reDial E) (reAccess E) (reSetup E) cfg of
      Inl e \<Rightarrow> Ret (s\<lparr>rtGateway := Returned (Some e)\<rparr>)
    | Inr b \<Rightarrow> Ret (s\<lparr>rtGateway := Starting b\<rparr>))"
| "gateway_step E cfg (Starting b) s =
     ebind (Bootstrap_Run (reStart E) cfg (reIngestion E) (reWaited E) (reEarly E) b) (\<lambda>(r, es, b').
     case r of
       Some e \<Rightarrow> Ret (s\<lparr>rtEffects := rtEffects s @ es, rtGateway := Returned (Some e)\<rparr>)
     | None \<Rightarrow> ebind (closeReady (s\<lparr>rtEffects := rtEffects s @ es, rtGateway := Serving b'\<rparr>)) (\<lambda>s'. Ret (s'\<lparr>rtTracker := True\<rparr>)))"
| "gateway_step E cfg (Serving b) s =
     (if \<not> rtCancelled s then Blocks
      else case Bootstrap_Stop (reTimedOut E) b of
        (es, b') \<Rightarrow> Ret (s\<lparr>rtEffects := rtEffects s @ es, rtGateway := Returned None\<rparr>))"
| "gateway_step E cfg (Returned r) s = goroutine_returns r s"
| "gateway_step E cfg (Closing r) s = close_done (s\<lparr>rtGateway := Finished r\<rparr>)"
| "gateway_step E cfg (Finished r) s = Blocks"

text \<open>One step of the command itself; \<open>pick\<close> is the choice of the \<^verbatim>\<open>select\<close> when both channels are ready.\<close>

fun main_step :: "bool \<Rightarrow> main_pc \<Rightarrow> ('rs, 'l) run_state \<Rightarrow> ('rs, 'l) run_state exec" where
  "main_step pick AwaitReady s = (if rtReady s then Ret (s\<lparr>rtNotify := True, rtMain := AwaitSignal\<rparr>) else Blocks)"
| "main_step pick AwaitSignal s =
     (if rtSignal s \<and> (pick \<or> \<not> rtDone s) then Ret (s\<lparr>rtSignal := False, rtCancelled := True, rtMain := AwaitDone\<rparr>)
      else if rtDone s then Ret (s\<lparr>rtMain := AwaitDone\<rparr>)
      else Blocks)"
| "main_step pick AwaitDone s = (if rtDone s then Ret (s\<lparr>rtCancelled := True, rtEnd := Some (Execute None)\<rparr>) else Blocks)"

text \<open>The engine runs, the metrics server runs, the listener is served.\<close>

definition engine_runs :: "('rs, 'l) service_effect list \<Rightarrow> bool" where
  "engine_runs es \<longleftrightarrow> list_ex (\<lambda>e. case e of EngineStarted _ \<Rightarrow> True | _ \<Rightarrow> False) es
     \<and> \<not> list_ex (\<lambda>e. case e of EngineStopped _ \<Rightarrow> True | _ \<Rightarrow> False) es"

definition metrics_runs :: "('rs, 'l) service_effect list \<Rightarrow> bool" where
  "metrics_runs es \<longleftrightarrow> list_ex (\<lambda>e. case e of MetricsStarted \<Rightarrow> True | _ \<Rightarrow> False) es
     \<and> \<not> list_ex (\<lambda>e. case e of MetricsStopped \<Rightarrow> True | _ \<Rightarrow> False) es"

definition api_served :: "('rs, 'l) service_effect list \<Rightarrow> bool" where
  "api_served es \<longleftrightarrow> list_ex (\<lambda>e. case e of ApiEffect (Serve _) \<Rightarrow> True | _ \<Rightarrow> False) es"

definition profiler_served :: "('rs, 'l) service_effect list \<Rightarrow> bool" where
  "profiler_served es \<longleftrightarrow> list_ex (\<lambda>e. case e of ProfilerStarted _ \<Rightarrow> True | _ \<Rightarrow> False) es"

datatype actor = Program | World

text \<open>
  The steps of the process: of its two goroutines and of the balance goroutine when it ends, and of the
  world: a signal, which ends the process while the command has not asked for signals, ticks of the
  balance goroutine, and errors of the services, each of which ends the process.
\<close>

inductive run_step ::
    "('c, 'ev, 'x, 's, 'pk, 'sg, 'k, 'w, 'v, 'rs, 'l) run_env \<Rightarrow> actor \<Rightarrow> ('rs, 'l) run_state \<Rightarrow> ('rs, 'l) run_state \<Rightarrow> bool"
  for E where
  gateway: "rtEnd s = None \<Longrightarrow> reConfig E = Inr cfg \<Longrightarrow> gateway_step E cfg (rtGateway s) s = Ret s' \<Longrightarrow> run_step E Program s s'"
| gateway_panic: "rtEnd s = None \<Longrightarrow> reConfig E = Inr cfg \<Longrightarrow> gateway_step E cfg (rtGateway s) s = Panics m
    \<Longrightarrow> run_step E Program s (s\<lparr>rtEnd := Some (Crashed m)\<rparr>)"
| main: "rtEnd s = None \<Longrightarrow> main_step pick (rtMain s) s = Ret s' \<Longrightarrow> run_step E Program s s'"
| tracker_ends: "rtEnd s = None \<Longrightarrow> rtTracker s \<Longrightarrow> rtCancelled s \<Longrightarrow> run_step E Program s (s\<lparr>rtTracker := False\<rparr>)"
| tracker_tick: "rtEnd s = None \<Longrightarrow> rtTracker s \<Longrightarrow> trackOperatorBalance_tick now bal (rtCollector s) = Ret c
    \<Longrightarrow> run_step E World s (s\<lparr>rtCollector := c\<rparr>)"
| os_signal: "rtEnd s = None \<Longrightarrow> rtNotify s \<Longrightarrow> run_step E World s (s\<lparr>rtSignal := True\<rparr>)"
| os_kill: "rtEnd s = None \<Longrightarrow> \<not> rtNotify s \<Longrightarrow> run_step E World s (s\<lparr>rtEnd := Some Killed\<rparr>)"
| engine_fails: "rtEnd s = None \<Longrightarrow> engine_runs (rtEffects s) \<Longrightarrow> run_step E World s (s\<lparr>rtEnd := Some (Exited 1)\<rparr>)"
| metrics_fails: "rtEnd s = None \<Longrightarrow> metrics_runs (rtEffects s) \<Longrightarrow> run_step E World s (s\<lparr>rtEnd := Some (Crashed m)\<rparr>)"
| api_fails: "rtEnd s = None \<Longrightarrow> api_served (rtEffects s) \<Longrightarrow> serve_ends (Some e) = Panics m
    \<Longrightarrow> run_step E World s (s\<lparr>rtEnd := Some (Crashed m)\<rparr>)"
| profiler_fails: "rtEnd s = None \<Longrightarrow> profiler_served (rtEffects s) \<Longrightarrow> Profile_Start (Some e) = Panics m
    \<Longrightarrow> run_step E World s (s\<lparr>rtEnd := Some (Crashed m)\<rparr>)"

inductive run_reach ::
    "('c, 'ev, 'x, 's, 'pk, 'sg, 'k, 'w, 'v, 'rs, 'l) run_env \<Rightarrow> ('rs, 'l) run_state \<Rightarrow> ('rs, 'l) run_state \<Rightarrow> bool"
  for E s where
  reach_refl: "run_reach E s s"
| reach_step: "run_reach E s s' \<Longrightarrow> run_step E a s' s'' \<Longrightarrow> run_reach E s s''"

section \<open>Invariant\<close>

text \<open>
  How the goroutine of the gateway ended: \<open>New\<close> failed and nothing was started, the start of a service failed,
  or the services started and were stopped.
\<close>

definition gateway_outcome ::
    "('c, 'ev, 'x, 's, 'pk, 'sg, 'k, 'w, 'v, 'rs, 'l) run_env \<Rightarrow> ('k, 'w) Config \<Rightarrow> err option \<Rightarrow> ('rs, 'l) service_effect list \<Rightarrow> bool" where
  "gateway_outcome E cfg r es \<longleftrightarrow>
     (\<exists>e. r = Some e \<and> Bootstrap_New (reDial E) (reAccess E) (reSetup E) cfg = (Inl e :: err + ('rs, 'l) Bootstrap) \<and> es = [])
     \<or> (\<exists>e b. r = Some e \<and> Bootstrap_Run (reStart E) cfg (reIngestion E) (reWaited E) (reEarly E) NewBootstrap = Ret (Some e, es, b))
     \<or> (\<exists>es1 es2 b b'. r = None \<and> Bootstrap_Run (reStart E) cfg (reIngestion E) (reWaited E) (reEarly E) NewBootstrap = Ret (None, es1, b)
          \<and> Bootstrap_Stop (reTimedOut E) b = (es2, b') \<and> es = es1 @ es2)"

definition logged_of :: "err option \<Rightarrow> err list" where
  "logged_of r = (case r of Some e \<Rightarrow> if errors_Is e ContextCanceled then [] else [e] | None \<Rightarrow> [])"

fun gateway_ok ::
    "('c, 'ev, 'x, 's, 'pk, 'sg, 'k, 'w, 'v, 'rs, 'l) run_env \<Rightarrow> ('k, 'w) Config \<Rightarrow> ('rs, 'l) gateway_pc \<Rightarrow> ('rs, 'l) run_state \<Rightarrow> bool" where
  "gateway_ok E cfg Creating s \<longleftrightarrow> rtEffects s = [] \<and> \<not> rtOnce s \<and> \<not> rtDone s \<and> \<not> rtTracker s \<and> rtLogged s = []"
| "gateway_ok E cfg (Starting b) s \<longleftrightarrow> b = NewBootstrap \<and> rtEffects s = [] \<and> \<not> rtOnce s \<and> \<not> rtDone s \<and> \<not> rtTracker s \<and> rtLogged s = []"
| "gateway_ok E cfg (Serving b) s \<longleftrightarrow>
     Bootstrap_Run (reStart E) cfg (reIngestion E) (reWaited E) (reEarly E) NewBootstrap = Ret (None, rtEffects s, b)
     \<and> rtOnce s \<and> \<not> rtDone s \<and> rtLogged s = []"
| "gateway_ok E cfg (Returned r) s \<longleftrightarrow> gateway_outcome E cfg r (rtEffects s) \<and> \<not> rtDone s \<and> rtLogged s = []"
| "gateway_ok E cfg (Closing r) s \<longleftrightarrow> gateway_outcome E cfg r (rtEffects s) \<and> rtOnce s \<and> \<not> rtDone s \<and> rtLogged s = logged_of r"
| "gateway_ok E cfg (Finished r) s \<longleftrightarrow> gateway_outcome E cfg r (rtEffects s) \<and> rtOnce s \<and> rtDone s \<and> rtLogged s = logged_of r"

fun main_ok :: "main_pc \<Rightarrow> ('rs, 'l) run_state \<Rightarrow> bool" where
  "main_ok AwaitReady s \<longleftrightarrow> \<not> rtNotify s \<and> \<not> rtSignal s \<and> \<not> rtCancelled s"
| "main_ok AwaitSignal s \<longleftrightarrow> rtNotify s \<and> rtOnce s \<and> \<not> rtCancelled s"
| "main_ok AwaitDone s \<longleftrightarrow> rtNotify s \<and> rtOnce s \<and> (rtCancelled s \<or> rtDone s)"

definition run_inv ::
    "('c, 'ev, 'x, 's, 'pk, 'sg, 'k, 'w, 'v, 'rs, 'l) run_env \<Rightarrow> ('k, 'w) Config \<Rightarrow> ('rs, 'l) run_state \<Rightarrow> bool" where
  "run_inv E cfg s \<longleftrightarrow> rtReady s = rtOnce s \<and> gateway_ok E cfg (rtGateway s) s \<and> main_ok (rtMain s) s"

text \<open>An ended process had the invariant until its end, and exits with zero only after both channels are closed.\<close>

definition process_inv ::
    "('c, 'ev, 'x, 's, 'pk, 'sg, 'k, 'w, 'v, 'rs, 'l) run_env \<Rightarrow> ('k, 'w) Config \<Rightarrow> ('rs, 'l) run_state \<Rightarrow> bool" where
  "process_inv E cfg s \<longleftrightarrow> (rtEnd s = None \<longrightarrow> run_inv E cfg s)
     \<and> (rtEnd s = Some (Exited 0) \<longrightarrow> rtReady s \<and> (\<exists>r. rtGateway s = Finished r \<and> gateway_ok E cfg (Finished r) s))"

inductive_cases run_stepE: "run_step E a s s'"

lemmas run_defs = goroutine_returns_def closeReady_def close_done_def logged_of_def gateway_outcome_def

lemma StartAPIServer_returns: "\<exists>x. StartAPIServer X cfg b = Ret x"
proof (cases "signer_keys (sxAccount X) (sxPublicKey X) (sxNewInMemorySigner X) (sxNewKMSKeySigner X) cfg")
  case (Inr indexes)
  obtain ks where "New (map (NewAccountKey (Config.COAAddress cfg)) indexes) (Config.IndexOnly cfg) (cfgCOATxLookupEnabled cfg) = Ret ks"
    using new_keystore by blast
  with Inr show ?thesis by (auto simp: StartAPIServer_def Let_def split: sum.split prod.split)
qed (simp add: StartAPIServer_def Let_def)

lemma Bootstrap_Run_returns: "\<exists>r es b'. Bootstrap_Run X cfg ingestion waited early b = Ret (r, es, b')"
proof -
  obtain x where "StartAPIServer X cfg b = Ret x" using StartAPIServer_returns by blast
  then obtain y where "Bootstrap_Run X cfg ingestion waited early b = Ret y" by (cases x) (simp add: Bootstrap_Run_def)
  then show ?thesis by (cases y) simp
qed

lemma gateway_step_inv:
  assumes "gateway_step E cfg (rtGateway s) s = Ret s'" and "run_inv E cfg s" and "rtEnd s = None"
  shows "run_inv E cfg s' \<and> rtEnd s' = None"
proof -
  have "main_ok (rtMain s) s \<Longrightarrow> main_ok (rtMain s) s'"
    if "rtMain s' = rtMain s" "rtNotify s' = rtNotify s" "rtSignal s' = rtSignal s" "rtCancelled s' = rtCancelled s"
      "rtOnce s \<longrightarrow> rtOnce s'" "rtDone s \<longrightarrow> rtDone s'"
    using that by (cases "rtMain s") auto
  moreover obtain r es b where run: "Bootstrap_Run (reStart E) cfg (reIngestion E) (reWaited E) (reEarly E) NewBootstrap = Ret (r, es, b)"
    using Bootstrap_Run_returns by blast
  ultimately show ?thesis using assms
    by (cases "rtGateway s"; cases r)
      (auto simp: run_inv_def run_defs Bootstrap_New_def gw_result split: sum.splits if_splits option.splits prod.splits)
qed

lemma main_step_inv:
  assumes "main_step pick (rtMain s) s = Ret s'" and "run_inv E cfg s" and "rtEnd s = None"
  shows "process_inv E cfg s'"
proof -
  have "gateway_ok E cfg pc s \<Longrightarrow> gateway_ok E cfg pc s'"
    if "rtEffects s' = rtEffects s" "rtOnce s' = rtOnce s" "rtDone s' = rtDone s" "rtTracker s' = rtTracker s" "rtLogged s' = rtLogged s" for pc
    using that by (cases pc) auto
  moreover have "rtDone s \<Longrightarrow> \<exists>r. rtGateway s = Finished r"
    using assms(2) by (cases "rtGateway s") (auto simp: run_inv_def)
  ultimately show ?thesis using assms
    by (cases "rtMain s") (auto simp: process_inv_def run_inv_def Execute_def split: if_splits)
qed

text \<open>A change of fields the invariant does not read, or only the collector, the signal or the balance goroutine.\<close>

lemma run_inv_unread:
  "run_inv E cfg (s\<lparr>rtCollector := c\<rparr>) = run_inv E cfg s"
  "run_inv E cfg s \<Longrightarrow> run_inv E cfg (s\<lparr>rtTracker := False\<rparr>)"
  "run_inv E cfg s \<Longrightarrow> rtNotify s \<Longrightarrow> run_inv E cfg (s\<lparr>rtSignal := True\<rparr>)"
  by (cases "rtGateway s"; cases "rtMain s"; auto simp: run_inv_def)+

lemma run_step_inv:
  assumes "run_step E a s s'" and "process_inv E cfg s" and "reConfig E = Inr cfg"
  shows "process_inv E cfg s'"
  using assms(1)
proof (cases rule: run_step.cases)
  case (gateway cfg')
  then show ?thesis using gateway_step_inv [of E cfg s s'] assms(2,3) by (auto simp: process_inv_def)
next
  case (main pick)
  then show ?thesis using main_step_inv [of pick s s' E cfg] assms(2) by (auto simp: process_inv_def)
qed (use assms(2) in \<open>auto simp: process_inv_def run_inv_unread\<close>)

lemma run_reach_inv:
  assumes "run_reach E (run_start E c) s" and "reMultiKey E = None" and "reConfig E = Inr cfg"
  shows "process_inv E cfg s"
  using assms(1)
proof (induction rule: run_reach.induct)
  case reach_refl
  then show ?case using assms(2,3) by (simp add: run_start_def started_def process_inv_def run_inv_def)
qed (blast intro: run_step_inv assms(3))

lemma run_reach_config:
  assumes "run_reach E (run_start E c) s" and "reMultiKey E = None" and "reConfig E = Inl e"
  shows "rtEnd s = Some (Exited 1)"
  using assms(1)
proof (induction rule: run_reach.induct)
  case reach_refl
  then show ?case using assms(2,3) by (simp add: run_start_def Execute_def)
next
  case (reach_step s' a s'')
  then show ?case by (auto elim: run_stepE)
qed

section \<open>The exit of the command\<close>

lemma run_reach_multi:
  assumes "run_reach E (run_start E c) s" and "reMultiKey E = Some x" and "rtEnd s = Some (Exited 0)"
  shows "(\<exists>y. x = Ret y) \<and> s = run_start E c"
proof -
  have "rtEnd (run_start E c) \<noteq> None" using assms(2) by (cases x) (simp_all add: run_start_def)
  with assms(1) have "s = run_start E c" by (induction rule: run_reach.induct) (auto elim: run_stepE)
  with assms(2,3) show ?thesis by (cases x) (simp_all add: run_start_def Execute_def)
qed

text \<open>C35: When the run command exits with status zero, one of the following has happened.  The command
  was called in the mode that creates keys, which ends without starting the gateway.  Or the goroutine
  of the gateway has ended, in one of three ways: the gateway could not be created, and nothing was
  started; or the start of a service failed, and of what was started before nothing is stopped: not the
  listener, not the ingestion, and neither the client nor the database is closed; or all services were
  started and stopped again: the ingestion, every RPC server and listener of the API, the metrics
  server if it ran, then the client and the database, but not the profiler.  An error is logged, unless
  it is that of a cancelled context, and changes nothing about the status.\<close>

theorem command_exit_zero:
  fixes E :: "('c, 'ev, 'x, 's, 'pk, 'sg, 'k, 'w, 'v, 'rs, 'l) run_env"
  assumes "run_reach E (run_start E c) s" and "rtEnd s = Some (Exited 0)"
  shows "(\<exists>x. reMultiKey E = Some (Ret x) \<and> rtEffects s = [] \<and> rtLogged s = [])
    \<or> (reMultiKey E = None \<and> (\<exists>cfg. reConfig E = Inr cfg \<and> rtReady s \<and> rtDone s \<and>
       ((\<exists>e. rtGateway s = Finished (Some e) \<and> rtLogged s = (if errors_Is e ContextCanceled then [] else [e])
           \<and> (Bootstrap_New (reDial E) (reAccess E) (reSetup E) cfg = (Inl e :: err + ('rs, 'l) Bootstrap) \<and> rtEffects s = []
              \<or> (\<exists>b. Bootstrap_Run (reStart E) cfg (reIngestion E) (reWaited E) (reEarly E) NewBootstrap = Ret (Some e, rtEffects s, b)
                   \<and> list_all start_effect (rtEffects s))))
      \<or> (rtGateway s = Finished None \<and> rtLogged s = []
           \<and> (\<exists>es sub rest. rtEffects s = es @ [EngineStopped sub] @ rest @ [ClientClosed, DBClosed]
                \<and> EngineStarted sub \<in> set es \<and> Ready \<in> set es \<and> (\<exists>l. ApiEffect (Serve l) \<in> set es)
                \<and> total enabled_by (api_effects (rtEffects s)) = total stopped_by (api_effects (rtEffects s))
                \<and> total opened_by (api_effects (rtEffects s)) = total closed_by (api_effects (rtEffects s))
                \<and> (MetricsStarted \<in> set es \<longleftrightarrow> MetricsStopped \<in> set rest)
                \<and> (\<forall>p. ProfilerStarted p \<in> set es \<longleftrightarrow> ProfilerEnabled cfg \<and> p = NewProfileServer (ProfilerHost cfg) (ProfilerPort cfg))
                \<and> (\<forall>p. ProfilerStopped p \<notin> set (rtEffects s)))))))"
proof (cases "reMultiKey E")
  case (Some x)
  then show ?thesis using run_reach_multi [OF assms(1) Some assms(2)] by (auto simp: run_start_def started_def)
next
  case None
  show ?thesis
  proof (cases "reConfig E")
    case (Inl e)
    then show ?thesis using run_reach_config [OF assms(1) None Inl] assms(2) by simp
  next
    case (Inr cfg)
    obtain r where fin: "rtGateway s = Finished r" "rtReady s" "rtDone s" and out: "gateway_outcome E cfg r (rtEffects s)"
      and log: "rtLogged s = logged_of r"
      using run_reach_inv [OF assms(1) None Inr] assms(2) by (auto simp: process_inv_def)
    show ?thesis
    proof (cases r)
      case (Some e)
      with out have "Bootstrap_New (reDial E) (reAccess E) (reSetup E) cfg = (Inl e :: err + ('rs, 'l) Bootstrap) \<and> rtEffects s = []
          \<or> (\<exists>b. Bootstrap_Run (reStart E) cfg (reIngestion E) (reWaited E) (reEarly E) NewBootstrap = Ret (Some e, rtEffects s, b)
               \<and> list_all start_effect (rtEffects s))"
        by (auto simp: gateway_outcome_def dest: failed_start_effects)
      with Some fin log None Inr show ?thesis by (simp add: logged_of_def)
    next
      case r: None
      with out obtain es1 es2 b b' where run: "Bootstrap_Run (reStart E) cfg (reIngestion E) (reWaited E) (reEarly E) NewBootstrap = Ret (None, es1, b)"
        and stop: "Bootstrap_Stop (reTimedOut E) b = (es2, b')" and es: "rtEffects s = es1 @ es2"
        by (auto simp: gateway_outcome_def)
      note st = start_stop_effects [OF run stop]
      from st(1) obtain sub rest where sub: "EngineStarted sub \<in> set es1" "es2 = [EngineStopped sub] @ rest @ [ClientClosed, DBClosed]" by blast
      have "\<exists>es sub rest. rtEffects s = es @ [EngineStopped sub] @ rest @ [ClientClosed, DBClosed]
                \<and> EngineStarted sub \<in> set es \<and> Ready \<in> set es \<and> (\<exists>l. ApiEffect (Serve l) \<in> set es)
                \<and> total enabled_by (api_effects (rtEffects s)) = total stopped_by (api_effects (rtEffects s))
                \<and> total opened_by (api_effects (rtEffects s)) = total closed_by (api_effects (rtEffects s))
                \<and> (MetricsStarted \<in> set es \<longleftrightarrow> MetricsStopped \<in> set rest)
                \<and> (\<forall>p. ProfilerStarted p \<in> set es \<longleftrightarrow> ProfilerEnabled cfg \<and> p = NewProfileServer (ProfilerHost cfg) (ProfilerPort cfg))
                \<and> (\<forall>p. ProfilerStopped p \<notin> set (rtEffects s))"
        by (rule exI [of _ es1], rule exI [of _ sub], rule exI [of _ rest]) (use st(2-) sub in \<open>simp add: es\<close>)
      with r fin log None Inr show ?thesis by (simp add: logged_of_def)
    qed
  qed
qed

section \<open>Progress\<close>

fun main_rank :: "main_pc \<Rightarrow> nat" where "main_rank AwaitReady = 3" | "main_rank AwaitSignal = 2" | "main_rank AwaitDone = 1"

fun gateway_rank :: "('rs, 'l) gateway_pc \<Rightarrow> nat" where
  "gateway_rank Creating = 6" | "gateway_rank (Starting _) = 5" | "gateway_rank (Serving _) = 3" | "gateway_rank (Returned _) = 2"
| "gateway_rank (Closing _) = 1" | "gateway_rank (Finished _) = 0"

text \<open>The number of steps the program can still make.\<close>

definition run_rank :: "('rs, 'l) run_state \<Rightarrow> nat" where
  "run_rank s = (if rtEnd s = None then 1 + main_rank (rtMain s) + gateway_rank (rtGateway s) + (if rtTracker s then 1 else 0) else 0)"

lemma main_rank_bounds: "0 < main_rank pc" "main_rank pc \<le> 3" by (cases pc; simp)+

lemma gateway_step_rank:
  assumes "gateway_step E cfg (rtGateway s) s = Ret s'" and "run_inv E cfg s" and "rtEnd s = None"
  shows "run_rank s' < run_rank s"
proof -
  obtain r es b where run: "Bootstrap_Run (reStart E) cfg (reIngestion E) (reWaited E) (reEarly E) NewBootstrap = Ret (r, es, b)"
    using Bootstrap_Run_returns by blast
  then show ?thesis using assms
    by (cases "rtGateway s"; cases r)
      (auto simp: run_rank_def run_inv_def run_defs gw_result split: sum.splits if_splits option.splits prod.splits)
qed

lemma main_step_rank: "main_step pick (rtMain s) s = Ret s' \<Longrightarrow> rtEnd s = None \<Longrightarrow> run_rank s' < run_rank s"
  by (cases "rtMain s") (auto simp: run_rank_def split: if_splits)

lemma gateway_step_no_panic:
  assumes "run_inv E cfg s"
  shows "gateway_step E cfg (rtGateway s) s \<noteq> Panics m"
proof -
  obtain r es b where "Bootstrap_Run (reStart E) cfg (reIngestion E) (reWaited E) (reEarly E) NewBootstrap = Ret (r, es, b)"
    using Bootstrap_Run_returns by blast
  with assms show ?thesis
    by (cases "rtGateway s"; cases r) (auto simp: run_inv_def run_defs split: sum.splits if_splits option.splits prod.splits)
qed

lemma gateway_step_blocks:
  assumes "run_inv E cfg s" and "gateway_step E cfg (rtGateway s) s = Blocks"
  shows "(\<exists>b. rtGateway s = Serving b \<and> \<not> rtCancelled s) \<or> (\<exists>r. rtGateway s = Finished r)"
proof -
  obtain r es b where "Bootstrap_Run (reStart E) cfg (reIngestion E) (reWaited E) (reEarly E) NewBootstrap = Ret (r, es, b)"
    using Bootstrap_Run_returns by blast
  with assms show ?thesis
    by (cases "rtGateway s"; cases r) (auto simp: run_inv_def run_defs split: sum.splits if_splits option.splits prod.splits)
qed

lemma main_step_cases: "main_step pick pc s = Blocks \<or> (\<exists>s'. main_step pick pc s = Ret s')"
  by (cases pc) auto

lemma run_rank_bound: "run_inv E cfg s \<Longrightarrow> run_rank s \<le> 10"
  using main_rank_bounds(2) [of "rtMain s"] by (cases "rtGateway s") (auto simp: run_rank_def run_inv_def)

lemma program_step:
  assumes "run_step E Program s s'" and inv: "run_inv E cfg s" and cfg: "reConfig E = Inr cfg"
  shows "run_rank s' < run_rank s \<and> (\<forall>m. rtEnd s' \<noteq> Some (Crashed m))"
  using assms(1)
proof (cases rule: run_step.cases)
  case (gateway cfg')
  then show ?thesis using gateway_step_rank [of E cfg s s'] gateway_step_inv [of E cfg s s'] inv cfg by auto
next
  case (gateway_panic cfg' m)
  then show ?thesis using gateway_step_no_panic [OF inv] cfg by auto
next
  case (main pick)
  then show ?thesis using main_step_rank [of pick s s']
    by (cases "rtMain s") (auto simp: Execute_def split: if_splits)
next
  case tracker_ends
  then show ?thesis by (simp add: run_rank_def)
qed

text \<open>The program of a process under the invariant waits exactly where a running gateway waits for a signal.\<close>

lemma program_stuck_iff:
  assumes inv: "run_inv E cfg s" and cfg: "reConfig E = Inr cfg" and live: "rtEnd s = None"
  shows "(\<nexists>s'. run_step E Program s s') \<longleftrightarrow> (\<exists>b. rtMain s = AwaitSignal \<and> rtGateway s = Serving b \<and> \<not> rtSignal s)"
proof
  assume stuck: "\<nexists>s'. run_step E Program s s'"
  have main: "main_step True (rtMain s) s = Blocks" using stuck run_step.main [OF live] main_step_cases by metis
  have "gateway_step E cfg (rtGateway s) s \<noteq> Ret s'" for s' using stuck run_step.gateway [OF live cfg] by blast
  with gateway_step_no_panic [OF inv] have "gateway_step E cfg (rtGateway s) s = Blocks" by (metis exec.exhaust)
  from gateway_step_blocks [OF inv this]
  show "\<exists>b. rtMain s = AwaitSignal \<and> rtGateway s = Serving b \<and> \<not> rtSignal s"
    using inv main by (cases "rtMain s") (auto simp: run_inv_def split: if_splits)
next
  assume "\<exists>b. rtMain s = AwaitSignal \<and> rtGateway s = Serving b \<and> \<not> rtSignal s"
  then show "\<nexists>s'. run_step E Program s s'" using inv by (auto elim!: run_stepE simp: run_inv_def)
qed

text \<open>C40: The program makes at most ten steps of its own and never panics; it waits only while the gateway
  serves and no signal has arrived.  After a signal, or an error of the gateway, the process therefore
  ends.\<close>

theorem command_progress:
  assumes "run_reach E (run_start E c) s" and "rtEnd s = None" and "reMultiKey E = None"
  shows "run_rank s \<le> 10
    \<and> (\<forall>s'. run_step E Program s s' \<longrightarrow> run_rank s' < run_rank s \<and> (\<forall>m. rtEnd s' \<noteq> Some (Crashed m)))
    \<and> ((\<nexists>s'. run_step E Program s s') \<longleftrightarrow> (\<exists>b. rtMain s = AwaitSignal \<and> rtGateway s = Serving b \<and> \<not> rtSignal s))"
proof (cases "reConfig E")
  case (Inl e)
  then show ?thesis using run_reach_config [OF assms(1,3) Inl] assms(2) by simp
next
  case (Inr cfg)
  then have "run_inv E cfg s" using run_reach_inv [OF assms(1,3) Inr] assms(2) by (simp add: process_inv_def)
  then show ?thesis using run_rank_bound program_step program_stuck_iff Inr assms(2) by metis
qed

section \<open>Runs\<close>

lemma gateway_moves:
  "run_reach E s0 s \<Longrightarrow> rtEnd s = None \<Longrightarrow> reConfig E = Inr cfg \<Longrightarrow> gateway_step E cfg (rtGateway s) s = Ret s' \<Longrightarrow> run_reach E s0 s'"
  by (blast intro: reach_step run_step.gateway)

lemma main_moves: "run_reach E s0 s \<Longrightarrow> rtEnd s = None \<Longrightarrow> main_step True (rtMain s) s = Ret s' \<Longrightarrow> run_reach E s0 s'"
  by (blast intro: reach_step run_step.main)

lemma signal_arrives: "run_reach E s0 s \<Longrightarrow> rtEnd s = None \<Longrightarrow> rtNotify s \<Longrightarrow> run_reach E s0 (s\<lparr>rtSignal := True\<rparr>)"
  by (blast intro: reach_step run_step.os_signal)

text \<open>Whatever error the gateway returns, once its goroutine is at its end the command exits with status zero.\<close>

lemma returned_exits:
  assumes "run_reach E s0 s" "rtEnd s = None" "reConfig E = Inr cfg" "rtGateway s = Returned r" "rtMain s = AwaitReady"
    "rtReady s = rtOnce s" "\<not> rtDone s" "rtLogged s = []"
  shows "\<exists>s'. run_reach E s0 s' \<and> rtEnd s' = Some (Exited 0) \<and> rtEffects s' = rtEffects s \<and> rtLogged s' = logged_of r"
proof -
  let ?s1 = "s\<lparr>rtLogged := logged_of r, rtGateway := Closing r, rtOnce := True, rtReady := True\<rparr>"
  let ?s2 = "?s1\<lparr>rtGateway := Finished r, rtDone := True\<rparr>"
  let ?s3 = "?s2\<lparr>rtNotify := True, rtMain := AwaitSignal\<rparr>"
  have "gateway_step E cfg (rtGateway s) s = Ret ?s1"
    using assms(4,6,8) by (cases s) (auto simp: goroutine_returns_def closeReady_def logged_of_def)
  then have r1: "run_reach E s0 ?s1" by (rule gateway_moves [OF assms(1-3)])
  have r2: "run_reach E s0 ?s2" by (rule gateway_moves [OF r1 _ assms(3)]) (use assms in \<open>simp_all add: close_done_def\<close>)
  have r3: "run_reach E s0 ?s3" by (rule main_moves [OF r2]) (use assms in simp_all)
  obtain s4 where s4: "main_step True AwaitSignal ?s3 = Ret s4" "rtMain s4 = AwaitDone" "rtDone s4" "rtEnd s4 = None"
    "rtEffects s4 = rtEffects s" "rtLogged s4 = logged_of r" using assms(2) by (cases "rtSignal s") simp_all
  have r4: "run_reach E s0 s4" by (rule main_moves [OF r3]) (use assms(2) s4(1) in simp_all)
  have "run_reach E s0 (s4\<lparr>rtCancelled := True, rtEnd := Some (Exited 0)\<rparr>)"
    by (rule main_moves [OF r4]) (use s4 in \<open>simp_all add: Execute_def\<close>)
  then show ?thesis using s4(5,6) by (intro exI [of _ "s4\<lparr>rtCancelled := True, rtEnd := Some (Exited 0)\<rparr>"]) simp
qed

text \<open>
  A gateway that cannot be created or whose services fail to start is logged, and the command exits with
  status zero without stopping the services that did start.
\<close>

theorem failed_gateway_exits_zero:
  fixes E :: "('c, 'ev, 'x, 's, 'pk, 'sg, 'k, 'w, 'v, 'rs, 'l) run_env"
  assumes "reMultiKey E = None" and cfg: "reConfig E = Inr cfg"
    and fails: "Bootstrap_New (reDial E) (reAccess E) (reSetup E) cfg = (Inl e :: err + ('rs, 'l) Bootstrap) \<and> es = []
      \<or> Bootstrap_New (reDial E) (reAccess E) (reSetup E) cfg = Inr (NewBootstrap :: ('rs, 'l) Bootstrap)
        \<and> Bootstrap_Run (reStart E) cfg (reIngestion E) (reWaited E) (reEarly E) NewBootstrap = Ret (Some e, es, b)"
  shows "\<exists>s. run_reach E (run_start E c) s \<and> rtEnd s = Some (Exited 0) \<and> rtEffects s = es \<and> rtLogged s = logged_of (Some e)"
proof -
  have start: "run_start E c = started c" using assms(1,2) by (simp add: run_start_def)
  let ?s = "(started c)\<lparr>rtEffects := es, rtGateway := Returned (Some e)\<rparr>"
  note first = gateway_moves [OF reach_refl [of E "started c"] _ cfg]
  have "run_reach E (started c) ?s"
    using fails
  proof
    assume new: "Bootstrap_New (reDial E) (reAccess E) (reSetup E) cfg = (Inl e :: err + ('rs, 'l) Bootstrap) \<and> es = []"
    show ?thesis by (rule first) (use new in \<open>simp_all add: started_def\<close>)
  next
    assume run: "Bootstrap_New (reDial E) (reAccess E) (reSetup E) cfg = Inr (NewBootstrap :: ('rs, 'l) Bootstrap)
      \<and> Bootstrap_Run (reStart E) cfg (reIngestion E) (reWaited E) (reEarly E) NewBootstrap = Ret (Some e, es, b)"
    have "run_reach E (started c) ((started c)\<lparr>rtGateway := Starting NewBootstrap\<rparr>)"
      by (rule first) (use run in \<open>simp_all add: started_def\<close>)
    then show ?thesis by (rule gateway_moves [OF _ _ cfg]) (use run in \<open>simp_all add: started_def\<close>)
  qed
  from returned_exits [OF this _ cfg] show ?thesis unfolding start by (simp add: started_def)
qed

text \<open>A gateway that starts serves until a signal, is stopped and exits with status zero.\<close>

lemma serving_reached:
  fixes E :: "('c, 'ev, 'x, 's, 'pk, 'sg, 'k, 'w, 'v, 'rs, 'l) run_env"
  assumes "reMultiKey E = None" and cfg: "reConfig E = Inr cfg"
    and new: "Bootstrap_New (reDial E) (reAccess E) (reSetup E) cfg = Inr (NewBootstrap :: ('rs, 'l) Bootstrap)"
    and run: "Bootstrap_Run (reStart E) cfg (reIngestion E) (reWaited E) (reEarly E) NewBootstrap = Ret (None, es, b)"
  shows "run_reach E (run_start E c) ((started c)\<lparr>rtEffects := es, rtGateway := Serving b, rtOnce := True, rtReady := True, rtTracker := True,
     rtNotify := True, rtMain := AwaitSignal\<rparr>)"
proof -
  have start: "run_start E c = started c" using assms(1,2) by (simp add: run_start_def)
  have "run_reach E (started c) ((started c)\<lparr>rtGateway := Starting NewBootstrap\<rparr>)"
    by (rule gateway_moves [OF reach_refl _ cfg]) (use new in \<open>simp_all add: started_def\<close>)
  then have "run_reach E (started c) ((started c)\<lparr>rtEffects := es, rtGateway := Serving b, rtOnce := True, rtReady := True, rtTracker := True\<rparr>)"
    by (rule gateway_moves [OF _ _ cfg]) (use run in \<open>simp_all add: started_def closeReady_def\<close>)
  then show ?thesis unfolding start by (rule main_moves) (simp_all add: started_def)
qed

lemma signal_exits:
  assumes "run_reach E s0 s" "rtEnd s = None" "reConfig E = Inr cfg" "rtGateway s = Serving b" "rtMain s = AwaitSignal"
    "rtNotify s" "rtReady s" "rtOnce s" "\<not> rtDone s" and stop: "Bootstrap_Stop (reTimedOut E) b = (es, b')"
  shows "\<exists>s'. run_reach E s0 s' \<and> rtEnd s' = Some (Exited 0) \<and> rtEffects s' = rtEffects s @ es"
proof -
  let ?s1 = "s\<lparr>rtSignal := True\<rparr>"
  let ?s2 = "?s1\<lparr>rtSignal := False, rtCancelled := True, rtMain := AwaitDone\<rparr>"
  let ?s3 = "?s2\<lparr>rtEffects := rtEffects s @ es, rtGateway := Returned None\<rparr>"
  let ?s4 = "?s3\<lparr>rtLogged := rtLogged s @ [], rtGateway := Closing None\<rparr>"
  let ?s5 = "?s4\<lparr>rtGateway := Finished None, rtDone := True\<rparr>"
  have "run_reach E s0 ?s1" using assms(1,2,6) by (rule signal_arrives)
  then have "run_reach E s0 ?s2" by (rule main_moves) (use assms in simp_all)
  then have "run_reach E s0 ?s3" by (rule gateway_moves [OF _ _ assms(3)]) (use assms in simp_all)
  then have "run_reach E s0 ?s4" by (rule gateway_moves [OF _ _ assms(3)]) (use assms in \<open>simp_all add: goroutine_returns_def closeReady_def\<close>)
  then have "run_reach E s0 ?s5" by (rule gateway_moves [OF _ _ assms(3)]) (use assms in \<open>simp_all add: close_done_def\<close>)
  then have "run_reach E s0 (?s5\<lparr>rtCancelled := True, rtEnd := Some (Exited 0)\<rparr>)"
    by (rule main_moves) (use assms in \<open>simp_all add: Execute_def\<close>)
  then show ?thesis by (intro exI [of _ "?s5\<lparr>rtCancelled := True, rtEnd := Some (Exited 0)\<rparr>"]) simp
qed

section \<open>Witnesses\<close>

definition demo_env :: "bool \<Rightarrow> (nat, nat, unit, unit, nat, nat, nat, nat, unit, nat, nat) run_env" where
  "demo_env up = \<lparr>reMultiKey = None, reConfig = Inr demo_config, reDial = (\<lambda>_. if up then Inr 1 else Inl (New_err ''unreachable'')), reAccess = demo_nodes,
     reSetup = (\<lambda>_ _. None), reStart = demo_start, reIngestion = Inr (EventSubscriberFrom 5), reWaited = None, reEarly = None, reTimedOut = False\<rparr>"

lemma demo_down: "Bootstrap_New (reDial (demo_env False)) (reAccess (demo_env False)) (reSetup (demo_env False)) demo_config
    = Inl (Errorf ''failed to create client connection for host: %s, with error: %w'' [FStr (AccessNodeHost demo_config)] [New_err ''unreachable''])"
  by (simp add: Bootstrap_New_def demo_env_def setupCrossSporkClient_def Let_def)

lemma demo_up: "Bootstrap_New (reDial (demo_env True)) (reAccess (demo_env True)) (reSetup (demo_env True)) demo_config = Inr NewBootstrap"
  by (simp add: Bootstrap_New_def demo_env_def setupCrossSporkClient_def Let_def demo_config_def flag_config_def default_flags_def NewCrossSporkClient_def demo_nodes_def)

lemma demo_serving:
  obtains es b where "run_reach (demo_env True) (run_start (demo_env True) NopCollector)
      ((started NopCollector)\<lparr>rtEffects := es, rtGateway := Serving b, rtOnce := True, rtReady := True, rtTracker := True,
        rtNotify := True, rtMain := AwaitSignal\<rparr>)"
    "ApiEffect (Serve 7) \<in> set es"
proof -
  obtain es b where "Bootstrap_Run demo_start demo_config (Inr (EventSubscriberFrom 5)) None None NewBootstrap = Ret (None, es, b)"
    and served: "ApiEffect (Serve 7) \<in> set es" using demo_services_start by blast
  then have "Bootstrap_Run (reStart (demo_env True)) demo_config (reIngestion (demo_env True)) (reWaited (demo_env True)) (reEarly (demo_env True))
      NewBootstrap = Ret (None, es, b)" by (simp add: demo_env_def)
  from serving_reached [OF _ _ demo_up this, of NopCollector] that [OF _ served] show thesis by (simp add: demo_env_def)
qed

lemma failed_gateway_exits_zero_witness:
  "\<exists>s. run_reach (demo_env False) (run_start (demo_env False) NopCollector) s \<and> rtEnd s = Some (Exited 0) \<and> rtEffects s = []
     \<and> rtLogged s \<noteq> []"
proof -
  have "reMultiKey (demo_env False) = None" "reConfig (demo_env False) = Inr demo_config" by (simp_all add: demo_env_def)
  from failed_gateway_exits_zero [OF this, where es = "[]"] demo_down
  obtain s where "run_reach (demo_env False) (run_start (demo_env False) NopCollector) s" "rtEnd s = Some (Exited 0)" "rtEffects s = []"
    "rtLogged s = logged_of (Some (Errorf ''failed to create client connection for host: %s, with error: %w'' [FStr (AccessNodeHost demo_config)]
       [New_err ''unreachable'']))" by blast
  then show ?thesis by (intro exI [of _ s]) (simp add: logged_of_def errors_Is.simps [of "New_err _"])
qed

lemma command_exit_zero_witness:
  "\<exists>s. run_reach (demo_env True) (run_start (demo_env True) NopCollector) s \<and> rtEnd s = Some (Exited 0)
     \<and> ApiEffect (Serve 7) \<in> set (rtEffects s) \<and> DBClosed \<in> set (rtEffects s)
     \<and> total opened_by (api_effects (rtEffects s)) = total closed_by (api_effects (rtEffects s))"
proof -
  obtain es b where run: "run_reach (demo_env True) (run_start (demo_env True) NopCollector)
      ((started NopCollector)\<lparr>rtEffects := es, rtGateway := Serving b, rtOnce := True, rtReady := True, rtTracker := True,
        rtNotify := True, rtMain := AwaitSignal\<rparr>)" "ApiEffect (Serve 7) \<in> set es" by (rule demo_serving)
  obtain es' b' where stop: "Bootstrap_Stop (reTimedOut (demo_env True)) b = (es', b')" by (cases "Bootstrap_Stop (reTimedOut (demo_env True)) b")
  have cfg: "reConfig (demo_env True) = Inr demo_config" "reMultiKey (demo_env True) = None" by (simp_all add: demo_env_def)
  obtain s where s: "run_reach (demo_env True) (run_start (demo_env True) NopCollector) s" "rtEnd s = Some (Exited 0)" "rtEffects s = es @ es'"
    using signal_exits [OF run(1) _ cfg(1) _ _ _ _ _ _ stop] by (auto simp: started_def)
  have db: "DBClosed \<in> set (rtEffects s)" using s(3) stop by (auto simp: Bootstrap_Stop_def split: prod.splits)
  then have "\<not> list_all start_effect (rtEffects s)" "rtEffects s \<noteq> []" by (force simp: list_all_iff)+
  with command_exit_zero [OF s(1,2)] cfg(2)
  have "total opened_by (api_effects (rtEffects s)) = total closed_by (api_effects (rtEffects s))" by auto
  with s(1,2) run(2) db s(3) show ?thesis by (intro exI [of _ s]) simp
qed

lemma command_progress_witness:
  "\<exists>s. run_reach (demo_env True) (run_start (demo_env True) NopCollector) s \<and> rtEnd s = None \<and> (\<nexists>s'. run_step (demo_env True) Program s s')"
proof -
  obtain es b where run: "run_reach (demo_env True) (run_start (demo_env True) NopCollector)
      ((started NopCollector)\<lparr>rtEffects := es, rtGateway := Serving b, rtOnce := True, rtReady := True, rtTracker := True,
        rtNotify := True, rtMain := AwaitSignal\<rparr>)" (is "run_reach _ _ ?s") by (rule demo_serving)
  have "rtEnd ?s = None" "reMultiKey (demo_env True) = None" by (simp_all add: demo_env_def started_def)
  from command_progress [OF run this] run show ?thesis by (intro exI [of _ ?s]) (simp add: started_def)
qed

end
