(* ===== verification/Pebble_Options.thy ===== *)
theory Pebble_Options
  imports Pebble_Store
begin

text \<open>
  The opening of the database with its options, \<^verbatim>\<open>OpenDB\<close> of \<^verbatim>\<open>storage/pebble/db.go\<close>.  The defaults that pebble
  fills in for a level and for all options, and the opening itself, are arguments.
\<close>

section \<open>Options\<close>

record level_options =
  BlockSize :: int
  IndexBlockSize :: int
  FilterBits :: int
  TableFilter :: bool
  TargetFileSize :: int

record pebble_options =
  CacheSize :: int
  optSplit :: "bytes \<Rightarrow> int"
  L0CompactionThreshold :: int
  L0StopWritesThreshold :: int
  LBaseMaxBytes :: int
  Levels :: "level_options list"
  MaxOpenFiles :: int
  MemTableSize :: int
  MemTableStopWritesThreshold :: int
  MaxConcurrentCompactions :: int
  FlushSplitBytes :: int

text \<open>Two bytes and the suffix of a height.\<close>

definition MinLookupKeyLen :: int where "MinLookupKeyLen = 2 + 8"

text \<open>The loop over the levels: the target of a level is twice that of the level before, of the first one the default.\<close>

definition open_level :: "(level_options \<Rightarrow> level_options) \<Rightarrow> level_options option \<Rightarrow> level_options" where
  "open_level EnsureDefaults prev = EnsureDefaults \<lparr>BlockSize = 32 * 2 ^ 10, IndexBlockSize = 256 * 2 ^ 10, FilterBits = MinLookupKeyLen,
     TableFilter = True, TargetFileSize = (case prev of None \<Rightarrow> 0 | Some l \<Rightarrow> TargetFileSize l * 2)\<rparr>"

fun open_levels :: "(level_options \<Rightarrow> level_options) \<Rightarrow> level_options option \<Rightarrow> nat \<Rightarrow> level_options list" where
  "open_levels EnsureDefaults prev 0 = []"
| "open_levels EnsureDefaults prev (Suc n) =
     (let l = open_level EnsureDefaults prev in l # open_levels EnsureDefaults (Some l) n)"

definition open_options :: "(level_options \<Rightarrow> level_options) \<Rightarrow> pebble_options" where
  "open_options EnsureDefaults =
     (let levels = open_levels EnsureDefaults None 7 in
      \<lparr>CacheSize = 2 ^ 20, optSplit = MVCC_Split, L0CompactionThreshold = 2, L0StopWritesThreshold = 1000, LBaseMaxBytes = 64 * 2 ^ 20,
       Levels = levels, MaxOpenFiles = 16384, MemTableSize = 64 * 2 ^ 20, MemTableStopWritesThreshold = 4, MaxConcurrentCompactions = 4,
       FlushSplitBytes = TargetFileSize (levels ! 0)\<rparr>)"

definition OpenDB ::
    "(level_options \<Rightarrow> level_options) \<Rightarrow> (pebble_options \<Rightarrow> pebble_options) \<Rightarrow> (string \<Rightarrow> pebble_options \<Rightarrow> err + 'db) \<Rightarrow> string \<Rightarrow> err + 'db" where
  "OpenDB ensureLevel ensureOptions Open dir =
     rwrap (\<lambda>e. Errorf ''failed to open db for dir: %s, with: %w'' [FStr dir] [e]) (Open dir (ensureOptions (open_options ensureLevel)))"

section \<open>Levels\<close>

text \<open>The documented defaults of a level: 2 MiB for a target that is not set, and nothing that is set changes.\<close>

definition defaults_ok :: "(level_options \<Rightarrow> level_options) \<Rightarrow> bool" where
  "defaults_ok ensure \<longleftrightarrow> (\<forall>l. TargetFileSize (ensure l) = (if TargetFileSize l \<le> 0 then 2 * 2 ^ 20 else TargetFileSize l)
     \<and> (BlockSize l > 0 \<longrightarrow> BlockSize (ensure l) = BlockSize l))"

lemma open_levels_length [simp]: "length (open_levels ensure prev n) = n"
  by (induction n arbitrary: prev) (simp_all add: Let_def)

lemma open_levels_target:
  assumes "defaults_ok ensure" and "prev = Some l" and "TargetFileSize l = t" and "0 < t" and "i < n"
  shows "TargetFileSize (open_levels ensure prev n ! i) = t * 2 ^ Suc i"
  using assms(2-)
proof (induction n arbitrary: prev l t i)
  case (Suc n)
  have t: "TargetFileSize (open_level ensure prev) = t * 2"
    using assms(1) Suc.prems by (simp add: defaults_ok_def open_level_def)
  show ?case
  proof (cases i)
    case (Suc j)
    then show ?thesis using Suc.IH [OF refl t, of j] Suc.prems(3,4) by (simp add: Let_def)
  qed (simp add: Let_def t)
qed simp

text \<open>The target file sizes start at 2 MiB and double at each of the seven levels, and a flush is split at the first.\<close>

theorem open_options_levels:
  assumes "defaults_ok ensure"
  shows "length (Levels (open_options ensure)) = 7
    \<and> (\<forall>i < 7. TargetFileSize (Levels (open_options ensure) ! i) = 2 * 2 ^ 20 * 2 ^ i)
    \<and> FlushSplitBytes (open_options ensure) = 2 * 2 ^ 20"
proof -
  let ?l = "open_level ensure None"
  have first: "TargetFileSize ?l = 2 * 2 ^ 20" using assms by (simp add: defaults_ok_def open_level_def)
  have levels: "Levels (open_options ensure) = ?l # open_levels ensure (Some ?l) 6"
    by (simp add: open_options_def Let_def numeral_eq_Suc)
  have "TargetFileSize (Levels (open_options ensure) ! i) = 2 * 2 ^ 20 * 2 ^ i" if "i < 7" for i
  proof (cases i)
    case (Suc j)
    then show ?thesis using open_levels_target [OF assms refl first, of j 6] that by (simp add: levels)
  qed (simp add: levels first)
  then show ?thesis using first by (simp add: levels open_options_def Let_def numeral_eq_Suc)
qed

section \<open>Witness\<close>

definition demo_defaults :: "level_options \<Rightarrow> level_options" where
  "demo_defaults l = (if TargetFileSize l \<le> 0 then l\<lparr>TargetFileSize := 2 * 2 ^ 20\<rparr> else l)"

lemma open_options_levels_witness: "TargetFileSize (Levels (open_options demo_defaults) ! 6) = 128 * 2 ^ 20"
proof -
  have "defaults_ok demo_defaults" by (simp add: defaults_ok_def demo_defaults_def)
  from open_options_levels [OF this] show ?thesis by simp
qed

end
