(* ===== verification/Spec2Isabelle.thy ===== *)
theory Spec2Isabelle
  imports Gateway_Prelude Gateway_Errors Key_Store Evm_Models Sync_Models Single_Tx_Pool
    Batch_Pool Pebble_Store Blocks_Index Receipts_Index Register_Index Events_Hash
    Cadence_Events Cross_Spork Sealing_Verifier Event_Subscriber Block_Tracking Blocks_Provider
    Ingestion_Engine Logs_Filter Eth_Types Evm_Requester Api_Utils Pull_Api
    Blockchain_Api Stream_Api Debug_Api Gateway_Bootstrap Rpc_Server Gateway_Services Gateway_Tools
    Gateway_Metrics Gateway_Process Pebble_Options
begin

text \<open>
  A verification development for the Flow EVM gateway, the server that indexes the EVM blocks
  of the Flow network and offers the Ethereum JSON-RPC interface over them.

  \<^bold>\<open>The program.\<close>  The gateway starts from its flags (\<^verbatim>\<open>cmd/run\<close>, \<^verbatim>\<open>config\<close>,
  \<^verbatim>\<open>bootstrap\<close>): it opens the database, writes the genesis block when the database is new, and starts
  the ingestion and the endpoints.  A subscriber (\<^verbatim>\<open>services/ingestion\<close>) reads the EVM events of the Flow
  blocks from access nodes, past sporks first, through the client of \<^verbatim>\<open>cross-spork_client.go\<close>; it decodes
  them with \<^verbatim>\<open>models/events.go\<close> and hands them to the engine, which replays the block, stores the
  block, its registers, transactions, receipts and traces in one batch (\<^verbatim>\<open>storage/pebble\<close>), commits it,
  and only then publishes the block and its logs.  In the mode of soft finality the events come from
  finalized blocks and the sealing verifier compares them later with the sealed ones.  The endpoints
  (\<^verbatim>\<open>api\<close>) read the indexes, execute calls on the state of a block through the requester
  (\<^verbatim>\<open>services/requester\<close>), and pass raw transactions to a transaction pool, which wraps them in Flow
  transactions signed with a key of the key store; a key is locked until its transaction is sealed or
  expires, which the ingestion reports back to the key store.

  \<^bold>\<open>How the code is represented.\<close>  A Go struct is a record, an enumeration or interface with
  several implementations is a datatype, \<^verbatim>\<open>uint64\<close> and the other sized integers are words that wrap,
  \<^verbatim>\<open>big.Int\<close> is \<open>int\<close>, a byte slice is a list of 8-bit words, a map is an association list with
  \<open>gomap\<close> operations where its order is observed.  A function with an error result returns \<open>err + 'a\<close>,
  where \<open>err\<close> keeps the wrapped errors so that \<^verbatim>\<open>errors.Is\<close> is computed and not assumed.  A function
  that can panic or wait forever returns \<open>'a exec\<close> with the constructors \<open>Ret\<close>, \<open>Panics\<close> and \<open>Blocks\<close>.
  Methods take the receiver and return it updated.  A section under a mutex is one function; programs
  with several goroutines are step relations over such sections, and the theorems quantify over every
  interleaving.  Log lines are left out, and metrics where they are only written.

  \<^bold>\<open>Code outside the repository\<close> is a parameter.  The record \<open>codec\<close> holds the RLP and Cadence codecs,
  hashes and signature recovery of go-ethereum and flow-go, \<open>pebble_api\<close> the key-value store,
  \<open>access_api\<close> the access nodes, \<open>flow_tx_api\<close> and \<open>pool_env\<close> the Flow transactions and their sending,
  \<open>view_api\<close> the EVM execution on a block view, \<open>slab_api\<close>, \<open>id_api\<close>, \<open>geth_ext\<close>, \<open>api_ext\<close>,
  \<open>trace_env\<close>, \<open>parse_ext\<close> and \<open>arch_api\<close> the remaining helpers, \<open>net_api\<close> the RPC servers and the network,
  \<open>start_env\<close> what the start of the services asks, \<open>tool_api\<close> the SDK of the account tool, \<open>registry_api\<close> the
  registry of metrics and \<open>run_env\<close> the outcomes of starting the gateway.  What a theorem needs of them is a named predicate:
  \<open>codec_ok\<close> (decoding what was encoded gives it back, and of receipts what their RLP encoding keeps, \<open>rlp_receipt\<close>:
  the derived fields of logs are lost and a missing blob gas price becomes zero), \<open>pebble_ok\<close> (a read sees the committed
  operations, a batch is applied as a whole), \<open>must_from_big_ok\<close> and \<open>dry_call_ok\<close> (a number beyond 256 bits panics;
  a dry call above the block gas limit fails, and it reports the gas it used).  Each is shown to be satisfiable by a concrete instance (\<open>ref_codec\<close>, \<open>mem_pebble\<close>,
  \<open>demo_views\<close>) in the witnesses.

  \<^bold>\<open>Theories, in the order of the imports.\<close>
  \<^item> \<open>Gateway_Prelude\<close>: types, the error and execution monads, Go maps, big-endian keys, times, and
    the collection \<open>gw_result\<close> with the lemmas every component uses.
  \<^item> \<open>Gateway_Errors\<close> (\<^verbatim>\<open>models/errors\<close>): the sentinel errors and the search through wrapped errors,
    with a termination proof.
  \<^item> \<open>Key_Store\<close> (\<^verbatim>\<open>services/requester/keystore\<close>): \<open>ks_step\<close> interleaves taking, locking, returning and
    releasing keys; no key is lost or in two hands, \<open>Take\<close> never panics and \<open>Done\<close> never blocks.  The
    locales \<open>key_pool\<close> and \<open>key_lock\<close> are what the transaction pools rely on and are interpreted on the
    key store.
  \<^item> \<open>Evm_Models\<close>, \<open>Sync_Models\<close>, \<open>Cadence_Events\<close> (\<^verbatim>\<open>models\<close>): blocks, receipts and transactions with
    their codecs, the sequential height, streams and engine status, and the decoding of the events of a
    Flow block, which checks the transactions against the root hash of the block.
  \<^item> \<open>Single_Tx_Pool\<close>, \<open>Batch_Pool\<close> (\<^verbatim>\<open>single_tx_pool.go\<close>, \<^verbatim>\<open>batch_tx_pool.go\<close>): \<open>pool_step\<close>
    interleaves \<open>Add\<close>, the collection of batches and their acknowledgement; the invariant, the exact
    selection of consecutive nonces, the outcome of every \<open>Add\<close>, down to what an access node accepted
    (\<open>node_accepted\<close>), and the re-queueing of failed batches.
  \<^item> \<open>Pebble_Store\<close>, \<open>Blocks_Index\<close>, \<open>Receipts_Index\<close>, \<open>Register_Index\<close>, \<open>Events_Hash\<close>
    (\<^verbatim>\<open>storage\<close>): key layout, batches, and each index as a refinement of an abstract one (\<open>index_of\<close> for
    blocks, latest value at or below a height for registers); round trips of stored values.  The locale
    \<open>events_hash_index\<close> is the part the sealing verifier relies on.
  \<^item> \<open>Cross_Spork\<close>, \<open>Event_Subscriber\<close>, \<open>Block_Tracking\<close>, \<open>Sealing_Verifier\<close>
    (\<^verbatim>\<open>services/ingestion\<close>): routing of heights to sporks, the backfill that delivers every height once
    and in order, the recovery from incomplete blocks, and the verifier, whose processed height only
    passes blocks with equal hashes (\<open>vruns\<close>).
  \<^item> \<open>Blocks_Provider\<close>, \<open>Ingestion_Engine\<close>: the chain check and the engine.  A successful event adds
    exactly its block, a failed one changes nothing, and what is indexed is the chain of the event blocks.
  \<^item> \<open>Logs_Filter\<close> (\<^verbatim>\<open>services/logs\<close>): the search with the preselection by blooms equals the exact search;
    the locale \<open>bloom_index\<close> states what the search needs of the receipts and is interpreted on the
    Pebble index.
  \<^item> \<open>Eth_Types\<close>, \<open>Evm_Requester\<close> (\<^verbatim>\<open>eth/types\<close>, \<^verbatim>\<open>services/requester\<close>): call arguments and answers, the
    admission of raw transactions, calls, and the gas estimation with its bisection.
  \<^item> \<open>Api_Utils\<close>, \<open>Blockchain_Api\<close>, \<open>Pull_Api\<close>, \<open>Stream_Api\<close>, \<open>Debug_Api\<close> (\<^verbatim>\<open>api\<close>): every
    endpoint.  Blocks are served in full, endpoints that overlap agree, polled filters deliver every
    item once and in order whatever operations other clients run in between (\<open>api_step\<close>, \<open>api_run\<close>, locale
    \<open>polled_filter\<close>), a log subscriber is sent the logs a search finds, and
    traces replay exactly the transactions before the traced one, each with its position and the gas before it
    as context (\<open>tx_runs\<close>, \<open>block_runs\<close>).
  \<^item> \<open>Gateway_Bootstrap\<close> (\<^verbatim>\<open>cmd/run\<close>, \<^verbatim>\<open>config\<close>, \<^verbatim>\<open>bootstrap\<close>): the configuration that is accepted, the
    setup of the database and the height at which the ingestion starts.
  \<^item> \<open>Rpc_Server\<close> (\<^verbatim>\<open>api/server.go\<close>, \<^verbatim>\<open>api/profiler.go\<close>, \<^verbatim>\<open>eth/utils.go\<close>): the life cycle of the server as
    operations that return the effects on listeners and RPC servers, each of which is stopped exactly
    once; the routing of requests and the rewriting of responses.
  \<^item> \<open>Gateway_Services\<close> (\<^verbatim>\<open>bootstrap/bootstrap.go\<close>): the construction of the services and the order in
    which they start and stop.
  \<^item> \<open>Gateway_Tools\<close> (\<^verbatim>\<open>create-multi-key-account.go\<close>, \<^verbatim>\<open>kms_key_signer.go\<close>, \<^verbatim>\<open>cmd/blocks\<close>, \<^verbatim>\<open>cmd/export\<close>,
    \<^verbatim>\<open>services/evm/extract.go\<close>): the tools beside the server.
  \<^item> \<open>Gateway_Metrics\<close> (\<^verbatim>\<open>metrics\<close>): the collector; counters count their calls, and the conversion of numbers
    to floats is off by at most one part in $2^{53}$ (\<open>round53_error\<close>).
  \<^item> \<open>Gateway_Process\<close> (\<^verbatim>\<open>cmd/run\<close>, \<^verbatim>\<open>cmd/main.go\<close>, \<^verbatim>\<open>bootstrap.Run\<close>): the goroutines, channels and signals of
    the run command (\<open>run_step\<close>).  The program waits only while the gateway serves, no channel is closed
    twice, and an exit with status zero is one of four outcomes, each with what was started and stopped.
  \<^item> \<open>Pebble_Options\<close> (\<^verbatim>\<open>storage/pebble/db.go\<close>): the options of the database.
  \<^item> This theory composes ingestion, storage, bootstrap and endpoints: an ingested block is served, and a
    restart resumes after it.

  \<^bold>\<open>Loops and bounds.\<close>  Loops over data are structural recursions.  The gas estimation takes a bound on the
  iterations of its bisection: the upper limit falls to the middle or the lower one doubles until they
  are within 1.5 percent, and 40 iterations are enough for every limit the emulator executes; \<open>EstimateGas_correct\<close>
  proves it for any larger bound too.  The backfill of the verifier takes the number of heights up to the
  spork root, and \<open>backfill_returns\<close> proves that this is enough; \<open>backfill_complete\<close> proves the same of
  the backfill of the events, for every bound from the number of heights on.  Only the accumulation of
  the events of a missing EVM block has no bound in the code, which asks for further Flow blocks as long
  as the block is missing; the bound of the model is its argument and an exhausted one is the value \<open>Blocks\<close>,
  which no theorem takes for a result.  \<open>getBlock\<close> nests five calls: the repair of a parent
  hash applies to two heights only, so that a longer chain of calls is an endless one.  The retries of an exhausted
  request take the answers as a list, and \<open>retryInterceptor_ends\<close> shows that 301 attempts are enough.

  \<^bold>\<open>Where the code does not do what it says\<close>, the model keeps what it does and a theorem shows it:
  \<open>releasekeys_underflow_releases\<close>, \<open>backfill_drops_transactions\<close>, \<open>moved_start_height_rejected\<close>,
  \<open>spork_root_stalls_verifier\<close>, \<open>log_filter_with_last_block\<close>, \<open>early_poll_forgets_from_block\<close>,
  \<open>GetLogs_from_pending\<close>, \<open>huge_index_panics\<close>,
  \<open>authorization_without_recipient_panics\<close>, \<open>wallet_nonce_panics\<close>, \<open>first_start_ignores_force\<close>,
  \<open>response_written\<close> (zero as the number of written bytes), \<open>unlisted_methods\<close>, \<open>shutdown_complete\<close> (the profiler is
  never stopped), \<open>second_account_keeps_addresses\<close>, \<open>unknown_status_panics\<close>, \<open>integrity_verdict\<close>,
  \<open>exported_state_before_block\<close>, \<open>failed_gateway_exits_zero\<close> and others.

  \<^bold>\<open>Not modelled.\<close>  Log lines, the buckets of histograms, and the delays of the rate limiter of a past
  spork, which change no result; the version command, which prints a constant; interface declarations
  and structs without code (\<^verbatim>\<open>storage/index.go\<close>, \<^verbatim>\<open>services/replayer/config.go\<close>); the mocks of the tests.  In
  the process the start of the services is one step: it has no effect on the other goroutines before it
  calls \<open>ready\<close>, and a signal before that ends the process.  The data race of \<open>filterExpiryChecker\<close>, which
  iterates over the filters without their mutex, is not visible in a model whose operations are critical
  sections.
\<close>

section \<open>From the ingestion to the endpoints\<close>

lemma GetByHeight_index:
  assumes "pebble_ok P view ops" and "ixLatest (index_of c (view d)) = Some l" and "h \<le> l"
    and "ixBlock (index_of c (view d)) h = Some block" and "\<not> broken b block"
  shows "GetByHeight P c b d h = Inr block"
proof -
  have "latestEVMHeight P d = Inr l" by (rule latestEVMHeight_index [OF assms(1), of c]) (rule assms(2))
  moreover have "getBlock P c b d (uint64Bytes h) = Inr block"
    unfolding getBlock_def eval_nat_numeral by (rule getBlock_rec_plain [OF assms(1,4,5)])
  ultimately show ?thesis using assms(3) by (simp add: GetByHeight_def not_less)
qed

lemma ingested_index:
  assumes "pebble_ok (enPebble E) view ops" "codec_ok (enCodec E)" "processEvents E ev en = (None, en')" "ceBlock ev = Some block"
  obtains block' h where "evmBlock block' = evmBlock block" "TransactionHashes block' = TransactionHashes block"
    "index_of (enCodec E) (view (enDb en')) = index_store (CadenceHeight ev) (CadenceBlockID ev) block' h (index_of (enCodec E) (view (enDb en)))"
  using processEvents_block [OF assms] that by (metis Block.select_convs(3) Block.surjective Block.update_convs(4) with_access_list_def with_access_list_simps(1))

text \<open>C3: A block that was ingested, other than the two testnet blocks whose parent hash is repaired when
  they are read, is served: its height is the chain head, the latest block has its
  transactions, and a request for the state at the latest block or at its height is resolved to it.\<close>

theorem ingested_block_served:
  assumes "pebble_ok (enPebble E) view ops" and "codec_ok (enCodec E)"
    and "processEvents E ev en = (None, en')" and "ceBlock ev = Some block"
    and "\<not> broken bl block" and "baStore b = pebble_storage (enPebble E) (enCodec E) bl (enDb en')"
  shows "BlockNumber None b = Inr (Height (evmBlock block))
    \<and> GetBlockTransactionCountByNumber None b (word_of_int LatestBlockNumber) = Inr (Some (of_nat (length (TransactionHashes block))))
    \<and> resolveBlockTag (Some latestBlockNumberOrHash) (baStore b) = Inr (Height (evmBlock block))
    \<and> (\<exists>block'. st_GetByHeight (baStore b) (Height (evmBlock block)) = Inr block' \<and> evmBlock block' = evmBlock block)"
proof -
  let ?P = "enPebble E" and ?c = "enCodec E" and ?d = "enDb en'"
  obtain block' h where bl: "evmBlock block' = evmBlock block" "TransactionHashes block' = TransactionHashes block"
    and ix: "index_of ?c (view ?d) = index_store (CadenceHeight ev) (CadenceBlockID ev) block' h (index_of ?c (view (enDb en)))"
    by (rule ingested_index [OF assms(1-4)])
  have l: "LatestEVMHeight ?P ?d = Inr (Height (evmBlock block))"
    using LatestEVMHeight_index [OF assms(1), of ?d _ ?c] by (simp add: ix index_store_def bl)
  have g: "GetByHeight ?P ?c bl ?d (Height (evmBlock block)) = Inr block'"
    using assms(5) by (intro GetByHeight_index [OF assms(1), where l = "Height (evmBlock block)"])
      (simp_all add: ix index_store_def bl broken_def)
  have r: "resolveBlockNumber (word_of_int LatestBlockNumber) (baStore b) = Inr (Height (evmBlock block))"
    using l by (simp add: assms(6) pebble_storage_def resolveBlockNumber_def LatestBlockNumber_def EarliestBlockNumber_def)
  show ?thesis
    using l g r bl by (simp add: BlockNumber_def GetBlockTransactionCountByNumber_def latestBlockNumberOrHash_def resolveBlockTag_def assms(6) pebble_storage_def)
qed

text \<open>C8: A gateway that stops after ingesting the events of a Cadence height other than zero and starts again
  loses and repeats nothing: without a forced start height and without soft finality, and where the access node
  knows the header of that height, the setup leaves the database alone and the ingestion resumes at the next
  Cadence height.\<close>

theorem restart_after_ingestion:
  assumes "pebble_ok (enPebble E) view ops" and "codec_ok (enCodec E)" and "\<forall>b. batchCount b = length (ops b)"
    and "processEvents E ev en = (None, en')" and "CadenceHeight ev \<noteq> 0"
    and "ForceStartCadenceHeight cfg = 0" and "\<not> ExperimentalSoftFinalityEnabled cfg" and "header (CadenceHeight ev) = Inr i"
  shows "setupStorage (enPebble E) batchCount (enCodec E) bl r A blockID cfg (enDb en') = (None, enDb en')
    \<and> StartEventIngestion (enPebble E) (Inr n) header cfg (enDb en') = Inr (EventSubscriberFrom (CadenceHeight ev + 1))"
proof -
  have "ixLatestCadence (index_of (enCodec E) (view (enDb en'))) = Some (CadenceHeight ev)"
  proof (cases "ceBlock ev")
    case None
    with processEvents_heartbeat [OF assms(1,4)] show ?thesis by simp
  next
    case (Some block)
    from ingested_index [OF assms(1,2,4) this] obtain block' h where
      "index_of (enCodec E) (view (enDb en')) = index_store (CadenceHeight ev) (CadenceBlockID ev) block' h (index_of (enCodec E) (view (enDb en)))"
      by metis
    then show ?thesis by (simp add: index_store_def)
  qed
  then have l: "LatestCadenceHeight (enPebble E) (enDb en') = Inr (CadenceHeight ev)"
    using LatestCadenceHeight_index [OF assms(1)] by blast
  moreover have "ops (NewBatch (enPebble E) (enDb en')) = []" using assms(1) by (simp add: pebble_ok_def NewBatch_def)
  ultimately show ?thesis using assms(3,5-8)
    by (simp add: setupStorage_def setup_batch_def StartEventIngestion_def EmulatorInitCadenceHeight_def Let_def)
qed

section \<open>Witnesses\<close>

lemma first_step:
  obtains en1 where "processEvents chain_env (chain_events 1) (NewEventIngestionEngine [] NewBlocksProvider [] []) = (None, en1)"
  using chain_step [of 1 "NewEventIngestionEngine [] NewBlocksProvider [] []"]
  by (auto simp: NewEventIngestionEngine_def NewBlocksProvider_def OnBlockReceived_def)

lemma chain_ok: "pebble_ok (enPebble chain_env) map_of (\<lambda>b. b)" "codec_ok (enCodec chain_env)"
  using mem_pebble_ok ref_codec_ok by (simp_all add: chain_env_api)

lemma ingested_block_served_witness:
  "\<exists>en1. processEvents chain_env (chain_events 1) (NewEventIngestionEngine [] NewBlocksProvider [] []) = (None, en1)
     \<and> BlockNumber None (served_api (pebble_storage (enPebble chain_env) (enCodec chain_env) (demo_blocks False) (enDb en1))) = Inr 1"
proof -
  obtain en1 where en1: "processEvents chain_env (chain_events 1) (NewEventIngestionEngine [] NewBlocksProvider [] []) = (None, en1)"
    by (rule first_step)
  let ?b = "served_api (pebble_storage (enPebble chain_env) (enCodec chain_env) (demo_blocks False) (enDb en1))"
  have ev: "ceBlock (chain_events 1) = Some (chain_block 1)" by (simp add: chain_events_def)
  have br: "\<not> broken (demo_blocks False) (chain_block 1)" by (simp add: broken_def demo_blocks_def)
  have st: "baStore ?b = pebble_storage (enPebble chain_env) (enCodec chain_env) (demo_blocks False) (enDb en1)" by (simp add: served_api_def)
  from ingested_block_served [OF chain_ok en1 ev br st] en1 show ?thesis by (simp add: chain_block_def)
qed

lemma restart_after_ingestion_witness:
  "\<exists>en1. processEvents chain_env (chain_events 1) (NewEventIngestionEngine [] NewBlocksProvider [] []) = (None, en1)
     \<and> StartEventIngestion (enPebble chain_env) (Inr 200) (\<lambda>_. Inr 1) ((boot_config 0)\<lparr>ExperimentalSoftFinalityEnabled := False\<rparr>) (enDb en1) =
       Inr (EventSubscriberFrom 102)"
proof -
  obtain en1 where en1: "processEvents chain_env (chain_events 1) (NewEventIngestionEngine [] NewBlocksProvider [] []) = (None, en1)"
    by (rule first_step)
  have h: "CadenceHeight (chain_events 1) = 101" by (simp add: chain_events_def CadenceHeight_def)
  from restart_after_ingestion [OF chain_ok _ en1, where batchCount = length and cfg = "(boot_config 0)\<lparr>ExperimentalSoftFinalityEnabled := False\<rparr>"
      and header = "\<lambda>_. Inr 1" and i = 1 and n = 200] en1 show ?thesis
    by (simp add: h boot_config_def)
qed

end
